(* ===== verification/FFT_Prelude.thy ===== *)
theory FFT_Prelude
  imports Complex_Main "HOL-Library.Word" "HOL-Library.List_Lexorder" "HOL-Library.Char_ord"
    "HOL-Library.Multiset" "HOL-Library.Signed_Division"
begin

text \<open>
  The shared vocabulary of the development.

  \<^item> \<open>env\<close> is the process environment as \<open>std::getenv\<close> reads it.
  \<^item> \<open>('s, 'a) m\<close> is the state-and-exception monad of C++ member functions: a call takes the
    object state and gives the result or the exception together with the state it left behind
    (a throw does not undo the writes made before it). \<open>OutOfFuel\<close> is not a C++ exception: it
    marks a recursion of the model that was cut off, and no \<open>catch\<close> intercepts it.
  \<^item> \<open>mtriple\<close> is the Hoare triple of that monad, with one rule per combinator.
  \<^item> \<open>show_int\<close> is \<open>std::ostream << int64_t\<close>, with its injectivity and character set.
  \<^item> \<open>sort_by\<close> and \<open>min_element\<close> are the algorithms of the C++ library the planner calls.
  \<^item> \<open>field_codec\<close> is the interface of one field of a \<open>;\<close>-separated key string.
\<close>

named_theorems mrules \<open>introduction rules of the Hoare triples\<close>
named_theorems key_simps \<open>facts that decompose key strings\<close>

type_synonym env = "string \<Rightarrow> string option"

section \<open>Exceptions and state\<close>

datatype exn = StdException string | BadAlloc | OutOfFuel

type_synonym ('s, 'a) m = "'s \<Rightarrow> (exn + 'a) \<times> 's"

definition mret :: "'a \<Rightarrow> ('s, 'a) m" where
  "mret x = (\<lambda>s. (Inr x, s))"

definition mthrow :: "exn \<Rightarrow> ('s, 'a) m" where
  "mthrow e = (\<lambda>s. (Inl e, s))"

definition mbind :: "('s, 'a) m \<Rightarrow> ('a \<Rightarrow> ('s, 'b) m) \<Rightarrow> ('s, 'b) m" where
  "mbind f g = (\<lambda>s. case f s of (Inl e, s') \<Rightarrow> (Inl e, s') | (Inr x, s') \<Rightarrow> g x s')"

definition mget :: "('s, 's) m" where
  "mget = (\<lambda>s. (Inr s, s))"

definition mmodify :: "('s \<Rightarrow> 's) \<Rightarrow> ('s, unit) m" where
  "mmodify f = (\<lambda>s. (Inr (), f s))"

text \<open>\<open>catch (const std::exception &)\<close>: the handler runs in the state the throw left.\<close>

definition mcatch :: "('s, 'a) m \<Rightarrow> ('s, 'a) m \<Rightarrow> ('s, 'a) m" where
  "mcatch f h = (\<lambda>s. case f s of
     (Inl OutOfFuel, s') \<Rightarrow> (Inl OutOfFuel, s')
   | (Inl (StdException w), s') \<Rightarrow> h s'
   | (Inl BadAlloc, s') \<Rightarrow> h s'
   | (Inr x, s') \<Rightarrow> (Inr x, s'))"

text \<open>\<open>try { f } catch (...) { fin; throw; } fin\<close>: the clean-up runs on both paths.\<close>

definition mfinally :: "('s, 'a) m \<Rightarrow> ('s \<Rightarrow> 's) \<Rightarrow> ('s, 'a) m" where
  "mfinally f fin = (\<lambda>s. case f s of (r, s') \<Rightarrow> (r, fin s'))"

definition mlift :: "exn + 'a \<Rightarrow> ('s, 'a) m" where
  "mlift r = (\<lambda>s. (r, s))"

fun mfold :: "('x \<Rightarrow> 'a \<Rightarrow> ('s, 'a) m) \<Rightarrow> 'x list \<Rightarrow> 'a \<Rightarrow> ('s, 'a) m" where
  "mfold f [] a = mret a"
| "mfold f (x # xs) a = mbind (f x a) (mfold f xs)"

abbreviation runtime_error :: "string \<Rightarrow> ('s, 'a) m" where
  "runtime_error w \<equiv> mthrow (StdException w)"

lemmas m_defs = mret_def mthrow_def mbind_def mget_def mmodify_def mcatch_def mfinally_def mlift_def

subsection \<open>Hoare triples\<close>

text \<open>
  \<open>mtriple P f Q E\<close>: from every state with \<open>P\<close>, a result of \<open>f\<close> satisfies \<open>Q\<close> and an
  exception of \<open>f\<close> satisfies \<open>E\<close>, each in the state left behind.
\<close>

definition mtriple ::
  "('s \<Rightarrow> bool) \<Rightarrow> ('s, 'a) m \<Rightarrow> ('a \<Rightarrow> 's \<Rightarrow> bool) \<Rightarrow> (exn \<Rightarrow> 's \<Rightarrow> bool) \<Rightarrow> bool" where
  "mtriple P f Q E \<longleftrightarrow>
     (\<forall>s. P s \<longrightarrow> (case f s of (Inr x, s') \<Rightarrow> Q x s' | (Inl e, s') \<Rightarrow> E e s'))"

lemma mtripleI:
  "(\<And>s x s'. P s \<Longrightarrow> f s = (Inr x, s') \<Longrightarrow> Q x s') \<Longrightarrow>
   (\<And>s e s'. P s \<Longrightarrow> f s = (Inl e, s') \<Longrightarrow> E e s') \<Longrightarrow> mtriple P f Q E"
  by (auto simp: mtriple_def split: prod.splits sum.splits)

lemma mtriple_resultD: "mtriple P f Q E \<Longrightarrow> P s \<Longrightarrow> f s = (Inr x, s') \<Longrightarrow> Q x s'"
  by (fastforce simp: mtriple_def)

lemma mtriple_exnD: "mtriple P f Q E \<Longrightarrow> P s \<Longrightarrow> f s = (Inl e, s') \<Longrightarrow> E e s'"
  by (fastforce simp: mtriple_def)

lemma mtriple_weaken:
  assumes "mtriple P f Q E" and "\<And>s. P' s \<Longrightarrow> P s"
    and "\<And>x s. Q x s \<Longrightarrow> Q' x s" and "\<And>e s. E e s \<Longrightarrow> E' e s"
  shows "mtriple P' f Q' E'"
  using assms by (fastforce simp: mtriple_def split: prod.splits sum.splits)

lemma mtriple_post:
  "mtriple P f Q E \<Longrightarrow> (\<And>x s. Q x s \<Longrightarrow> Q' x s) \<Longrightarrow> mtriple P f Q' E"
  by (rule mtriple_weaken)

lemma mtriple_ret [mrules]: "(\<And>s. P s \<Longrightarrow> Q x s) \<Longrightarrow> mtriple P (mret x) Q E"
  by (auto simp: mtriple_def mret_def)

lemma mtriple_throw [mrules]: "(\<And>s. P s \<Longrightarrow> E e s) \<Longrightarrow> mtriple P (mthrow e) Q E"
  by (auto simp: mtriple_def mthrow_def)

lemma mtriple_bind:
  assumes "mtriple P f R E" and "\<And>x. mtriple (R x) (g x) Q E"
  shows "mtriple P (mbind f g) Q E"
  using assms by (fastforce simp: mtriple_def mbind_def split: prod.splits sum.splits)

lemma mtriple_get [mrules]: "(\<And>s. P s \<Longrightarrow> Q s s) \<Longrightarrow> mtriple P mget Q E"
  by (auto simp: mtriple_def mget_def)

lemma mtriple_modify [mrules]: "(\<And>s. P s \<Longrightarrow> Q () (f s)) \<Longrightarrow> mtriple P (mmodify f) Q E"
  by (auto simp: mtriple_def mmodify_def)

lemma mtriple_lift [mrules]:
  "(\<And>s. P s \<Longrightarrow> case r of Inr x \<Rightarrow> Q x s | Inl e \<Rightarrow> E e s) \<Longrightarrow> mtriple P (mlift r) Q E"
  by (auto simp: mtriple_def mlift_def split: sum.splits)

lemma mtriple_catch:
  assumes "mtriple P f Q R" and "mtriple (\<lambda>s. \<exists>e. e \<noteq> OutOfFuel \<and> R e s) h Q E"
    and "\<And>s. R OutOfFuel s \<Longrightarrow> E OutOfFuel s"
  shows "mtriple P (mcatch f h) Q E"
  unfolding mtriple_def
proof (intro allI impI)
  fix s assume "P s"
  obtain r s' where fs: "f s = (r, s')" by (cases "f s")
  show "case mcatch f h s of (Inr x, s') \<Rightarrow> Q x s' | (Inl e, s') \<Rightarrow> E e s'"
  proof (cases r)
    case (Inr x)
    with fs \<open>P s\<close> assms(1) show ?thesis by (auto simp: mcatch_def dest: mtriple_resultD)
  next
    case (Inl e)
    with fs \<open>P s\<close> assms(1) have R: "R e s'" by (auto dest: mtriple_exnD)
    show ?thesis
    proof (cases "e = OutOfFuel")
      case True
      with R fs Inl assms(3) show ?thesis by (simp add: mcatch_def)
    next
      case False
      with fs Inl have "mcatch f h s = h s'" by (cases e) (simp_all add: mcatch_def)
      moreover from R False have "\<exists>e. e \<noteq> OutOfFuel \<and> R e s'" by blast
      then have "case h s' of (Inr x, s') \<Rightarrow> Q x s' | (Inl e, s') \<Rightarrow> E e s'"
        by (rule assms(2) [unfolded mtriple_def, rule_format])
      ultimately show ?thesis by simp
    qed
  qed
qed

lemma mtriple_finally:
  assumes "mtriple P f (\<lambda>x s. Q x (fin s)) (\<lambda>e s. E e (fin s))"
  shows "mtriple P (mfinally f fin) Q E"
  using assms by (fastforce simp: mtriple_def mfinally_def split: prod.splits sum.splits)

lemma mtriple_if [mrules]:
  "(b \<Longrightarrow> mtriple P f Q E) \<Longrightarrow> (\<not> b \<Longrightarrow> mtriple P g Q E) \<Longrightarrow> mtriple P (if b then f else g) Q E"
  by simp

lemma mtriple_option [mrules]:
  "(x = None \<Longrightarrow> mtriple P f Q E) \<Longrightarrow> (\<And>y. x = Some y \<Longrightarrow> mtriple P (g y) Q E) \<Longrightarrow>
   mtriple P (case x of None \<Rightarrow> f | Some y \<Rightarrow> g y) Q E"
  by (cases x) auto

lemma mtriple_fold:
  assumes "\<And>x a. x \<in> set xs \<Longrightarrow> mtriple (I a) (f x a) I E"
  shows "mtriple (I a) (mfold f xs a) I E"
  using assms
proof (induction xs arbitrary: a)
  case Nil
  then show ?case by (simp add: mtriple_ret)
next
  case (Cons x xs)
  then show ?case
    by (auto intro!: mtriple_bind [where R = I])
qed

lemma mtriple_pre_pure: "(A \<Longrightarrow> mtriple P f Q E) \<Longrightarrow> mtriple (\<lambda>s. A \<and> P s) f Q E"
  by (auto simp: mtriple_def)

lemma mtriple_pre_split:
  "(\<And>s. P s \<Longrightarrow> mtriple (\<lambda>s'. s' = s) f Q E) \<Longrightarrow> mtriple P f Q E"
  by (auto simp: mtriple_def)

section \<open>Decimal rendering\<close>

text \<open>\<open>out << value\<close> and \<open>std::to_string\<close> of an integer, in base ten with a leading minus.\<close>

definition digit_char :: "nat \<Rightarrow> char" where
  "digit_char d = char_of (48 + d)"

fun show_nat :: "nat \<Rightarrow> string" where
  "show_nat n = (if n < 10 then [digit_char n] else show_nat (n div 10) @ [digit_char (n mod 10)])"

declare show_nat.simps [simp del]

definition show_int :: "int \<Rightarrow> string" where
  "show_int i = (if i < 0 then CHR ''-'' # show_nat (nat (- i)) else show_nat (nat i))"

definition show_bool :: "bool \<Rightarrow> string" where
  "show_bool b = (if b then ''1'' else ''0'')"

definition digit_value :: "char \<Rightarrow> nat" where
  "digit_value c = of_char c - 48"

definition digits_value :: "string \<Rightarrow> nat" where
  "digits_value cs = foldl (\<lambda>a c. 10 * a + digit_value c) 0 cs"

definition is_digit_char :: "char \<Rightarrow> bool" where
  "is_digit_char c \<longleftrightarrow> 48 \<le> (of_char c :: nat) \<and> (of_char c :: nat) \<le> 57"

lemma of_char_digit_char: "d < 10 \<Longrightarrow> (of_char (digit_char d) :: nat) = 48 + d"
  by (simp add: digit_char_def)

lemma digit_value_char [simp]: "d < 10 \<Longrightarrow> digit_value (digit_char d) = d"
  by (simp add: digit_value_def of_char_digit_char)

lemma digits_value_snoc: "digits_value (cs @ [c]) = 10 * digits_value cs + digit_value c"
  by (simp add: digits_value_def)

lemma digits_value_show_nat: "digits_value (show_nat n) = n"
proof (induction n rule: show_nat.induct)
  case (1 n)
  show ?case
  proof (cases "n < 10")
    case True
    then show ?thesis by (subst show_nat.simps) (simp add: digits_value_def)
  next
    case False
    with "1.IH" have "digits_value (show_nat (n div 10)) = n div 10" by simp
    with False show ?thesis
      by (subst show_nat.simps) (simp add: digits_value_snoc)
  qed
qed

lemma show_nat_digits: "c \<in> set (show_nat n) \<Longrightarrow> is_digit_char c"
proof (induction n rule: show_nat.induct)
  case (1 n)
  have digit: "is_digit_char (digit_char d)" if "d < 10" for d
    using that by (simp add: is_digit_char_def of_char_digit_char)
  show ?case
  proof (cases "n < 10")
    case True
    with "1.prems" digit show ?thesis by (subst (asm) show_nat.simps) simp
  next
    case False
    with "1.prems" have "c \<in> set (show_nat (n div 10)) \<or> c = digit_char (n mod 10)"
      by (subst (asm) show_nat.simps) auto
    with False "1.IH" digit show ?thesis by auto
  qed
qed

lemma show_nat_nonempty: "show_nat n \<noteq> []"
  by (subst show_nat.simps) simp

lemma show_nat_inject: "show_nat a = show_nat b \<longleftrightarrow> a = b"
  by (metis digits_value_show_nat)

lemma not_digit [simp]:
  "\<not> is_digit_char (CHR '';'')" "\<not> is_digit_char (CHR '','')" "\<not> is_digit_char (CHR '']'')"
  "\<not> is_digit_char (CHR ''-'')" "\<not> is_digit_char (CHR ''|'')" "\<not> is_digit_char (CHR ''}'')"
  by (simp_all add: is_digit_char_def)

lemma show_int_inject [simp]: "show_int a = show_int b \<longleftrightarrow> a = b"
proof
  have no_minus: "show_nat n \<noteq> CHR ''-'' # cs" for n cs
    using show_nat_digits [of "CHR ''-''" n] by auto
  assume "show_int a = show_int b"
  then show "a = b"
    by (auto simp: show_int_def show_nat_inject no_minus no_minus [symmetric] split: if_splits)
qed simp

lemma show_int_chars: "c \<in> set (show_int i) \<Longrightarrow> is_digit_char c \<or> c = CHR ''-''"
  by (auto simp: show_int_def split: if_splits dest: show_nat_digits)

lemma show_int_nonempty [simp]: "show_int i \<noteq> []"
  by (simp add: show_int_def show_nat_nonempty)

lemma show_int_separators [simp]:
  "CHR '';'' \<notin> set (show_int i)" "CHR '','' \<notin> set (show_int i)" "CHR '']'' \<notin> set (show_int i)"
  "CHR ''|'' \<notin> set (show_int i)" "CHR ''}'' \<notin> set (show_int i)"
  by (auto dest!: show_int_chars)

lemma show_bool_inject [simp]: "show_bool a = show_bool b \<longleftrightarrow> a = b"
  by (simp add: show_bool_def)

lemma show_bool_separator [simp]: "CHR '';'' \<notin> set (show_bool b)"
  by (simp add: show_bool_def)

section \<open>Separators\<close>

lemma separator_split [key_simps]:
  "d \<notin> set xs \<Longrightarrow> d \<notin> set xs' \<Longrightarrow>
   (xs @ d # ys = xs' @ d # ys') \<longleftrightarrow> xs = xs' \<and> ys = ys'"
proof (induction xs arbitrary: xs')
  case Nil
  then show ?case by (cases xs') auto
next
  case (Cons x xs)
  then show ?case by (cases xs') auto
qed

text \<open>
  One field of a \<open>;\<close>-separated key: its text determines the value and never contains the
  separator, so a key made of such fields can be read back field by field.
\<close>

locale field_codec =
  fixes enc :: "'a \<Rightarrow> string" and ok :: "'a \<Rightarrow> bool"
  assumes enc_inject: "ok x \<Longrightarrow> ok y \<Longrightarrow> enc x = enc y \<Longrightarrow> x = y"
    and enc_separator: "ok x \<Longrightarrow> CHR '';'' \<notin> set (enc x)"
begin

lemma field_split:
  assumes "ok x" and "ok y"
  shows "enc x @ CHR '';'' # r = enc y @ CHR '';'' # r' \<longleftrightarrow> x = y \<and> r = r'"
  using assms enc_inject enc_separator by (auto simp: separator_split)

lemma field_last: "ok x \<Longrightarrow> ok y \<Longrightarrow> enc x = enc y \<longleftrightarrow> x = y"
  using enc_inject by auto

end

interpretation int_field: field_codec show_int "\<lambda>_. True"
  by unfold_locales simp_all

interpretation bool_field: field_codec show_bool "\<lambda>_. True"
  by unfold_locales simp_all

interpretation text_field: field_codec "\<lambda>s. s" "\<lambda>s. CHR '';'' \<notin> set s"
  by unfold_locales simp_all

section \<open>Library algorithms\<close>

text \<open>
  \<open>std::sort\<close> with a comparator. The C++ algorithm leaves the order of equivalent elements open;
  the model keeps them in input order.
\<close>

fun insort_by :: "('a \<Rightarrow> 'a \<Rightarrow> bool) \<Rightarrow> 'a \<Rightarrow> 'a list \<Rightarrow> 'a list" where
  "insort_by lt x [] = [x]"
| "insort_by lt x (y # ys) = (if lt y x then y # insort_by lt x ys else x # y # ys)"

fun sort_by :: "('a \<Rightarrow> 'a \<Rightarrow> bool) \<Rightarrow> 'a list \<Rightarrow> 'a list" where
  "sort_by lt [] = []"
| "sort_by lt (x # xs) = insort_by lt x (sort_by lt xs)"

lemma mset_insort_by [simp]: "mset (insort_by lt x xs) = add_mset x (mset xs)"
  by (induction xs) auto

lemma mset_sort_by [simp]: "mset (sort_by lt xs) = mset xs"
  by (induction xs) auto

lemma set_sort_by [simp]: "set (sort_by lt xs) = set xs"
  by (metis mset_sort_by set_mset_mset)

lemma length_sort_by [simp]: "length (sort_by lt xs) = length xs"
  by (metis mset_sort_by size_mset)

text \<open>\<open>std::min_element\<close>: the first element no other element precedes.\<close>

fun min_element :: "('a \<Rightarrow> 'a \<Rightarrow> bool) \<Rightarrow> 'a \<Rightarrow> 'a list \<Rightarrow> 'a" where
  "min_element lt best [] = best"
| "min_element lt best (x # xs) = min_element lt (if lt x best then x else best) xs"

lemma min_element_mem: "min_element lt b xs \<in> insert b (set xs)"
  by (induction xs arbitrary: b) (auto split: if_splits)

lemma min_element_least:
  assumes "\<And>x y z. \<not> lt y x \<Longrightarrow> \<not> lt z y \<Longrightarrow> \<not> lt z x" and "\<And>x. \<not> lt x x"
    and "\<And>x y. lt x y \<Longrightarrow> \<not> lt y x"
  shows "x \<in> insert b (set xs) \<Longrightarrow> \<not> lt x (min_element lt b xs)"
proof (induction xs arbitrary: b x)
  case Nil
  with assms(2) show ?case by simp
next
  case (Cons y ys)
  let ?b = "if lt y b then y else b"
  have "\<not> lt ?b (min_element lt ?b ys)" using Cons.IH [of ?b ?b] by simp
  moreover have "\<not> lt b ?b" "\<not> lt y ?b" using assms(2,3) by auto
  ultimately have "\<not> lt b (min_element lt ?b ys)" "\<not> lt y (min_element lt ?b ys)"
    using assms(1) by blast+
  moreover have "x = b \<or> x = y \<or> x \<in> insert ?b (set ys)" using Cons.prems by auto
  ultimately show ?case using Cons.IH [of x ?b] by (auto simp del: if_split)
qed

definition unique_adjacent :: "'a list \<Rightarrow> 'a list" where
  "unique_adjacent xs = remdups_adj xs"

lemma set_unique_adjacent [simp]: "set (unique_adjacent xs) = set xs"
  by (simp add: unique_adjacent_def)

end
