(* ===== verification/FFT_Base.thy ===== *)
theory FFT_Base
  imports FFT_Prelude
begin

text \<open>
  The base layer, \<open>src/src/utils/include/flagfft/base.hpp\<close> and \<open>src/src/utils/base.cpp\<close>: the
  planner's constants, the request record, the node and kernel kinds with their names, and the
  integer and string helpers.

  \<open>int64_t\<close> is \<open>int\<close>. Lengths, batches and factors are positive throughout, where C++'s
  truncating \<open>/\<close> and \<open>%\<close> are \<open>div\<close> and \<open>mod\<close>. The one loop whose behaviour at the end of the
  64-bit range matters, \<open>ceil_power_of_two\<close>, is also given with its wrap-around
  (\<open>ceil_power_of_two64\<close>).
\<close>

unbundle bit_operations_syntax

section \<open>Constants\<close>

definition kPlanSchemaVersion :: int where "kPlanSchemaVersion = 3"
definition kDirectDftMaxN :: int where "kDirectDftMaxN = 128"
definition kLeafMaxN :: int where "kLeafMaxN = 4096"
definition kDynamicSmemFallbackBytes :: int where "kDynamicSmemFallbackBytes = 48 * 1024"
definition kMaxLanes :: int where "kMaxLanes = 128"
definition kLeafTuneTopK :: int where "kLeafTuneTopK = 8"
definition kLeafTuneLargeTopK :: int where "kLeafTuneLargeTopK = 16"
definition kLeafTuneLargeN :: int where "kLeafTuneLargeN = 1024"
definition kTuneOrdersPerFactorMultiset :: int where "kTuneOrdersPerFactorMultiset = 3"
definition kTuneFourStepPairTopK :: int where "kTuneFourStepPairTopK = 8"
definition kTuneFourStepCombosPerPair :: int where "kTuneFourStepCombosPerPair = 4"
definition kTuneFourStepTopK :: int where "kTuneFourStepTopK = 16"
definition kTuneStaticPlanTopK :: int where "kTuneStaticPlanTopK = 32"

definition kSupportedRadices :: "int list" where
  "kSupportedRadices =
     [32, 30, 28, 27, 25, 24, 20, 19, 18, 17, 16, 15, 13, 12, 11, 10, 9, 8, 7, 6, 5, 4, 3, 2]"

definition kSpecializedButterflyRadices :: "int list" where
  "kSpecializedButterflyRadices = [2, 4, 8, 16]"

definition kSpecializedDirectCodeletRadices :: "int list" where
  "kSpecializedDirectCodeletRadices =
     [3, 5, 6, 7, 9, 10, 11, 12, 13, 15, 17, 18, 19, 20, 24, 25, 27, 28, 30, 32]"

lemmas base_constants = kDirectDftMaxN_def kLeafMaxN_def kDynamicSmemFallbackBytes_def kMaxLanes_def

section \<open>Helpers\<close>

definition ceil_div :: "int \<Rightarrow> int \<Rightarrow> int" where
  "ceil_div numerator denominator = (numerator + denominator - 1) div denominator"

definition contains :: "int list \<Rightarrow> int \<Rightarrow> bool" where
  "contains values value \<longleftrightarrow> value \<in> set values"

fun product_from :: "int \<Rightarrow> int list \<Rightarrow> int" where
  "product_from result [] = result"
| "product_from result (v # vs) = product_from (result * v) vs"

definition product :: "int list \<Rightarrow> int" where
  "product values = product_from 1 values"

fun join_ints :: "int list \<Rightarrow> string" where
  "join_ints [] = ''''"
| "join_ints [x] = show_int x"
| "join_ints (x # y # xs) = show_int x @ '','' @ join_ints (y # xs)"

function pow2_loop :: "int \<Rightarrow> int \<Rightarrow> int" where
  "pow2_loop value result =
     (if 0 < result \<and> result < value then pow2_loop value (2 * result) else result)"
  by pat_completeness auto
termination
  by (relation "measure (\<lambda>(v, r). nat (v - r))") auto

declare pow2_loop.simps [simp del]

definition ceil_power_of_two :: "int \<Rightarrow> int" where
  "ceil_power_of_two value = (if value \<le> 1 then 1 else pow2_loop value 1)"

text \<open>
  The same loop on 64-bit integers: \<open>result <<= 1\<close> of C++20 is multiplication by two modulo
  \<open>2 ^ 64\<close>, read as a signed value. \<open>None\<close> is a loop that never ends.
\<close>

definition wrap64 :: "int \<Rightarrow> int" where
  "wrap64 x = (x + 2 ^ 63) mod 2 ^ 64 - 2 ^ 63"

partial_function (option) pow2_loop64 :: "int \<Rightarrow> int \<Rightarrow> int option" where
  "pow2_loop64 value result =
     (if result < value then pow2_loop64 value (wrap64 (2 * result)) else Some result)"

definition ceil_power_of_two64 :: "int \<Rightarrow> int option" where
  "ceil_power_of_two64 value = (if value \<le> 1 then Some 1 else pow2_loop64 value 1)"

definition lane_block_for :: "int \<Rightarrow> int" where
  "lane_block_for lanes = (if lanes \<le> 1 then 1 else ceil_power_of_two lanes)"

text \<open>
  \<open>shell_quote\<close>: single quotes around the text; a quote inside is written as quote, backslash,
  quote, quote.
\<close>

fun shell_quote_body :: "string \<Rightarrow> string" where
  "shell_quote_body [] = []"
| "shell_quote_body (ch # cs) =
     (if ch = CHR 0x27 then [CHR 0x27, CHR 0x5C, CHR 0x27, CHR 0x27] else [ch]) @ shell_quote_body cs"

definition shell_quote :: "string \<Rightarrow> string" where
  "shell_quote value = [CHR 0x27] @ shell_quote_body value @ [CHR 0x27]"

definition hash_combine :: "64 word \<Rightarrow> 64 word \<Rightarrow> 64 word" where
  "hash_combine seed value =
     seed XOR (value + 0x9e3779b97f4a7c15 + push_bit 6 seed + drop_bit 2 seed)"

definition complex_element_bytes :: "string \<Rightarrow> int" where
  "complex_element_bytes input_dtype =
     (if input_dtype = ''complex128'' \<or> input_dtype = ''float64'' then 16 else 8)"

definition complex_dtype_for :: "string \<Rightarrow> string" where
  "complex_dtype_for input_dtype =
     (if input_dtype = ''complex128'' \<or> input_dtype = ''float64'' then ''complex128'' else ''complex64'')"

section \<open>Requests, node kinds, kernel kinds\<close>

record fft_request =
  req_fft_length :: int
  req_input_shape :: "int list"
  req_input_strides :: "int list"
  req_n :: "int option"
  req_requested_n :: int
  req_raw_dim :: int
  req_origin_rank :: int
  req_real_transform :: bool
  req_real_transform_kind :: string
  req_origin_real_transform_kind :: string
  req_packed_real_child :: bool
  req_maca_3d_c2c32_single_cube :: bool
  req_normalized_dim :: int
  req_norm :: string
  req_input_dtype :: string
  req_output_dtype :: string
  req_device_type :: string
  req_device_index :: int
  req_device_arch :: string
  req_input_layout :: string
  req_requires_contiguous_copy :: bool
  req_direction :: string
  req_batch :: int
  req_hcu_3d_middle_batch_pack :: int

text \<open>The member initialisers of \<open>struct FFTRequest\<close>.\<close>

definition default_request :: fft_request where
  "default_request = \<lparr>req_fft_length = 0, req_input_shape = [], req_input_strides = [], req_n = None,
     req_requested_n = 0, req_raw_dim = -1, req_origin_rank = 0, req_real_transform = False,
     req_real_transform_kind = '''', req_origin_real_transform_kind = '''',
     req_packed_real_child = False, req_maca_3d_c2c32_single_cube = False, req_normalized_dim = -1,
     req_norm = ''backward'', req_input_dtype = '''', req_output_dtype = '''', req_device_type = '''',
     req_device_index = -1, req_device_arch = '''', req_input_layout = '''',
     req_requires_contiguous_copy = False, req_direction = ''forward'', req_batch = 0,
     req_hcu_3d_middle_batch_pack = 0\<rparr>"

datatype plan_node_kind =
    CtLeaf | FourStep | DirectDft | StockhamAutosort | Bluestein | Rader | TwoDim | ThreeDim

datatype (plugins only: code size) kernel_kind =
    KK_Leaf | KK_LeafStrided | KK_LeafPermutedStore | KK_LeafStridedPermutedStore |
    KK_LeafR2C | KK_LeafR2CPermutedStore | KK_LeafPackedR2C | KK_LeafC2R | KK_LeafBluestein |
    KK_LeafRaderFull | KK_LeafBluesteinPrepare | KK_LeafBluesteinFinish |
    KK_BluesteinFourStepPrepareRow | KK_BluesteinFourStepPointwiseRow |
    KK_BluesteinFourStepFinishCol | KK_DirectDft | KK_DirectDftStrided | KK_DirectDftCube |
    KK_DirectDftCubeTransposed | KK_DirectDftCubeStrided | KK_DirectDftCube2DRow |
    KK_DirectDftCube2DCol | KK_DirectDftR2C | KK_DirectDftC2R | KK_StockhamStage |
    KK_FourStepRow | KK_FourStepRowStrided | KK_FourStepRealRow | KK_FourStepHermitianRow |
    KK_FourStepCol | KK_FourStepColStrided | KK_FourStepR2CCol | KK_FourStepC2RCol |
    KK_BluesteinPrepare | KK_BluesteinPointwise | KK_BluesteinFinalize | KK_RaderPrepare |
    KK_RaderPointwise | KK_RaderFinalize | KK_ReshapePack | KK_TwiddleReshapePack |
    KK_RealToComplex | KK_R2CHalfPack | KK_R2CPackedPostprocess | KK_C2RPackedPreprocess |
    KK_CompactToHermitianFull | KK_ComplexToReal | KK_TiledTranspose | KK_Transpose3D |
    KK_Fused16Plane | KK_FusedRectPlane | KK_Fused32Plane | KK_Fused16RealPlane |
    KK_Fused32RealPlane | KK_Fused16Cube | KK_Fused16RealCube | KK_Fused32Column | KK_Fused2D |
    KK_LeafRaderPrepare | KK_LeafRaderFinish | KK_LeafPackedC2R

fun plan_node_kind_name :: "plan_node_kind \<Rightarrow> string" where
  "plan_node_kind_name CtLeaf = ''ct_leaf''"
| "plan_node_kind_name FourStep = ''four_step''"
| "plan_node_kind_name DirectDft = ''direct_dft''"
| "plan_node_kind_name StockhamAutosort = ''stockham_autosort''"
| "plan_node_kind_name Bluestein = ''bluestein''"
| "plan_node_kind_name Rader = ''rader''"
| "plan_node_kind_name TwoDim = ''two_dim''"
| "plan_node_kind_name ThreeDim = ''three_dim''"

primrec kernel_kind_name :: "kernel_kind \<Rightarrow> string" where
  "kernel_kind_name KK_Leaf = ''leaf''"
| "kernel_kind_name KK_LeafStrided = ''leaf_strided''"
| "kernel_kind_name KK_LeafPermutedStore = ''leaf_permuted_store''"
| "kernel_kind_name KK_LeafStridedPermutedStore = ''leaf_strided_permuted_store''"
| "kernel_kind_name KK_LeafR2C = ''leaf_r2c''"
| "kernel_kind_name KK_LeafR2CPermutedStore = ''leaf_r2c_permuted_store''"
| "kernel_kind_name KK_LeafPackedR2C = ''leaf_packed_r2c''"
| "kernel_kind_name KK_LeafC2R = ''leaf_c2r''"
| "kernel_kind_name KK_LeafPackedC2R = ''leaf_packed_c2r''"
| "kernel_kind_name KK_LeafBluestein = ''leaf_bluestein''"
| "kernel_kind_name KK_LeafRaderFull = ''leaf_rader_full''"
| "kernel_kind_name KK_LeafRaderPrepare = ''leaf_rader_prepare''"
| "kernel_kind_name KK_LeafRaderFinish = ''leaf_rader_finish''"
| "kernel_kind_name KK_LeafBluesteinPrepare = ''leaf_bluestein_prepare''"
| "kernel_kind_name KK_LeafBluesteinFinish = ''leaf_bluestein_finish''"
| "kernel_kind_name KK_BluesteinFourStepPrepareRow = ''bluestein_four_step_prepare_row''"
| "kernel_kind_name KK_BluesteinFourStepPointwiseRow = ''bluestein_four_step_pointwise_row''"
| "kernel_kind_name KK_BluesteinFourStepFinishCol = ''bluestein_four_step_finish_col''"
| "kernel_kind_name KK_DirectDft = ''direct_dft''"
| "kernel_kind_name KK_DirectDftStrided = ''direct_dft_strided''"
| "kernel_kind_name KK_DirectDftCube = ''direct_dft_cube''"
| "kernel_kind_name KK_DirectDftCubeTransposed = ''direct_dft_cube_transposed''"
| "kernel_kind_name KK_DirectDftCubeStrided = ''direct_dft_cube_strided''"
| "kernel_kind_name KK_DirectDftCube2DRow = ''direct_dft_cube_2d_row''"
| "kernel_kind_name KK_DirectDftCube2DCol = ''direct_dft_cube_2d_col''"
| "kernel_kind_name KK_DirectDftR2C = ''direct_dft_r2c''"
| "kernel_kind_name KK_DirectDftC2R = ''direct_dft_c2r''"
| "kernel_kind_name KK_StockhamStage = ''stockham_stage''"
| "kernel_kind_name KK_FourStepRow = ''four_step_row''"
| "kernel_kind_name KK_FourStepRowStrided = ''four_step_row_strided''"
| "kernel_kind_name KK_FourStepRealRow = ''four_step_real_row''"
| "kernel_kind_name KK_FourStepHermitianRow = ''four_step_hermitian_row''"
| "kernel_kind_name KK_FourStepCol = ''four_step_col''"
| "kernel_kind_name KK_FourStepColStrided = ''four_step_col_strided''"
| "kernel_kind_name KK_FourStepR2CCol = ''four_step_r2c_col''"
| "kernel_kind_name KK_FourStepC2RCol = ''four_step_c2r_col''"
| "kernel_kind_name KK_BluesteinPrepare = ''bluestein_prepare''"
| "kernel_kind_name KK_BluesteinPointwise = ''bluestein_pointwise''"
| "kernel_kind_name KK_BluesteinFinalize = ''bluestein_finalize''"
| "kernel_kind_name KK_RaderPrepare = ''rader_prepare''"
| "kernel_kind_name KK_RaderPointwise = ''rader_pointwise''"
| "kernel_kind_name KK_RaderFinalize = ''rader_finalize''"
| "kernel_kind_name KK_ReshapePack = ''reshape_pack''"
| "kernel_kind_name KK_TwiddleReshapePack = ''twiddle_reshape_pack''"
| "kernel_kind_name KK_RealToComplex = ''real_to_complex''"
| "kernel_kind_name KK_R2CHalfPack = ''r2c_half_pack''"
| "kernel_kind_name KK_R2CPackedPostprocess = ''r2c_packed_postprocess''"
| "kernel_kind_name KK_C2RPackedPreprocess = ''c2r_packed_preprocess''"
| "kernel_kind_name KK_CompactToHermitianFull = ''compact_to_hermitian_full''"
| "kernel_kind_name KK_ComplexToReal = ''complex_to_real''"
| "kernel_kind_name KK_TiledTranspose = ''tiled_transpose''"
| "kernel_kind_name KK_Transpose3D = ''transpose3d''"
| "kernel_kind_name KK_Fused16Plane = ''fused_16_plane''"
| "kernel_kind_name KK_FusedRectPlane = ''fused_rect_plane''"
| "kernel_kind_name KK_Fused32Plane = ''fused_32_plane''"
| "kernel_kind_name KK_Fused16RealPlane = ''fused_16_real_plane''"
| "kernel_kind_name KK_Fused32RealPlane = ''fused_32_real_plane''"
| "kernel_kind_name KK_Fused16Cube = ''fused_16_cube''"
| "kernel_kind_name KK_Fused16RealCube = ''fused_16_real_cube''"
| "kernel_kind_name KK_Fused32Column = ''fused_32_column''"
| "kernel_kind_name KK_Fused2D = ''fused_2d''"

definition all_kernel_kinds :: "kernel_kind list" where
  "all_kernel_kinds =
    [KK_Leaf, KK_LeafStrided, KK_LeafPermutedStore, KK_LeafStridedPermutedStore, KK_LeafR2C,
     KK_LeafR2CPermutedStore, KK_LeafPackedR2C, KK_LeafC2R, KK_LeafBluestein, KK_LeafRaderFull,
     KK_LeafBluesteinPrepare, KK_LeafBluesteinFinish, KK_BluesteinFourStepPrepareRow,
     KK_BluesteinFourStepPointwiseRow, KK_BluesteinFourStepFinishCol, KK_DirectDft,
     KK_DirectDftStrided, KK_DirectDftCube, KK_DirectDftCubeTransposed,
     KK_DirectDftCubeStrided, KK_DirectDftCube2DRow, KK_DirectDftCube2DCol, KK_DirectDftR2C,
     KK_DirectDftC2R, KK_StockhamStage, KK_FourStepRow, KK_FourStepRowStrided,
     KK_FourStepRealRow, KK_FourStepHermitianRow, KK_FourStepCol, KK_FourStepColStrided,
     KK_FourStepR2CCol, KK_FourStepC2RCol, KK_BluesteinPrepare, KK_BluesteinPointwise,
     KK_BluesteinFinalize, KK_RaderPrepare, KK_RaderPointwise, KK_RaderFinalize,
     KK_ReshapePack, KK_TwiddleReshapePack, KK_RealToComplex, KK_R2CHalfPack,
     KK_R2CPackedPostprocess, KK_C2RPackedPreprocess, KK_CompactToHermitianFull,
     KK_ComplexToReal, KK_TiledTranspose, KK_Transpose3D, KK_Fused16Plane, KK_FusedRectPlane,
     KK_Fused32Plane, KK_Fused16RealPlane, KK_Fused32RealPlane, KK_Fused16Cube,
     KK_Fused16RealCube, KK_Fused32Column, KK_Fused2D, KK_LeafRaderPrepare, KK_LeafRaderFinish,
     KK_LeafPackedC2R]"

section \<open>Lemmas\<close>

lemma product_from_prod_list: "product_from r vs = r * prod_list vs"
  by (induction vs arbitrary: r) (auto simp: algebra_simps)

lemma product_eq: "product vs = prod_list vs"
  by (simp add: product_def product_from_prod_list)

lemma ceil_div_bounds:
  assumes "0 < d"
  shows "n \<le> ceil_div n d * d \<and> ceil_div n d * d < n + d"
proof -
  have "(n + d - 1) div d * d = n + d - 1 - (n + d - 1) mod d"
    by (simp add: minus_mod_eq_div_mult)
  moreover have "0 \<le> (n + d - 1) mod d" "(n + d - 1) mod d < d" using assms by simp_all
  ultimately show ?thesis by (simp add: ceil_div_def)
qed

subsection \<open>Powers of two\<close>

lemma pow2_loop_pow2:
  assumes "r = 2 ^ k"
  shows "\<exists>j. k \<le> j \<and> pow2_loop v r = 2 ^ j \<and> v \<le> 2 ^ j \<and> (k < j \<longrightarrow> 2 ^ j < 2 * v)"
  using assms
proof (induction v r arbitrary: k rule: pow2_loop.induct)
  case (1 v r)
  show ?case
  proof (cases "0 < r \<and> r < v")
    case True
    have "2 * r = 2 ^ Suc k" using "1.prems" by simp
    from "1.IH" [OF True this] obtain j where j: "Suc k \<le> j" "pow2_loop v (2 * r) = 2 ^ j"
      "v \<le> 2 ^ j" "Suc k < j \<longrightarrow> 2 ^ j < 2 * v" by blast
    have "2 ^ j < 2 * v"
    proof (cases "Suc k < j")
      case True
      with j show ?thesis by simp
    next
      case False
      with j(1) have "j = Suc k" by simp
      with True "1.prems" show ?thesis by simp
    qed
    with j True show ?thesis by (intro exI [of _ j]) (simp add: pow2_loop.simps [of v r])
  next
    case False
    then have "pow2_loop v r = r" by (subst pow2_loop.simps) auto
    with False "1.prems" show ?thesis by (intro exI [of _ k]) auto
  qed
qed

lemma ceil_power_of_two_pow2:
  obtains j where "ceil_power_of_two v = 2 ^ j" "v \<le> 2 ^ j" "1 < v \<Longrightarrow> 2 ^ j < 2 * v"
proof (cases "v \<le> 1")
  case True
  then show ?thesis by (intro that [of 0]) (auto simp: ceil_power_of_two_def)
next
  case False
  obtain j where "pow2_loop v 1 = 2 ^ j" "v \<le> 2 ^ j" "0 < j \<longrightarrow> 2 ^ j < 2 * v"
    using pow2_loop_pow2 [of 1 0 v] by auto
  then show ?thesis using False that [of j] by (cases "j = 0") (auto simp: ceil_power_of_two_def)
qed

lemma ceil_power_of_two_ge: "v \<le> ceil_power_of_two v"
  by (rule ceil_power_of_two_pow2 [of v]) simp

lemma ceil_power_of_two_pos [simp]: "0 < ceil_power_of_two v"
  by (rule ceil_power_of_two_pow2 [of v]) simp

lemma ceil_power_of_two_lt: "1 < v \<Longrightarrow> ceil_power_of_two v < 2 * v"
  by (rule ceil_power_of_two_pow2 [of v]) simp

lemma lane_block_for_eq: "lane_block_for lanes = ceil_power_of_two lanes"
  by (simp add: lane_block_for_def ceil_power_of_two_def)


lemma wrap64_id: "- (2 ^ 63) \<le> x \<Longrightarrow> x < 2 ^ 63 \<Longrightarrow> wrap64 x = x"
  by (simp add: wrap64_def)

lemma pow2_loop64_eq:
  assumes "r = 2 ^ k" and "v \<le> 2 ^ 62" and "k \<le> 62"
  shows "pow2_loop64 v r = Some (pow2_loop v r)"
  using assms
proof (induction v r arbitrary: k rule: pow2_loop.induct)
  case (1 v r)
  show ?case
  proof (cases "0 < r \<and> r < v")
    case True
    have lt: "(2::int) ^ k < 2 ^ 62" using True "1.prems"(1,2) by linarith
    then have k: "Suc k \<le> 62" by (metis Suc_leI one_less_numeral_iff power_less_imp_less_exp semiring_norm(76))
    have "wrap64 (2 * r) = 2 * r" using lt True unfolding "1.prems"(1) [symmetric]
      by (intro wrap64_id) simp_all
    moreover have "pow2_loop64 v (2 * r) = Some (pow2_loop v (2 * r))"
      using "1.IH" [OF True, of "Suc k"] "1.prems" k by simp
    ultimately show ?thesis using True
      by (simp add: pow2_loop64.simps [of v r] pow2_loop.simps [of v r])
  next
    case False
    moreover have "0 < r" using "1.prems"(1) by simp
    ultimately show ?thesis
      by (simp add: pow2_loop64.simps [of v r] pow2_loop.simps [of v r])
  qed
qed

text \<open>
  Above \<open>2 ^ 62\<close> the loop runs through the powers of two, the most negative integer and zero, and
  none of them ends it.
\<close>

definition pow2_stuck :: "int \<Rightarrow> bool" where
  "pow2_stuck r \<longleftrightarrow> r = - (2 ^ 63) \<or> r = 0 \<or> (\<exists>k\<le>62. r = 2 ^ k)"

lemma pow2_stuck_le: "pow2_stuck r \<Longrightarrow> r \<le> 2 ^ 62"
  using power_increasing [of _ 62 "2::int"] by (auto simp: pow2_stuck_def simp del: power_increasing_iff)

lemma pow2_stuck_step:
  assumes "pow2_stuck r" shows "pow2_stuck (wrap64 (2 * r))"
proof -
  consider "r = - (2 ^ 63) \<or> r = 0" | k where "k \<le> 62" "r = 2 ^ k"
    using assms by (auto simp: pow2_stuck_def)
  then show ?thesis
  proof cases
    case 1
    then show ?thesis by (auto simp: pow2_stuck_def wrap64_def)
  next
    case (2 k)
    show ?thesis
    proof (cases "k = 62")
      case True
      with 2 show ?thesis by (simp add: pow2_stuck_def wrap64_def)
    next
      case False
      then have k: "Suc k \<le> 62" using 2 by simp
      define q :: int where "q = 2 ^ Suc k"
      from k have "q \<le> 2 ^ 62" unfolding q_def by (rule power_increasing) simp
      moreover have "0 \<le> q" by (simp add: q_def)
      ultimately have "wrap64 q = q" by (intro wrap64_id) simp_all
      then have "wrap64 (2 ^ Suc k) = 2 ^ Suc k" by (simp only: q_def)
      then have "wrap64 (2 * r) = 2 ^ Suc k" using 2 by simp
      with k show ?thesis unfolding pow2_stuck_def by blast
    qed
  qed
qed

lemma pow2_loop64_diverges:
  assumes "2 ^ 62 < w" and "pow2_stuck r"
  shows "pow2_loop64 w r = None"
proof (rule ccontr)
  assume "pow2_loop64 w r \<noteq> None"
  then obtain y where ret: "pow2_loop64 w r = Some y" by blast
  have "\<not> (2 ^ 62 < w \<and> pow2_stuck r)"
  proof (rule pow2_loop64.raw_induct
      [where P = "\<lambda>v r y. \<not> (2 ^ 62 < v \<and> pow2_stuck r)", OF _ ret])
    fix f v r y
    assume IH: "\<And>v r y. f v r = Some y \<Longrightarrow> \<not> (2 ^ 62 < v \<and> pow2_stuck r)"
      and eq: "(if r < v then f v (wrap64 (2 * r)) else Some r) = Some y"
    show "\<not> (2 ^ 62 < v \<and> pow2_stuck r)"
    proof
      assume a: "2 ^ 62 < v \<and> pow2_stuck r"
      then have "r < v" using pow2_stuck_le [of r] by linarith
      with eq have "f v (wrap64 (2 * r)) = Some y" by simp
      then have "\<not> (2 ^ 62 < v \<and> pow2_stuck (wrap64 (2 * r)))" by (rule IH)
      with a pow2_stuck_step show False by blast
    qed
  qed
  with assms show False by blast
qed

lemma prod_list_pos: "(\<And>x. x \<in> set xs \<Longrightarrow> (0::int) < x) \<Longrightarrow> 0 < prod_list xs"
  by (induction xs) auto

lemma member_dvd_prod_list: "(x::int) \<in> set xs \<Longrightarrow> x dvd prod_list xs"
  by (induction xs) auto

subsection \<open>Texts\<close>

lemma join_ints_chars: "c \<in> set (join_ints xs) \<Longrightarrow> is_digit_char c \<or> c = CHR ''-'' \<or> c = CHR '',''"
  by (induction xs rule: join_ints.induct) (auto dest: show_int_chars)

lemma join_ints_separators [simp]:
  "CHR '';'' \<notin> set (join_ints xs)" "CHR '']'' \<notin> set (join_ints xs)"
  by (auto dest!: join_ints_chars)

lemma join_ints_eq_Nil [simp]: "join_ints xs = [] \<longleftrightarrow> xs = []"
  by (cases xs rule: join_ints.cases) auto

lemma join_ints_inject [simp]: "join_ints xs = join_ints ys \<longleftrightarrow> xs = ys"
proof
  assume "join_ints xs = join_ints ys"
  then show "xs = ys"
  proof (induction xs arbitrary: ys rule: join_ints.induct)
    case 1
    then show ?case by (metis join_ints_eq_Nil join_ints.simps(1))
  next
    case (2 x)
    have "CHR '','' \<notin> set (join_ints ys)" using "2.prems" by (metis join_ints.simps(2) show_int_separators(2))
    with 2 show ?case by (cases ys rule: join_ints.cases) auto
  next
    case (3 x y xs)
    have "CHR '','' \<in> set (join_ints ys)" unfolding "3.prems" [symmetric] by simp
    then obtain y1 y2 yr where ys: "ys = y1 # y2 # yr" by (cases ys rule: join_ints.cases) auto
    with "3.prems" have "show_int x = show_int y1" "join_ints (y # xs) = join_ints (y2 # yr)"
      by (simp_all add: separator_split)
    with ys "3.IH" show ?case by simp
  qed
qed simp

interpretation ints_field: field_codec join_ints "\<lambda>_. True"
  by unfold_locales simp_all

lemma all_kernel_kinds_complete: "k \<in> set all_kernel_kinds"
  by (cases k) (simp_all only: all_kernel_kinds_def set_simps insert_iff simp_thms)

lemma distinct_kernel_kind_names: "distinct (map kernel_kind_name all_kernel_kinds)"
  by code_simp

lemma kernel_kind_name_inject [simp]: "kernel_kind_name a = kernel_kind_name b \<longleftrightarrow> a = b"
proof
  assume "kernel_kind_name a = kernel_kind_name b"
  moreover have "inj_on kernel_kind_name (set all_kernel_kinds)"
    using distinct_kernel_kind_names by (simp add: distinct_map)
  ultimately show "a = b" by (auto dest: inj_onD intro: all_kernel_kinds_complete)
qed simp

lemma kernel_kind_name_separator [simp]: "CHR '';'' \<notin> set (kernel_kind_name k)"
proof -
  have "list_all (\<lambda>k. CHR '';'' \<notin> set (kernel_kind_name k)) all_kernel_kinds" by code_simp
  then show ?thesis using all_kernel_kinds_complete by (auto simp: list_all_iff)
qed

lemma plan_node_kind_name_inject [simp]: "plan_node_kind_name a = plan_node_kind_name b \<longleftrightarrow> a = b"
  by (cases a; cases b) simp_all

interpretation kind_field: field_codec kernel_kind_name "\<lambda>_. True"
  by unfold_locales simp_all

text \<open>
  How a POSIX shell reads one word: outside quotes a backslash protects the next character and a
  blank ends the word; inside single quotes every character but the closing quote is itself.
\<close>

fun sh_word :: "bool \<Rightarrow> string \<Rightarrow> (string \<times> string) option" where
  "sh_word False [] = Some ([], [])"
| "sh_word True [] = None"
| "sh_word True (c # cs) =
     (if c = CHR 0x27 then sh_word False cs
      else map_option (\<lambda>(w, r). (c # w, r)) (sh_word True cs))"
| "sh_word False (c # cs) =
     (if c = CHR 0x27 then sh_word True cs
      else if c = CHR '' '' then Some ([], c # cs)
      else if c = CHR 0x5C then
        (case cs of [] \<Rightarrow> None | d # ds \<Rightarrow> map_option (\<lambda>(w, r). (d # w, r)) (sh_word False ds))
      else map_option (\<lambda>(w, r). (c # w, r)) (sh_word False cs))"

lemma sh_word_quote_body:
  "sh_word True (shell_quote_body s @ CHR 0x27 # r) =
   map_option (\<lambda>(w, q). (s @ w, q)) (sh_word False r)"
  by (induction s) (auto simp: option.map_comp o_def split_def option.map_ident)

section \<open>Properties\<close>

text \<open>
  C26. The 64-bit \<open>ceil_power_of_two\<close> returns the least power of two that is at least its argument
  for every argument up to \<open>2 ^ 62\<close>, and never returns above that.
\<close>

theorem ceil_power_of_two64_spec:
  "ceil_power_of_two64 v =
     (if v \<le> 2 ^ 62 then Some (ceil_power_of_two v) else None) \<and>
   v \<le> ceil_power_of_two v \<and> (1 < v \<longrightarrow> ceil_power_of_two v < 2 * v) \<and>
   (\<exists>k. ceil_power_of_two v = 2 ^ k)"
proof -
  have "pow2_stuck 1" unfolding pow2_stuck_def by (auto intro!: exI [of _ 0])
  then have "ceil_power_of_two64 v = (if v \<le> 2 ^ 62 then Some (ceil_power_of_two v) else None)"
    using pow2_loop64_eq [of 1 0 v] pow2_loop64_diverges [of v 1]
    by (auto simp: ceil_power_of_two64_def ceil_power_of_two_def)
  then show ?thesis
    using ceil_power_of_two_ge ceil_power_of_two_lt by (metis ceil_power_of_two_pow2)
qed

theorem ceil_power_of_two64_spec_witness:
  "ceil_power_of_two64 1000 = Some (ceil_power_of_two 1000) \<and> ceil_power_of_two64 (2 ^ 62 + 1) = None \<and>
   ceil_power_of_two 1000 < 2000"
  using ceil_power_of_two64_spec [of 1000] ceil_power_of_two64_spec [of "2 ^ 62 + 1"] by simp

text \<open>
  C25. A shell reads the output of \<open>shell_quote\<close> back as exactly one word, the original text,
  whatever characters it holds and whatever arguments follow.
\<close>

theorem shell_quote_one_word:
  "sh_word False (shell_quote s) = Some (s, []) \<and>
   sh_word False (shell_quote s @ '' '' @ r) = Some (s, '' '' @ r)"
  using sh_word_quote_body [of s "[]"] sh_word_quote_body [of s "CHR '' '' # r"]
  by (simp add: shell_quote_def)

end
