(* ===== verification/FFT_Nodes.thy ===== *)
theory FFT_Nodes
  imports FFT_Base
begin

text \<open>
  Plan trees and their keys: \<open>struct PlanNode\<close> and its eight subclasses
  (\<open>src/src/utils/include/flagfft/plan.hpp\<close>), \<open>describe\<close> and \<open>PlanKey::from_node\<close>
  (\<open>src/src/plan/nodes.cpp\<close>), \<open>PlanKey\<close> with its equality, text and hash
  (\<open>src/src/utils/plan_key.cpp\<close>).

  A subclass is a constructor of \<open>plan_node\<close> with the constructor arguments of the class as fields;
  the base class members \<open>length\<close> and \<open>kind\<close> are \<open>node_length\<close> and \<open>node_kind\<close>, computed as the
  class constructors initialise them. A \<open>PlanNodePtr\<close> that may be null is a \<open>plan_node option\<close>;
  the children of a node are never null. \<open>std::hash\<close> is a parameter.
\<close>

section \<open>Nodes\<close>

datatype two_dim_strategy = TwoDim_RTRT
datatype three_dim_strategy = ThreeDim_RTRT

datatype plan_node =
    LeafPlanNode (leaf_length: int) (leaf_factors: "int list") (leaf_remainder: int) (leaf_lanes: int)
      (leaf_num_warps: int) (leaf_generic_radices: "int list") (leaf_smem_size: int)
  | DirectDFTPlanNode int
  | StockhamPlanNode int "int list"
  | FourStepPlanNode int int int plan_node plan_node
  | BluesteinPlanNode int int plan_node
  | RaderPlanNode int int "int list" plan_node
  | TwoDimPlanNode int int two_dim_strategy plan_node plan_node
  | ThreeDimPlanNode int int int three_dim_strategy plan_node plan_node plan_node

fun node_length :: "plan_node \<Rightarrow> int" where
  "node_length (LeafPlanNode n factors rm lanes warps generic smem) = n"
| "node_length (DirectDFTPlanNode n) = n"
| "node_length (StockhamPlanNode n factors) = n"
| "node_length (FourStepPlanNode n n1 n2 row col) = n"
| "node_length (BluesteinPlanNode n conv_length fft_plan) = n"
| "node_length (RaderPlanNode prime g idx conv_plan) = prime"
| "node_length (TwoDimPlanNode n0 n1 strategy row col) = n0 * n1"
| "node_length (ThreeDimPlanNode n0 n1 n2 strategy n2_plan n1_plan n0_plan) = n0 * n1 * n2"

fun node_kind :: "plan_node \<Rightarrow> plan_node_kind" where
  "node_kind (LeafPlanNode n factors rm lanes warps generic smem) = CtLeaf"
| "node_kind (DirectDFTPlanNode n) = DirectDft"
| "node_kind (StockhamPlanNode n factors) = StockhamAutosort"
| "node_kind (FourStepPlanNode n n1 n2 row col) = FourStep"
| "node_kind (BluesteinPlanNode n conv_length fft_plan) = Bluestein"
| "node_kind (RaderPlanNode prime g idx conv_plan) = Rader"
| "node_kind (TwoDimPlanNode n0 n1 strategy row col) = TwoDim"
| "node_kind (ThreeDimPlanNode n0 n1 n2 strategy n2_plan n1_plan n0_plan) = ThreeDim"

subsection \<open>Descriptions\<close>

definition indent_str :: "nat \<Rightarrow> string" where
  "indent_str indent = replicate indent (CHR '' '')"

definition factors_str :: "int list \<Rightarrow> string" where
  "factors_str factors = ''['' @ join_ints factors @ '']''"

fun two_dim_strategy_name :: "two_dim_strategy \<Rightarrow> string" where
  "two_dim_strategy_name TwoDim_RTRT = ''RTRT''"

fun three_dim_strategy_name :: "three_dim_strategy \<Rightarrow> string" where
  "three_dim_strategy_name ThreeDim_RTRT = ''RTRT''"

definition newline :: string where
  "newline = [CHR 0x0A]"

fun describe :: "plan_node \<Rightarrow> nat \<Rightarrow> string" where
  "describe (LeafPlanNode n factors rm lanes warps generic smem) indent =
     indent_str indent @ ''LeafPlan(n='' @ show_int n @ '', factors='' @ factors_str factors @
     '', lanes='' @ show_int lanes @ '', num_warps='' @ show_int warps @
     (if generic \<noteq> [] then '', generic_radices='' @ factors_str generic else '''') @
     '', smem_size='' @ show_int smem @ '')''"
| "describe (DirectDFTPlanNode n) indent =
     indent_str indent @ ''DirectDFT(n='' @ show_int n @ '')''"
| "describe (StockhamPlanNode n factors) indent =
     indent_str indent @ ''Stockham(n='' @ show_int n @ '', factors='' @ factors_str factors @ '')''"
| "describe (FourStepPlanNode n n1 n2 row col) indent =
     indent_str indent @ ''FourStep(n='' @ show_int n @ '', n1='' @ show_int n1 @ '', n2='' @
     show_int n2 @ '')'' @ newline @
     describe row (indent + 2) @ newline @ describe col (indent + 2)"
| "describe (BluesteinPlanNode n conv_length fft_plan) indent =
     indent_str indent @ ''Bluestein(n='' @ show_int n @ '', conv_length='' @ show_int conv_length @
     '')'' @ newline @ describe fft_plan (indent + 2)"
| "describe (RaderPlanNode prime g idx conv_plan) indent =
     indent_str indent @ ''Rader(p='' @ show_int prime @ '', root='' @ show_int g @
     '', conv_length='' @ show_int (prime - 1) @ '')'' @ newline @ describe conv_plan (indent + 2)"
| "describe (TwoDimPlanNode n0 n1 strategy row col) indent =
     indent_str indent @ ''TwoDim(strategy='' @ two_dim_strategy_name strategy @ '', n0='' @
     show_int n0 @ '', n1='' @ show_int n1 @ '')'' @ newline @
     describe row (indent + 2) @ newline @ describe col (indent + 2)"
| "describe (ThreeDimPlanNode n0 n1 n2 strategy n2_plan n1_plan n0_plan) indent =
     indent_str indent @ ''ThreeDim(strategy='' @ three_dim_strategy_name strategy @ '', n0='' @
     show_int n0 @ '', n1='' @ show_int n1 @ '', n2='' @ show_int n2 @ '')'' @ newline @
     describe n2_plan (indent + 2) @ newline @ describe n1_plan (indent + 2) @ newline @
     describe n0_plan (indent + 2)"

section \<open>Plan keys\<close>

record plan_key =
  pkey_schema_version :: int
  pkey_root_kind :: plan_node_kind
  pkey_length :: int
  pkey_factors :: "int list"
  pkey_remainder :: int
  pkey_lanes :: int
  pkey_num_warps :: int
  pkey_generic_radices :: "int list"
  pkey_smem_size :: int
  pkey_n1 :: int
  pkey_n2 :: int
  pkey_conv_length :: int
  pkey_root :: int
  pkey_child_keys :: "string list"

fun children_text :: "string list \<Rightarrow> string" where
  "children_text [] = ''''"
| "children_text [k] = ''{'' @ k @ ''}''"
| "children_text (k # k' # ks) = ''{'' @ k @ ''}|'' @ children_text (k' # ks)"

definition plan_key_repr :: "plan_key \<Rightarrow> string" where
  "plan_key_repr key =
     ''schema='' @ show_int (pkey_schema_version key) @
     '';kind='' @ plan_node_kind_name (pkey_root_kind key) @
     '';length='' @ show_int (pkey_length key) @
     (if pkey_factors key \<noteq> [] then '';factors=['' @ join_ints (pkey_factors key) @ '']'' else '''') @
     (if pkey_root_kind key = CtLeaf then
        '';remainder='' @ show_int (pkey_remainder key) @ '';lanes='' @ show_int (pkey_lanes key) @
        '';num_warps='' @ show_int (pkey_num_warps key) @ '';generic_radices=['' @
        join_ints (pkey_generic_radices key) @ ''];smem_size='' @ show_int (pkey_smem_size key)
      else '''') @
     (if pkey_root_kind key = FourStep then
        '';n1='' @ show_int (pkey_n1 key) @ '';n2='' @ show_int (pkey_n2 key) else '''') @
     (if pkey_root_kind key = TwoDim then
        '';n0='' @ show_int (pkey_n1 key) @ '';n1='' @ show_int (pkey_n2 key) else '''') @
     (if pkey_root_kind key = ThreeDim then
        '';n0='' @ show_int (pkey_n1 key) @ '';n1='' @ show_int (pkey_n2 key) @ '';n2='' @
        show_int (if 0 < pkey_n2 key then pkey_length key div (pkey_n1 key * pkey_n2 key) else 0)
      else '''') @
     (if pkey_root_kind key = Bluestein then
        '';conv_length='' @ show_int (pkey_conv_length key) else '''') @
     (if pkey_root_kind key = Rader then
        '';conv_length='' @ show_int (pkey_conv_length key) @ '';root='' @ show_int (pkey_root key) @
        '';idx=['' @ join_ints (pkey_factors key) @ '']'' else '''') @
     (if pkey_child_keys key \<noteq> [] then '';children=['' @ children_text (pkey_child_keys key) @ '']''
      else '''')"

text \<open>The member initialisers of \<open>struct PlanKey\<close>, with the fields \<open>from_node\<close> sets first.\<close>

definition plan_key_start :: "plan_node_kind \<Rightarrow> int \<Rightarrow> plan_key" where
  "plan_key_start kind n =
     \<lparr>pkey_schema_version = kPlanSchemaVersion, pkey_root_kind = kind, pkey_length = n,
      pkey_factors = [], pkey_remainder = 1, pkey_lanes = 0, pkey_num_warps = 0,
      pkey_generic_radices = [], pkey_smem_size = 0, pkey_n1 = 0, pkey_n2 = 0,
      pkey_conv_length = 0, pkey_root = 0, pkey_child_keys = []\<rparr>"

fun key_of_node :: "plan_node \<Rightarrow> plan_key" where
  "key_of_node (LeafPlanNode n factors rm lanes warps generic smem) =
     (plan_key_start CtLeaf n)\<lparr>pkey_factors := factors, pkey_remainder := rm, pkey_lanes := lanes,
        pkey_num_warps := warps, pkey_generic_radices := generic, pkey_smem_size := smem\<rparr>"
| "key_of_node (DirectDFTPlanNode n) = plan_key_start DirectDft n"
| "key_of_node (StockhamPlanNode n factors) =
     (plan_key_start StockhamAutosort n)\<lparr>pkey_factors := factors\<rparr>"
| "key_of_node (FourStepPlanNode n n1 n2 row col) =
     (plan_key_start FourStep n)\<lparr>pkey_n1 := n1, pkey_n2 := n2,
        pkey_child_keys := [plan_key_repr (key_of_node row), plan_key_repr (key_of_node col)]\<rparr>"
| "key_of_node (BluesteinPlanNode n conv_length fft_plan) =
     (plan_key_start Bluestein n)\<lparr>pkey_conv_length := conv_length,
        pkey_child_keys := [plan_key_repr (key_of_node fft_plan)]\<rparr>"
| "key_of_node (RaderPlanNode prime g idx conv_plan) =
     (plan_key_start Rader prime)\<lparr>pkey_conv_length := prime - 1, pkey_root := g, pkey_factors := idx,
        pkey_child_keys := [plan_key_repr (key_of_node conv_plan)]\<rparr>"
| "key_of_node (TwoDimPlanNode n0 n1 strategy row col) =
     (plan_key_start TwoDim (n0 * n1))\<lparr>pkey_n1 := n0, pkey_n2 := n1,
        pkey_child_keys := [plan_key_repr (key_of_node row), plan_key_repr (key_of_node col)]\<rparr>"
| "key_of_node (ThreeDimPlanNode n0 n1 n2 strategy n2_plan n1_plan n0_plan) =
     (plan_key_start ThreeDim (n0 * n1 * n2))\<lparr>pkey_n1 := n0, pkey_n2 := n1,
        pkey_child_keys := [plan_key_repr (key_of_node n2_plan), plan_key_repr (key_of_node n1_plan),
                            plan_key_repr (key_of_node n0_plan)]\<rparr>"

definition plan_key_from_node :: "plan_node option \<Rightarrow> exn + plan_key" where
  "plan_key_from_node node =
     (case node of
        None \<Rightarrow> Inl (StdException ''cannot build a plan key from a null plan node'')
      | Some nd \<Rightarrow> Inr (key_of_node nd))"

definition plan_key_eq :: "plan_key \<Rightarrow> plan_key \<Rightarrow> bool" where
  "plan_key_eq a b \<longleftrightarrow>
     pkey_schema_version a = pkey_schema_version b \<and> pkey_root_kind a = pkey_root_kind b \<and>
     pkey_length a = pkey_length b \<and> pkey_factors a = pkey_factors b \<and>
     pkey_remainder a = pkey_remainder b \<and> pkey_lanes a = pkey_lanes b \<and>
     pkey_num_warps a = pkey_num_warps b \<and> pkey_generic_radices a = pkey_generic_radices b \<and>
     pkey_smem_size a = pkey_smem_size b \<and> pkey_n1 a = pkey_n1 b \<and> pkey_n2 a = pkey_n2 b \<and>
     pkey_conv_length a = pkey_conv_length b \<and> pkey_root a = pkey_root b \<and>
     pkey_child_keys a = pkey_child_keys b"

subsection \<open>Hashing\<close>

text \<open>
  \<open>hash_value\<close> and \<open>hash_vector\<close> of \<open>base.hpp\<close>: each element is folded into the seed, a vector
  after its size. \<open>std::hash\<close> of integers, strings, booleans and sizes are the parameters.
\<close>

record std_hashes =
  hash_int :: "int \<Rightarrow> 64 word"
  hash_string :: "string \<Rightarrow> 64 word"
  hash_bool :: "bool \<Rightarrow> 64 word"
  hash_size :: "int \<Rightarrow> 64 word"

definition hash_value :: "('a \<Rightarrow> 64 word) \<Rightarrow> 64 word \<Rightarrow> 'a \<Rightarrow> 64 word" where
  "hash_value h seed x = hash_combine seed (h x)"

definition hash_vector :: "(int \<Rightarrow> 64 word) \<Rightarrow> ('a \<Rightarrow> 64 word) \<Rightarrow> 64 word \<Rightarrow> 'a list \<Rightarrow> 64 word" where
  "hash_vector hsize h seed xs = foldl (hash_value h) (hash_value hsize seed (int (length xs))) xs"

fun kind_index :: "plan_node_kind \<Rightarrow> int" where
  "kind_index CtLeaf = 0" | "kind_index FourStep = 1" | "kind_index DirectDft = 2"
| "kind_index StockhamAutosort = 3" | "kind_index Bluestein = 4" | "kind_index Rader = 5"
| "kind_index TwoDim = 6" | "kind_index ThreeDim = 7"

definition plan_key_hash :: "std_hashes \<Rightarrow> plan_key \<Rightarrow> 64 word" where
  "plan_key_hash h key =
     (let seed = hash_value (hash_int h) 0 (pkey_schema_version key);
          seed = hash_value (hash_int h) seed (kind_index (pkey_root_kind key));
          seed = hash_value (hash_int h) seed (pkey_length key);
          seed = hash_vector (hash_size h) (hash_int h) seed (pkey_factors key);
          seed = hash_value (hash_int h) seed (pkey_remainder key);
          seed = hash_value (hash_int h) seed (pkey_lanes key);
          seed = hash_value (hash_int h) seed (pkey_num_warps key);
          seed = hash_vector (hash_size h) (hash_int h) seed (pkey_generic_radices key);
          seed = hash_value (hash_int h) seed (pkey_smem_size key);
          seed = hash_value (hash_int h) seed (pkey_n1 key);
          seed = hash_value (hash_int h) seed (pkey_n2 key);
          seed = hash_value (hash_int h) seed (pkey_conv_length key);
          seed = hash_value (hash_int h) seed (pkey_root key)
      in hash_vector (hash_size h) (hash_string h) seed (pkey_child_keys key))"

section \<open>Reading keys back\<close>

text \<open>The text up to the brace that closes the current group, and what follows it.\<close>

fun brace_match :: "nat \<Rightarrow> string \<Rightarrow> (string \<times> string) option" where
  "brace_match d [] = None"
| "brace_match d (c # cs) =
     (if c = CHR ''}'' \<and> d = 0 then Some ([], cs)
      else map_option (\<lambda>(w, r). (c # w, r))
        (brace_match (if c = CHR ''{'' then Suc d else if c = CHR ''}'' then d - 1 else d) cs))"

definition balanced :: "string \<Rightarrow> bool" where
  "balanced s \<longleftrightarrow> (\<forall>d r. brace_match d (s @ r) = map_option (\<lambda>(w, q). (s @ w, q)) (brace_match d r))"

lemma balanced_append: "balanced s \<Longrightarrow> balanced t \<Longrightarrow> balanced (s @ t)"
  by (auto simp: balanced_def option.map_comp o_def split_def)

lemma balanced_plain: "CHR ''{'' \<notin> set s \<Longrightarrow> CHR ''}'' \<notin> set s \<Longrightarrow> balanced s"
proof (induction s)
  case Nil
  then show ?case by (simp add: balanced_def option.map_id)
next
  case (Cons c s)
  then show ?case by (auto simp: balanced_def option.map_comp o_def split_def)
qed

lemma balanced_group: "balanced s \<Longrightarrow> balanced (''{'' @ s @ ''}'')"
  by (auto simp: balanced_def option.map_comp o_def split_def)

lemma balanced_split:
  assumes "balanced s" and "balanced t"
  shows "s @ CHR ''}'' # r = t @ CHR ''}'' # q \<longleftrightarrow> s = t \<and> r = q"
proof
  assume "s @ CHR ''}'' # r = t @ CHR ''}'' # q"
  then have "brace_match 0 (s @ CHR ''}'' # r) = brace_match 0 (t @ CHR ''}'' # q)" by simp
  with assms show "s = t \<and> r = q" by (simp add: balanced_def)
qed simp

lemma balanced_show_int [simp]: "balanced (show_int i)"
  by (rule balanced_plain) (auto dest!: show_int_chars simp: is_digit_char_def)

lemma balanced_join_ints [simp]: "balanced (join_ints xs)"
  by (rule balanced_plain) (auto dest!: join_ints_chars simp: is_digit_char_def)

lemma balanced_kind [simp]: "balanced (plan_node_kind_name k)"
  by (rule balanced_plain) (cases k; simp)+

lemma balanced_if: "balanced s \<Longrightarrow> balanced t \<Longrightarrow> balanced (if b then s else t)"
  by simp

lemma balanced_children: "(\<And>k. k \<in> set ks \<Longrightarrow> balanced k) \<Longrightarrow> balanced (children_text ks)"
proof (induction ks rule: children_text.induct)
  case 1
  then show ?case by (simp add: balanced_plain)
next
  case (2 k)
  then show ?case using balanced_group by simp
next
  case (3 k k' ks)
  have "balanced ((''{'' @ k @ ''}'') @ ''|'' @ children_text (k' # ks))"
    using "3.IH" "3.prems" by (intro balanced_append balanced_group) (simp_all add: balanced_plain)
  then show ?case by simp
qed

lemma balanced_repr:
  assumes "\<And>k. k \<in> set (pkey_child_keys key) \<Longrightarrow> balanced k"
  shows "balanced (plan_key_repr key)"
  unfolding plan_key_repr_def
  by (intro balanced_append balanced_if balanced_show_int balanced_join_ints balanced_kind
      balanced_children [OF assms] TrueI) (simp_all add: balanced_plain)

lemma balanced_node_repr [simp]: "balanced (plan_key_repr (key_of_node nd))"
  by (induction nd) (rule balanced_repr; auto simp: plan_key_start_def)+

subsection \<open>One kind per key text\<close>

lemma repr_kind:
  assumes "plan_key_repr a = plan_key_repr b"
    and "pkey_schema_version a = pkey_schema_version b"
  shows "pkey_root_kind a = pkey_root_kind b"
proof -
  have sep: "CHR '';'' \<notin> set (plan_node_kind_name k)" for k by (cases k) simp_all
  have head: "\<exists>x. plan_key_repr k = ''schema='' @ show_int (pkey_schema_version k) @ '';kind='' @
      plan_node_kind_name (pkey_root_kind k) @ '';length='' @ x" for k
    unfolding plan_key_repr_def by (rule exI, rule refl)
  obtain x y where "plan_key_repr a = ''schema='' @ show_int (pkey_schema_version a) @ '';kind='' @
      plan_node_kind_name (pkey_root_kind a) @ '';length='' @ x"
    "plan_key_repr b = ''schema='' @ show_int (pkey_schema_version b) @ '';kind='' @
      plan_node_kind_name (pkey_root_kind b) @ '';length='' @ y" using head by blast
  with assms show ?thesis by (simp add: separator_split sep)
qed

lemma pkey_root_kind_node [simp]: "pkey_root_kind (key_of_node nd) = node_kind nd"
  by (cases nd) (simp_all add: plan_key_start_def)

lemma pkey_schema_version_node [simp]: "pkey_schema_version (key_of_node nd) = kPlanSchemaVersion"
  by (cases nd) (simp_all add: plan_key_start_def)

lemma node_repr_kind: "plan_key_repr (key_of_node a) = plan_key_repr (key_of_node b) \<Longrightarrow> node_kind b = node_kind a"
  using repr_kind [of "key_of_node a" "key_of_node b"] by simp

lemma int_then_factors:
  "show_int n @ (if f \<noteq> [] then '';factors=['' @ join_ints f @ '']'' else '''') =
   show_int n' @ (if f' \<noteq> [] then '';factors=['' @ join_ints f' @ '']'' else '''') \<longleftrightarrow> n = n' \<and> f = f'"
proof
  assume eq: "show_int n @ (if f \<noteq> [] then '';factors=['' @ join_ints f @ '']'' else '''') =
    show_int n' @ (if f' \<noteq> [] then '';factors=['' @ join_ints f' @ '']'' else '''')"
  then have "CHR '';'' \<in> set (show_int n @ (if f \<noteq> [] then '';factors=['' @ join_ints f @ '']'' else '''')) \<longleftrightarrow>
    CHR '';'' \<in> set (show_int n' @ (if f' \<noteq> [] then '';factors=['' @ join_ints f' @ '']'' else ''''))"
    by (simp only: eq)
  then have "f = [] \<longleftrightarrow> f' = []" by (simp split: if_splits)
  with eq show "n = n' \<and> f = f'" by (auto simp: separator_split split: if_splits)
qed simp

text \<open>The three-dimensional key recovers its last dimension by division.\<close>

fun node_dims_pos :: "plan_node \<Rightarrow> bool" where
  "node_dims_pos (FourStepPlanNode n n1 n2 row col) \<longleftrightarrow> node_dims_pos row \<and> node_dims_pos col"
| "node_dims_pos (BluesteinPlanNode n conv_length fft_plan) \<longleftrightarrow> node_dims_pos fft_plan"
| "node_dims_pos (RaderPlanNode prime g idx conv_plan) \<longleftrightarrow> node_dims_pos conv_plan"
| "node_dims_pos (TwoDimPlanNode n0 n1 strategy row col) \<longleftrightarrow> node_dims_pos row \<and> node_dims_pos col"
| "node_dims_pos (ThreeDimPlanNode n0 n1 n2 strategy a b c) \<longleftrightarrow>
     0 < n0 \<and> 0 < n1 \<and> 0 < n2 \<and> node_dims_pos a \<and> node_dims_pos b \<and> node_dims_pos c"
| "node_dims_pos _ \<longleftrightarrow> True"

lemmas repr_leaf_simps = plan_key_repr_def plan_key_start_def separator_split

text \<open>The texts of the inner nodes, with the children's texts folded.\<close>

lemma repr_FourStep:
  "plan_key_repr (key_of_node (FourStepPlanNode n n1 n2 row col)) =
   ''schema='' @ show_int kPlanSchemaVersion @ '';kind=four_step;length='' @ show_int n @ '';n1='' @
   show_int n1 @ '';n2='' @ show_int n2 @ '';children=[{'' @ plan_key_repr (key_of_node row) @ ''}|{'' @
   plan_key_repr (key_of_node col) @ ''}]''"
  by (subst plan_key_repr_def) (simp add: plan_key_start_def)

lemma repr_Bluestein:
  "plan_key_repr (key_of_node (BluesteinPlanNode n m fft)) =
   ''schema='' @ show_int kPlanSchemaVersion @ '';kind=bluestein;length='' @ show_int n @
   '';conv_length='' @ show_int m @ '';children=[{'' @ plan_key_repr (key_of_node fft) @ ''}]''"
  by (subst plan_key_repr_def) (simp add: plan_key_start_def)

lemma repr_Rader:
  "plan_key_repr (key_of_node (RaderPlanNode p g idx cv)) =
   ''schema='' @ show_int kPlanSchemaVersion @ '';kind=rader;length='' @ show_int p @
   (if idx \<noteq> [] then '';factors=['' @ join_ints idx @ '']'' else '''') @
   '';conv_length='' @ show_int (p - 1) @ '';root='' @ show_int g @ '';idx=['' @ join_ints idx @
   ''];children=[{'' @ plan_key_repr (key_of_node cv) @ ''}]''"
  by (subst plan_key_repr_def) (simp add: plan_key_start_def)

lemma repr_TwoDim:
  "plan_key_repr (key_of_node (TwoDimPlanNode n0 n1 st row col)) =
   ''schema='' @ show_int kPlanSchemaVersion @ '';kind=two_dim;length='' @ show_int (n0 * n1) @ '';n0='' @
   show_int n0 @ '';n1='' @ show_int n1 @ '';children=[{'' @ plan_key_repr (key_of_node row) @ ''}|{'' @
   plan_key_repr (key_of_node col) @ ''}]''"
  by (subst plan_key_repr_def) (simp add: plan_key_start_def)

lemma repr_ThreeDim:
  "0 < n0 \<Longrightarrow> 0 < n1 \<Longrightarrow> plan_key_repr (key_of_node (ThreeDimPlanNode n0 n1 n2 st x y z)) =
   ''schema='' @ show_int kPlanSchemaVersion @ '';kind=three_dim;length='' @ show_int (n0 * n1 * n2) @
   '';n0='' @ show_int n0 @ '';n1='' @ show_int n1 @ '';n2='' @ show_int n2 @ '';children=[{'' @
   plan_key_repr (key_of_node x) @ ''}|{'' @ plan_key_repr (key_of_node y) @ ''}|{'' @
   plan_key_repr (key_of_node z) @ ''}]''"
  by (subst plan_key_repr_def) (simp add: plan_key_start_def)

lemmas repr_inner_simps = repr_FourStep repr_Bluestein repr_Rader repr_TwoDim repr_ThreeDim
  separator_split balanced_split

lemma strategy_unique: "(s :: two_dim_strategy) = t" "(u :: three_dim_strategy) = v"
  by (cases s; cases t; simp) (cases u; cases v; simp)

lemma node_repr_inject:
  "node_dims_pos a \<Longrightarrow> node_dims_pos b \<Longrightarrow>
   plan_key_repr (key_of_node a) = plan_key_repr (key_of_node b) \<Longrightarrow> a = b"
proof (induction a arbitrary: b)
  case (LeafPlanNode n f r l w g sm)
  have "node_kind b = CtLeaf" using node_repr_kind [OF LeafPlanNode.prems(3)] by simp
  then obtain n' f' r' l' w' g' sm' where b: "b = LeafPlanNode n' f' r' l' w' g' sm'" by (cases b) auto
  show ?case using LeafPlanNode.prems(3) unfolding b
    by (auto simp: repr_leaf_simps split: if_splits)
next
  case (DirectDFTPlanNode n)
  have "node_kind b = DirectDft" using node_repr_kind [OF DirectDFTPlanNode.prems(3)] by simp
  then obtain n' where b: "b = DirectDFTPlanNode n'" by (cases b) auto
  show ?case using DirectDFTPlanNode.prems(3) unfolding b by (simp add: repr_leaf_simps)
next
  case (StockhamPlanNode n f)
  have "node_kind b = StockhamAutosort" using node_repr_kind [OF StockhamPlanNode.prems(3)] by simp
  then obtain n' f' where b: "b = StockhamPlanNode n' f'" by (cases b) auto
  show ?case using StockhamPlanNode.prems(3) int_then_factors [of n f n' f'] unfolding b
    by (simp add: repr_leaf_simps cong: if_cong)
next
  case (FourStepPlanNode n n1 n2 row col)
  have "node_kind b = FourStep" using node_repr_kind [OF FourStepPlanNode.prems(3)] by simp
  then obtain n' n1' n2' row' col' where b: "b = FourStepPlanNode n' n1' n2' row' col'" by (cases b) auto
  have "n = n' \<and> n1 = n1' \<and> n2 = n2' \<and> plan_key_repr (key_of_node row) = plan_key_repr (key_of_node row') \<and>
      plan_key_repr (key_of_node col) = plan_key_repr (key_of_node col')"
    using FourStepPlanNode.prems(3) unfolding b by (simp add: repr_inner_simps del: key_of_node.simps)
  with FourStepPlanNode b show ?case by (auto simp del: key_of_node.simps)
next
  case (BluesteinPlanNode n m fft)
  have "node_kind b = Bluestein" using node_repr_kind [OF BluesteinPlanNode.prems(3)] by simp
  then obtain n' m' fft' where b: "b = BluesteinPlanNode n' m' fft'" by (cases b) auto
  have "n = n' \<and> m = m' \<and> plan_key_repr (key_of_node fft) = plan_key_repr (key_of_node fft')"
    using BluesteinPlanNode.prems(3) unfolding b by (simp add: repr_inner_simps del: key_of_node.simps)
  with BluesteinPlanNode b show ?case by (auto simp del: key_of_node.simps)
next
  case (RaderPlanNode p g idx cv)
  have "node_kind b = Rader" using node_repr_kind [OF RaderPlanNode.prems(3)] by simp
  then obtain p' g' idx' cv' where b: "b = RaderPlanNode p' g' idx' cv'" by (cases b) auto
  have "p = p' \<and> g = g' \<and> idx = idx' \<and> plan_key_repr (key_of_node cv) = plan_key_repr (key_of_node cv')"
    using RaderPlanNode.prems(3) unfolding b by (auto simp: repr_inner_simps simp del: key_of_node.simps split: if_splits)
  with RaderPlanNode b show ?case by (auto simp del: key_of_node.simps)
next
  case (TwoDimPlanNode n0 n1 st row col)
  have "node_kind b = TwoDim" using node_repr_kind [OF TwoDimPlanNode.prems(3)] by simp
  then obtain n0' n1' st' row' col' where b: "b = TwoDimPlanNode n0' n1' st' row' col'" by (cases b) auto
  have "n0 = n0' \<and> n1 = n1' \<and> plan_key_repr (key_of_node row) = plan_key_repr (key_of_node row') \<and>
      plan_key_repr (key_of_node col) = plan_key_repr (key_of_node col')"
    using TwoDimPlanNode.prems(3) unfolding b by (simp add: repr_inner_simps del: key_of_node.simps)
  with TwoDimPlanNode b show ?case by (auto simp del: key_of_node.simps intro: strategy_unique)
next
  case (ThreeDimPlanNode n0 n1 n2 st x y z)
  have "node_kind b = ThreeDim" using node_repr_kind [OF ThreeDimPlanNode.prems(3)] by simp
  then obtain n0' n1' n2' st' x' y' z' where b: "b = ThreeDimPlanNode n0' n1' n2' st' x' y' z'"
    by (cases b) auto
  have "n0 = n0' \<and> n1 = n1' \<and> n2 = n2' \<and> plan_key_repr (key_of_node x) = plan_key_repr (key_of_node x') \<and>
      plan_key_repr (key_of_node y) = plan_key_repr (key_of_node y') \<and>
      plan_key_repr (key_of_node z) = plan_key_repr (key_of_node z')"
    using ThreeDimPlanNode.prems unfolding b by (auto simp: repr_inner_simps simp del: key_of_node.simps)
  with ThreeDimPlanNode b show ?case by (auto simp del: key_of_node.simps intro: strategy_unique)
qed

lemma plan_key_eq_iff [simp]: "plan_key_eq a b \<longleftrightarrow> a = b"
  by (cases a; cases b) (auto simp: plan_key_eq_def)

section \<open>Properties\<close>

text \<open>
  C22. The text of a plan key identifies the plan: two trees with positive three-dimensional sizes
  whose key texts are equal are the same tree, children included. The kernel and plan caches may
  use the text as their key.
\<close>

theorem plan_repr_identifies_plan:
  assumes "node_dims_pos a" and "node_dims_pos b"
    and "plan_key_from_node (Some a) = Inr ka" and "plan_key_from_node (Some b) = Inr kb"
    and "plan_key_repr ka = plan_key_repr kb"
  shows "a = b \<and> plan_key_eq ka kb \<and> plan_key_hash h ka = plan_key_hash h kb"
  using assms node_repr_inject [of a b] by (auto simp: plan_key_from_node_def)

theorem plan_repr_identifies_plan_witness:
  "let t = ThreeDimPlanNode 2 3 4 ThreeDim_RTRT (DirectDFTPlanNode 4) (DirectDFTPlanNode 3)
             (FourStepPlanNode 2 1 2 (DirectDFTPlanNode 1) (DirectDFTPlanNode 2));
       k = key_of_node t
   in \<forall>h. t = t \<and> plan_key_eq k k \<and> plan_key_hash h k = plan_key_hash h k"
  unfolding Let_def
  by (intro allI, rule plan_repr_identifies_plan) (simp_all add: plan_key_from_node_def)

end
