(* ===== verification/FFT_Keys.thy ===== *)
theory FFT_Keys
  imports FFT_Nodes
begin

text \<open>
  Problem keys and kernel keys: \<open>src/src/utils/problem_key.cpp\<close>, \<open>src/src/utils/kernel_key.cpp\<close>
  and their declarations in \<open>keys.hpp\<close>. Every named constructor of \<open>KernelKey\<close> is a definition
  \<open>key_\<dots>\<close>; the members are the fields \<open>kk_\<dots>\<close> and \<open>prob_\<dots>\<close>.

  The text of a kernel key is the key of the compiled-kernel cache, so it must tell any two
  different keys apart: \<open>kernel_repr_identifies_kernel\<close>.
\<close>

section \<open>Problem keys\<close>

record problem_key =
  prob_fft_length :: int
  prob_input_shape :: "int list"
  prob_n :: "int option"
  prob_requested_n :: int
  prob_normalized_dim :: int
  prob_norm :: string
  prob_input_dtype :: string
  prob_output_dtype :: string
  prob_device_type :: string
  prob_device_index :: int
  prob_device_arch :: string
  prob_input_strides :: "int list"
  prob_input_layout :: string
  prob_requires_contiguous_copy :: bool
  prob_maca_3d_c2c32_single_cube :: bool
  prob_direction :: string

definition problem_key_from_request :: "fft_request \<Rightarrow> problem_key" where
  "problem_key_from_request r =
     \<lparr>prob_fft_length = req_fft_length r, prob_input_shape = req_input_shape r, prob_n = req_n r,
      prob_requested_n = req_requested_n r, prob_normalized_dim = req_normalized_dim r,
      prob_norm = req_norm r, prob_input_dtype = req_input_dtype r,
      prob_output_dtype = req_output_dtype r, prob_device_type = req_device_type r,
      prob_device_index = req_device_index r, prob_device_arch = req_device_arch r,
      prob_input_strides = req_input_strides r, prob_input_layout = req_input_layout r,
      prob_requires_contiguous_copy = req_requires_contiguous_copy r,
      prob_maca_3d_c2c32_single_cube = req_maca_3d_c2c32_single_cube r,
      prob_direction = req_direction r\<rparr>"

definition problem_key_eq :: "problem_key \<Rightarrow> problem_key \<Rightarrow> bool" where
  "problem_key_eq a b \<longleftrightarrow>
     prob_fft_length a = prob_fft_length b \<and> prob_input_shape a = prob_input_shape b \<and>
     prob_n a = prob_n b \<and> prob_requested_n a = prob_requested_n b \<and>
     prob_normalized_dim a = prob_normalized_dim b \<and> prob_norm a = prob_norm b \<and>
     prob_input_dtype a = prob_input_dtype b \<and> prob_output_dtype a = prob_output_dtype b \<and>
     prob_device_type a = prob_device_type b \<and> prob_device_index a = prob_device_index b \<and>
     prob_device_arch a = prob_device_arch b \<and> prob_input_strides a = prob_input_strides b \<and>
     prob_input_layout a = prob_input_layout b \<and>
     prob_requires_contiguous_copy a = prob_requires_contiguous_copy b \<and>
     prob_maca_3d_c2c32_single_cube a = prob_maca_3d_c2c32_single_cube b \<and>
     prob_direction a = prob_direction b"

definition truth_text :: "bool \<Rightarrow> string" where
  "truth_text b = (if b then ''true'' else ''false'')"

definition n_text :: "int option \<Rightarrow> string" where
  "n_text n = (case n of Some v \<Rightarrow> show_int v | None \<Rightarrow> ''None'')"

definition problem_key_repr :: "problem_key \<Rightarrow> string" where
  "problem_key_repr k =
     ''fft_length='' @ show_int (prob_fft_length k) @ '';n='' @ n_text (prob_n k) @
     '';requested_n='' @ show_int (prob_requested_n k) @ '';dim='' @ show_int (prob_normalized_dim k) @
     '';norm='' @ prob_norm k @ '';input_dtype='' @ prob_input_dtype k @
     '';output_dtype='' @ prob_output_dtype k @ '';device='' @ prob_device_type k @ '':'' @
     show_int (prob_device_index k) @ '';arch='' @ prob_device_arch k @ '';layout='' @
     prob_input_layout k @ '';requires_contiguous_copy='' @
     truth_text (prob_requires_contiguous_copy k) @ '';maca_3d_c2c32_single_cube='' @
     truth_text (prob_maca_3d_c2c32_single_cube k) @ '';shape=['' @ join_ints (prob_input_shape k) @
     ''];strides=['' @ join_ints (prob_input_strides k) @ ''];direction='' @ prob_direction k"

definition problem_key_hash :: "std_hashes \<Rightarrow> problem_key \<Rightarrow> 64 word" where
  "problem_key_hash h k =
     (let hi = hash_value (hash_int h); hs = hash_value (hash_string h); hb = hash_value (hash_bool h);
          hv = hash_vector (hash_size h) (hash_int h);
          seed = hi 0 (prob_fft_length k);
          seed = hv seed (prob_input_shape k);
          seed = hb seed (prob_n k \<noteq> None);
          seed = (case prob_n k of Some v \<Rightarrow> hi seed v | None \<Rightarrow> seed);
          seed = hi seed (prob_requested_n k);
          seed = hi seed (prob_normalized_dim k);
          seed = hs seed (prob_norm k);
          seed = hs seed (prob_input_dtype k);
          seed = hs seed (prob_output_dtype k);
          seed = hs seed (prob_device_type k);
          seed = hi seed (prob_device_index k);
          seed = hs seed (prob_device_arch k);
          seed = hv seed (prob_input_strides k);
          seed = hs seed (prob_input_layout k);
          seed = hb seed (prob_requires_contiguous_copy k);
          seed = hb seed (prob_maca_3d_c2c32_single_cube k)
      in hs seed (prob_direction k))"

section \<open>Kernel keys\<close>

record kernel_key =
  kk_kind :: kernel_kind
  kk_target :: string
  kk_direction :: string
  kk_dtype :: string
  kk_length :: int
  kk_factors :: "int list"
  kk_lanes :: int
  kk_num_warps :: int
  kk_generic_radices :: "int list"
  kk_smem_size :: int
  kk_four_step_n1 :: int
  kk_four_step_n2 :: int
  kk_bluestein_n :: int
  kk_bluestein_m :: int
  kk_rader_n :: int
  kk_rader_m :: int
  kk_reshape_n1 :: int
  kk_reshape_n2 :: int
  kk_transpose3d_n0 :: int
  kk_transpose3d_n1 :: int
  kk_transpose3d_n2 :: int
  kk_fused_plane_n0 :: int
  kk_fused_plane_n1 :: int
  kk_fused_plane_middle :: int
  kk_transpose3d_order :: string
  kk_perm_form :: string
  kk_npu_portable_leaf :: bool
  kk_hcu_full_smem :: bool
  kk_hcu_3d_middle_batch_pack :: int

definition default_kernel_key :: kernel_key where
  "default_kernel_key =
     \<lparr>kk_kind = KK_Leaf, kk_target = '''', kk_direction = ''forward'', kk_dtype = ''complex64'',
      kk_length = 0, kk_factors = [], kk_lanes = 0, kk_num_warps = 0, kk_generic_radices = [],
      kk_smem_size = 0, kk_four_step_n1 = 0, kk_four_step_n2 = 0, kk_bluestein_n = 0,
      kk_bluestein_m = 0, kk_rader_n = 0, kk_rader_m = 0, kk_reshape_n1 = 0, kk_reshape_n2 = 0,
      kk_transpose3d_n0 = 0, kk_transpose3d_n1 = 0, kk_transpose3d_n2 = 0, kk_fused_plane_n0 = 0,
      kk_fused_plane_n1 = 0, kk_fused_plane_middle = 0, kk_transpose3d_order = '''',
      kk_perm_form = ''outer'', kk_npu_portable_leaf = False, kk_hcu_full_smem = False,
      kk_hcu_3d_middle_batch_pack = 0\<rparr>"

definition key_fused_16_plane :: "string \<Rightarrow> string \<Rightarrow> string \<Rightarrow>
   kernel_key" where
  "key_fused_16_plane target direction dtype =
     default_kernel_key\<lparr>kk_kind := KK_Fused16Plane, kk_target := target,
        kk_direction := direction, kk_dtype := dtype, kk_length := 16\<rparr>"

definition key_fused_32_real_plane :: "string \<Rightarrow> string \<Rightarrow>
   string \<Rightarrow> kernel_key" where
  "key_fused_32_real_plane target direction dtype =
     default_kernel_key\<lparr>kk_kind := KK_Fused32RealPlane, kk_target := target,
        kk_direction := direction, kk_dtype := dtype, kk_length := 32\<rparr>"

definition key_fused_rect_plane :: "string \<Rightarrow> string \<Rightarrow>
   string \<Rightarrow> int \<Rightarrow> int \<Rightarrow> int \<Rightarrow> kernel_key" where
  "key_fused_rect_plane target direction dtype plane_n0 plane_n1 middle_size =
     default_kernel_key\<lparr>kk_kind := KK_FusedRectPlane, kk_target := target,
        kk_direction := direction, kk_dtype := dtype, kk_fused_plane_n0 := plane_n0,
        kk_fused_plane_n1 := plane_n1, kk_fused_plane_middle := middle_size\<rparr>"

definition key_fused_16_cube :: "string \<Rightarrow> string \<Rightarrow> string \<Rightarrow>
   kernel_key" where
  "key_fused_16_cube target direction dtype =
     default_kernel_key\<lparr>kk_kind := KK_Fused16Cube, kk_target := target,
        kk_direction := direction, kk_dtype := dtype, kk_length := 16\<rparr>"

definition key_fused_16_real_cube :: "string \<Rightarrow> string \<Rightarrow>
   string \<Rightarrow> kernel_key" where
  "key_fused_16_real_cube target direction dtype =
     default_kernel_key\<lparr>kk_kind := KK_Fused16RealCube, kk_target := target,
        kk_direction := direction, kk_dtype := dtype, kk_length := 16\<rparr>"

definition key_fused_32_column :: "string \<Rightarrow> string \<Rightarrow> string \<Rightarrow>
   int \<Rightarrow> kernel_key" where
  "key_fused_32_column target direction dtype columns =
     default_kernel_key\<lparr>kk_kind := KK_Fused32Column, kk_target := target,
        kk_direction := direction, kk_dtype := dtype, kk_length := columns\<rparr>"

definition key_fused_2d :: "string \<Rightarrow> string \<Rightarrow> string \<Rightarrow>
   int \<Rightarrow> bool \<Rightarrow> kernel_key" where
  "key_fused_2d target direction dtype len transpose_output =
     default_kernel_key\<lparr>kk_kind := KK_Fused2D, kk_target := target,
        kk_direction := direction, kk_dtype := dtype, kk_length := len, kk_perm_form := (if
        transpose_output then ''transpose'' else ''rowmajor'')\<rparr>"

definition key_fused_32_plane :: "string \<Rightarrow> string \<Rightarrow> string \<Rightarrow>
   kernel_key" where
  "key_fused_32_plane target direction dtype =
     default_kernel_key\<lparr>kk_kind := KK_Fused32Plane, kk_target := target,
        kk_direction := direction, kk_dtype := dtype, kk_length := 32\<rparr>"

definition key_fused_16_real_plane :: "string \<Rightarrow> string \<Rightarrow>
   string \<Rightarrow> kernel_key" where
  "key_fused_16_real_plane target direction dtype =
     default_kernel_key\<lparr>kk_kind := KK_Fused16RealPlane, kk_target := target,
        kk_direction := direction, kk_dtype := dtype, kk_length := 16\<rparr>"

definition key_leaf :: "string \<Rightarrow> string \<Rightarrow> string \<Rightarrow>
   int \<Rightarrow> int list \<Rightarrow> int \<Rightarrow> int \<Rightarrow> int
   list \<Rightarrow> int \<Rightarrow> kernel_key" where
  "key_leaf target direction dtype len factors lanes num_warps generic_radices smem_size =
     default_kernel_key\<lparr>kk_kind := KK_Leaf, kk_target := target,
        kk_direction := direction, kk_dtype := dtype, kk_length := len, kk_factors := factors,
        kk_lanes := lanes, kk_num_warps := num_warps, kk_generic_radices := generic_radices,
        kk_smem_size := smem_size\<rparr>"

definition key_leaf_strided :: "string \<Rightarrow> string \<Rightarrow> string \<Rightarrow>
   int \<Rightarrow> int list \<Rightarrow> int \<Rightarrow> int \<Rightarrow> int
   list \<Rightarrow> int \<Rightarrow> kernel_key" where
  "key_leaf_strided target direction dtype len factors lanes num_warps generic_radices smem_size
     =
     (key_leaf target direction dtype len factors lanes num_warps generic_radices
        smem_size)\<lparr>kk_kind := KK_LeafStrided\<rparr>"

definition key_leaf_permuted_store :: "string \<Rightarrow> string \<Rightarrow>
   string \<Rightarrow> int \<Rightarrow> int list \<Rightarrow> int \<Rightarrow>
   int \<Rightarrow> int list \<Rightarrow> int \<Rightarrow> string \<Rightarrow> kernel_key"
   where
  "key_leaf_permuted_store target direction dtype len factors lanes num_warps generic_radices
     smem_size perm_form =
     (key_leaf target direction dtype len factors lanes num_warps generic_radices
        smem_size)\<lparr>kk_kind := KK_LeafPermutedStore, kk_perm_form := perm_form\<rparr>"

definition key_leaf_r2c :: "string \<Rightarrow> string \<Rightarrow> string \<Rightarrow>
   int \<Rightarrow> int list \<Rightarrow> int \<Rightarrow> int \<Rightarrow> int
   list \<Rightarrow> int \<Rightarrow> kernel_key" where
  "key_leaf_r2c target direction dtype len factors lanes num_warps generic_radices smem_size =
     (key_leaf target direction dtype len factors lanes num_warps generic_radices
        smem_size)\<lparr>kk_kind := KK_LeafR2C\<rparr>"

definition key_leaf_r2c_permuted_store :: "string \<Rightarrow> string \<Rightarrow>
   string \<Rightarrow> int \<Rightarrow> int list \<Rightarrow> int \<Rightarrow>
   int \<Rightarrow> int list \<Rightarrow> int \<Rightarrow> string \<Rightarrow> kernel_key"
   where
  "key_leaf_r2c_permuted_store target direction dtype len factors lanes num_warps generic_radices
     smem_size perm_form =
     (key_leaf_r2c target direction dtype len factors lanes num_warps generic_radices
        smem_size)\<lparr>kk_kind := KK_LeafR2CPermutedStore, kk_perm_form := perm_form\<rparr>"

definition key_leaf_c2r :: "string \<Rightarrow> string \<Rightarrow> string \<Rightarrow>
   int \<Rightarrow> int list \<Rightarrow> int \<Rightarrow> int \<Rightarrow> int
   list \<Rightarrow> int \<Rightarrow> kernel_key" where
  "key_leaf_c2r target direction dtype len factors lanes num_warps generic_radices smem_size =
     (key_leaf target direction dtype len factors lanes num_warps generic_radices
        smem_size)\<lparr>kk_kind := KK_LeafC2R\<rparr>"

definition key_leaf_bluestein :: "string \<Rightarrow> string \<Rightarrow> string \<Rightarrow>
   int \<Rightarrow> int \<Rightarrow> int list \<Rightarrow> int \<Rightarrow> int \<Rightarrow>
   int list \<Rightarrow> int \<Rightarrow> kernel_key" where
  "key_leaf_bluestein target direction dtype prime_n len factors lanes num_warps generic_radices
     smem_size =
     (key_leaf target direction dtype len factors lanes num_warps generic_radices
        smem_size)\<lparr>kk_kind := KK_LeafBluestein, kk_bluestein_n := prime_n,
        kk_bluestein_m := len\<rparr>"

definition key_leaf_rader_full :: "string \<Rightarrow> string \<Rightarrow> string \<Rightarrow>
   int \<Rightarrow> int \<Rightarrow> int list \<Rightarrow> int \<Rightarrow> int \<Rightarrow>
   int list \<Rightarrow> int \<Rightarrow> kernel_key" where
  "key_leaf_rader_full target direction dtype prime_n len factors lanes num_warps generic_radices
     smem_size =
     (key_leaf target direction dtype len factors lanes num_warps generic_radices
        smem_size)\<lparr>kk_kind := KK_LeafRaderFull, kk_rader_n := prime_n,
        kk_rader_m := len\<rparr>"

definition key_leaf_rader_prepare :: "string \<Rightarrow> string \<Rightarrow>
   string \<Rightarrow> int \<Rightarrow> int \<Rightarrow> int list \<Rightarrow>
   int \<Rightarrow> int \<Rightarrow> int list \<Rightarrow> int \<Rightarrow> kernel_key" where
  "key_leaf_rader_prepare target direction dtype prime_n len factors lanes num_warps
     generic_radices smem_size =
     (key_leaf_rader_full target direction dtype prime_n len factors lanes num_warps
        generic_radices smem_size)\<lparr>kk_kind := KK_LeafRaderPrepare\<rparr>"

definition key_leaf_rader_finish :: "string \<Rightarrow> string \<Rightarrow>
   string \<Rightarrow> int \<Rightarrow> int \<Rightarrow> int list \<Rightarrow>
   int \<Rightarrow> int \<Rightarrow> int list \<Rightarrow> int \<Rightarrow> kernel_key" where
  "key_leaf_rader_finish target direction dtype prime_n len factors lanes num_warps
     generic_radices smem_size =
     (key_leaf_rader_full target direction dtype prime_n len factors lanes num_warps
        generic_radices smem_size)\<lparr>kk_kind := KK_LeafRaderFinish\<rparr>"

definition key_leaf_bluestein_prepare :: "string \<Rightarrow> string \<Rightarrow>
   string \<Rightarrow> int \<Rightarrow> int \<Rightarrow> int list \<Rightarrow>
   int \<Rightarrow> int \<Rightarrow> int list \<Rightarrow> int \<Rightarrow> kernel_key" where
  "key_leaf_bluestein_prepare target direction dtype prime_n len factors lanes num_warps
     generic_radices smem_size =
     (key_leaf target direction dtype len factors lanes num_warps generic_radices
        smem_size)\<lparr>kk_kind := KK_LeafBluesteinPrepare, kk_bluestein_n := prime_n,
        kk_bluestein_m := len\<rparr>"

definition key_leaf_bluestein_finish :: "string \<Rightarrow> string \<Rightarrow>
   string \<Rightarrow> int \<Rightarrow> int \<Rightarrow> int list \<Rightarrow>
   int \<Rightarrow> int \<Rightarrow> int list \<Rightarrow> int \<Rightarrow> kernel_key" where
  "key_leaf_bluestein_finish target direction dtype prime_n len factors lanes num_warps
     generic_radices smem_size =
     (key_leaf_bluestein_prepare target direction dtype prime_n len factors lanes num_warps
        generic_radices smem_size)\<lparr>kk_kind := KK_LeafBluesteinFinish\<rparr>"

definition key_direct_dft :: "string \<Rightarrow> string \<Rightarrow> string \<Rightarrow>
   int \<Rightarrow> kernel_key" where
  "key_direct_dft target direction dtype len =
     default_kernel_key\<lparr>kk_kind := KK_DirectDft, kk_target := target,
        kk_direction := direction, kk_dtype := dtype, kk_length := len\<rparr>"

definition key_direct_dft_strided :: "string \<Rightarrow> string \<Rightarrow>
   string \<Rightarrow> int \<Rightarrow> kernel_key" where
  "key_direct_dft_strided target direction dtype len =
     (key_direct_dft target direction dtype len)\<lparr>kk_kind := KK_DirectDftStrided\<rparr>"

definition key_four_step_row :: "string \<Rightarrow> string \<Rightarrow> string \<Rightarrow>
   int \<Rightarrow> int \<Rightarrow> int \<Rightarrow> int list \<Rightarrow> int \<Rightarrow>
   int \<Rightarrow> int list \<Rightarrow> int \<Rightarrow> kernel_key" where
  "key_four_step_row target direction dtype n1 n2 len factors lanes num_warps generic_radices
     smem_size =
     (key_leaf target direction dtype len factors lanes num_warps generic_radices
        smem_size)\<lparr>kk_kind := KK_FourStepRow, kk_four_step_n1 := n1,
        kk_four_step_n2 := n2\<rparr>"

definition key_four_step_row_strided :: "string \<Rightarrow> string \<Rightarrow>
   string \<Rightarrow> int \<Rightarrow> int \<Rightarrow> int \<Rightarrow> int
   list \<Rightarrow> int \<Rightarrow> int \<Rightarrow> int list \<Rightarrow>
   int \<Rightarrow> kernel_key" where
  "key_four_step_row_strided target direction dtype n1 n2 len factors lanes num_warps
     generic_radices smem_size =
     (key_four_step_row target direction dtype n1 n2 len factors lanes num_warps generic_radices
        smem_size)\<lparr>kk_kind := KK_FourStepRowStrided\<rparr>"

definition key_four_step_real_row :: "string \<Rightarrow> string \<Rightarrow>
   string \<Rightarrow> int \<Rightarrow> int \<Rightarrow> int \<Rightarrow> int
   list \<Rightarrow> int \<Rightarrow> int \<Rightarrow> int list \<Rightarrow>
   int \<Rightarrow> kernel_key" where
  "key_four_step_real_row target direction dtype n1 n2 len factors lanes num_warps
     generic_radices smem_size =
     (key_four_step_row target direction dtype n1 n2 len factors lanes num_warps generic_radices
        smem_size)\<lparr>kk_kind := KK_FourStepRealRow\<rparr>"

definition key_four_step_hermitian_row :: "string \<Rightarrow> string \<Rightarrow>
   string \<Rightarrow> int \<Rightarrow> int \<Rightarrow> int \<Rightarrow> int
   list \<Rightarrow> int \<Rightarrow> int \<Rightarrow> int list \<Rightarrow>
   int \<Rightarrow> kernel_key" where
  "key_four_step_hermitian_row target direction dtype n1 n2 len factors lanes num_warps
     generic_radices smem_size =
     (key_four_step_row target direction dtype n1 n2 len factors lanes num_warps generic_radices
        smem_size)\<lparr>kk_kind := KK_FourStepHermitianRow\<rparr>"

definition key_four_step_col :: "string \<Rightarrow> string \<Rightarrow> string \<Rightarrow>
   int \<Rightarrow> int \<Rightarrow> int \<Rightarrow> int list \<Rightarrow> int \<Rightarrow>
   int \<Rightarrow> int list \<Rightarrow> int \<Rightarrow> kernel_key" where
  "key_four_step_col target direction dtype n1 n2 len factors lanes num_warps generic_radices
     smem_size =
     (key_leaf target direction dtype len factors lanes num_warps generic_radices
        smem_size)\<lparr>kk_kind := KK_FourStepCol, kk_four_step_n1 := n1,
        kk_four_step_n2 := n2\<rparr>"

definition key_four_step_col_strided :: "string \<Rightarrow> string \<Rightarrow>
   string \<Rightarrow> int \<Rightarrow> int \<Rightarrow> int \<Rightarrow> int
   list \<Rightarrow> int \<Rightarrow> int \<Rightarrow> int list \<Rightarrow>
   int \<Rightarrow> kernel_key" where
  "key_four_step_col_strided target direction dtype n1 n2 len factors lanes num_warps
     generic_radices smem_size =
     (key_four_step_col target direction dtype n1 n2 len factors lanes num_warps generic_radices
        smem_size)\<lparr>kk_kind := KK_FourStepColStrided\<rparr>"

definition key_four_step_r2c_col :: "string \<Rightarrow> string \<Rightarrow>
   string \<Rightarrow> int \<Rightarrow> int \<Rightarrow> int \<Rightarrow> int
   list \<Rightarrow> int \<Rightarrow> int \<Rightarrow> int list \<Rightarrow>
   int \<Rightarrow> kernel_key" where
  "key_four_step_r2c_col target direction dtype n1 n2 len factors lanes num_warps generic_radices
     smem_size =
     (key_four_step_col target direction dtype n1 n2 len factors lanes num_warps generic_radices
        smem_size)\<lparr>kk_kind := KK_FourStepR2CCol\<rparr>"

definition key_four_step_c2r_col :: "string \<Rightarrow> string \<Rightarrow>
   string \<Rightarrow> int \<Rightarrow> int \<Rightarrow> int \<Rightarrow> int
   list \<Rightarrow> int \<Rightarrow> int \<Rightarrow> int list \<Rightarrow>
   int \<Rightarrow> kernel_key" where
  "key_four_step_c2r_col target direction dtype n1 n2 len factors lanes num_warps generic_radices
     smem_size =
     (key_four_step_col target direction dtype n1 n2 len factors lanes num_warps generic_radices
        smem_size)\<lparr>kk_kind := KK_FourStepC2RCol\<rparr>"

definition key_bluestein_prepare :: "string \<Rightarrow> string \<Rightarrow> int \<Rightarrow>
   int \<Rightarrow> kernel_key" where
  "key_bluestein_prepare target dtype n m =
     default_kernel_key\<lparr>kk_kind := KK_BluesteinPrepare, kk_target := target,
        kk_dtype := dtype, kk_bluestein_n := n, kk_bluestein_m := m\<rparr>"

definition key_bluestein_pointwise :: "string \<Rightarrow> string \<Rightarrow>
   int \<Rightarrow> int \<Rightarrow> kernel_key" where
  "key_bluestein_pointwise target dtype n m =
     default_kernel_key\<lparr>kk_kind := KK_BluesteinPointwise, kk_target := target,
        kk_dtype := dtype, kk_bluestein_n := n, kk_bluestein_m := m\<rparr>"

definition key_bluestein_finalize :: "string \<Rightarrow> string \<Rightarrow> int \<Rightarrow>
   int \<Rightarrow> kernel_key" where
  "key_bluestein_finalize target dtype n m =
     default_kernel_key\<lparr>kk_kind := KK_BluesteinFinalize, kk_target := target,
        kk_dtype := dtype, kk_bluestein_n := n, kk_bluestein_m := m\<rparr>"

definition key_rader_prepare :: "string \<Rightarrow> string \<Rightarrow> int \<Rightarrow>
   int \<Rightarrow> kernel_key" where
  "key_rader_prepare target dtype n m =
     default_kernel_key\<lparr>kk_kind := KK_RaderPrepare, kk_target := target,
        kk_dtype := dtype, kk_rader_n := n, kk_rader_m := m\<rparr>"

definition key_rader_pointwise :: "string \<Rightarrow> string \<Rightarrow> int \<Rightarrow>
   int \<Rightarrow> kernel_key" where
  "key_rader_pointwise target dtype n m =
     default_kernel_key\<lparr>kk_kind := KK_RaderPointwise, kk_target := target,
        kk_dtype := dtype, kk_rader_n := n, kk_rader_m := m\<rparr>"

definition key_rader_finalize :: "string \<Rightarrow> string \<Rightarrow> int \<Rightarrow>
   int \<Rightarrow> kernel_key" where
  "key_rader_finalize target dtype n m =
     default_kernel_key\<lparr>kk_kind := KK_RaderFinalize, kk_target := target,
        kk_dtype := dtype, kk_rader_n := n, kk_rader_m := m\<rparr>"

definition key_reshape_pack :: "string \<Rightarrow> string \<Rightarrow> int \<Rightarrow>
   int \<Rightarrow> kernel_key" where
  "key_reshape_pack target dtype n1 n2 =
     default_kernel_key\<lparr>kk_kind := KK_ReshapePack, kk_target := target, kk_dtype := dtype,
        kk_reshape_n1 := n1, kk_reshape_n2 := n2\<rparr>"

definition key_twiddle_reshape_pack :: "string \<Rightarrow> string \<Rightarrow>
   int \<Rightarrow> int \<Rightarrow> kernel_key" where
  "key_twiddle_reshape_pack target dtype n1 n2 =
     default_kernel_key\<lparr>kk_kind := KK_TwiddleReshapePack, kk_target := target,
        kk_dtype := dtype, kk_reshape_n1 := n1, kk_reshape_n2 := n2\<rparr>"

definition key_tiled_transpose :: "string \<Rightarrow> string \<Rightarrow> int \<Rightarrow>
   int \<Rightarrow> kernel_key" where
  "key_tiled_transpose target dtype n0 n1 =
     default_kernel_key\<lparr>kk_kind := KK_TiledTranspose, kk_target := target,
        kk_dtype := dtype, kk_reshape_n1 := n0, kk_reshape_n2 := n1\<rparr>"

definition key_transpose3d :: "string \<Rightarrow> string \<Rightarrow> int \<Rightarrow>
   int \<Rightarrow> int \<Rightarrow> string \<Rightarrow> kernel_key" where
  "key_transpose3d target dtype n0 n1 n2 order =
     default_kernel_key\<lparr>kk_kind := KK_Transpose3D, kk_target := target, kk_dtype := dtype,
        kk_transpose3d_n0 := n0, kk_transpose3d_n1 := n1, kk_transpose3d_n2 := n2,
        kk_transpose3d_order := order\<rparr>"

definition key_real_to_complex :: "string \<Rightarrow> string \<Rightarrow> int \<Rightarrow>
   kernel_key" where
  "key_real_to_complex target dtype len =
     default_kernel_key\<lparr>kk_kind := KK_RealToComplex, kk_target := target,
        kk_dtype := dtype, kk_length := len\<rparr>"

definition key_r2c_half_pack :: "string \<Rightarrow> string \<Rightarrow> int \<Rightarrow>
   kernel_key" where
  "key_r2c_half_pack target dtype len =
     default_kernel_key\<lparr>kk_kind := KK_R2CHalfPack, kk_target := target, kk_dtype := dtype,
        kk_length := len\<rparr>"

definition key_r2c_packed_postprocess :: "string \<Rightarrow> string \<Rightarrow>
   int \<Rightarrow> kernel_key" where
  "key_r2c_packed_postprocess target dtype len =
     (key_r2c_half_pack target dtype len)\<lparr>kk_kind := KK_R2CPackedPostprocess\<rparr>"

definition key_c2r_packed_preprocess :: "string \<Rightarrow> string \<Rightarrow>
   int \<Rightarrow> kernel_key" where
  "key_c2r_packed_preprocess target dtype len =
     (key_r2c_half_pack target dtype len)\<lparr>kk_kind := KK_C2RPackedPreprocess\<rparr>"

definition key_compact_to_hermitian_full :: "string \<Rightarrow> string \<Rightarrow>
   int \<Rightarrow> kernel_key" where
  "key_compact_to_hermitian_full target dtype len =
     default_kernel_key\<lparr>kk_kind := KK_CompactToHermitianFull, kk_target := target,
        kk_dtype := dtype, kk_length := len\<rparr>"

definition key_complex_to_real :: "string \<Rightarrow> string \<Rightarrow> int \<Rightarrow>
   kernel_key" where
  "key_complex_to_real target dtype len =
     default_kernel_key\<lparr>kk_kind := KK_ComplexToReal, kk_target := target,
        kk_dtype := dtype, kk_length := len\<rparr>"

subsection \<open>Equality, text, hash\<close>

definition kernel_key_eq :: "kernel_key \<Rightarrow> kernel_key \<Rightarrow> bool" where
  "kernel_key_eq a b \<longleftrightarrow>
     kk_kind a = kk_kind b \<and> kk_target a = kk_target b \<and> kk_direction a = kk_direction b \<and>
     kk_dtype a = kk_dtype b \<and> kk_length a = kk_length b \<and> kk_factors a = kk_factors b \<and>
     kk_lanes a = kk_lanes b \<and> kk_num_warps a = kk_num_warps b \<and>
     kk_generic_radices a = kk_generic_radices b \<and> kk_smem_size a = kk_smem_size b \<and>
     kk_four_step_n1 a = kk_four_step_n1 b \<and> kk_four_step_n2 a = kk_four_step_n2 b \<and>
     kk_bluestein_n a = kk_bluestein_n b \<and> kk_bluestein_m a = kk_bluestein_m b \<and>
     kk_rader_n a = kk_rader_n b \<and> kk_rader_m a = kk_rader_m b \<and>
     kk_reshape_n1 a = kk_reshape_n1 b \<and> kk_reshape_n2 a = kk_reshape_n2 b \<and>
     kk_transpose3d_n0 a = kk_transpose3d_n0 b \<and> kk_transpose3d_n1 a = kk_transpose3d_n1 b \<and>
     kk_transpose3d_n2 a = kk_transpose3d_n2 b \<and> kk_transpose3d_order a = kk_transpose3d_order b \<and>
     kk_fused_plane_n0 a = kk_fused_plane_n0 b \<and> kk_fused_plane_n1 a = kk_fused_plane_n1 b \<and>
     kk_fused_plane_middle a = kk_fused_plane_middle b \<and> kk_perm_form a = kk_perm_form b \<and>
     kk_npu_portable_leaf a = kk_npu_portable_leaf b \<and> kk_hcu_full_smem a = kk_hcu_full_smem b \<and>
     kk_hcu_3d_middle_batch_pack a = kk_hcu_3d_middle_batch_pack b"

definition kernel_key_repr :: "kernel_key \<Rightarrow> string" where
  "kernel_key_repr k =
     ''kind='' @ kernel_kind_name (kk_kind k) @ '';target='' @ kk_target k @ '';dtype='' @ kk_dtype k @
     '';direction='' @ kk_direction k @ '';length='' @ show_int (kk_length k) @
     '';factors=['' @ join_ints (kk_factors k) @ '']'' @
     '';lanes='' @ show_int (kk_lanes k) @ '';num_warps='' @ show_int (kk_num_warps k) @
     '';generic_radices=['' @ join_ints (kk_generic_radices k) @ ''];smem_size='' @
     show_int (kk_smem_size k) @ '';four_step_n1='' @ show_int (kk_four_step_n1 k) @
     '';four_step_n2='' @ show_int (kk_four_step_n2 k) @
     '';bluestein_n='' @ show_int (kk_bluestein_n k) @ '';bluestein_m='' @ show_int (kk_bluestein_m k) @
     '';rader_n='' @ show_int (kk_rader_n k) @ '';rader_m='' @ show_int (kk_rader_m k) @
     '';reshape_n1='' @ show_int (kk_reshape_n1 k) @ '';reshape_n2='' @ show_int (kk_reshape_n2 k) @
     '';transpose3d_n0='' @ show_int (kk_transpose3d_n0 k) @
     '';transpose3d_n1='' @ show_int (kk_transpose3d_n1 k) @
     '';transpose3d_n2='' @ show_int (kk_transpose3d_n2 k) @
     '';fused_plane_n0='' @ show_int (kk_fused_plane_n0 k) @
     '';fused_plane_n1='' @ show_int (kk_fused_plane_n1 k) @
     '';fused_plane_middle='' @ show_int (kk_fused_plane_middle k) @
     '';order='' @ kk_transpose3d_order k @ '';perm_form='' @ kk_perm_form k @
     '';npu_portable_leaf='' @ show_bool (kk_npu_portable_leaf k) @
     '';hcu_full_smem='' @ show_bool (kk_hcu_full_smem k) @
     '';hcu_3d_middle_batch_pack='' @ show_int (kk_hcu_3d_middle_batch_pack k)"

fun list_index :: "'a \<Rightarrow> 'a list \<Rightarrow> int" where
  "list_index x [] = 0"
| "list_index x (y # ys) = (if x = y then 0 else 1 + list_index x ys)"

definition kernel_key_hash :: "std_hashes \<Rightarrow> kernel_key \<Rightarrow> 64 word" where
  "kernel_key_hash h k =
     (let hi = hash_value (hash_int h); hs = hash_value (hash_string h); hb = hash_value (hash_bool h);
          hv = hash_vector (hash_size h) (hash_int h);
          seed = hi 0 (list_index (kk_kind k) all_kernel_kinds);
          seed = hs seed (kk_target k);
          seed = hs seed (kk_direction k);
          seed = hs seed (kk_dtype k);
          seed = hi seed (kk_length k);
          seed = hv seed (kk_factors k);
          seed = hi seed (kk_lanes k);
          seed = hi seed (kk_num_warps k);
          seed = hv seed (kk_generic_radices k);
          seed = foldl hi seed
            [kk_smem_size k, kk_four_step_n1 k, kk_four_step_n2 k, kk_bluestein_n k, kk_bluestein_m k,
             kk_rader_n k, kk_rader_m k, kk_reshape_n1 k, kk_reshape_n2 k, kk_transpose3d_n0 k,
             kk_transpose3d_n1 k, kk_transpose3d_n2 k, kk_fused_plane_n0 k, kk_fused_plane_n1 k,
             kk_fused_plane_middle k];
          seed = hs seed (kk_transpose3d_order k);
          seed = hs seed (kk_perm_form k);
          seed = hb seed (kk_npu_portable_leaf k);
          seed = hb seed (kk_hcu_full_smem k)
      in hi seed (kk_hcu_3d_middle_batch_pack k))"

section \<open>Reading keys back\<close>

lemma problem_key_eq_iff [simp]: "problem_key_eq a b \<longleftrightarrow> a = b"
  by (cases a; cases b) (auto simp: problem_key_eq_def)

lemma kernel_key_eq_iff [simp]: "kernel_key_eq a b \<longleftrightarrow> a = b"
  by (cases a; cases b) (auto simp: kernel_key_eq_def)

lemma n_text_inject [simp]: "n_text a = n_text b \<longleftrightarrow> a = b"
proof -
  have "show_int i \<noteq> ''None''" for i
    using show_int_chars [of "CHR ''N''" i] by (auto simp: is_digit_char_def)
  from this this [symmetric] show ?thesis by (auto simp: n_text_def split: option.splits)
qed

lemma n_text_separator: "CHR '';'' \<notin> set (n_text a)"
  by (simp add: n_text_def split: option.splits)

interpretation n_field: field_codec n_text "\<lambda>_. True"
  by unfold_locales (simp_all add: n_text_separator)

interpretation truth_field: field_codec truth_text "\<lambda>_. True"
  by unfold_locales (auto simp: truth_text_def split: if_splits)

text \<open>The vector fields end in a bracket before their separator.\<close>

interpretation bracket_field: field_codec "\<lambda>xs. join_ints xs @ '']''" "\<lambda>_. True"
  by unfold_locales simp_all

text \<open>\<open>device=type:index\<close>: the index has no colon, so the last colon ends the type.\<close>

lemma device_inject:
  assumes "t @ CHR '':'' # show_int i = t' @ CHR '':'' # show_int i'"
  shows "t = t' \<and> i = i'"
proof -
  have nc: "CHR '':'' \<notin> set (show_int j)" for j
    by (auto dest!: show_int_chars simp: is_digit_char_def)
  have "rev (show_int i) @ CHR '':'' # rev t = rev (show_int i') @ CHR '':'' # rev t'"
    using arg_cong [OF assms, of rev] by simp
  then show ?thesis by (simp add: separator_split nc)
qed

interpretation device_field:
  field_codec "\<lambda>(t, i). t @ CHR '':'' # show_int i" "\<lambda>(t, i). CHR '';'' \<notin> set t"
  by unfold_locales (auto dest: device_inject)

lemmas field_splits = int_field.field_split [OF TrueI TrueI] bool_field.field_split [OF TrueI TrueI]
  n_field.field_split [OF TrueI TrueI] truth_field.field_split [OF TrueI TrueI]
  kind_field.field_split [OF TrueI TrueI] text_field.field_split
  bracket_field.field_split [OF TrueI TrueI, simplified]

definition plain_kernel_texts :: "kernel_key \<Rightarrow> bool" where
  "plain_kernel_texts k \<longleftrightarrow>
     list_all (\<lambda>s. CHR '';'' \<notin> set s)
       [kk_target k, kk_dtype k, kk_direction k, kk_transpose3d_order k, kk_perm_form k]"

definition plain_problem_texts :: "problem_key \<Rightarrow> bool" where
  "plain_problem_texts k \<longleftrightarrow>
     list_all (\<lambda>s. CHR '';'' \<notin> set s)
       [prob_norm k, prob_input_dtype k, prob_output_dtype k, prob_device_type k, prob_device_arch k,
        prob_input_layout k]"

lemma kernel_repr_inject:
  assumes "plain_kernel_texts a" and "plain_kernel_texts b" and "kernel_key_repr a = kernel_key_repr b"
  shows "a = b"
  using assms unfolding plain_kernel_texts_def kernel_key_repr_def
  by (cases a; cases b) (simp add: field_splits)

lemma problem_repr_inject:
  assumes "plain_problem_texts a" and "plain_problem_texts b" and "problem_key_repr a = problem_key_repr b"
  shows "a = b"
proof -
  have device: "t @ CHR '':'' # show_int i @ CHR '';'' # r = t' @ CHR '':'' # show_int i' @ CHR '';'' # r' \<longleftrightarrow>
      t = t' \<and> i = i' \<and> r = r'" if "CHR '';'' \<notin> set t" "CHR '';'' \<notin> set t'" for t t' i i' r r'
    using device_field.field_split [of "(t, i)" "(t', i')" r r'] that by auto
  show ?thesis
    using assms unfolding plain_problem_texts_def problem_key_repr_def
    by (cases a; cases b) (simp add: field_splits device)
qed

section \<open>Properties\<close>

text \<open>
  C21. The text of a kernel key, which is the key of the compiled-kernel cache, names every field
  that distinguishes two kernels: over texts without a semicolon, equal texts mean equal keys, and
  then the equality operator and the hash agree as well.
\<close>

theorem kernel_repr_identifies_kernel:
  assumes "plain_kernel_texts a" and "plain_kernel_texts b"
  shows "(kernel_key_repr a = kernel_key_repr b) = kernel_key_eq a b \<and>
         (kernel_key_eq a b \<longrightarrow> kernel_key_hash h a = kernel_key_hash h b)"
  using assms kernel_repr_inject by auto

theorem kernel_repr_identifies_kernel_witness:
  "let a = key_leaf_permuted_store ''cuda'' ''forward'' ''complex64'' 64 [8, 8] 8 1 [] 64 ''outer'';
       b = key_leaf_permuted_store ''cuda'' ''forward'' ''complex64'' 64 [8, 8] 8 1 [] 64 ''inner''
   in kernel_key_repr a \<noteq> kernel_key_repr b"
proof -
  let ?k = "key_leaf_permuted_store ''cuda'' ''forward'' ''complex64'' 64 [8, 8] 8 1 [] 64"
  have "plain_kernel_texts (?k ''outer'')" "plain_kernel_texts (?k ''inner'')"
    by (simp_all add: plain_kernel_texts_def key_leaf_permuted_store_def key_leaf_def default_kernel_key_def)
  from kernel_repr_identifies_kernel [OF this] show ?thesis
    by (simp add: key_leaf_permuted_store_def key_leaf_def default_kernel_key_def)
qed

text \<open>
  C23. The text of a problem key distinguishes every two problems whose texts have no semicolon
  (the direction, which ends the key, may be anything).
\<close>

theorem problem_repr_identifies_problem:
  assumes "plain_problem_texts a" and "plain_problem_texts b"
  shows "(problem_key_repr a = problem_key_repr b) = problem_key_eq a b \<and>
         (problem_key_eq a b \<longrightarrow> problem_key_hash h a = problem_key_hash h b)"
  using assms problem_repr_inject by auto

theorem problem_repr_identifies_problem_witness:
  "let r = default_request\<lparr>req_input_dtype := ''complex64'', req_device_type := ''cuda''\<rparr>;
       a = problem_key_from_request (r\<lparr>req_n := Some 8\<rparr>); b = problem_key_from_request r
   in problem_key_repr a \<noteq> problem_key_repr b"
proof -
  let ?r = "default_request\<lparr>req_input_dtype := ''complex64'', req_device_type := ''cuda''\<rparr>"
  have "plain_problem_texts (problem_key_from_request (?r\<lparr>req_n := Some 8\<rparr>))"
    "plain_problem_texts (problem_key_from_request ?r)"
    by (simp_all add: plain_problem_texts_def problem_key_from_request_def default_request_def)
  from problem_repr_identifies_problem [OF this] show ?thesis
    by (simp add: problem_key_from_request_def default_request_def)
qed

end
