(* ===== verification/FFT_NumTheory.thy ===== *)
theory FFT_NumTheory
  imports FFT_Prelude
begin

text \<open>
  The number theory behind Rader's algorithm: primes over \<open>int\<close>, Fermat's little theorem, the
  bound on the roots of a polynomial modulo a prime, the existence of a primitive root, and the
  characterisation of primitive roots by the prime divisors of \<open>p - 1\<close>.
\<close>

definition prime_int :: "int \<Rightarrow> bool" where
  "prime_int p \<longleftrightarrow> 1 < p \<and> (\<forall>d. 1 < d \<and> d < p \<longrightarrow> \<not> d dvd p)"

text \<open>\<open>g\<close> has order \<open>p - 1\<close> modulo \<open>p\<close>: no smaller positive power of it is one.\<close>

definition primitive_root :: "int \<Rightarrow> int \<Rightarrow> bool" where
  "primitive_root p g \<longleftrightarrow>
     g ^ nat (p - 1) mod p = 1 \<and> (\<forall>k. 0 < k \<and> k < nat (p - 1) \<longrightarrow> g ^ k mod p \<noteq> 1)"

section \<open>Primes\<close>

lemma prime_intD: "prime_int p \<Longrightarrow> 1 < p"
  by (simp add: prime_int_def)

lemma prime_int_dvd:
  assumes "prime_int p" and "d dvd p" and "0 < d"
  shows "d = 1 \<or> d = p"
proof -
  have "d \<le> p" using assms zdvd_imp_le [of d p] by (simp add: prime_int_def)
  then show ?thesis using assms by (force simp: prime_int_def)
qed

lemma prime_int_coprime:
  assumes "prime_int p" and "\<not> p dvd a"
  shows "coprime p a"
proof -
  have "gcd p a = 1 \<or> gcd p a = p"
    using assms(1) by (intro prime_int_dvd) (auto dest: prime_intD)
  with assms(2) show ?thesis by (metis coprime_iff_gcd_eq_1 gcd_dvd2)
qed

lemma prime_int_mult_dvd: "prime_int p \<Longrightarrow> p dvd a * b \<longleftrightarrow> p dvd a \<or> p dvd b"
  by (metis coprime_dvd_mult_right_iff dvd_mult dvd_mult2 prime_int_coprime)

lemma prime_int_power_dvd: "prime_int p \<Longrightarrow> p dvd a ^ n \<Longrightarrow> p dvd a"
  by (induction n) (auto simp: prime_int_mult_dvd dest: prime_intD)

lemma prime_factor_exists: "1 < n \<Longrightarrow> \<exists>q. prime_int q \<and> q dvd n"
proof (induction "nat n" arbitrary: n rule: less_induct)
  case less
  show ?case
  proof (cases "prime_int n")
    case True
    then show ?thesis by (intro exI [of _ n]) simp
  next
    case False
    then obtain d where d: "1 < d" "d < n" "d dvd n" using less.prems by (auto simp: prime_int_def)
    then have "nat d < nat n" by simp
    with less.hyps d(1) obtain q where "prime_int q" "q dvd d" by blast
    with d(3) show ?thesis by (meson dvd_trans)
  qed
qed

lemma prime_power_split:
  assumes "prime_int q" and "0 < n" and "q dvd n"
  shows "\<exists>e m. n = q ^ Suc e * m \<and> \<not> q dvd m"
  using assms(2,3)
proof (induction "nat n" arbitrary: n rule: less_induct)
  case less
  then obtain m where m: "n = q * m" by (elim dvdE)
  have q: "1 < q" using assms(1) by (rule prime_intD)
  show ?case
  proof (cases "q dvd m")
    case False
    with m show ?thesis by (intro exI [of _ 0] exI [of _ m]) simp
  next
    case True
    have "0 < m" "m < n" using less.prems(1) m q
      by (auto simp: zero_less_mult_iff)
    with True less.hyps [of m] obtain e m' where "m = q ^ Suc e * m'" "\<not> q dvd m'" by auto
    with m show ?thesis by (intro exI [of _ "Suc e"] exI [of _ m']) (simp add: ac_simps)
  qed
qed

section \<open>Fermat's little theorem\<close>

lemma mod_mult_cancel_prime:
  assumes "prime_int p" and "\<not> p dvd a" and "(a * x) mod p = (a * y) mod p"
  shows "x mod p = y mod p"
proof -
  have "p dvd a * (x - y)" using assms(3) by (simp add: mod_eq_dvd_iff right_diff_distrib)
  with assms(1,2) have "p dvd x - y" by (simp add: prime_int_mult_dvd)
  then show ?thesis by (simp add: mod_eq_dvd_iff)
qed

lemma mult_mod_bij:
  assumes p: "prime_int p" and a: "\<not> p dvd a"
  shows "bij_betw (\<lambda>x. (a * x) mod p) {1..<p} {1..<p}"
proof -
  have inj: "inj_on (\<lambda>x. (a * x) mod p) {1..<p}"
  proof (rule inj_onI)
    fix x y assume "x \<in> {1..<p}" "y \<in> {1..<p}" "(a * x) mod p = (a * y) mod p"
    then have "x mod p = y mod p" using mod_mult_cancel_prime [OF p a] by blast
    moreover have "x mod p = x" "y mod p = y"
      using \<open>x \<in> {1..<p}\<close> \<open>y \<in> {1..<p}\<close> by (simp_all add: mod_pos_pos_trivial)
    ultimately show "x = y" by simp
  qed
  have "(a * x) mod p \<in> {1..<p}" if "x \<in> {1..<p}" for x
  proof -
    have "\<not> p dvd x" using that zdvd_imp_le by force
    with p a have "(a * x) mod p \<noteq> 0" by (simp add: prime_int_mult_dvd flip: dvd_eq_mod_eq_0)
    moreover have "0 \<le> (a * x) mod p" "(a * x) mod p < p" using prime_intD [OF p] by simp_all
    ultimately show ?thesis by simp
  qed
  then have "(\<lambda>x. (a * x) mod p) ` {1..<p} \<subseteq> {1..<p}" by blast
  with inj show ?thesis by (simp add: bij_betw_def endo_inj_surj)
qed

lemma prime_not_dvd_prod:
  assumes "prime_int p" and "finite A" and "\<And>x. x \<in> A \<Longrightarrow> \<not> p dvd f x"
  shows "\<not> p dvd prod f A"
  using assms(2,3)
proof (induction A rule: finite_induct)
  case empty
  then show ?case using prime_intD [OF assms(1)] by simp
next
  case (insert x F)
  then show ?case using assms(1) by (auto simp: prime_int_mult_dvd)
qed

lemma prod_mod: "finite A \<Longrightarrow> (prod (\<lambda>x. f x mod p) A) mod p = (prod f A) mod (p::int)"
proof (induction A rule: finite_induct)
  case (insert x F)
  have "(\<Prod>x\<in>insert x F. f x mod p) mod p = (f x mod p * ((\<Prod>x\<in>F. f x mod p) mod p)) mod p"
    using insert.hyps by (simp add: mod_mult_right_eq)
  also have "\<dots> = (f x * prod f F) mod p" by (simp add: insert.IH mod_mult_eq)
  finally show ?case using insert.hyps by simp
qed simp

theorem fermat_little:
  assumes p: "prime_int p" and a: "\<not> p dvd a"
  shows "a ^ nat (p - 1) mod p = 1"
proof -
  let ?P = "\<Prod>x\<in>{1..<p}. x"
  have "?P = (\<Prod>x\<in>{1..<p}. (a * x) mod p)"
    using prod.reindex_bij_betw [OF mult_mod_bij [OF p a], of "\<lambda>x. x"] by simp
  then have "?P mod p = (\<Prod>x\<in>{1..<p}. a * x) mod p"
    using prod_mod [of "{1..<p}" "\<lambda>x. a * x" p] by simp
  also have "(\<Prod>x\<in>{1..<p}. a * x) = a ^ nat (p - 1) * ?P"
    by (simp add: prod.distrib prod_constant)
  finally have "(?P * 1) mod p = (?P * a ^ nat (p - 1)) mod p" by (simp add: mult.commute)
  moreover have "\<not> p dvd ?P"
    using zdvd_imp_le by (intro prime_not_dvd_prod [OF p]) fastforce+
  ultimately have "1 mod p = a ^ nat (p - 1) mod p" using mod_mult_cancel_prime [OF p] by blast
  then show ?thesis using prime_intD [OF p] by simp
qed

section \<open>Orders\<close>

lemma power_mod_mult: "a ^ m mod p = (1::int) \<Longrightarrow> 1 < p \<Longrightarrow> a ^ (m * k) mod p = 1"
  by (metis power_mod power_mult power_one mod_pos_pos_trivial zero_le_one)

lemma power_mod_add: "a ^ m mod p = (1::int) \<Longrightarrow> a ^ (m + k) mod p = a ^ k mod p"
  by (metis mod_mult_left_eq mult_1 power_add)

lemma power_mod_gcd:
  assumes "1 < (p::int)" and "a ^ m mod p = 1" and "a ^ n mod p = 1"
  shows "a ^ gcd m n mod p = 1"
  using assms(2,3)
proof (induction m n rule: gcd_nat_induct)
  case (step m n)
  have "a ^ (n * (m div n)) mod p = 1" using power_mod_mult [OF step.prems(2) assms(1)] .
  then have "a ^ (m mod n) mod p = a ^ m mod p"
    using power_mod_add [of a "n * (m div n)" p "m mod n"] by simp
  with step show ?case by (metis gcd_red_nat)
qed simp

text \<open>
  If the full power is one and no \<open>(p - 1) / q\<close> power is, for \<open>q\<close> a prime divisor of \<open>p - 1\<close>, then
  the element is a primitive root: the test \<open>find_primitive_root\<close> makes.
\<close>

lemma primitive_rootI:
  assumes p: "1 < p" and full: "g ^ nat (p - 1) mod p = 1"
    and test: "\<And>q. prime_int q \<Longrightarrow> q dvd p - 1 \<Longrightarrow> g ^ nat ((p - 1) div q) mod p \<noteq> 1"
  shows "primitive_root p g"
  unfolding primitive_root_def
proof (intro conjI allI impI notI)
  fix k assume k: "0 < k \<and> k < nat (p - 1)" and one: "g ^ k mod p = 1"
  define N where "N = nat (p - 1)"
  define d where "d = gcd N k"
  have gd: "g ^ d mod p = 1" unfolding d_def N_def by (rule power_mod_gcd [OF p full one])
  have "d \<le> k" using k by (simp add: d_def gcd_le2_nat)
  then have "d < N" using k by (simp add: N_def)
  then have d: "0 < d" "d dvd N" "d < N" using k by (simp_all add: d_def)
  then obtain c where c: "N = d * c" by (elim dvdE)
  have "c \<noteq> 0" "c \<noteq> 1" using c d(3) by auto
  then have "1 < int c" by simp
  then obtain q where q: "prime_int q" "q dvd int c" using prime_factor_exists by blast
  then obtain r where r: "int c = q * r" by (elim dvdE)
  have q0: "1 < q" using q(1) by (rule prime_intD)
  have r0: "0 \<le> r" using r q0 by (metis of_nat_0_le_iff zero_le_mult_iff not_one_less_zero less_le_trans order.strict_trans2)
  have Np: "int N = p - 1" using p by (simp add: N_def)
  have eq: "p - 1 = q * (int d * r)" using c r Np by (metis mult.assoc mult.left_commute of_nat_mult)
  then have "(p - 1) div q = int d * r" using q0 by simp
  then have "nat ((p - 1) div q) = d * nat r" using r0 by (simp add: nat_mult_distrib)
  then have "g ^ nat ((p - 1) div q) mod p = 1" using power_mod_mult [OF gd p] by simp
  moreover have "q dvd p - 1" using eq by simp
  ultimately show False using test q(1) by blast
qed (rule full)

text \<open>The powers of a primitive root are distinct residues, so they are all of them.\<close>

lemma primitive_root_powers:
  assumes p: "prime_int p" and g: "primitive_root p g"
  shows "inj_on (\<lambda>i. g ^ i mod p) {..<nat (p - 1)}"
    and "(\<lambda>i. g ^ i mod p) ` {..<nat (p - 1)} = {1..<p}"
proof -
  let ?N = "nat (p - 1)"
  have p1: "1 < p" using p by (rule prime_intD)
  have "\<not> p dvd g"
  proof
    assume "p dvd g"
    then have "p dvd g ^ ?N" using p1 by (intro dvd_power_same [of p g, THEN dvd_trans [rotated]] dvd_power) auto
    with g p1 show False by (simp add: primitive_root_def dvd_eq_mod_eq_0)
  qed
  then have nd: "\<not> p dvd g ^ i" for i using prime_int_power_dvd [OF p] by blast
  have "g ^ i mod p \<noteq> g ^ j mod p" if "i < j" "j < ?N" for i j
  proof
    assume "g ^ i mod p = g ^ j mod p"
    then have "(g ^ i * 1) mod p = (g ^ i * g ^ (j - i)) mod p" using that by (simp flip: power_add)
    then have "1 mod p = g ^ (j - i) mod p" by (rule mod_mult_cancel_prime [OF p nd])
    with g that p1 show False by (auto simp: primitive_root_def)
  qed
  then show inj: "inj_on (\<lambda>i. g ^ i mod p) {..<?N}"
    unfolding inj_on_def by (metis lessThan_iff linorder_neqE_nat)
  have "g ^ i mod p \<in> {1..<p}" for i
  proof -
    have "g ^ i mod p \<noteq> 0" using nd [of i] by (simp add: dvd_eq_mod_eq_0)
    moreover have "0 \<le> g ^ i mod p" "g ^ i mod p < p" using p1 by simp_all
    ultimately show ?thesis by simp
  qed
  then have "(\<lambda>i. g ^ i mod p) ` {..<?N} \<subseteq> {1..<p}" by blast
  moreover have "card ((\<lambda>i. g ^ i mod p) ` {..<?N}) = card {1..<p}" using inj by (simp add: card_image)
  ultimately show "(\<lambda>i. g ^ i mod p) ` {..<?N} = {1..<p}" by (simp add: card_subset_eq)
qed

section \<open>Existence of primitive roots\<close>

lemma poly_roots_mod_prime:
  assumes p: "prime_int p" and lead: "\<not> p dvd c n"
  shows "card {x \<in> {0..<p}. p dvd (\<Sum>i\<le>n. c i * x ^ i)} \<le> n"
  using lead
proof (induction n arbitrary: c)
  case 0
  then show ?case by simp
next
  case (Suc n)
  let ?R = "{x \<in> {0..<p}. p dvd (\<Sum>i\<le>Suc n. c i * x ^ i)}"
  show ?case
  proof (cases "?R = {}")
    case True
    show ?thesis unfolding True by simp
  next
    case False
    then obtain a where a: "a \<in> ?R" by blast
    define b where "b j = (\<Sum>i=Suc j..Suc n. c i * a ^ (i - j - 1))" for j
    let ?S = "{x \<in> {0..<p}. p dvd (\<Sum>i\<le>n. b i * x ^ i)}"
    have "b n = c (Suc n)" by (simp add: b_def)
    with Suc.prems have "card ?S \<le> n" using Suc.IH [of b] by simp
    have "?R \<subseteq> insert a ?S"
    proof
      fix x assume x: "x \<in> ?R"
      have "(\<Sum>i\<le>Suc n. c i * x ^ i) - (\<Sum>i\<le>Suc n. c i * a ^ i) = (x - a) * (\<Sum>i\<le>n. b i * x ^ i)"
        using polyfun_diff [of "Suc n" c x a] by (simp add: b_def lessThan_Suc_atMost)
      moreover have "p dvd (\<Sum>i\<le>Suc n. c i * x ^ i) - (\<Sum>i\<le>Suc n. c i * a ^ i)"
        using a x by (intro dvd_diff) simp_all
      ultimately have "p dvd x - a \<or> p dvd (\<Sum>i\<le>n. b i * x ^ i)"
        using prime_int_mult_dvd [OF p] by metis
      moreover have "x = a" if "p dvd x - a"
        using that a x by (simp add: mod_eq_dvd_iff [symmetric])
      ultimately show "x \<in> insert a ?S" using x by blast
    qed
    moreover have "finite ?S" by (rule finite_subset [of _ "{0..<p}"]) auto
    ultimately have "card ?R \<le> card (insert a ?S)" by (intro card_mono) auto
    also have "\<dots> \<le> Suc (card ?S)" using \<open>finite ?S\<close> by (simp add: card_insert_if)
    finally show ?thesis using \<open>card ?S \<le> n\<close> by simp
  qed
qed

lemma non_root_exists:
  assumes p: "prime_int p" and r: "1 < r" "r dvd p - 1"
  shows "\<exists>x. \<not> p dvd x \<and> x ^ nat ((p - 1) div r) mod p \<noteq> 1"
proof (rule ccontr)
  let ?n = "nat ((p - 1) div r)"
  have p1: "1 < p" using p by (rule prime_intD)
  obtain k where k: "p - 1 = r * k" using r(2) by (elim dvdE)
  then have k0: "0 < k" using p1 r(1) by (metis diff_gt_0_iff_gt less_trans zero_less_mult_pos zero_less_one)
  then have n: "0 < ?n" "int ?n < p - 1" using k r(1) by simp_all
  define c :: "nat \<Rightarrow> int" where "c i = (if i = ?n then 1 else if i = 0 then - 1 else 0)" for i
  have sum: "(\<Sum>i\<le>?n. c i * x ^ i) = x ^ ?n - 1" for x
  proof -
    have "(\<Sum>i\<le>?n. c i * x ^ i) = (\<Sum>i\<in>{0, ?n}. c i * x ^ i)"
      by (rule sum.mono_neutral_right) (auto simp: c_def)
    also have "\<dots> = x ^ ?n - 1" using n(1) by (simp add: c_def)
    finally show ?thesis .
  qed
  assume "\<not> ?thesis"
  then have all: "x ^ ?n mod p = 1" if "\<not> p dvd x" for x using that by blast
  have "{1..<p} \<subseteq> {x \<in> {0..<p}. p dvd (\<Sum>i\<le>?n. c i * x ^ i)}"
  proof
    fix x assume x: "x \<in> {1..<p}"
    then have "\<not> p dvd x" using zdvd_imp_le by force
    then have "x ^ ?n mod p = 1 mod p" using all p1 by simp
    then show "x \<in> {x \<in> {0..<p}. p dvd (\<Sum>i\<le>?n. c i * x ^ i)}"
      using x unfolding sum by (simp add: mod_eq_dvd_iff)
  qed
  moreover have "finite {x \<in> {0..<p}. p dvd (\<Sum>i\<le>?n. c i * x ^ i)}"
    by (rule finite_subset [of _ "{0..<p}"]) auto
  ultimately have "card {1..<p} \<le> card {x \<in> {0..<p}. p dvd (\<Sum>i\<le>?n. c i * x ^ i)}"
    by (rule card_mono [rotated])
  also have "\<dots> \<le> ?n" using poly_roots_mod_prime [OF p, of c ?n] p1 by (simp add: c_def)
  finally show False using n by simp
qed

text \<open>An element whose order carries the whole \<open>r\<close>-part of \<open>p - 1\<close> and nothing else.\<close>

lemma prime_part_exists:
  assumes p: "prime_int p" and r: "prime_int r" "r dvd p - 1"
  shows "\<exists>a. \<not> p dvd a \<and> a ^ nat ((p - 1) div r) mod p \<noteq> 1 \<and>
           (\<forall>q. prime_int q \<and> q dvd p - 1 \<and> q \<noteq> r \<longrightarrow> a ^ nat ((p - 1) div q) mod p = 1)"
proof -
  have p1: "1 < p" using p by (rule prime_intD)
  have r1: "1 < r" using r(1) by (rule prime_intD)
  obtain x where x: "\<not> p dvd x" "x ^ nat ((p - 1) div r) mod p \<noteq> 1"
    using non_root_exists [OF p r1 r(2)] by blast
  obtain e m where em: "p - 1 = r ^ Suc e * m" "\<not> r dvd m"
    using prime_power_split [OF r(1) _ r(2)] p1 by auto
  have m0: "0 < m" using em(1) p1 r1 by (metis diff_gt_0_iff_gt less_trans zero_less_mult_pos zero_less_one zero_less_power)
  have full: "x ^ nat (p - 1) mod p = 1" by (rule fermat_little [OF p x(1)])
  let ?a = "x ^ nat m" and ?h = "nat ((p - 1) div r)"
  have "?a ^ ?h mod p \<noteq> 1"
  proof
    assume "?a ^ ?h mod p = 1"
    then have one: "x ^ (?h * nat m) mod p = 1" by (simp add: power_mult mult.commute flip: power_mult)
    have N: "nat (p - 1) = ?h * nat r" using r(2) r1
      by (auto simp: nat_mult_distrib [of r] mult.commute [of _ r] mult.commute [of _ "nat r"] elim!: dvdE)
    have "coprime (nat m) (nat r)"
      using prime_int_coprime [OF r(1) em(2)] m0 r1 by (simp add: coprime_commute flip: coprime_int_iff)
    then have "gcd (?h * nat m) (nat (p - 1)) = ?h"
      unfolding N by (simp add: gcd_mult_distrib_nat [symmetric] coprime_iff_gcd_eq_1)
    with power_mod_gcd [OF p1 one full] x(2) show False by simp
  qed
  moreover have "?a ^ nat ((p - 1) div q) mod p = 1" if q: "prime_int q" "q dvd p - 1" "q \<noteq> r" for q
  proof -
    have q1: "1 < q" using q(1) by (rule prime_intD)
    obtain k where k: "p - 1 = q * k" using q(2) by (elim dvdE)
    have k0: "0 < k" using k p1 q1 by (metis diff_gt_0_iff_gt less_trans zero_less_mult_pos zero_less_one)
    have "\<not> r dvd q" using prime_int_dvd [OF q(1), of r] r1 q(3) by auto
    then have "coprime (r ^ Suc e) q" using prime_int_coprime [OF r(1)] by simp
    moreover have "r ^ Suc e dvd q * k" using em(1) k by (metis dvd_triv_left)
    ultimately have "r ^ Suc e dvd k" by (simp add: coprime_dvd_mult_right_iff)
    then have "p - 1 dvd m * k" unfolding em(1) by (simp add: mult.commute mult_dvd_mono)
    then have "nat (p - 1) dvd nat m * nat k" using m0 k0 p1 by (simp add: nat_mult_distrib [symmetric] nat_dvd_iff)
    then obtain j where j: "nat m * nat k = nat (p - 1) * j" by (elim dvdE)
    have "(p - 1) div q = k" using k q1 by simp
    then have "?a ^ nat ((p - 1) div q) = x ^ (nat (p - 1) * j)" by (simp add: j flip: power_mult)
    then show ?thesis using power_mod_mult [OF full p1] by simp
  qed
  moreover have "\<not> p dvd ?a" using x(1) prime_int_power_dvd [OF p] by blast
  ultimately show ?thesis by blast
qed

text \<open>Multiplying these elements over all prime divisors gives one that passes every test.\<close>

lemma primitive_candidate_exists:
  assumes p: "prime_int p"
  shows "\<exists>g. \<not> p dvd g \<and> (\<forall>q. prime_int q \<and> q dvd p - 1 \<longrightarrow> g ^ nat ((p - 1) div q) mod p \<noteq> 1)"
proof -
  have p1: "1 < p" using p by (rule prime_intD)
  define Q where "Q = {q. prime_int q \<and> q dvd p - 1}"
  have fin: "finite Q"
    by (rule finite_subset [of _ "{0..p}"]) (use p1 zdvd_imp_le [of _ "p - 1"] in \<open>force simp: Q_def dest: prime_intD\<close>, simp)
  have "\<forall>r\<in>Q. \<exists>a. \<not> p dvd a \<and> a ^ nat ((p - 1) div r) mod p \<noteq> 1 \<and>
          (\<forall>q. prime_int q \<and> q dvd p - 1 \<and> q \<noteq> r \<longrightarrow> a ^ nat ((p - 1) div q) mod p = 1)"
    using prime_part_exists [OF p] by (simp add: Q_def)
  then obtain a where a: "\<And>r. r \<in> Q \<Longrightarrow> \<not> p dvd a r"
      "\<And>r. r \<in> Q \<Longrightarrow> a r ^ nat ((p - 1) div r) mod p \<noteq> 1"
      "\<And>r q. r \<in> Q \<Longrightarrow> q \<in> Q \<Longrightarrow> q \<noteq> r \<Longrightarrow> a r ^ nat ((p - 1) div q) mod p = 1"
    unfolding bchoice_iff by (auto simp: Q_def)
  have "prod a Q ^ nat ((p - 1) div q) mod p \<noteq> 1" if q: "q \<in> Q" for q
  proof -
    let ?h = "nat ((p - 1) div q)"
    have rest: "(\<Prod>r\<in>Q - {q}. a r ^ ?h mod p) = 1" using a(3) q by (intro prod.neutral) auto
    have "prod a Q ^ ?h mod p = (\<Prod>r\<in>Q. a r ^ ?h mod p) mod p"
      using prod_mod [OF fin, of "\<lambda>r. a r ^ ?h" p] by (simp add: prod_power_distrib)
    also have "\<dots> = a q ^ ?h mod p" by (simp add: prod.remove [OF fin q] rest)
    finally show ?thesis using a(2) [OF q] by simp
  qed
  moreover have "\<not> p dvd prod a Q" using a(1) by (intro prime_not_dvd_prod [OF p fin])
  ultimately show ?thesis by (intro exI [of _ "prod a Q"]) (simp add: Q_def)
qed

end
