(* ===== verification/FFT_Rader.thy ===== *)
theory FFT_Rader
  imports FFT_Base FFT_NumTheory
begin

text \<open>
  Prime lengths, \<open>src/src/plan/rader_utils.cpp\<close>: the primality test, the primitive root search and
  the index table of Rader's algorithm.

  \<open>int64_t\<close> is \<open>int\<close>. \<open>modpow\<close> and the table multiply two residues, so no product overflows while
  the modulus is below \<open>2 ^ 31\<close> (\<open>modpow_no_overflow\<close>); the C interface takes \<open>int\<close> lengths.
\<close>

section \<open>Definitions\<close>

function modpow_loop :: "int \<Rightarrow> int \<Rightarrow> int \<Rightarrow> int \<Rightarrow> int" where
  "modpow_loop result base e md =
     (if 0 < e then
        modpow_loop (if odd e then (result * base) mod md else result) ((base * base) mod md) (e div 2) md
      else result)"
  by pat_completeness auto
termination
  by (relation "measure (\<lambda>(r, b, e, m). nat e)") auto

declare modpow_loop.simps [simp del]

definition modpow :: "int \<Rightarrow> int \<Rightarrow> int \<Rightarrow> int" where
  "modpow base e md = modpow_loop 1 (base mod md) e md"

text \<open>\<open>while (n % factor == 0) n /= factor;\<close>\<close>

function strip_factor :: "int \<Rightarrow> int \<Rightarrow> int" where
  "strip_factor n factor =
     (if 1 < factor \<and> 0 < n \<and> n mod factor = 0 then strip_factor (n div factor) factor else n)"
  by pat_completeness auto
termination
proof (relation "measure (\<lambda>(n, f). nat n)", simp)
  fix n factor :: int
  assume "1 < factor \<and> 0 < n \<and> n mod factor = 0"
  then show "((n div factor, factor), n, factor) \<in> measure (\<lambda>(n, f). nat n)"
    by (simp add: int_div_less_self nat_mono_iff)
qed

declare strip_factor.simps [simp del]

lemma strip_factor_bounds: "0 < n \<Longrightarrow> 0 < strip_factor n f \<and> strip_factor n f \<le> n"
proof (induction n f rule: strip_factor.induct)
  case (1 n f)
  show ?case
  proof (cases "1 < f \<and> 0 < n \<and> n mod f = 0")
    case True
    then have "0 < n div f" "n div f \<le> n"
      by (auto simp: pos_imp_zdiv_pos_iff zdvd_imp_le int_div_less_self less_imp_le)
    with True "1.IH" show ?thesis by (subst (1 2) strip_factor.simps) auto
  next
    case False
    with "1.prems" show ?thesis by (subst (1 2) strip_factor.simps) auto
  qed
qed

function prime_factors_loop :: "int \<Rightarrow> int \<Rightarrow> int list \<Rightarrow> int list" where
  "prime_factors_loop n factor acc =
     (if 1 < factor \<and> factor * factor \<le> n then
        (if n mod factor \<noteq> 0 then prime_factors_loop n (factor + 1) acc
         else prime_factors_loop (strip_factor n factor) (factor + 1) (acc @ [factor]))
      else if 1 < n then acc @ [n] else acc)"
  by pat_completeness auto
termination
proof (relation "measure (\<lambda>(n, f, acc). nat (n + 1 - f))", simp)
  fix n factor :: int
  assume a: "1 < factor \<and> factor * factor \<le> n"
  then have le: "factor \<le> n" by (smt (verit) mult_le_cancel_left1)
  then show "((n, factor + 1, acc), n, factor, acc) \<in> measure (\<lambda>(n, f, acc). nat (n + 1 - f))" for acc :: "int list"
    using a by simp
  have "strip_factor n factor \<le> n" using strip_factor_bounds [of n factor] a le by auto
  then show "((strip_factor n factor, factor + 1, acc @ [factor]), n, factor, acc)
      \<in> measure (\<lambda>(n, f, acc). nat (n + 1 - f))" for acc :: "int list"
    using le by simp
qed

declare prime_factors_loop.simps [simp del]

definition prime_factors_unique :: "int \<Rightarrow> int list" where
  "prime_factors_unique n = prime_factors_loop n 2 []"

function odd_divisor_loop :: "int \<Rightarrow> int \<Rightarrow> bool" where
  "odd_divisor_loop n divisor =
     (if 1 < divisor \<and> divisor * divisor \<le> n then
        (if n mod divisor = 0 then False else odd_divisor_loop n (divisor + 2))
      else True)"
  by pat_completeness auto
termination
proof (relation "measure (\<lambda>(n, d). nat (n + 1 - d))", simp)
  fix n divisor :: int
  assume a: "1 < divisor \<and> divisor * divisor \<le> n"
  then have "divisor \<le> n" by (smt (verit) mult_le_cancel_left1)
  then show "((n, divisor + 2), n, divisor) \<in> measure (\<lambda>(n, d). nat (n + 1 - d))" by simp
qed

declare odd_divisor_loop.simps [simp del]

definition is_prime_length :: "int \<Rightarrow> bool" where
  "is_prime_length n =
     (if n < 2 then False
      else if n mod 2 = 0 then n = 2
      else odd_divisor_loop n 3)"

function root_search :: "int \<Rightarrow> int list \<Rightarrow> int \<Rightarrow> exn + int" where
  "root_search p factors g =
     (if g < p then
        (if list_all (\<lambda>factor. modpow g ((p - 1) div factor) p \<noteq> 1) factors then Inr g
         else root_search p factors (g + 1))
      else Inl (StdException ''failed to find primitive root for prime length''))"
  by pat_completeness auto
termination
  by (relation "measure (\<lambda>(p, fs, r). nat (p - r))") auto

declare root_search.simps [simp del]

definition find_primitive_root :: "int \<Rightarrow> exn + int" where
  "find_primitive_root p =
     (if \<not> is_prime_length p then Inl (StdException ''Rader primitive root requires a prime length'')
      else if p = 2 then Inr 1
      else root_search p (prime_factors_unique (p - 1)) 2)"

fun index_table_loop :: "nat \<Rightarrow> int \<Rightarrow> int \<Rightarrow> int \<Rightarrow> int list" where
  "index_table_loop 0 v g p = []"
| "index_table_loop (Suc k) v g p = v # index_table_loop k ((v * g) mod p) g p"

definition build_rader_index_table :: "int \<Rightarrow> int \<Rightarrow> exn + int list" where
  "build_rader_index_table p g =
     (if p < 2 then Inl (StdException ''Rader index table requires length >= 2'')
      else Inr (index_table_loop (nat (p - 1)) 1 g p))"

section \<open>Modular powers\<close>

lemma modpow_loop_power:
  "1 < md \<Longrightarrow> 0 \<le> e \<Longrightarrow> modpow_loop r b e md mod md = (r * b ^ nat e) mod md"
proof (induction r b e md rule: modpow_loop.induct)
  case (1 r b e md)
  show ?case
  proof (cases "0 < e")
    case False
    with "1.prems" show ?thesis by (simp add: modpow_loop.simps [of r b 0 md])
  next
    case True
    let ?r = "if odd e then (r * b) mod md else r"
    define h where "h = nat (e div 2)"
    have ne: "nat e = h + h + (if odd e then 1 else 0)"
      using "1.prems"(2) by (auto simp: h_def elim!: evenE oddE)
    have sq: "((b * b) mod md) ^ h mod md = (b ^ (h + h)) mod md"
      by (simp add: power_mod power_mult_distrib power_add)
    have rr: "?r mod md = (r * b ^ (if odd e then 1 else 0)) mod md" by simp
    have "modpow_loop r b e md mod md = modpow_loop ?r ((b * b) mod md) (e div 2) md mod md"
      using True by (simp add: modpow_loop.simps [of r b e md])
    also have "\<dots> = (?r * ((b * b) mod md) ^ h) mod md"
      using "1.IH" [OF True] "1.prems" by (simp add: h_def)
    also have "\<dots> = ((?r mod md) * (((b * b) mod md) ^ h mod md)) mod md" by (simp only: mod_mult_eq)
    also have "\<dots> = (r * b ^ (if odd e then 1 else 0) * b ^ (h + h)) mod md"
      by (simp only: rr sq mod_mult_eq)
    also have "\<dots> = (r * b ^ nat e) mod md" by (simp add: ne power_add ac_simps)
    finally show ?thesis .
  qed
qed

lemma modpow_loop_range:
  "1 < md \<Longrightarrow> 0 \<le> r \<Longrightarrow> r < md \<Longrightarrow> 0 \<le> modpow_loop r b e md \<and> modpow_loop r b e md < md"
proof (induction r b e md rule: modpow_loop.induct)
  case (1 r b e md)
  then show ?case by (subst (1 2) modpow_loop.simps) auto
qed

lemma modpow_correct:
  assumes "1 < md" and "0 \<le> e"
  shows "modpow b e md = b ^ nat e mod md"
proof -
  have "0 \<le> modpow b e md" "modpow b e md < md"
    using modpow_loop_range [of md 1] assms(1) by (simp_all add: modpow_def)
  then have "modpow b e md = modpow b e md mod md" by simp
  also have "\<dots> = b ^ nat e mod md" using assms by (simp add: modpow_def modpow_loop_power power_mod)
  finally show ?thesis .
qed

text \<open>Products of residues stay within \<open>int64_t\<close> for the moduli the C interface can pass.\<close>

lemma residue_product_no_overflow:
  assumes "0 \<le> (a :: int)" "a < md" "0 \<le> b" "b < md" "md \<le> 2 ^ 31"
  shows "a * b < 2 ^ 63"
proof -
  have "a * b \<le> 2 ^ 31 * 2 ^ 31" using assms by (intro mult_mono) auto
  then show ?thesis by simp
qed

section \<open>The primality test\<close>

lemma small_factor:
  assumes "1 < n" and "\<not> prime_int n"
  shows "\<exists>q. prime_int q \<and> q dvd n \<and> q * q \<le> n"
proof -
  obtain d where d: "1 < d" "d < n" "d dvd n" using assms by (auto simp: prime_int_def)
  obtain c where c: "n = d * c" using d(3) by (elim dvdE)
  have c1: "1 < c" using c d by (smt (verit) mult_cancel_left1 mult_nonneg_nonpos)
  have "\<exists>k. 1 < k \<and> k dvd n \<and> k * k \<le> n"
  proof (cases "d \<le> c")
    case True
    then show ?thesis using c d by (intro exI [of _ d]) (simp add: mult_left_mono)
  next
    case False
    then show ?thesis using c c1 d by (intro exI [of _ c]) (simp add: mult_right_mono)
  qed
  then obtain k where k: "1 < k" "k dvd n" "k * k \<le> n" by blast
  obtain q where q: "prime_int q" "q dvd k" using prime_factor_exists [OF k(1)] by blast
  have "q \<le> k" "0 < q" using q k zdvd_imp_le [of q k] by (auto dest: prime_intD)
  then have "q * q \<le> k * k" by (intro mult_mono) auto
  with q k show ?thesis by (meson dvd_trans order_trans)
qed

lemma odd_divisor_loop_iff:
  assumes "1 < d" and "odd d" and "odd n"
  shows "odd_divisor_loop n d \<longleftrightarrow> (\<forall>k. d \<le> k \<and> odd k \<and> k * k \<le> n \<longrightarrow> \<not> k dvd n)"
  using assms
proof (induction n d rule: odd_divisor_loop.induct)
  case (1 n d)
  show ?case
  proof (cases "d * d \<le> n")
    case False
    have "\<not> k * k \<le> n" if "d \<le> k" for k
      using False that "1.prems"(1) mult_mono [of d k d k] by auto
    with False show ?thesis by (subst odd_divisor_loop.simps) auto
  next
    case True
    have step: "d \<le> k \<and> odd k \<longleftrightarrow> k = d \<or> (d + 2 \<le> k \<and> odd k)" for k
      using "1.prems"(2) by presburger
    show ?thesis
      using True "1.prems" "1.IH"
      by (subst odd_divisor_loop.simps) (auto simp: step dvd_eq_mod_eq_0 [symmetric] conj_assoc [symmetric] simp del: conj_assoc)
  qed
qed

lemma is_prime_length_iff: "is_prime_length n \<longleftrightarrow> prime_int n"
proof (cases "1 < n \<and> odd n")
  case False
  have "\<not> prime_int n" if "1 < n" "even n" "n \<noteq> 2"
    using that by (auto simp: prime_int_def intro!: exI [of _ 2])
  moreover have "prime_int 2" by (auto simp: prime_int_def)
  ultimately show ?thesis
    using False by (auto simp: is_prime_length_def dest: prime_intD simp flip: even_iff_mod_2_eq_zero)
next
  case True
  then have eq: "is_prime_length n \<longleftrightarrow> (\<forall>k. 3 \<le> k \<and> odd k \<and> k * k \<le> n \<longrightarrow> \<not> k dvd n)"
    by (auto simp: is_prime_length_def odd_divisor_loop_iff)
  show ?thesis
  proof
    assume l: "is_prime_length n"
    show "prime_int n"
    proof (rule ccontr)
      assume "\<not> prime_int n"
      then obtain q where q: "prime_int q" "q dvd n" "q * q \<le> n" using small_factor True by blast
      have "odd q" using q(2) True by (meson dvd_trans)
      moreover have "3 \<le> q" using \<open>odd q\<close> prime_intD [OF q(1)] by presburger
      ultimately show False using l q eq by blast
    qed
  next
    assume p: "prime_int n"
    have "\<not> k dvd n" if k: "3 \<le> k" "k * k \<le> n" for k
    proof -
      have "k * 2 \<le> k * k" using k(1) by (intro mult_left_mono) auto
      then have "1 < k" "k < n" using k by linarith+
      with p show ?thesis by (simp add: prime_int_def)
    qed
    then show "is_prime_length n" unfolding eq by blast
  qed
qed

section \<open>The prime factors of \<open>p - 1\<close>\<close>

lemma strip_factor_dvd_iff:
  "prime_int f \<Longrightarrow> prime_int q \<Longrightarrow> 0 < n \<Longrightarrow> q dvd strip_factor n f \<longleftrightarrow> q dvd n \<and> q \<noteq> f"
proof (induction n f rule: strip_factor.induct)
  case (1 n f)
  have f1: "1 < f" using "1.prems"(1) by (rule prime_intD)
  have qf: "q dvd f \<longleftrightarrow> q = f"
    using prime_int_dvd [OF "1.prems"(1), of q] "1.prems"(2) by (auto dest: prime_intD)
  show ?case
  proof (cases "f dvd n")
    case True
    then obtain k where k: "n = f * k" by (elim dvdE)
    then have "0 < k" using "1.prems"(3) f1 by (simp add: zero_less_mult_iff)
    then have "q dvd strip_factor k f \<longleftrightarrow> q dvd k \<and> q \<noteq> f"
      using True k f1 "1.prems" "1.IH" by simp
    moreover have "strip_factor n f = strip_factor k f"
      using True k f1 "1.prems"(3) by (subst strip_factor.simps) simp
    ultimately show ?thesis using k by (auto simp: prime_int_mult_dvd [OF "1.prems"(2)] qf)
  next
    case False
    with "1.prems" f1 show ?thesis
      by (subst strip_factor.simps) (auto simp: dvd_eq_mod_eq_0)
  qed
qed

lemma least_factor_prime:
  assumes "1 < f" and "f dvd n" and "\<And>q. prime_int q \<Longrightarrow> q dvd n \<Longrightarrow> f \<le> q"
  shows "prime_int f"
proof -
  obtain q where q: "prime_int q" "q dvd f" using prime_factor_exists [OF assms(1)] by blast
  then have "f \<le> q" using assms(2,3) by (meson dvd_trans)
  moreover have "q \<le> f" using q(2) assms(1) zdvd_imp_le by auto
  ultimately show ?thesis using q(1) by simp
qed

lemma prime_factors_loop_set:
  assumes "0 < n" and "1 < f" and "\<And>q. prime_int q \<Longrightarrow> q dvd n \<Longrightarrow> f \<le> q"
  shows "set (prime_factors_loop n f acc) = set acc \<union> {q. prime_int q \<and> q dvd n}"
  using assms
proof (induction n f acc rule: prime_factors_loop.induct)
  case (1 n f acc)
  have least: "f \<le> q" if "prime_int q" "q dvd n" for q using that by (rule "1.prems"(3))
  show ?case
  proof (cases "f * f \<le> n")
    case False
    have "prime_int n" if "1 < n"
    proof (rule ccontr)
      assume "\<not> prime_int n"
      then obtain q where q: "prime_int q" "q dvd n" "q * q \<le> n" using small_factor \<open>1 < n\<close> by blast
      have "f * f \<le> q * q" using least [OF q(1,2)] "1.prems"(2) by (intro mult_mono) auto
      with q(3) False show False by simp
    qed
    moreover have "q = n" if "prime_int n" "prime_int q" "q dvd n" for q
      using prime_int_dvd [OF that(1,3)] prime_intD [OF that(2)] by auto
    moreover have "\<not> q dvd n" if "n \<le> 1" "prime_int q" for q
      using that "1.prems"(1) zdvd_imp_le [of q n] prime_intD [of q] by auto
    ultimately show ?thesis using False by (subst prime_factors_loop.simps) auto
  next
    case True
    show ?thesis
    proof (cases "f dvd n")
      case nd: False
      have "f + 1 \<le> q" if "prime_int q" "q dvd n" for q using least [OF that] nd that(2) by (cases "f = q") auto
      with "1.IH"(1) True nd "1.prems"(1,2) show ?thesis
        by (subst prime_factors_loop.simps) (simp add: dvd_eq_mod_eq_0)
    next
      case fd: True
      have pf: "prime_int f" using least_factor_prime [OF "1.prems"(2) fd] least by blast
      have s0: "0 < strip_factor n f" using strip_factor_bounds "1.prems"(1) by blast
      have iff: "q dvd strip_factor n f \<longleftrightarrow> q dvd n \<and> q \<noteq> f" if "prime_int q" for q
        using strip_factor_dvd_iff [OF pf that "1.prems"(1)] .
      have "f + 1 \<le> q" if "prime_int q" "q dvd strip_factor n f" for q
        using least [OF that(1)] iff [OF that(1)] that(2) by force
      with "1.IH"(2) True fd "1.prems"(2) s0
      have "set (prime_factors_loop n f acc)
          = set (acc @ [f]) \<union> {q. prime_int q \<and> q dvd strip_factor n f}"
        by (subst prime_factors_loop.simps) (simp add: dvd_eq_mod_eq_0)
      with iff pf fd show ?thesis by auto
    qed
  qed
qed

lemma prime_factors_unique_set: "0 < n \<Longrightarrow> set (prime_factors_unique n) = {q. prime_int q \<and> q dvd n}"
  using prime_factors_loop_set [of n 2 "[]"] by (force simp: prime_factors_unique_def dest: prime_intD)

section \<open>The primitive root search\<close>

lemma root_search_Inr:
  "root_search p fs g = Inr r \<Longrightarrow> g \<le> r \<and> r < p \<and> list_all (\<lambda>f. modpow r ((p - 1) div f) p \<noteq> 1) fs"
proof (induction p fs g rule: root_search.induct)
  case (1 p fs g)
  then show ?case by (subst (asm) (2) root_search.simps) (fastforce split: if_splits)
qed

lemma root_search_finds:
  "g \<le> c \<Longrightarrow> c < p \<Longrightarrow> list_all (\<lambda>f. modpow c ((p - 1) div f) p \<noteq> 1) fs \<Longrightarrow>
   \<exists>r. root_search p fs g = Inr r"
proof (induction p fs g rule: root_search.induct)
  case (1 p fs g)
  then show ?case by (subst root_search.simps) (cases "g = c"; force)
qed

lemma root_test_iff:
  assumes "1 < p"
  shows "list_all (\<lambda>f. modpow g ((p - 1) div f) p \<noteq> 1) (prime_factors_unique (p - 1)) \<longleftrightarrow>
         (\<forall>q. prime_int q \<and> q dvd p - 1 \<longrightarrow> g ^ nat ((p - 1) div q) mod p \<noteq> 1)"
proof -
  have "0 \<le> (p - 1) div q" if "prime_int q" for q
    using that assms by (intro pos_imp_zdiv_nonneg_iff [THEN iffD2]) (auto dest: prime_intD)
  then show ?thesis
    using prime_factors_unique_set [of "p - 1"] assms by (auto simp: list_all_iff modpow_correct)
qed

lemma find_primitive_root_sound:
  assumes "find_primitive_root p = Inr g"
  shows "prime_int p \<and> 1 \<le> g \<and> g < p \<and> primitive_root p g"
proof -
  have p: "prime_int p" using assms by (auto simp: find_primitive_root_def is_prime_length_iff split: if_splits)
  then have p1: "1 < p" by (rule prime_intD)
  show ?thesis
  proof (cases "p = 2")
    case True
    with p assms show ?thesis
      by (auto simp: find_primitive_root_def is_prime_length_iff primitive_root_def)
  next
    case False
    with p assms have "root_search p (prime_factors_unique (p - 1)) 2 = Inr g"
      by (simp add: find_primitive_root_def is_prime_length_iff)
    from root_search_Inr [OF this] root_test_iff [OF p1] have g: "2 \<le> g" "g < p"
      and test: "\<And>q. prime_int q \<Longrightarrow> q dvd p - 1 \<Longrightarrow> g ^ nat ((p - 1) div q) mod p \<noteq> 1"
      by auto
    have "\<not> p dvd g" using g zdvd_imp_le [of p g] by auto
    then have "primitive_root p g" using primitive_rootI [OF p1 fermat_little [OF p]] test by blast
    with p g show ?thesis by simp
  qed
qed

lemma find_primitive_root_total:
  assumes p: "prime_int p"
  shows "\<exists>g. find_primitive_root p = Inr g"
proof (cases "p = 2")
  case True
  then show ?thesis using p by (simp add: find_primitive_root_def is_prime_length_iff)
next
  case False
  have p1: "1 < p" using p by (rule prime_intD)
  obtain c where c: "\<not> p dvd c" "\<And>q. prime_int q \<Longrightarrow> q dvd p - 1 \<Longrightarrow> c ^ nat ((p - 1) div q) mod p \<noteq> 1"
    using primitive_candidate_exists [OF p] by blast
  let ?g = "c mod p"
  have test: "?g ^ nat ((p - 1) div q) mod p \<noteq> 1" if "prime_int q" "q dvd p - 1" for q
    using c(2) [OF that] by (simp add: power_mod)
  obtain q where q: "prime_int q" "q dvd p - 1" using prime_factor_exists [of "p - 1"] p1 False by auto
  have "?g \<noteq> 1" using test [OF q] p1 by auto
  moreover have "?g \<noteq> 0" using c(1) by (simp add: dvd_eq_mod_eq_0)
  moreover have "0 \<le> ?g" "?g < p" using p1 by simp_all
  ultimately have "2 \<le> ?g" by linarith
  then have "\<exists>r. root_search p (prime_factors_unique (p - 1)) 2 = Inr r"
    using root_search_finds [of 2 ?g p] \<open>?g < p\<close> root_test_iff [OF p1, of ?g] test by blast
  then show ?thesis using p False by (simp add: find_primitive_root_def is_prime_length_iff)
qed

section \<open>The index table\<close>

lemma index_table_loop_nth:
  "1 < p \<Longrightarrow> v mod p = v \<Longrightarrow> i < k \<Longrightarrow> index_table_loop k v g p ! i = (v * g ^ i) mod p"
proof (induction k arbitrary: v i)
  case (Suc k)
  show ?case
  proof (cases i)
    case (Suc j)
    have "index_table_loop k ((v * g) mod p) g p ! j = ((v * g) mod p * g ^ j) mod p"
      using Suc.IH [of "(v * g) mod p" j] Suc.prems Suc by simp
    then show ?thesis using Suc by (simp add: mod_mult_left_eq mult.assoc)
  qed (use Suc.prems in simp)
qed simp

lemma index_table_loop_length [simp]: "length (index_table_loop k v g p) = k"
  by (induction k arbitrary: v) simp_all

lemma index_table_eq: "1 < p \<Longrightarrow> index_table_loop k 1 g p = map (\<lambda>i. g ^ i mod p) [0..<k]"
  by (rule nth_equalityI) (simp_all add: index_table_loop_nth)

lemma rader_table_permutation:
  assumes p: "prime_int p" and g: "primitive_root p g"
  shows "distinct (index_table_loop (nat (p - 1)) 1 g p) \<and>
         set (index_table_loop (nat (p - 1)) 1 g p) = {1..<p}"
  using primitive_root_powers [OF p g] prime_intD [OF p]
  by (simp add: index_table_eq distinct_map atLeast0LessThan [symmetric] del: atLeast0LessThan)

section \<open>Properties\<close>

text \<open>
  C20. The trial division of \<open>is_prime_length\<close> (two, then odd divisors up to the square root) accepts
  exactly the primes.
\<close>

theorem is_prime_length_correct: "is_prime_length n = prime_int n"
  by (rule is_prime_length_iff)

text \<open>
  C18. The search for a primitive root returns a value exactly on primes: the final \<open>throw\<close> is
  unreachable, because every prime has a primitive root and the tests on the prime divisors of
  \<open>p - 1\<close> recognise it; what it returns has order \<open>p - 1\<close>.
\<close>

theorem find_primitive_root_correct:
  "case find_primitive_root p of
     Inl e \<Rightarrow> \<not> prime_int p \<and> e = StdException ''Rader primitive root requires a prime length''
   | Inr g \<Rightarrow> prime_int p \<and> 1 \<le> g \<and> g < p \<and> primitive_root p g"
proof (cases "find_primitive_root p")
  case (Inl e)
  then have "\<not> prime_int p" using find_primitive_root_total by fastforce
  then show ?thesis by (simp add: find_primitive_root_def is_prime_length_iff)
next
  case (Inr g)
  then show ?thesis using find_primitive_root_sound by simp
qed

text \<open>
  C19. For a prime length the root search and the table construction both succeed, and the table is
  a permutation of \<open>1, \<dots>, p - 1\<close> that starts at one and in which each entry is the previous one
  times the root: the reindexing that turns the transform into a cyclic convolution.
\<close>

theorem rader_index_table_correct:
  assumes "is_prime_length p"
  shows "\<exists>g idx. find_primitive_root p = Inr g \<and> build_rader_index_table p g = Inr idx \<and>
           int (length idx) = p - 1 \<and> distinct idx \<and> set idx = {1..<p} \<and> idx ! 0 = 1 \<and>
           (\<forall>i < length idx. idx ! ((i + 1) mod length idx) = (idx ! i * g) mod p)"
proof -
  have p: "prime_int p" using assms by (simp add: is_prime_length_iff)
  have p1: "1 < p" using p by (rule prime_intD)
  obtain g where g: "find_primitive_root p = Inr g" using find_primitive_root_total [OF p] ..
  have prim: "primitive_root p g" using find_primitive_root_sound [OF g] by simp
  let ?N = "nat (p - 1)" and ?idx = "index_table_loop (nat (p - 1)) 1 g p"
  have "?idx ! ((i + 1) mod ?N) = (?idx ! i * g) mod p" if "i < ?N" for i
  proof (cases "i + 1 = ?N")
    case True
    then have "(?idx ! i * g) mod p = g ^ ?N mod p"
      using that p1 by (simp add: index_table_eq mod_mult_left_eq power_add [symmetric]
          flip: power_Suc2)
    then show ?thesis using True prim p1 by (simp add: index_table_eq primitive_root_def)
  next
    case False
    then show ?thesis using that p1 by (simp add: index_table_eq mod_mult_left_eq flip: power_Suc2)
  qed
  then show ?thesis
    using g rader_table_permutation [OF p prim] p1
    by (intro exI [of _ g] exI [of _ ?idx]) (auto simp: build_rader_index_table_def index_table_eq)
qed

theorem rader_index_table_correct_witness:
  "is_prime_length 7 \<and> (\<exists>g idx. find_primitive_root 7 = Inr g \<and> build_rader_index_table 7 g = Inr idx \<and>
           int (length idx) = 7 - 1 \<and> distinct idx \<and> set idx = {1..<7} \<and> idx ! 0 = 1 \<and>
           (\<forall>i < length idx. idx ! ((i + 1) mod length idx) = (idx ! i * g) mod 7))"
proof -
  have 7: "is_prime_length 7" by code_simp
  show ?thesis using 7 rader_index_table_correct [OF 7] by blast
qed

end
