(* ===== verification/FFT_Policy.thy ===== *)
theory FFT_Policy
  imports FFT_Keys FFT_Rader
begin

text \<open>
  Request-level policies: \<open>src/src/codegen/request_policy.cpp\<close>,
  \<open>src/src/utils/include/flagfft/maca_tail_policy.hpp\<close> and the experiment matrix
  \<open>src/src/plan/maca_tail_plans.hpp\<close>. They depend on the request and on the environment only; a
  policy that rejects the value of a variable throws, so each result is an \<open>exn + 'a\<close>.
\<close>

section \<open>Environment switches\<close>

text \<open>\<open>!value || std::string(value) != "0"\<close>, for a variable that is on unless it is zero.\<close>

definition not_disabled :: "env \<Rightarrow> string \<Rightarrow> bool" where
  "not_disabled env name \<longleftrightarrow> env name \<noteq> Some ''0''"

text \<open>The three-way switch of the \<open>ix\<close> policies: unset or one, zero, anything else throws.\<close>

definition ix_switch :: "env \<Rightarrow> string \<Rightarrow> 'a \<Rightarrow> 'a \<Rightarrow> exn + 'a" where
  "ix_switch env name on off =
     (if env name = None \<or> env name = Some ''1'' then Inr on
      else if env name = Some ''0'' then Inr off
      else Inl (StdException (name @ '' must be 0 or 1'')))"

definition unit_last_stride :: "fft_request \<Rightarrow> bool" where
  "unit_last_stride r \<longleftrightarrow> req_input_strides r \<noteq> [] \<and> last (req_input_strides r) = 1"

section \<open>The ix policies\<close>

definition ix_ct_single_policy_enabled :: "env \<Rightarrow> fft_request \<Rightarrow> exn + bool" where
  "ix_ct_single_policy_enabled env r =
     (if req_device_type r \<noteq> ''ix'' \<or> req_device_arch r \<noteq> ''71'' \<or> req_raw_dim r \<noteq> 1 \<or>
         req_batch r \<noteq> 1 \<or> req_fft_length r \<noteq> req_requested_n r \<or>
         (req_requested_n r \<noteq> 1024 \<and> req_requested_n r \<noteq> 2048 \<and> req_requested_n r \<noteq> 16384) \<or>
         req_input_dtype r \<noteq> ''complex64'' \<or> req_output_dtype r \<noteq> ''complex64'' \<or>
         \<not> unit_last_stride r
      then Inr False
      else ix_switch env ''FLAGFFT_IX_CT_SINGLE'' True False)"

definition ix_ct_batch_policy_enabled :: "env \<Rightarrow> fft_request \<Rightarrow> exn + bool" where
  "ix_ct_batch_policy_enabled env r =
     (let measured_1d_batch = req_origin_rank r \<le> 1 \<and>
            (req_requested_n r = 16384 \<or> req_requested_n r = 8191 \<or> req_requested_n r = 16381 \<or>
             (req_requested_n r = 8192 \<and> req_packed_real_child r));
          qualified_length = (req_requested_n r = 1024 \<or> req_requested_n r = 2048 \<or> measured_1d_batch)
      in if req_device_type r \<noteq> ''ix'' \<or> req_device_arch r \<noteq> ''71'' \<or> req_raw_dim r \<noteq> 1 \<or>
            req_batch r \<noteq> 64 \<or> req_fft_length r \<noteq> req_requested_n r \<or> \<not> qualified_length \<or>
            req_input_dtype r \<noteq> ''complex64'' \<or> req_output_dtype r \<noteq> ''complex64'' \<or>
            \<not> unit_last_stride r
         then Inr False
         else ix_switch env ''FLAGFFT_IX_CT_BATCH'' True False)"

definition ix_packed_real_policy_enabled :: "env \<Rightarrow> fft_request \<Rightarrow> exn + bool" where
  "ix_packed_real_policy_enabled env r =
     (if req_device_type r \<noteq> ''ix'' \<or> req_device_arch r \<noteq> ''71'' \<or> req_raw_dim r \<noteq> 1 \<or>
         req_batch r \<noteq> 1 \<or> req_fft_length r \<noteq> req_requested_n r \<or>
         req_input_dtype r \<noteq> ''complex64'' \<or> req_output_dtype r \<noteq> ''complex64'' \<or>
         \<not> unit_last_stride r
      then Inr False
      else if req_requested_n r \<notin> {328050, 340200, 663000, 1048576} then Inr False
      else ix_switch env ''FLAGFFT_IX_CT_SINGLE'' True False)"

definition ix_ct_single_tle_policy :: "env \<Rightarrow> fft_request \<Rightarrow> exn + int" where
  "ix_ct_single_tle_policy env r =
     (if req_device_type r \<noteq> ''ix'' \<or> req_device_arch r \<noteq> ''71'' \<or> req_raw_dim r \<noteq> 1 \<or>
         req_batch r \<noteq> 1 \<or> req_fft_length r \<noteq> req_requested_n r \<or>
         req_input_dtype r \<noteq> ''complex64'' \<or> req_output_dtype r \<noteq> ''complex64'' \<or>
         \<not> unit_last_stride r
      then Inr 0
      else let policy = (if req_requested_n r = 328050 \<or> req_requested_n r = 340200 then 1 else 0);
               policy = (if req_requested_n r = 1048576 then 2 else policy)
           in if policy = 0 then Inr 0 else ix_switch env ''FLAGFFT_IX_CT_SINGLE'' policy 0)"

section \<open>The MACA tail policy\<close>

definition maca_tail_policy_enabled :: "env \<Rightarrow> fft_request \<Rightarrow> exn + bool" where
  "maca_tail_policy_enabled env r =
     (if req_device_type r \<noteq> ''maca'' \<or> req_raw_dim r \<noteq> 1 \<or> req_batch r \<noteq> 1 \<or>
         (req_origin_rank r \<noteq> 0 \<and> req_origin_rank r \<noteq> 1)
      then Inr False
      else case env ''FLAGFFT_MACA_TAIL_POLICY'' of
             None \<Rightarrow> Inr True
           | Some v \<Rightarrow>
               if v = '''' then Inr True
               else if v = ''0'' then Inr False
               else if v \<noteq> ''1'' then Inl (StdException ''FLAGFFT_MACA_TAIL_POLICY must be 0 or 1'')
               else Inr True)"

definition maca_tail_automatic_plan :: "env \<Rightarrow> fft_request \<Rightarrow> exn + string" where
  "maca_tail_automatic_plan env r =
     (case maca_tail_policy_enabled env r of
        Inl e \<Rightarrow> Inl e
      | Inr enabled \<Rightarrow>
          if \<not> enabled \<or> (env ''FLAGFFT_MACA_TAIL_PLAN'' \<noteq> None \<and> env ''FLAGFFT_MACA_TAIL_PLAN'' \<noteq> Some '''')
          then Inr ''''
          else let n = req_requested_n r; kind = req_real_transform_kind r; dt = req_input_dtype r in
            if req_real_transform r then
              (if dt = ''complex128'' \<and> n = 997 \<and> (kind = ''d2z'' \<or> kind = ''z2d'') then Inr ''bs2048''
               else if dt = ''complex64'' \<and> n = 1009 \<and> (kind = ''r2c'' \<or> kind = ''c2r'') then Inr ''bs2048''
               else Inr '''')
            else if dt \<noteq> req_output_dtype r then Inr ''''
            else if dt = ''complex128'' then
              (if n = 997 then Inr ''bs2048'' else if n = 1048576 then Inr ''ct1024x1024'' else Inr '''')
            else if dt = ''complex64'' then (if n = 1009 then Inr ''bs2048'' else Inr '''')
            else Inr '''')"

definition maca_tail_real_direct_dft :: "env \<Rightarrow> fft_request \<Rightarrow> exn + bool" where
  "maca_tail_real_direct_dft env r =
     (case maca_tail_policy_enabled env r of
        Inl e \<Rightarrow> Inl e
      | Inr enabled \<Rightarrow>
          if \<not> enabled \<or> \<not> req_real_transform r \<or>
             (req_input_dtype r \<noteq> ''complex64'' \<and> req_input_dtype r \<noteq> ''complex128'')
          then Inr False
          else if 2 \<le> req_requested_n r \<and> req_requested_n r \<le> 23 then Inr True
          else Inr (24 \<le> req_requested_n r \<and> req_requested_n r \<le> 37 \<and>
                    (req_real_transform_kind r = ''r2c'' \<or> req_real_transform_kind r = ''c2r'')))"

text \<open>The batch-64 part of \<open>maca_tail_codegen_root\<close>: the first policy that applies, if any.\<close>

definition maca_batch_root :: "env \<Rightarrow> fft_request \<Rightarrow> string option" where
  "maca_batch_root env r =
     (let n = req_requested_n r; dt = req_input_dtype r; rt = req_real_transform r;
          packed = req_packed_real_child r
      in if not_disabled env ''FLAGFFT_MACA_BATCH_VEC_IO'' \<and> (dt = ''complex64'' \<or> dt = ''complex128'') \<and>
            ((\<not> rt \<and> \<not> packed \<and> (n = 16384 \<or> n = 524288 \<or> (n = 185640 \<and> dt = ''complex64''))) \<or>
             (rt \<and> packed \<and> (n = 8192 \<or> n = 262144)))
         then Some ''batch-vecio''
         else if not_disabled env ''FLAGFFT_MACA_BATCH_REAL_PACK2'' \<and> rt \<and> packed \<and>
            dt = ''complex128'' \<and> n = 92820
         then Some ''batch-real-pack2''
         else if not_disabled env ''FLAGFFT_MACA_BATCH_C2C_PACK2'' \<and> \<not> rt \<and> \<not> packed \<and>
            dt = ''complex128'' \<and> req_output_dtype r = ''complex128'' \<and> n = 185640
         then Some ''batch-c2c-pack2''
         else if not_disabled env ''FLAGFFT_MACA_BATCH_PRIME_VEC_IO'' \<and> \<not> packed \<and>
            (dt = ''complex64'' \<or> dt = ''complex128'') \<and> (n = 8191 \<or> n = 16381)
         then Some ''batch-prime-vecio''
         else if not_disabled env ''FLAGFFT_MACA_BATCH_C2C_TREE'' \<and> \<not> rt \<and> \<not> packed \<and> n = 23 \<and>
            dt = ''complex128'' \<and> req_output_dtype r = ''complex128''
         then Some ''batch-c2c-tree''
         else None)"

definition maca_tail_codegen_root :: "env \<Rightarrow> fft_request \<Rightarrow> exn + string" where
  "maca_tail_codegen_root env r =
     (case maca_tail_real_direct_dft env r of
        Inl e \<Rightarrow> Inl e
      | Inr True \<Rightarrow> Inr ''real-direct''
      | Inr False \<Rightarrow>
          (let maca64 = req_device_type r = ''maca'' \<and> req_device_arch r = ''102'' \<and>
                 req_raw_dim r = 1 \<and> req_origin_rank r \<le> 1 \<and> req_batch r = 64;
               batch_root = (if maca64 \<and> req_fft_length r = req_requested_n r \<and> unit_last_stride r \<and>
                 not_disabled env ''FLAGFFT_MACA_1D_BATCH'' then maca_batch_root env r else None)
           in case batch_root of
                Some mode \<Rightarrow> Inr mode
              | None \<Rightarrow>
                  if maca64 \<and> req_requested_n r = 23 \<and> req_fft_length r = 23 \<and> req_real_transform r \<and>
                     (req_input_dtype r = ''complex64'' \<or> req_input_dtype r = ''complex128'') \<and>
                     not_disabled env ''FLAGFFT_MACA_1D_BATCH'' \<and>
                     not_disabled env ''FLAGFFT_MACA_BATCH_REAL_DIRECT_DFT''
                  then Inr ''real-direct''
                  else case maca_tail_automatic_plan env r of
                         Inl e \<Rightarrow> Inl e
                       | Inr plan \<Rightarrow> Inr (if plan = ''ct1024x1024'' then ''p4w4'' else ''off'')))"

definition maca_tail_kernel_mode ::
  "string \<Rightarrow> kernel_kind \<Rightarrow> string \<Rightarrow> int \<Rightarrow> int \<Rightarrow> int \<Rightarrow> string" where
  "maca_tail_kernel_mode root_mode kind dtype len n1 n2 =
     (let complex = (dtype = ''complex64'' \<or> dtype = ''complex128'');
          row_or_col = (kind = KK_FourStepRow \<or> kind = KK_FourStepCol)
      in if root_mode = ''p4w4'' \<and> dtype = ''complex128'' \<and> len = 1024 \<and> n1 = 1024 \<and> n2 = 1024 \<and>
            row_or_col then ''p4w4''
         else if root_mode = ''real-direct'' \<and> 2 \<le> len \<and> len \<le> 37 \<and>
            (kind = KK_DirectDftR2C \<or> kind = KK_DirectDftC2R) then ''real-direct''
         else if root_mode = ''batch-c2c-tree'' \<and> kind = KK_DirectDft \<and> dtype = ''complex128'' \<and> len = 23
         then root_mode
         else if root_mode = ''batch-prime-vecio'' \<and> (kind = KK_RaderPrepare \<or> kind = KK_RaderFinalize) \<and>
            complex then ''batch-prime-rader-vecio''
         else if row_or_col \<and> (len = n1 \<or> len = n2) \<and>
            (root_mode = ''batch-vecio'' \<and> complex \<and>
               ((n1 = 256 \<and> n2 = 64) \<or> (n1 = 128 \<and> n2 = 128) \<or> (n1 = 64 \<and> n2 = 128) \<or>
                (n1 = 390 \<and> n2 = 476) \<or> (n1 = 512 \<and> n2 = 1024) \<or> (n1 = 512 \<and> n2 = 512)) \<or>
             root_mode = ''batch-real-pack2'' \<and> dtype = ''complex128'' \<and> n1 * n2 = 92820 \<or>
             root_mode = ''batch-c2c-pack2'' \<and> dtype = ''complex128'' \<and> n1 = 390 \<and> n2 = 476 \<or>
             root_mode = ''batch-prime-vecio'' \<and> complex \<and>
               ((n1 = 90 \<and> n2 = 91) \<or> (n1 = 91 \<and> n2 = 180)))
         then root_mode
         else ''off'')"

definition maca_tail_identity_names :: "string list" where
  "maca_tail_identity_names =
     [''FLAGFFT_MACA_REAL_DFT_REDUCTION'', ''FLAGFFT_MACA_EXCHANGE'', ''FLAGFFT_MACA_BATCH_PACK'',
      ''FLAGFFT_MACA_3D_N64_PACK'', ''FLAGFFT_MACA_3D_N32_FP64_PACK'',
      ''FLAGFFT_MACA_3D_PERMSTORE_PACK'', ''FLAGFFT_MACA_FP64_REGISTER_PACK'',
      ''FLAGFFT_MACA_INNER_PACK'', ''FLAGFFT_MACA_MAX_WARPS'', ''FLAGFFT_MACA_SPLIT_ORDER'',
      ''FLAGFFT_MACA_VEC_IO'', ''FLAGFFT_MACA_LANE_MIN'', ''FLAGFFT_MACA_MIXED_EXCHANGE'',
      ''FLAGFFT_MACA_RADER_FULL_LEAF'', ''FLAGFFT_MACA_RADER_BOUNDARY_LEAF'',
      ''FLAGFFT_MACA_RADER_VEC_IO'', ''FLAGFFT_MACA_TRANSPOSE3D'',
      ''FLAGFFT_MACA_TRANSPOSE3D_WARPS'', ''FLAGFFT_MACA_TRANSPOSE3D_FP64'',
      ''FLAGFFT_MACA_TRANSPOSE3D_TRAVERSAL'', ''FLAGFFT_MACA_TRANSPOSE3D_SLICE_GROUP'',
      ''FLAGFFT_MACA_3D_FIRST_STORE'', ''FLAGFFT_MACA_3D_FINAL_STORE'',
      ''FLAGFFT_MACA_3D_R2C_FIRST_STORE'', ''FLAGFFT_MACA_3D_REAL_FUSED16'',
      ''FLAGFFT_MACA_3D_C2C_FUSED32'', ''FLAGFFT_MACA_3D_C2C32_MORE_LANES'']"

definition identity_value :: "string option \<Rightarrow> string" where
  "identity_value v = (case v of Some s \<Rightarrow> show_nat (length s) @ '':'' @ s | None \<Rightarrow> ''unset'')"

fun identity_fields :: "env \<Rightarrow> string list \<Rightarrow> string" where
  "identity_fields env [] = ''''"
| "identity_fields env (name # names) =
     '';'' @ name @ ''='' @ identity_value (env name) @ identity_fields env names"

definition maca_tail_codegen_identity :: "env \<Rightarrow> string \<Rightarrow> string" where
  "maca_tail_codegen_identity env mode =
     '';maca-tail-v1='' @ mode @ identity_fields env maca_tail_identity_names"

section \<open>The MACA experiment matrix\<close>

record maca_tail_plan =
  mtp_name :: string
  mtp_first :: int
  mtp_second :: int

definition mtp :: "string \<Rightarrow> int \<Rightarrow> int \<Rightarrow> maca_tail_plan" where
  "mtp name a b = \<lparr>mtp_name = name, mtp_first = a, mtp_second = b\<rparr>"

definition maca_tail_matrix :: "int \<Rightarrow> fft_request \<Rightarrow> maca_tail_plan list" where
  "maca_tail_matrix n r =
     (let i = req_input_dtype r; j = req_output_dtype r;
          fp32 = ((i = ''complex64'' \<and> j = ''complex64'') \<or> (i = ''float32'' \<and> j = ''complex64'') \<or>
                  (i = ''complex64'' \<and> j = ''float32''));
          fp64 = ((i = ''complex128'' \<and> j = ''complex128'') \<or> (i = ''float64'' \<and> j = ''complex128'') \<or>
                  (i = ''complex128'' \<and> j = ''float64''))
      in if n = 997 \<and> fp64 then [mtp ''bs2000'' 2000 0, mtp ''bs2048'' 2048 0]
         else if n = 1009 \<and> fp32 then [mtp ''rader1008'' 1008 0, mtp ''bs2048'' 2048 0]
         else if n = 1048576 \<and> fp64 then [mtp ''ct512x2048'' 512 2048, mtp ''ct1024x1024'' 1024 1024]
         else if n = 663000 \<and> (fp32 \<or> fp64) then
           [mtp ''ct375x1768'' 375 1768, mtp ''ct650x1020'' 650 1020, mtp ''ct780x850'' 780 850]
         else if n = 328050 \<and> (fp32 \<or> fp64) then
           [mtp ''ct450x729'' 450 729, mtp ''ct486x675'' 486 675, mtp ''ct405x810'' 405 810]
         else [])"

definition maca_tail_plans :: "env \<Rightarrow> int \<Rightarrow> fft_request \<Rightarrow> bool \<Rightarrow> exn + maca_tail_plan list" where
  "maca_tail_plans env n r tuning =
     (case maca_tail_automatic_plan env r of
        Inl e \<Rightarrow> Inl e
      | Inr automatic \<Rightarrow>
          if n = req_requested_n r \<and> automatic = ''bs2048'' then Inr [mtp automatic 2048 0]
          else if n = req_requested_n r \<and> automatic = ''ct1024x1024'' then Inr [mtp automatic 1024 1024]
          else if n = req_requested_n r \<and> automatic = ''ct405x810'' then Inr [mtp automatic 405 810]
          else case env ''FLAGFFT_MACA_TAIL_PLAN'' of
            None \<Rightarrow> Inr []
          | Some setting \<Rightarrow>
              if setting = '''' \<or> req_device_type r \<noteq> ''maca'' \<or> req_raw_dim r \<noteq> 1 \<or> req_batch r \<noteq> 1 \<or>
                 n \<noteq> req_requested_n r then Inr []
              else if env ''FLAGFFT_TUNE_DISABLE'' \<noteq> Some ''1'' \<or> env ''FLAGFFT_PACKED_REAL'' \<noteq> Some ''0'' then
                Inl (StdException ''FLAGFFT_MACA_TAIL_PLAN requires FLAGFFT_TUNE_DISABLE=1 and FLAGFFT_PACKED_REAL=0'')
              else let plans = maca_tail_matrix n r in
                if plans = [] then
                  Inl (StdException ''FLAGFFT_MACA_TAIL_PLAN: unsupported experiment length/dtype'')
                else if setting = ''compare'' then
                  (if \<not> tuning then
                     Inl (StdException ''FLAGFFT_MACA_TAIL_PLAN=compare is only valid for tune'')
                   else Inr plans)
                else if setting = ''default'' then Inr [mtp ''default'' 0 0]
                else case find (\<lambda>p. mtp_name p = setting) plans of
                       Some p \<Rightarrow> Inr [p]
                     | None \<Rightarrow> Inl (StdException
                         (''FLAGFFT_MACA_TAIL_PLAN: invalid plan for this experiment: '' @ setting)))"

section \<open>Lemmas\<close>

lemma identity_value_split:
  "identity_value a @ x = identity_value b @ y \<Longrightarrow> a = b \<and> x = y"
proof -
  have nc: "CHR '':'' \<notin> set (show_nat n)" for n
    using show_nat_digits [of "CHR '':''" n] by (auto simp: is_digit_char_def)
  have unset: "show_nat n @ z \<noteq> ''unset'' @ w" for n z w
  proof
    assume eq: "show_nat n @ z = ''unset'' @ w"
    then have "hd (show_nat n) = CHR ''u''" using show_nat_nonempty [of n] by (cases "show_nat n") auto
    then have "is_digit_char (CHR ''u'')" using show_nat_digits [of _ n] show_nat_nonempty [of n]
      by (metis hd_in_set)
    then show False by (simp add: is_digit_char_def)
  qed
  assume eq: "identity_value a @ x = identity_value b @ y"
  show ?thesis
  proof (cases a)
    case None
    with eq show ?thesis using unset [of _ _ x] by (cases b) (auto simp: identity_value_def dest: sym)
  next
    case (Some s)
    note a = Some
    show ?thesis
    proof (cases b)
      case None
      with eq a show ?thesis using unset [of _ _ y] by (auto simp: identity_value_def)
    next
      case (Some t)
      with eq a have "show_nat (length s) = show_nat (length t) \<and> s @ x = t @ y"
        using nc by (simp add: identity_value_def separator_split)
      then have "length s = length t" "s @ x = t @ y" by (simp_all add: show_nat_inject)
      with a Some show ?thesis by simp
    qed
  qed
qed

lemma identity_fields_inject:
  "identity_fields e names @ x = identity_fields e' names @ y \<Longrightarrow>
   (\<forall>name \<in> set names. e name = e' name) \<and> x = y"
  by (induction names) (auto dest!: identity_value_split)

lemma identity_fields_cong: "(\<forall>name \<in> set names. e name = e' name) \<Longrightarrow> identity_fields e names = identity_fields e' names"
  by (induction names) auto

text \<open>What makes an entry of the matrix a plan for length \<open>n\<close>.\<close>

definition maca_plan_ok :: "int \<Rightarrow> maca_tail_plan \<Rightarrow> bool" where
  "maca_plan_ok n p \<longleftrightarrow>
     (mtp_name p = ''default'' \<or>
      (mtp_second p \<noteq> 0 \<and> 1 < mtp_first p \<and> 1 < mtp_second p \<and> mtp_first p * mtp_second p = n) \<or>
      (mtp_second p = 0 \<and> mtp_name p = ''rader1008'' \<and> is_prime_length n \<and> mtp_first p = n - 1) \<or>
      (mtp_second p = 0 \<and> mtp_name p \<noteq> ''rader1008'' \<and> 1 < n \<and> 2 * n - 1 \<le> mtp_first p))"

lemma prime_1009: "is_prime_length 1009"
  by code_simp

lemma maca_entries_ok:
  "maca_plan_ok 997 (mtp ''bs2000'' 2000 0)" "maca_plan_ok 997 (mtp ''bs2048'' 2048 0)"
  "maca_plan_ok 1009 (mtp ''rader1008'' 1008 0)" "maca_plan_ok 1009 (mtp ''bs2048'' 2048 0)"
  "maca_plan_ok 1048576 (mtp ''ct512x2048'' 512 2048)"
  "maca_plan_ok 1048576 (mtp ''ct1024x1024'' 1024 1024)"
  "maca_plan_ok 663000 (mtp ''ct375x1768'' 375 1768)" "maca_plan_ok 663000 (mtp ''ct650x1020'' 650 1020)"
  "maca_plan_ok 663000 (mtp ''ct780x850'' 780 850)" "maca_plan_ok 328050 (mtp ''ct450x729'' 450 729)"
  "maca_plan_ok 328050 (mtp ''ct486x675'' 486 675)" "maca_plan_ok 328050 (mtp ''ct405x810'' 405 810)"
  "maca_plan_ok n (mtp ''default'' 0 0)"
  by (simp_all add: maca_plan_ok_def mtp_def prime_1009)

lemma maca_matrix_entries_ok:
  "p \<in> set (if n = 997 \<and> fp64 then [mtp ''bs2000'' 2000 0, mtp ''bs2048'' 2048 0]
         else if n = 1009 \<and> fp32 then [mtp ''rader1008'' 1008 0, mtp ''bs2048'' 2048 0]
         else if n = 1048576 \<and> fp64 then [mtp ''ct512x2048'' 512 2048, mtp ''ct1024x1024'' 1024 1024]
         else if n = 663000 \<and> (fp32 \<or> fp64) then
           [mtp ''ct375x1768'' 375 1768, mtp ''ct650x1020'' 650 1020, mtp ''ct780x850'' 780 850]
         else if n = 328050 \<and> (fp32 \<or> fp64) then
           [mtp ''ct450x729'' 450 729, mtp ''ct486x675'' 486 675, mtp ''ct405x810'' 405 810]
         else []) \<Longrightarrow> maca_plan_ok n p"
  by (auto simp: maca_entries_ok split: if_splits)

lemma maca_tail_matrix_ok: "p \<in> set (maca_tail_matrix n r) \<Longrightarrow> maca_plan_ok n p"
  unfolding maca_tail_matrix_def Let_def by (rule maca_matrix_entries_ok)

lemma maca_tail_automatic_ok:
  "maca_tail_automatic_plan env r = Inr a \<Longrightarrow>
   a = '''' \<or> (a = ''bs2048'' \<and> req_requested_n r \<in> {997, 1009}) \<or>
   (a = ''ct1024x1024'' \<and> req_requested_n r = 1048576)"
  by (auto simp: maca_tail_automatic_plan_def Let_def split: sum.splits if_splits)

lemma maca_tail_plans_ok:
  assumes "maca_tail_plans env n r tuning = Inr plans" and "p \<in> set plans"
  shows "maca_plan_ok n p"
proof -
  obtain a where a: "maca_tail_automatic_plan env r = Inr a"
    using assms(1) by (auto simp: maca_tail_plans_def split: sum.splits)
  note auto = maca_tail_automatic_ok [OF a]
  have found: "maca_plan_ok n q" if "find P (maca_tail_matrix n r) = Some q" for P q
    using that maca_tail_matrix_ok nth_mem by (fastforce simp: find_Some_iff)
  note dflt = maca_entries_ok(13)
  consider "n = req_requested_n r" "a \<noteq> ''''" | "n \<noteq> req_requested_n r \<or> a = ''''" by blast
  then show ?thesis
  proof cases
    case 1
    with assms a auto show ?thesis
      by (auto simp: maca_tail_plans_def maca_entries_ok split: if_splits)
  next
    case 2
    with assms a auto found dflt show ?thesis
      by (auto simp: maca_tail_plans_def Let_def split: if_splits option.splits dest: maca_tail_matrix_ok)
  qed
qed

section \<open>Properties\<close>

text \<open>
  The code generation identity separates environments: for one mode, two identities are equal
  exactly when all the listed variables agree, with unset, empty and arbitrary texts (semicolons
  included) all told apart by the length prefix.
\<close>

theorem maca_identity_distinguishes:
  "(maca_tail_codegen_identity e mode = maca_tail_codegen_identity e' mode) =
   list_all (\<lambda>name. e name = e' name) maca_tail_identity_names"
  using identity_fields_inject [of e maca_tail_identity_names "[]" e' "[]"]
    identity_fields_cong [of maca_tail_identity_names e e']
  by (auto simp: maca_tail_codegen_identity_def list_all_iff)

text \<open>
  C24. Every experiment the matrix or the automatic policy yields is a plan for its length: a split
  multiplies to it, a Rader entry has a prime length, a Bluestein convolution has at least
  \<open>2 * n - 1\<close> points.
\<close>

theorem maca_tail_plans_sound:
  "case maca_tail_plans env n r tuning of Inl e \<Rightarrow> True | Inr plans \<Rightarrow> list_all (maca_plan_ok n) plans"
  using maca_tail_plans_ok by (auto simp: list_all_iff split: sum.splits)

text \<open>
  The MACA tail policy is confined to rank-one batch-one requests: the axis requests of 2D and
  3D transforms, which keep the public rank, never get an automatic plan, whatever the environment.
\<close>

lemma maca_tail_policy_rank_one_only:
  assumes "req_origin_rank r \<in> {2, 3} \<or> req_batch r \<noteq> 1"
  shows "maca_tail_policy_enabled env r = Inr False \<and> maca_tail_automatic_plan env r = Inr '''' \<and>
         maca_tail_real_direct_dft env r = Inr False"
proof -
  have "maca_tail_policy_enabled env r = Inr False"
    using assms by (auto simp: maca_tail_policy_enabled_def)
  then show ?thesis by (simp add: maca_tail_automatic_plan_def maca_tail_real_direct_dft_def)
qed

end
