(* ===== verification/FFT_Double.thy ===== *)
theory FFT_Double
  imports FFT_Base "HOL-Library.Log_Nat"
begin

text \<open>
  The \<open>double\<close> arithmetic of the cost model: a finite \<open>double\<close> is the rational it denotes, and
  every operation is the exact one rounded to 53 significant bits, ties to even (\<open>fl\<close>), as IEEE 754
  prescribes for \<open>+\<close>, \<open>-\<close>, \<open>*\<close>, \<open>/\<close> and for conversions and literals. The planner's costs are
  finite and far inside the exponent range, so infinities, NaN and subnormals do not occur.

  \<open>std::log\<close> has no prescribed rounding; it is the parameter \<open>libm_log\<close> of the planner.
  \<open>static_cast<int64_t>(std::sqrt(n))\<close> is the integer square root: for \<open>n < 2 ^ 52\<close> the correctly
  rounded root of an integer below a perfect square does not reach that square's root, and every
  length the C interface can ask for is below \<open>2 ^ 33\<close>.
\<close>

type_synonym double = rat

definition pow2r :: "int \<Rightarrow> rat" where
  "pow2r e = (if 0 \<le> e then 2 ^ nat e else 1 / 2 ^ nat (- e))"

definition round_half_even :: "rat \<Rightarrow> int" where
  "round_half_even x =
     (let f = \<lfloor>x\<rfloor>; d = x - of_int f in
      if d < 1 / 2 then f else if 1 / 2 < d then f + 1 else if even f then f else f + 1)"

text \<open>The exponent of the last of the 53 bits of a non-zero value.\<close>

definition binade :: "rat \<Rightarrow> int" where
  "binade x =
     (let (p, q) = quotient_of \<bar>x\<bar>;
          e = int (floorlog 2 (nat p)) - int (floorlog 2 (nat q)) - 53
      in if pow2r (e + 53) \<le> \<bar>x\<bar> then e + 1 else e)"

definition fl :: "rat \<Rightarrow> double" where
  "fl x = (if x = 0 then 0 else let u = pow2r (binade x) in of_int (round_half_even (x / u)) * u)"

definition dadd :: "double \<Rightarrow> double \<Rightarrow> double" where "dadd x y = fl (x + y)"
definition dsub :: "double \<Rightarrow> double \<Rightarrow> double" where "dsub x y = fl (x - y)"
definition dmul :: "double \<Rightarrow> double \<Rightarrow> double" where "dmul x y = fl (x * y)"
definition ddiv :: "double \<Rightarrow> double \<Rightarrow> double" where "ddiv x y = fl (x / y)"
definition dint :: "int \<Rightarrow> double" where "dint i = fl (of_int i)"

text \<open>\<open>std::max\<close> and \<open>std::min\<close> on \<open>double\<close>, \<open>std::llround\<close> (halves away from zero).\<close>

definition dmax :: "double \<Rightarrow> double \<Rightarrow> double" where "dmax a b = (if a < b then b else a)"
definition dmin :: "double \<Rightarrow> double \<Rightarrow> double" where "dmin a b = (if b < a then b else a)"

definition llround :: "double \<Rightarrow> int" where
  "llround x = (if 0 \<le> x then \<lfloor>x + 1 / 2\<rfloor> else - \<lfloor>- x + 1 / 2\<rfloor>)"

function isqrt_loop :: "int \<Rightarrow> int \<Rightarrow> int" where
  "isqrt_loop n r = (if 0 \<le> r \<and> (r + 1) * (r + 1) \<le> n then isqrt_loop n (r + 1) else r)"
  by pat_completeness auto
termination
proof (relation "measure (\<lambda>(n, r). nat (n - r))", simp)
  fix n r :: int
  assume a: "0 \<le> r \<and> (r + 1) * (r + 1) \<le> n"
  then have "r < (r + 1) * (r + 1)" by (smt (verit) mult_le_cancel_left1)
  with a show "((n, r + 1), n, r) \<in> measure (\<lambda>(n, r). nat (n - r))" by simp
qed

declare isqrt_loop.simps [simp del]

definition sqrt_trunc :: "int \<Rightarrow> int" where
  "sqrt_trunc n = isqrt_loop n 0"

section \<open>Lemmas\<close>

lemma isqrt_loop_spec:
  assumes "0 \<le> r" and "r * r \<le> n"
  shows "0 \<le> isqrt_loop n r \<and> isqrt_loop n r * isqrt_loop n r \<le> n \<and>
    n < (isqrt_loop n r + 1) * (isqrt_loop n r + 1)"
  using assms
proof (induction n r rule: isqrt_loop.induct)
  case (1 n r)
  show ?case
  proof (cases "(r + 1) * (r + 1) \<le> n")
    case True
    with 1 have "0 \<le> isqrt_loop n (r + 1) \<and> isqrt_loop n (r + 1) * isqrt_loop n (r + 1) \<le> n \<and>
      n < (isqrt_loop n (r + 1) + 1) * (isqrt_loop n (r + 1) + 1)" by simp
    with True "1.prems" show ?thesis by (simp add: isqrt_loop.simps [of n r])
  next
    case False
    with "1.prems" show ?thesis by (simp add: isqrt_loop.simps [of n r])
  qed
qed

lemma sqrt_trunc_spec:
  assumes "0 \<le> n"
  shows "0 \<le> sqrt_trunc n" "sqrt_trunc n * sqrt_trunc n \<le> n"
    "n < (sqrt_trunc n + 1) * (sqrt_trunc n + 1)"
  using isqrt_loop_spec [of 0 n] assms by (simp_all add: sqrt_trunc_def)

lemma round_half_even_int [simp]: "round_half_even (of_int k) = k"
  by (simp add: round_half_even_def)

lemma pow2r_pos [simp]: "0 < pow2r e"
  by (simp add: pow2r_def)

lemma fl_integral:
  assumes "x = of_int k * pow2r (binade x)"
  shows "fl x = x"
proof (cases "x = 0")
  case False
  have "x / pow2r (binade x) = of_int k"
    using assms less_imp_neq [OF pow2r_pos, of "binade x"] by (simp add: divide_eq_eq)
  then show ?thesis using assms False by (simp add: fl_def Let_def)
qed (simp add: fl_def)

lemma binade_int:
  assumes "k \<noteq> 0"
  shows "binade (of_int k) = int (floorlog 2 (nat \<bar>k\<bar>)) - 53"
proof -
  let ?a = "floorlog 2 (nat \<bar>k\<bar>)"
  have q: "quotient_of \<bar>of_int k :: rat\<bar> = (\<bar>k\<bar>, 1)"
    by (simp flip: of_int_abs)
  have bounds: "2 ^ (?a - 1) \<le> nat \<bar>k\<bar>" "0 < ?a"
    using assms floorlog_bounds [of "nat \<bar>k\<bar>" 2] by (auto simp: floorlog_def)
  have one: "floorlog 2 (Suc 0) = 1" by (simp add: floorlog_def)
  have "(2::rat) ^ (?a - 1) \<le> \<bar>of_int k\<bar>"
  proof -
    have "(2::int) ^ (?a - 1) \<le> \<bar>k\<bar>" using bounds(1) by (simp add: le_nat_iff)
    then have "of_int (2 ^ (?a - 1)) \<le> (of_int \<bar>k\<bar> :: rat)" by (simp only: of_int_le_iff)
    then show ?thesis by simp
  qed
  moreover have "pow2r (int ?a - 1 - 53 + 53) = 2 ^ (?a - 1)"
    using bounds(2) by (simp add: pow2r_def nat_diff_distrib)
  ultimately show ?thesis by (simp add: binade_def q one)
qed

text \<open>An integer of at most 53 bits converts without rounding.\<close>

lemma dint_exact:
  assumes "\<bar>k\<bar> < 2 ^ 53"
  shows "dint k = of_int k"
proof (cases "k = 0")
  case True
  then show ?thesis by (simp add: dint_def fl_def)
next
  case False
  let ?a = "floorlog 2 (nat \<bar>k\<bar>)"
  have "nat \<bar>k\<bar> < 2 ^ 53" using assms by (simp add: nat_less_iff)
  then have a: "?a \<le> 53" by (intro floorlog_leI) simp_all
  then have e: "binade (of_int k) = - int (53 - ?a)" using binade_int [OF False] by simp
  have "(of_int k :: rat) = of_int (k * 2 ^ (53 - ?a)) * pow2r (binade (of_int k))"
    unfolding e using a by (simp add: pow2r_def nat_minus_as_int)
  then show ?thesis unfolding dint_def by (rule fl_integral)
qed

lemma dmax_cases: "dmax a b = a \<or> dmax a b = b"
  by (simp add: dmax_def)

end
