(* ===== verification/FFT_Builder.thy ===== *)
theory FFT_Builder
  imports FFT_Policy FFT_Double
begin

text \<open>
  The state of \<open>class PlanBuilder\<close> (\<open>src/src/utils/include/flagfft/plan.hpp\<close>), its request context
  (\<open>src/src/plan/builder_context.cpp\<close>), and the operations on radix factorizations and leaves
  (\<open>src/src/plan/factorization.cpp\<close>, the leaf part of \<open>src/src/plan/cost_model.cpp\<close>).

  The object state is the record \<open>builder\<close>; a member function is a computation of the monad
  \<open>(builder, 'a) m\<close>. The platform is the parameter record \<open>plan_cfg\<close>: the environment, the backend
  adaptor's name and shared-memory limit, and \<open>std::log\<close>.

  Lengths and radices are positive here. A factor list given to the leaf operations is not empty
  (the code takes its front).
\<close>

section \<open>State\<close>

record plan_cfg =
  cfg_env :: env
  cfg_backend_name :: string
  cfg_max_dynamic_smem_bytes :: "int \<Rightarrow> int"
  cfg_log :: "double \<Rightarrow> double"

record request_ctx =
  ctx_input_dtype :: string
  ctx_output_dtype :: string
  ctx_real_transform_kind :: string
  ctx_origin_real_transform_kind :: string
  ctx_device_type :: string
  ctx_device_index :: int
  ctx_device_arch :: string
  ctx_origin_rank :: int
  ctx_requested_n :: int
  ctx_batch :: int
  ctx_maca_3d_c2c32_single_cube :: bool
  ctx_ix_short_single :: bool
  ctx_ix_ct_batch :: bool
  ctx_max_dynamic_smem_bytes :: int

record plan_candidate =
  cand_node :: plan_node
  cand_cost :: double
  cand_priority :: int

record factorization =
  fz_factors :: "int list"
  fz_remainder :: int

record builder =
  b_request_context :: "request_ctx option"
  b_parallel_leaf_heuristic_enabled :: bool
  b_node_cache :: "int \<Rightarrow> plan_node option"
  b_cost_cache :: "int \<Rightarrow> double option"
  b_divisor_cache :: "int \<Rightarrow> int list option"
  b_factorization_cache :: "int \<Rightarrow> int list list option"
  b_best_leaf_factors_cache :: "int \<Rightarrow> int list option"
  b_tune_candidate_cache :: "int \<Rightarrow> plan_candidate list option"

definition new_builder :: builder where
  "new_builder = \<lparr>b_request_context = None, b_parallel_leaf_heuristic_enabled = False,
     b_node_cache = (\<lambda>_. None), b_cost_cache = (\<lambda>_. None), b_divisor_cache = (\<lambda>_. None),
     b_factorization_cache = (\<lambda>_. None), b_best_leaf_factors_cache = (\<lambda>_. None),
     b_tune_candidate_cache = (\<lambda>_. None)\<rparr>"

section \<open>The request context\<close>

definition request_ctx_eq :: "request_ctx \<Rightarrow> request_ctx \<Rightarrow> bool" where
  "request_ctx_eq a b \<longleftrightarrow>
     ctx_input_dtype a = ctx_input_dtype b \<and> ctx_output_dtype a = ctx_output_dtype b \<and>
     ctx_real_transform_kind a = ctx_real_transform_kind b \<and>
     ctx_origin_real_transform_kind a = ctx_origin_real_transform_kind b \<and>
     ctx_device_type a = ctx_device_type b \<and> ctx_device_index a = ctx_device_index b \<and>
     ctx_device_arch a = ctx_device_arch b \<and> ctx_origin_rank a = ctx_origin_rank b \<and>
     ctx_requested_n a = ctx_requested_n b \<and> ctx_batch a = ctx_batch b \<and>
     ctx_maca_3d_c2c32_single_cube a = ctx_maca_3d_c2c32_single_cube b \<and>
     ctx_ix_short_single a = ctx_ix_short_single b \<and> ctx_ix_ct_batch a = ctx_ix_ct_batch b \<and>
     ctx_max_dynamic_smem_bytes a = ctx_max_dynamic_smem_bytes b"

definition make_request_context :: "plan_cfg \<Rightarrow> fft_request \<Rightarrow> exn + request_ctx" where
  "make_request_context cfg r =
     (case (if req_requested_n r = 1024 then ix_ct_single_policy_enabled (cfg_env cfg) r else Inr False) of
        Inl e \<Rightarrow> Inl e
      | Inr short_single \<Rightarrow>
          (case ix_ct_batch_policy_enabled (cfg_env cfg) r of
             Inl e \<Rightarrow> Inl e
           | Inr ct_batch \<Rightarrow> Inr
               \<lparr>ctx_input_dtype = req_input_dtype r, ctx_output_dtype = req_output_dtype r,
                ctx_real_transform_kind = req_real_transform_kind r,
                ctx_origin_real_transform_kind = req_origin_real_transform_kind r,
                ctx_device_type = req_device_type r, ctx_device_index = req_device_index r,
                ctx_device_arch = req_device_arch r, ctx_origin_rank = req_origin_rank r,
                ctx_requested_n = req_requested_n r, ctx_batch = req_batch r,
                ctx_maca_3d_c2c32_single_cube = req_maca_3d_c2c32_single_cube r,
                ctx_ix_short_single = short_single, ctx_ix_ct_batch = ct_batch,
                ctx_max_dynamic_smem_bytes =
                  (if req_device_type r = cfg_backend_name cfg
                   then cfg_max_dynamic_smem_bytes cfg (req_device_index r)
                   else kDynamicSmemFallbackBytes)\<rparr>))"

definition set_request_context :: "plan_cfg \<Rightarrow> fft_request \<Rightarrow> (builder, unit) m" where
  "set_request_context cfg r =
     mbind (mlift (make_request_context cfg r)) (\<lambda>next.
     mbind mget (\<lambda>b.
       if (case b_request_context b of Some c \<Rightarrow> request_ctx_eq c next | None \<Rightarrow> False) then mret ()
       else mmodify (\<lambda>b. b\<lparr>b_request_context := Some next, b_node_cache := (\<lambda>_. None),
              b_cost_cache := (\<lambda>_. None), b_tune_candidate_cache := (\<lambda>_. None)\<rparr>)))"

definition request_context :: "(builder, request_ctx) m" where
  "request_context =
     mbind mget (\<lambda>b. case b_request_context b of
       None \<Rightarrow> runtime_error ''PlanBuilder request context is not initialized''
     | Some c \<Rightarrow> mret c)"

section \<open>Factorization into supported radices\<close>

function factorize_loop :: "int \<Rightarrow> int list \<Rightarrow> factorization" where
  "factorize_loop rm acc =
     (if 1 < rm then
        (case find (\<lambda>radix. 1 < radix \<and> rm mod radix = 0) kSupportedRadices of
           Some radix \<Rightarrow> factorize_loop (rm div radix) (acc @ [radix])
         | None \<Rightarrow> \<lparr>fz_factors = acc, fz_remainder = rm\<rparr>)
      else \<lparr>fz_factors = acc, fz_remainder = rm\<rparr>)"
  by pat_completeness auto
termination
  by (relation "measure (\<lambda>(rm, acc). nat rm)") (auto simp: find_Some_iff int_div_less_self)

declare factorize_loop.simps [simp del]

definition factorize_supported_radices :: "int \<Rightarrow> exn + factorization" where
  "factorize_supported_radices n =
     (if n \<le> 0 then Inl (StdException ''FFT length must be positive'') else Inr (factorize_loop n []))"

text \<open>
  \<open>enumerate_supported_factorizations\<close>, memoised: the recursion returns the result and the updated
  cache. The guard \<open>0 < n\<close> holds at every call.
\<close>

type_synonym factorization_cache = "int \<Rightarrow> int list list option"

function (sequential) enumerate_factorizations ::
    "int \<Rightarrow> factorization_cache \<Rightarrow> int list list \<times> factorization_cache"
  and enumerate_radices ::
    "int list \<Rightarrow> int \<Rightarrow> int list list \<Rightarrow> factorization_cache \<Rightarrow> int list list \<times> factorization_cache"
where
  "enumerate_factorizations n cache =
     (case cache n of
        Some r \<Rightarrow> (r, cache)
      | None \<Rightarrow>
          (case enumerate_radices kSupportedRadices n [] cache of
             (found, cache') \<Rightarrow>
               (let result = remdups_adj (sort found) in (result, cache'(n \<mapsto> result)))))"
| "enumerate_radices [] n result cache = (result, cache)"
| "enumerate_radices (radix # radices) n result cache =
     (if \<not> (1 < radix \<and> 0 < n) \<or> n mod radix \<noteq> 0 then enumerate_radices radices n result cache
      else if n = radix then enumerate_radices radices n (result @ [[radix]]) cache
      else case enumerate_factorizations (n div radix) cache of
             (tails, cache') \<Rightarrow>
               enumerate_radices radices n (result @ map (\<lambda>tail. radix # tail) tails) cache')"
  by pat_completeness auto
termination
  by (relation "measures [\<lambda>x. case x of Inl (n, c) \<Rightarrow> nat n | Inr (rs, n, r, c) \<Rightarrow> nat n,
        \<lambda>x. case x of Inl (n, c) \<Rightarrow> Suc (length kSupportedRadices) | Inr (rs, n, r, c) \<Rightarrow> length rs]")
    (auto simp: int_div_less_self)

declare enumerate_factorizations.simps [simp del]

definition enumerate_supported_factorizations :: "int \<Rightarrow> (builder, int list list) m" where
  "enumerate_supported_factorizations n =
     (\<lambda>b. case enumerate_factorizations n (b_factorization_cache b) of
            (result, cache) \<Rightarrow> (Inr result, b\<lparr>b_factorization_cache := cache\<rparr>))"

definition factorize_or_raise :: "int \<Rightarrow> exn + int list" where
  "factorize_or_raise n =
     (case factorize_supported_radices n of
        Inl e \<Rightarrow> Inl e
      | Inr fz \<Rightarrow>
          if fz_remainder fz \<noteq> 1 then
            Inl (StdException (''length '' @ show_int n @
              '' is not fully factorable by supported radices, remainder='' @ show_int (fz_remainder fz)))
          else if fz_factors fz = [] then Inl (StdException ''at least one radix stage is required'')
          else Inr (fz_factors fz))"

section \<open>Lanes and warps\<close>

function largest_divisor :: "int \<Rightarrow> int \<Rightarrow> int" where
  "largest_divisor codelets candidate =
     (if 0 < candidate then
        (if codelets mod candidate = 0 then candidate else largest_divisor codelets (candidate - 1))
      else 1)"
  by pat_completeness auto
termination
  by (relation "measure (\<lambda>(t, c). nat c)") auto

declare largest_divisor.simps [simp del]

definition choose_lanes :: "builder \<Rightarrow> int \<Rightarrow> int list \<Rightarrow> int" where
  "choose_lanes b n factors =
     (let gcd_all = foldl (\<lambda>g f. gcd g (n div f)) (n div hd factors) (tl factors);
          ix_wide_4096 = (case b_request_context b of
            None \<Rightarrow> False
          | Some c \<Rightarrow> ctx_device_type c = ''ix'' \<and> ctx_batch c = 1 \<and> ctx_input_dtype c = ''complex64'' \<and>
                      ctx_output_dtype c = ''complex64'' \<and> n = 4096);
          upper = min gcd_all (if ix_wide_4096 then 256 else kMaxLanes)
      in largest_divisor gcd_all upper)"

function double_until :: "int \<Rightarrow> int \<Rightarrow> int" where
  "double_until warps choice = (if 0 < choice \<and> choice < warps then double_until warps (choice * 2) else choice)"
  by pat_completeness auto
termination
  by (relation "measure (\<lambda>(w, c). nat (w - c))") auto

declare double_until.simps [simp del]

definition choose_num_warps :: "builder \<Rightarrow> int \<Rightarrow> int" where
  "choose_num_warps b lanes =
     (let is_maca = (case b_request_context b of None \<Rightarrow> False | Some c \<Rightarrow> ctx_device_type c = ''maca'');
          warp_size = (if is_maca then 64 else 32);
          warps = max 1 (ceil_div (lane_block_for lanes) warp_size)
      in min (double_until warps (if is_maca then 2 else 1)) 8)"

section \<open>Leaf resources\<close>

definition leaf_smem_elements :: "int \<Rightarrow> int list \<Rightarrow> string \<Rightarrow> int option" where
  "leaf_smem_elements n factors input_dtype =
     (if input_dtype \<noteq> ''complex64'' \<and> input_dtype \<noteq> ''float32'' \<and> input_dtype \<noteq> ''complex128'' \<and>
         input_dtype \<noteq> ''float64'' then None
      else if length factors \<le> 1 then Some 0
      else Some (ceil_power_of_two n))"

definition leaf_smem_bytes :: "int \<Rightarrow> int list \<Rightarrow> string \<Rightarrow> int option" where
  "leaf_smem_bytes n factors input_dtype =
     (case leaf_smem_elements n factors input_dtype of
        None \<Rightarrow> None
      | Some elements \<Rightarrow>
          Some (4 * elements * (if input_dtype = ''complex128'' \<or> input_dtype = ''float64'' then 8 else 4)))"

definition should_use_leaf :: "int \<Rightarrow> int list \<Rightarrow> (builder, bool) m" where
  "should_use_leaf n factors =
     mbind request_context (\<lambda>context.
       mret (n \<le> kLeafMaxN \<and>
             (case leaf_smem_bytes n factors (ctx_input_dtype context) of
                None \<Rightarrow> False
              | Some bytes \<Rightarrow> bytes \<le> ctx_max_dynamic_smem_bytes context)))"

definition generic_radix :: "int \<Rightarrow> bool" where
  "generic_radix radix \<longleftrightarrow>
     \<not> contains kSpecializedButterflyRadices radix \<and> \<not> contains kSpecializedDirectCodeletRadices radix"

definition make_leaf_plan :: "int \<Rightarrow> int list \<Rightarrow> int \<Rightarrow> (builder, plan_node) m" where
  "make_leaf_plan n factors rm =
     mbind request_context (\<lambda>context.
       case leaf_smem_elements n factors (ctx_input_dtype context) of
         None \<Rightarrow> runtime_error ''ct_leaf shared-memory planner currently supports only float32/complex64 and float64/complex128 inputs''
       | Some smem_elements \<Rightarrow>
           mbind mget (\<lambda>b.
             let lanes = choose_lanes b n factors;
                 execution_lanes = (if ctx_device_type context = ''maca''
                   then foldl (\<lambda>acc radix. max acc (n div radix)) lanes factors else lanes);
                 generic_radices = foldl (\<lambda>acc radix.
                   if generic_radix radix \<and> radix \<notin> set acc then acc @ [radix] else acc) [] factors
             in mret (LeafPlanNode n factors rm lanes (choose_num_warps b execution_lanes)
                        (sort generic_radices) smem_elements)))"

section \<open>The leaf cost\<close>

definition kGeneratedCompositeRadices :: "int list" where
  "kGeneratedCompositeRadices = [18, 20, 24, 25, 27, 28, 30, 32]"

definition estimated_stage_lanes :: "int \<Rightarrow> int list \<Rightarrow> int \<Rightarrow> bool \<Rightarrow> int list" where
  "estimated_stage_lanes n factors base_lanes is_double =
     (let fixed_ok = list_all (\<lambda>radix. (n div radix) mod base_lanes = 0) factors
      in if n < 128 \<or> 4096 < n \<or> length factors < 2 \<or> (32 < base_lanes \<and> fixed_ok)
         then replicate (length factors) base_lanes
         else let result = map (\<lambda>radix. largest_divisor (n div radix) (min (n div radix) 128)) factors
              in if \<not> is_double \<and> fixed_ok \<and> Min (set result) * 4 < Max (set result)
                 then replicate (length factors) base_lanes
                 else result)"

definition estimate_leaf_warm_cost_factors :: "int \<Rightarrow> int list \<Rightarrow> (builder, double) m" where
  "estimate_leaf_warm_cost_factors n factors =
     mbind request_context (\<lambda>context.
     mbind mget (\<lambda>b.
       let lanes = choose_lanes b n factors;
           is_double = (ctx_input_dtype context = ''complex128'' \<or> ctx_input_dtype context = ''float64'');
           stage_lanes = (if ctx_device_type context = ''maca'' then map (\<lambda>radix. n div radix) factors
             else estimated_stage_lanes n factors lanes is_double);
           warps = choose_num_warps b (Max (set stage_lanes));
           base = foldl (\<lambda>acc count. dadd acc (ddiv (dint (n * warps)) (dint count))) 0 stage_lanes;
           generic_stage_count = int (length (filter generic_radix factors));
           shared_bytes = 4 * ceil_power_of_two n * (if is_double then 8 else 4);
           shared_pressure = dmax 1 (ddiv (dint shared_bytes) (dint (64 * 1024)))
       in mret (dmul (dadd base (dint (generic_stage_count * n))) shared_pressure)))"

definition score_leaf_factorization :: "int \<Rightarrow> int list \<Rightarrow> (builder, int list) m" where
  "score_leaf_factorization n factors =
     mbind (estimate_leaf_warm_cost_factors n factors) (\<lambda>cost.
     mbind mget (\<lambda>b.
       let lanes = choose_lanes b n factors
       in mret ([- llround (dmul cost 1024), - int (length factors), lanes, - lane_block_for lanes,
                 - int (length (filter generic_radix factors))] @ factors)))"

section \<open>Choice of the leaf factors\<close>

text \<open>
  \<open>select_leaf_factors\<close> first tries a sequence of measured overrides: each gives a factor list,
  falls through (\<open>Inr None\<close>), or rejects the value of its variable.
\<close>

type_synonym override = "exn + int list option"

fun first_override :: "override list \<Rightarrow> override" where
  "first_override [] = Inr None"
| "first_override (Inr None # rest) = first_override rest"
| "first_override (r # rest) = r"

text \<open>A table of accepted texts and the factors each selects.\<close>

fun choose_from :: "(string \<times> int list) list \<Rightarrow> string \<Rightarrow> int list option" where
  "choose_from [] choice = None"
| "choose_from ((t, fs) # rest) choice = (if choice = t then Some fs else choose_from rest choice)"

definition hcu_256_override :: "env \<Rightarrow> request_ctx \<Rightarrow> int \<Rightarrow> override" where
  "hcu_256_override env c n =
     (if ctx_device_type c = ''hcu'' \<and> ctx_origin_rank c = 3 \<and> n = 256 then
        (case env ''FLAGFFT_HCU_3D_256_FACTORS'' of
           None \<Rightarrow> Inr None
         | Some choice \<Rightarrow>
             (case choose_from [(''auto'', [16, 16]), (''16,16'', [16, 16]), (''8,8,4'', [8, 8, 4]),
                  (''4,8,8'', [4, 8, 8]), (''8,4,8'', [8, 4, 8]), (''4,16,4'', [4, 16, 4]),
                  (''4,4,4,4'', [4, 4, 4, 4])] choice of
                Some fs \<Rightarrow> Inr (Some fs)
              | None \<Rightarrow> Inl (StdException ''FLAGFFT_HCU_3D_256_FACTORS must be auto, 16,16, 8,8,4, 4,8,8, 8,4,8, 4,16,4 or 4,4,4,4'')))
      else Inr None)"

definition hcu_128_override :: "env \<Rightarrow> request_ctx \<Rightarrow> int \<Rightarrow> override" where
  "hcu_128_override env c n =
     (if ctx_device_type c = ''hcu'' \<and> ctx_origin_rank c = 3 \<and> n = 128 then
        (case env ''FLAGFFT_HCU_3D_128_FACTORS'' of
           None \<Rightarrow> Inr None
         | Some choice \<Rightarrow>
             (case choose_from [(''4,4,8'', [4, 4, 8]), (''4,8,4'', [4, 8, 4]), (''8,8,2'', [8, 8, 2]),
                  (''16,8'', [16, 8]), (''8,16'', [8, 16])] choice of
                Some fs \<Rightarrow> Inr (Some fs)
              | None \<Rightarrow> if choice \<noteq> ''auto'' then
                  Inl (StdException ''FLAGFFT_HCU_3D_128_FACTORS must be auto, 4,4,8, 4,8,4, 8,8,2, 16,8 or 8,16'')
                  else Inr None))
      else Inr None)"

definition factors_2048_setting :: "string option \<Rightarrow> bool" where
  "factors_2048_setting v \<longleftrightarrow>
     v = None \<or> v \<in> {Some ''auto'', Some ''16,16,8'', Some ''8,16,16'', Some ''16,8,16''}"

definition hcu_2048_override :: "env \<Rightarrow> request_ctx \<Rightarrow> int \<Rightarrow> override" where
  "hcu_2048_override env c n =
     (if ctx_device_type c = ''hcu'' \<and> ctx_origin_rank c = 3 \<and> n = 2048 then
        (let origin = ctx_origin_real_transform_kind c;
             fp64_axis = (ctx_input_dtype c = ''complex128'' \<and> ctx_requested_n c = n);
             c2r_fp64 = ((origin = ''c2r'' \<or> origin = ''z2d'') \<and> fp64_axis);
             r2c_fp64 = ((origin = ''r2c'' \<or> origin = ''d2z'') \<and> fp64_axis);
             c2r_override = (if c2r_fp64 then env ''FLAGFFT_HCU_3D_C2R_FP64_2048_FACTORS'' else None);
             r2c_override = (if r2c_fp64 then env ''FLAGFFT_HCU_3D_R2C_FP64_2048_FACTORS'' else None);
             fp64_override = (if r2c_override \<noteq> None then r2c_override else c2r_override);
             override_value = (if fp64_override \<noteq> None then fp64_override
               else env ''FLAGFFT_HCU_3D_2048_FACTORS'')
         in if \<not> factors_2048_setting c2r_override then
              Inl (StdException ''FLAGFFT_HCU_3D_C2R_FP64_2048_FACTORS must be auto, 16,16,8, 8,16,16 or 16,8,16'')
            else if \<not> factors_2048_setting r2c_override then
              Inl (StdException ''FLAGFFT_HCU_3D_R2C_FP64_2048_FACTORS must be auto, 16,16,8, 8,16,16 or 16,8,16'')
            else let choice = (case override_value of
                       None \<Rightarrow> if c2r_fp64 \<or> r2c_fp64 then ''8,16,16'' else ''auto''
                     | Some v \<Rightarrow> v)
              in if choice = ''8,16,16'' then Inr (Some [8, 16, 16])
                 else if choice = ''16,8,16'' then Inr (Some [16, 8, 16])
                 else if choice = ''auto'' \<and> (ctx_real_transform_kind c = ''r2c'' \<or> ctx_real_transform_kind c = ''c2r'')
                 then Inr (Some [8, 16, 16])
                 else if choice \<noteq> ''auto'' \<and> choice \<noteq> ''16,16,8'' then
                   Inl (StdException ''FLAGFFT_HCU_3D_2048_FACTORS must be auto, 16,16,8, 8,16,16 or 16,8,16'')
                 else Inr None)
      else Inr None)"

definition maca_musa_override :: "env \<Rightarrow> request_ctx \<Rightarrow> int \<Rightarrow> override" where
  "maca_musa_override env c n =
     (if ctx_maca_3d_c2c32_single_cube c \<and> n = 32 then
        (case env ''FLAGFFT_MACA_3D_C2C32_MORE_LANES'' of
           None \<Rightarrow> Inr (Some [4, 4, 2])
         | Some v \<Rightarrow> if v = ''0'' then Inr (Some [32])
             else if v \<noteq> ''1'' then Inl (StdException ''FLAGFFT_MACA_3D_C2C32_MORE_LANES must be 0 or 1'')
             else Inr (Some [4, 4, 2]))
      else if ctx_device_type c = ''maca'' \<and> ctx_origin_rank c = 3 \<and> ctx_device_arch c = ''102'' \<and>
         n = 2048 \<and> ctx_requested_n c = n then Inr (Some [16, 8, 16])
      else if (ctx_device_type c = ''musa'' \<or> ctx_device_type c = ''hcu'') \<and> ctx_origin_rank c = 3 \<and> n = 32
      then Inr (Some [4, 8])
      else Inr None)"

definition ix_override :: "env \<Rightarrow> request_ctx \<Rightarrow> int \<Rightarrow> override" where
  "ix_override env c n =
     (let ix_3d = (ctx_device_type c = ''ix'' \<and> ctx_device_arch c = ''71'' \<and> ctx_origin_rank c = 3 \<and>
            ctx_input_dtype c = ''complex64'');
          v32 = env ''FLAGFFT_IX_3D_32_FACTORS''; v64 = env ''FLAGFFT_IX_3D_64_FACTORS'';
          v128 = env ''FLAGFFT_IX_3D_128_FACTORS''; v256 = env ''FLAGFFT_IX_3D_256_FACTORS'';
          v2048 = env ''FLAGFFT_IX_3D_2048_FACTORS'';
          real_batch = (ctx_device_type c = ''ix'' \<and> ctx_device_arch c = ''71'' \<and>
            ctx_origin_rank c \<le> 1 \<and> ctx_requested_n c = n \<and> ctx_batch c = 64 \<and>
            ctx_input_dtype c = ''complex64'' \<and> ctx_output_dtype c = ''complex64'' \<and>
            (ctx_real_transform_kind c = ''r2c'' \<or> ctx_real_transform_kind c = ''c2r''))
      in if ix_3d \<and> n = 32 \<and> (v32 = None \<or> v32 = Some ''1'') then Inr (Some [4, 8])
         else if ix_3d \<and> n = 64 \<and> v64 = Some ''8x8'' then Inr (Some [8, 8])
         else if ix_3d \<and> n = 128 \<and> v128 = Some ''8x16'' then Inr (Some [8, 16])
         else if ix_3d \<and> n = 128 \<and> (v128 = None \<or> v128 = Some ''16x8'') then Inr (Some [16, 8])
         else if ix_3d \<and> n = 256 \<and> v256 = Some ''8x8x4'' then Inr (Some [8, 8, 4])
         else if ix_3d \<and> n = 256 \<and> v256 = Some ''4x4x4x4'' then Inr (Some [4, 4, 4, 4])
         else if ix_3d \<and> n = 2048 \<and> v2048 = Some ''16x8x16'' then Inr (Some [16, 8, 16])
         else if real_batch \<and> n = 1024 then Inr (Some [8, 4, 8, 4])
         else if real_batch \<and> n = 2048 then Inr (Some [16, 8, 16])
         else if ctx_ix_ct_batch c \<and> ctx_requested_n c = n \<and> n = 2048 \<and> ctx_real_transform_kind c = ''''
         then Inr (Some [16, 8, 16])
         else if ctx_ix_short_single c \<and> n = 1024 then Inr (Some [16, 8, 8])
         else if ctx_ix_ct_batch c \<and> ctx_requested_n c = n \<and> n = 1024 then Inr (Some [8, 8, 4, 4])
         else Inr None)"

definition hcu_short_override :: "env \<Rightarrow> request_ctx \<Rightarrow> int \<Rightarrow> override" where
  "hcu_short_override env c n =
     (if ctx_device_type c = ''hcu'' \<and> (ctx_origin_rank c \<le> 1 \<or> ctx_origin_rank c = 3) \<and>
         ctx_requested_n c = n \<and> n = 16 then
        (if ctx_origin_rank c = 3 then
           (case env ''FLAGFFT_HCU_3D_16_FACTORS'' of
              Some choice \<Rightarrow>
                (case choose_from [(''4,4'', [4, 4]), (''2,2,2,2'', [2, 2, 2, 2]), (''4,2,2'', [4, 2, 2]),
                     (''2,2,4'', [2, 2, 4]), (''2,8'', [2, 8]), (''8,2'', [8, 2])] choice of
                   Some fs \<Rightarrow> Inr (Some fs)
                 | None \<Rightarrow> if choice \<noteq> ''16'' then
                     Inl (StdException ''FLAGFFT_HCU_3D_16_FACTORS must be 16, 4,4, 2,2,2,2, 4,2,2, 2,2,4, 2,8 or 8,2'')
                     else Inr (Some [16]))
            | None \<Rightarrow> if 10000 \<le> ctx_batch c then Inr (Some [4, 4]) else Inr (Some [16]))
         else Inr (Some [16]))
      else if ctx_device_type c = ''hcu'' \<and> ctx_origin_rank c \<le> 1 \<and> ctx_requested_n c = n \<and>
         n = 1024 \<and> ctx_batch c = 64 then Inr (Some [16, 8, 8])
      else Inr None)"

definition leaf_override :: "env \<Rightarrow> request_ctx \<Rightarrow> int \<Rightarrow> override" where
  "leaf_override env c n =
     first_override [hcu_256_override env c n, hcu_128_override env c n, hcu_2048_override env c n,
       maca_musa_override env c n, ix_override env c n, hcu_short_override env c n]"

text \<open>The remaining cases are cached by length.\<close>

definition remember_leaf_factors :: "int \<Rightarrow> int list \<Rightarrow> (builder, int list) m" where
  "remember_leaf_factors n fs =
     mbind (mmodify (\<lambda>b. b\<lparr>b_best_leaf_factors_cache := (b_best_leaf_factors_cache b)(n \<mapsto> fs)\<rparr>))
       (\<lambda>_. mret fs)"

definition best_scored :: "int \<Rightarrow> int list list \<Rightarrow> (builder, int list) m" where
  "best_scored n candidates =
     mbind (score_leaf_factorization n (hd candidates)) (\<lambda>score0.
     mbind (mfold (\<lambda>candidate best.
         mbind (score_leaf_factorization n candidate) (\<lambda>score.
           mret (if snd best < score then (candidate, score) else best)))
       candidates (hd candidates, score0)) (\<lambda>best.
       mret (fst best)))"

definition select_leaf_factors :: "plan_cfg \<Rightarrow> int \<Rightarrow> (builder, int list) m" where
  "select_leaf_factors cfg n =
     mbind request_context (\<lambda>context.
     mbind (mlift (leaf_override (cfg_env cfg) context n)) (\<lambda>measured.
       case measured of
         Some fs \<Rightarrow> mret fs
       | None \<Rightarrow>
           mbind mget (\<lambda>b.
             case b_best_leaf_factors_cache b n of
               Some fs \<Rightarrow> mret fs
             | None \<Rightarrow>
                 if ctx_device_type context = ''maca'' \<and> contains kSupportedRadices n
                 then remember_leaf_factors n [n]
                 else if ctx_device_type context \<noteq> ''maca'' \<and> ctx_batch context = 1 \<and>
                   b_parallel_leaf_heuristic_enabled b \<and> n = 256
                 then remember_leaf_factors n [4, 4, 4, 4]
                 else if ctx_device_type context \<noteq> ''maca'' \<and> ctx_batch context = 1 \<and>
                   b_parallel_leaf_heuristic_enabled b \<and> n = 1024
                 then remember_leaf_factors n [8, 8, 4, 4]
                 else mbind (enumerate_supported_factorizations n) (\<lambda>candidates.
                      mbind (if candidates = [] then mlift (factorize_or_raise n)
                             else best_scored n candidates) (\<lambda>best.
                        remember_leaf_factors n best)))))"

definition estimate_leaf_warm_cost :: "plan_cfg \<Rightarrow> int \<Rightarrow> (builder, double) m" where
  "estimate_leaf_warm_cost cfg n =
     mbind (select_leaf_factors cfg n) (\<lambda>factors. estimate_leaf_warm_cost_factors n factors)"

end
