(* ===== verification/FFT_Planner.thy ===== *)
theory FFT_Planner
  imports FFT_Builder
begin

text \<open>
  The automatic planner: \<open>src/src/plan/auto_candidates.cpp\<close>, the composite costs of
  \<open>src/src/plan/cost_model.cpp\<close>, \<open>src/src/plan/tune_candidates.cpp\<close>, and \<open>PlanBuilder::build\<close> and
  \<open>cost_for\<close> of \<open>src/src/plan/builder_context.cpp\<close>.

  \<open>build_auto_node\<close>, \<open>cost_for\<close> and \<open>build_auto_candidates\<close> call each other. Each member function is
  written once, with the two functions it calls back as the arguments \<open>rn\<close> (\<open>build_auto_node\<close>) and
  \<open>rc\<close> (\<open>cost_for\<close>); \<open>build_auto_node_fuel\<close> and \<open>cost_for_fuel\<close> tie the knot on a recursion depth,
  and \<open>plan_fuel\<close> is a depth that is enough for every length. Operands that C++ may
  evaluate in any order are evaluated from left to right.
\<close>

section \<open>Text to integer\<close>

text \<open>\<open>std::stoll\<close> in base ten: blanks, a sign, digits; the value and the number of characters read.\<close>

definition is_blank :: "char \<Rightarrow> bool" where
  "is_blank ch \<longleftrightarrow> ch \<in> {CHR '' '', CHR 0x09, CHR 0x0A, CHR 0x0B, CHR 0x0C, CHR 0x0D}"

definition stoll :: "string \<Rightarrow> exn + (int \<times> nat)" where
  "stoll text =
     (let blanks = takeWhile is_blank text; rest = dropWhile is_blank text;
          signed = (rest \<noteq> [] \<and> (hd rest = CHR ''-'' \<or> hd rest = CHR ''+''));
          digits = takeWhile is_digit_char (if signed then tl rest else rest);
          magnitude = int (digits_value digits);
          v = (if signed \<and> hd rest = CHR ''-'' then - magnitude else magnitude)
      in if digits = [] \<or> v < - (2 ^ 63) \<or> 2 ^ 63 \<le> v then Inl (StdException ''stoll'')
         else Inr (v, length blanks + (if signed then 1 else 0) + length digits))"

text \<open>A text \<open><length>:<n1>\<close>, as the split variables carry it.\<close>

definition parse_split :: "string \<Rightarrow> string \<Rightarrow> exn + (int \<times> int)" where
  "parse_split name spec =
     (let bad = Inl (StdException (name @ '' must be <length>:<n1>''));
          prefix = takeWhile (\<lambda>ch. ch \<noteq> CHR '':'') spec
      in if CHR '':'' \<notin> set spec then bad
         else case stoll prefix of
                Inl e \<Rightarrow> Inl e
              | Inr (target_length, parsed) \<Rightarrow>
                  if parsed \<noteq> length prefix then bad
                  else let n1_text = drop (length prefix + 1) spec in
                    (case stoll n1_text of
                       Inl e \<Rightarrow> Inl e
                     | Inr (n1, parsed) \<Rightarrow> if parsed \<noteq> length n1_text then bad else Inr (target_length, n1)))"

text \<open>A variable that must be zero or one when it is set.\<close>

definition setting_01 :: "env \<Rightarrow> string \<Rightarrow> exn + bool" where
  "setting_01 env name =
     (if env name \<noteq> None \<and> env name \<noteq> Some ''0'' \<and> env name \<noteq> Some ''1'' then
        Inl (StdException (name @ '' must be 0 or 1''))
      else Inr (env name = Some ''1''))"

section \<open>Costs\<close>

type_synonym node_call = "int \<Rightarrow> bool \<Rightarrow> (builder, plan_node) m"
type_synonym cost_call = "int \<Rightarrow> (builder, double) m"

definition dabs :: "double \<Rightarrow> double" where
  "dabs x = (if x < 0 then - x else x)"

definition log_balance :: "plan_cfg \<Rightarrow> int \<Rightarrow> int \<Rightarrow> double" where
  "log_balance cfg a b = dabs (dsub (cfg_log cfg (dint a)) (cfg_log cfg (dint b)))"

fun priority :: "plan_node \<Rightarrow> int" where
  "priority (LeafPlanNode n fs rm lanes warps generic smem) = 0"
| "priority (FourStepPlanNode n n1 n2 row col) = 1"
| "priority (StockhamPlanNode n fs) = 2"
| "priority (BluesteinPlanNode n conv_length fft_plan) = 3"
| "priority (RaderPlanNode prime g idx conv_plan) = 3"
| "priority (DirectDFTPlanNode n) = 4"
| "priority (TwoDimPlanNode n0 n1 strategy row col) = 5"
| "priority (ThreeDimPlanNode n0 n1 n2 strategy p2 p1 p0) = 99"

definition candidate :: "plan_node \<Rightarrow> double \<Rightarrow> plan_candidate" where
  "candidate node cost = \<lparr>cand_node = node, cand_cost = cost, cand_priority = priority node\<rparr>"

definition estimate_direct_dft_cost :: "int \<Rightarrow> double" where
  "estimate_direct_dft_cost n = dint (n * n)"

definition measured_small_batch_four_step_n1 :: "int \<Rightarrow> int \<Rightarrow> string \<Rightarrow> int" where
  "measured_small_batch_four_step_n1 n batch device_arch =
     (if device_arch \<noteq> ''sm_80'' then 0
      else if n = 8192 \<and> 1 < batch then 128
      else if n = 16384 then 256
      else if n = 2 ^ 20 then 1024
      else 0)"

definition measured_large_batch_four_step_n1 :: "int \<Rightarrow> string \<Rightarrow> string \<Rightarrow> int" where
  "measured_large_batch_four_step_n1 n dtype device_arch =
     (let is_double = (dtype = ''complex128'' \<or> dtype = ''float64'')
      in if device_arch \<noteq> ''sm_80'' then 0
         else if n = 8192 then (if is_double then 256 else 128)
         else if n = 16384 then (if is_double then 512 else 256)
         else if n = 2 ^ 20 then 1024
         else 0)"

definition is_warp_aligned_generated_composite_leaf :: "int list \<Rightarrow> bool" where
  "is_warp_aligned_generated_composite_leaf factors \<longleftrightarrow>
     32 \<in> set factors \<and> list_all (\<lambda>radix. radix \<in> set kGeneratedCompositeRadices) factors"

text \<open>The two corrections of the four-step cost: wide double-precision rows, and measured splits.\<close>

definition double_row_penalty :: "plan_cfg \<Rightarrow> request_ctx \<Rightarrow> int \<Rightarrow> int \<Rightarrow> double \<Rightarrow> (builder, double) m" where
  "double_row_penalty cfg context n n1 cost =
     (if ctx_input_dtype context = ''complex128'' \<or> ctx_input_dtype context = ''float64'' then
        mbind (select_leaf_factors cfg n1) (\<lambda>row_factors.
          if is_warp_aligned_generated_composite_leaf row_factors then mret cost
          else let row_pack_tiers = dmax 0 (dsub (ddiv (dint (ceil_power_of_two n1)) (dint 512)) 1)
               in mret (dadd cost (dmul (dmul (dint n) row_pack_tiers) (1 / 4))))
      else mret cost)"

definition measured_split_penalty :: "request_ctx \<Rightarrow> int \<Rightarrow> int \<Rightarrow> double \<Rightarrow> double" where
  "measured_split_penalty context n n1 cost =
     (let preferred_n1 =
            (if ctx_batch context \<le> 8
             then measured_small_batch_four_step_n1 n (ctx_batch context) (ctx_device_arch context)
             else if 65 \<le> ctx_batch context
             then measured_large_batch_four_step_n1 n (ctx_input_dtype context) (ctx_device_arch context)
             else 0)
      in if 0 < preferred_n1 \<and> n1 \<noteq> preferred_n1 then dadd cost (dmul (dint n) 100) else cost)"

definition four_step_cost :: "plan_cfg \<Rightarrow> cost_call \<Rightarrow> int \<Rightarrow> int \<Rightarrow> (builder, double) m" where
  "four_step_cost cfg rc n1 n2 =
     mbind (rc n1) (\<lambda>row_cost.
     mbind (rc n2) (\<lambda>col_cost.
     mbind request_context (\<lambda>context.
     mbind (double_row_penalty cfg context (n1 * n2) n1
              (dadd (dadd (dmul (dint n2) row_cost) (dmul (dint n1) col_cost)) (dint (n1 * n2)))) (\<lambda>cost.
       mret (measured_split_penalty context (n1 * n2) n1 cost)))))"

definition bluestein_cost :: "cost_call \<Rightarrow> int \<Rightarrow> int \<Rightarrow> (builder, double) m" where
  "bluestein_cost rc n conv_length =
     mbind (rc conv_length) (\<lambda>x. mret (dadd (dmul 3 x) (dint (n + conv_length))))"

definition rader_cost :: "cost_call \<Rightarrow> int \<Rightarrow> (builder, double) m" where
  "rader_cost rc n =
     mbind (rc (n - 1)) (\<lambda>x. mret (dadd (dmul 3 x) (dint (n + 3 * (n - 1)))))"

section \<open>Divisors\<close>

definition divisor_pairs_upto :: "int \<Rightarrow> int \<Rightarrow> int list" where
  "divisor_pairs_upto n limit =
     concat (map (\<lambda>d. if n mod d \<noteq> 0 then [] else if n div d \<noteq> d then [d, n div d] else [d]) [1..limit])"

definition enumerate_divisors :: "int \<Rightarrow> (builder, int list) m" where
  "enumerate_divisors n =
     mbind mget (\<lambda>b.
       case b_divisor_cache b n of
         Some ds \<Rightarrow> mret ds
       | None \<Rightarrow>
           (let divisors = sort (divisor_pairs_upto n (sqrt_trunc n))
            in mbind (mmodify (\<lambda>b. b\<lparr>b_divisor_cache := (b_divisor_cache b)(n \<mapsto> divisors)\<rparr>))
                 (\<lambda>_. mret divisors)))"

section \<open>Convolution lengths\<close>

function multiples_upto :: "int \<Rightarrow> int \<Rightarrow> int \<Rightarrow> int list" where
  "multiples_upto prime pw cnd =
     (if 1 < prime \<and> 0 < cnd \<and> cnd \<le> pw div prime
      then (cnd * prime) # multiples_upto prime pw (cnd * prime)
      else [])"
  by pat_completeness auto
termination
proof (relation "measure (\<lambda>(p, w, c). nat (w - c))", simp)
  fix prime pw cnd :: int
  assume a: "1 < prime \<and> 0 < cnd \<and> cnd \<le> pw div prime"
  then have "cnd * prime \<le> pw"
    by (smt (verit) minus_mod_eq_div_mult mult_right_mono pos_mod_sign)
  moreover have "cnd < cnd * prime" using a by simp
  ultimately show "((prime, pw, cnd * prime), prime, pw, cnd) \<in> measure (\<lambda>(p, w, c). nat (w - c))"
    by simp
qed

declare multiples_upto.simps [simp del]

definition small_prime_lengths :: "int \<Rightarrow> int list" where
  "small_prime_lengths pw =
     foldl (\<lambda>candidates prime. candidates @ concat (map (multiples_upto prime pw) candidates)) [1] [2, 3, 5, 7]"

definition supported_length :: "int \<Rightarrow> bool" where
  "supported_length n \<longleftrightarrow>
     (case factorize_supported_radices n of
        Inl e \<Rightarrow> False
      | Inr fz \<Rightarrow> fz_remainder fz = 1 \<and> fz_factors fz \<noteq> [])"

text \<open>\<open>3.0 * cost_for(length) + length\<close>, the cost both searches compare.\<close>

definition convolution_cost :: "cost_call \<Rightarrow> int \<Rightarrow> (builder, double) m" where
  "convolution_cost rc len = mbind (rc len) (\<lambda>x. mret (dadd (dmul 3 x) (dint len)))"

definition consider_length :: "cost_call \<Rightarrow> int \<Rightarrow> int \<times> double \<Rightarrow> (builder, int \<times> double) m" where
  "consider_length rc len best =
     mbind (convolution_cost rc len) (\<lambda>cost.
       mret (if cost < snd best \<or> (cost = snd best \<and> len < fst best) then (len, cost) else best))"

definition npu_smooth_length :: "cost_call \<Rightarrow> int \<Rightarrow> int \<Rightarrow> (builder, int) m" where
  "npu_smooth_length rc minimum pw =
     mbind (convolution_cost rc pw) (\<lambda>cost0.
     mbind (mfold (\<lambda>len best.
         if len < minimum \<or> fst best \<le> len then mret best
         else if \<not> supported_length len then mret best
         else consider_length rc len best) (small_prime_lengths pw) (pw, cost0)) (\<lambda>best.
       mret (fst best)))"

definition window_lengths :: "int \<Rightarrow> int \<Rightarrow> int list" where
  "window_lengths minimum pw =
     (let local_limit = (if 4096 < pw - minimum then minimum + 4096 else pw)
      in foldl (\<lambda>acc len. if len \<in> set acc then acc else if supported_length len then acc @ [len] else acc)
           [] ([minimum..local_limit] @ [pw]))"

definition next_supported_convolution_length :: "plan_cfg \<Rightarrow> cost_call \<Rightarrow> int \<Rightarrow> (builder, int) m" where
  "next_supported_convolution_length cfg rc minimum =
     (if minimum \<le> 1 then mret 1
      else mbind request_context (\<lambda>context.
        let pw = ceil_power_of_two minimum;
            smooth_setting = cfg_env cfg ''FLAGFFT_NPU_2D_BLUESTEIN_SMOOTH_CONV'';
            is_fp32 = (ctx_input_dtype context = ''complex64'' \<or> ctx_input_dtype context = ''float32'')
        in if ctx_device_type context = ''npu'' then
             (if smooth_setting \<notin> {None, Some ''0'', Some ''1'', Some ''auto''} then
                runtime_error ''FLAGFFT_NPU_2D_BLUESTEIN_SMOOTH_CONV must be 0, 1 or auto''
              else if ctx_origin_rank context = 2 \<and> smooth_setting \<noteq> None \<and> smooth_setting \<noteq> Some ''0'' then
                npu_smooth_length rc minimum pw
              else mret pw)
           else if is_fp32 \<and> pw \<le> 1048576 then mret pw
           else (case window_lengths minimum pw of
                   [] \<Rightarrow> mret pw
                 | first # rest \<Rightarrow>
                     mbind (convolution_cost rc first) (\<lambda>cost0.
                     mbind (mfold (consider_length rc) (first # rest) (first, cost0)) (\<lambda>best.
                       mret (fst best))))))"

section \<open>Bluestein and Rader plans\<close>

text \<open>A four-step node over two automatically planned children.\<close>

definition split_plan :: "node_call \<Rightarrow> int \<Rightarrow> int \<Rightarrow> int \<Rightarrow> (builder, plan_node) m" where
  "split_plan rn n n1 n2 =
     mbind (rn n1 False) (\<lambda>row.
     mbind (rn n2 False) (\<lambda>col. mret (FourStepPlanNode n n1 n2 row col)))"

text \<open>The measured exceptions of the C550: a regular convolution length, and balanced splits.\<close>

definition bluestein_length :: "request_ctx \<Rightarrow> int \<Rightarrow> int \<Rightarrow> int" where
  "bluestein_length context n chosen =
     (if ctx_device_type context = ''maca'' \<and> ctx_device_arch context = ''102'' \<and>
         ctx_origin_rank context = 3 \<and> n = 997 \<and>
         (ctx_input_dtype context = ''complex128'' \<or> ctx_input_dtype context = ''float64'')
      then 2048 else chosen)"

definition balanced_maca_batch :: "env \<Rightarrow> request_ctx \<Rightarrow> int \<Rightarrow> int \<Rightarrow> bool" where
  "balanced_maca_batch env context n conv_length \<longleftrightarrow>
     ctx_device_type context = ''maca'' \<and> ctx_device_arch context = ''102'' \<and>
     ctx_origin_rank context \<le> 1 \<and> ctx_batch context = 64 \<and> ctx_input_dtype context = ''complex128'' \<and>
     n = 524287 \<and> conv_length = 1048576 \<and> not_disabled env ''FLAGFFT_MACA_1D_BATCH'' \<and>
     not_disabled env ''FLAGFFT_MACA_BATCH_PRIME_BALANCED''"

definition make_bluestein_plan :: "plan_cfg \<Rightarrow> node_call \<Rightarrow> cost_call \<Rightarrow> int \<Rightarrow> (builder, plan_node) m" where
  "make_bluestein_plan cfg rn rc n =
     mbind (next_supported_convolution_length cfg rc (2 * n - 1)) (\<lambda>chosen.
     mbind request_context (\<lambda>context.
       let conv_length = bluestein_length context n chosen
       in mbind (if balanced_maca_batch (cfg_env cfg) context n conv_length
                 then split_plan rn conv_length 1024 1024 else rn conv_length False) (\<lambda>fft_plan.
            mret (BluesteinPlanNode n conv_length fft_plan))))"

definition rader_tuned_split :: "env \<Rightarrow> request_ctx \<Rightarrow> int \<Rightarrow> bool" where
  "rader_tuned_split env context n \<longleftrightarrow>
     ctx_device_type context = ''maca'' \<and> ctx_device_arch context = ''102'' \<and>
     ctx_origin_rank context \<le> 1 \<and> ctx_batch context = 64 \<and> ctx_requested_n context = n \<and>
     (ctx_input_dtype context = ''complex64'' \<or> ctx_input_dtype context = ''complex128'') \<and>
     (n = 8191 \<or> n = 16381) \<and> not_disabled env ''FLAGFFT_MACA_1D_BATCH'' \<and>
     not_disabled env ''FLAGFFT_MACA_BATCH_RADER_SPLIT''"

definition make_rader_plan :: "plan_cfg \<Rightarrow> node_call \<Rightarrow> int \<Rightarrow> (builder, plan_node) m" where
  "make_rader_plan cfg rn n =
     mbind (mlift (find_primitive_root n)) (\<lambda>g.
     mbind (mlift (build_rader_index_table n g)) (\<lambda>idx.
     mbind request_context (\<lambda>context.
       let n1 = (if n = 8191 then 90 else 91);
           n2 = (if n = 8191 then 91 else 180)
       in mbind (if rader_tuned_split (cfg_env cfg) context n then split_plan rn (n - 1) n1 n2
                 else rn (n - 1) False) (\<lambda>conv_plan.
            mret (RaderPlanNode n g idx conv_plan)))))"

section \<open>Candidates on NPU\<close>

text \<open>\<open>f\<close> when it yields a value, \<open>g\<close> otherwise: a sequence of early returns.\<close>

definition morelse :: "('s, 'a option) m \<Rightarrow> ('s, 'a) m \<Rightarrow> ('s, 'a) m" where
  "morelse f g = mbind f (\<lambda>r. case r of Some x \<Rightarrow> mret x | None \<Rightarrow> g)"

definition leaf_candidate :: "int \<Rightarrow> int list \<Rightarrow> (builder, plan_candidate list option) m" where
  "leaf_candidate n factors =
     mbind (make_leaf_plan n factors 1) (\<lambda>node.
     mbind (estimate_leaf_warm_cost_factors n factors) (\<lambda>cost. mret (Some [candidate node cost])))"

definition npu_direct_dft_max :: "env \<Rightarrow> exn + int" where
  "npu_direct_dft_max env =
     (let bad = Inl (StdException ''FLAGFFT_NPU_2D_DIRECT_DFT_MAX must be 0, 64, or 128'')
      in case env ''FLAGFFT_NPU_2D_DIRECT_DFT_MAX'' of
           None \<Rightarrow> Inr 128
         | Some raw \<Rightarrow>
             (case stoll raw of
                Inl e \<Rightarrow> bad
              | Inr (v, parsed) \<Rightarrow>
                  if parsed \<noteq> length raw \<or> (v \<noteq> 0 \<and> v \<noteq> 64 \<and> v \<noteq> 128) then bad else Inr v))"

definition complex64_ctx :: "request_ctx \<Rightarrow> bool" where
  "complex64_ctx context \<longleftrightarrow>
     ctx_input_dtype context = ''complex64'' \<and> ctx_output_dtype context = ''complex64''"

definition npu_3d_candidates :: "plan_cfg \<Rightarrow> request_ctx \<Rightarrow> int \<Rightarrow> (builder, plan_candidate list option) m" where
  "npu_3d_candidates cfg context n =
     mbind (mlift (setting_01 (cfg_env cfg) ''FLAGFFT_NPU_3D_LEAF'')) (\<lambda>use_leaf.
     mbind (mlift (setting_01 (cfg_env cfg) ''FLAGFFT_NPU_3D_AIV_SMALL'')) (\<lambda>use_aiv_small.
       if use_aiv_small \<and> ctx_origin_rank context = 3 \<and> complex64_ctx context \<and> (n = 16 \<or> n = 32) then
         mbind (select_leaf_factors cfg n) (\<lambda>factors. leaf_candidate n factors)
       else if use_leaf \<and> ctx_origin_rank context = 3 \<and> complex64_ctx context \<and> (n = 16 \<or> n = 256) then
         mbind (select_leaf_factors cfg n) (\<lambda>factors.
         mbind (should_use_leaf n factors) (\<lambda>fits.
           if fits then leaf_candidate n factors else mret None))
       else mret None))"

definition npu_cube_candidates :: "plan_cfg \<Rightarrow> request_ctx \<Rightarrow> int \<Rightarrow> (builder, plan_candidate list option) m" where
  "npu_cube_candidates cfg context n =
     mbind (mlift (setting_01 (cfg_env cfg) ''FLAGFFT_NPU_2D_CUBE_DFT'')) (\<lambda>use_cube.
       if use_cube \<and> ctx_origin_rank context = 2 \<and> complex64_ctx context \<and>
          ctx_real_transform_kind context = '''' \<and> 32 \<le> n \<and> n \<le> 64 \<and> supported_length n \<and>
          (1024 \<le> ctx_batch context \<or> (n = 64 \<and> ctx_batch context \<le> 512))
       then mret (Some [candidate (DirectDFTPlanNode n) (estimate_direct_dft_cost n)])
       else mret None)"

fun split_on :: "char \<Rightarrow> string \<Rightarrow> string list" where
  "split_on sep [] = [[]]"
| "split_on sep (ch # cs) =
     (if ch = sep then [] # split_on sep cs
      else case split_on sep cs of t # ts \<Rightarrow> (ch # t) # ts | [] \<Rightarrow> [[ch]])"

fun parse_radices :: "int \<Rightarrow> string list \<Rightarrow> int \<Rightarrow> int list \<Rightarrow> exn + int list" where
  "parse_radices n [] prd acc =
     (if prd \<noteq> n then
        Inl (StdException ''FLAGFFT_NPU_2D_LEAF_FACTORS must multiply to the selected leaf length'')
      else Inr acc)"
| "parse_radices n (token # tokens) prd acc =
     (case stoll token of
        Inl e \<Rightarrow> Inl (StdException ''FLAGFFT_NPU_2D_LEAF_FACTORS must be radices such as 16x8'')
      | Inr (radix, parsed) \<Rightarrow>
          if parsed \<noteq> length token \<or> radix \<le> 1 \<or> n div radix < prd then
            Inl (StdException ''FLAGFFT_NPU_2D_LEAF_FACTORS must multiply to the selected leaf length'')
          else parse_radices n tokens (prd * radix) (acc @ [radix]))"

definition npu_2d_leaf_length :: "env \<Rightarrow> int \<Rightarrow> exn + int" where
  "npu_2d_leaf_length env dflt =
     (case env ''FLAGFFT_NPU_2D_LEAF_LENGTH'' of
        None \<Rightarrow> Inr dflt
      | Some raw \<Rightarrow>
          (case stoll raw of
             Inl e \<Rightarrow> Inl (StdException ''FLAGFFT_NPU_2D_LEAF_LENGTH must be a positive integer'')
           | Inr (v, parsed) \<Rightarrow>
               if parsed \<noteq> length raw \<or> v \<le> 1 then
                 Inl (StdException ''FLAGFFT_NPU_2D_LEAF_LENGTH must be a positive integer greater than one'')
               else Inr v))"

definition npu_2d_leaf_candidates :: "plan_cfg \<Rightarrow> request_ctx \<Rightarrow> int \<Rightarrow> (builder, plan_candidate list option) m" where
  "npu_2d_leaf_candidates cfg context n =
     (let env = cfg_env cfg;
          real_kind = (ctx_real_transform_kind context = ''r2c'' \<or> ctx_real_transform_kind context = ''c2r'');
          explicit_leaf = (env ''FLAGFFT_NPU_2D_LEAF_LENGTH'' \<noteq> None);
          measured = (ctx_origin_rank context = 2 \<and> n = 64 \<and>
            (real_kind \<or> ctx_real_transform_kind context = ''''))
      in mbind (mlift (npu_2d_leaf_length env (if measured then n else 0))) (\<lambda>leaf_len.
           if ctx_origin_rank context = 2 \<and> complex64_ctx context \<and> (measured \<or> explicit_leaf) \<and> n = leaf_len then
             mbind (select_leaf_factors cfg n) (\<lambda>selected.
             mbind (mlift (case env ''FLAGFFT_NPU_2D_LEAF_FACTORS'' of
                      Some raw \<Rightarrow> parse_radices n (split_on (CHR ''x'') raw) 1 []
                    | None \<Rightarrow> Inr (if n = 64 then [8, 8] else selected))) (\<lambda>factors.
             mbind (should_use_leaf n factors) (\<lambda>fits.
               if \<not> fits then runtime_error ''FLAGFFT_NPU_2D_LEAF_LENGTH requires a supported factorization''
               else leaf_candidate n factors)))
           else mret None))"

definition npu_2d_direct_candidates :: "request_ctx \<Rightarrow> int \<Rightarrow> int \<Rightarrow> plan_candidate list option" where
  "npu_2d_direct_candidates context direct_max n =
     (if ctx_origin_rank context = 2 \<and> complex64_ctx context \<and> ctx_batch context \<le> 512 \<and> 1 < n \<and> n \<le> direct_max
      then Some [candidate (DirectDFTPlanNode n) (estimate_direct_dft_cost n)] else None)"

text \<open>The most balanced split into two supported lengths, smaller one first.\<close>

definition supported_factors :: "int \<Rightarrow> int list option" where
  "supported_factors n =
     (case factorize_supported_radices n of
        Inl e \<Rightarrow> None
      | Inr fz \<Rightarrow> if fz_remainder fz = 1 \<and> fz_factors fz \<noteq> [] then Some (fz_factors fz) else None)"

type_synonym split_choice = "(double \<times> int \<times> int \<times> int list \<times> int list) option"

definition better_split :: "plan_cfg \<Rightarrow> int \<Rightarrow> int \<Rightarrow> split_choice \<Rightarrow> split_choice" where
  "better_split cfg n n1 best =
     (let n2 = n div n1
      in if n1 \<le> 1 \<or> n2 \<le> n1 then best
         else case (supported_factors n1, supported_factors n2) of
                (Some row, Some col) \<Rightarrow>
                  (let balance = log_balance cfg n2 n1
                   in case best of
                        None \<Rightarrow> Some (balance, n1, n2, row, col)
                      | Some (b, _) \<Rightarrow> if balance < b then Some (balance, n1, n2, row, col) else best)
              | _ \<Rightarrow> best)"

definition npu_factor_split_candidates ::
  "plan_cfg \<Rightarrow> request_ctx \<Rightarrow> factorization \<Rightarrow> int \<Rightarrow> (builder, plan_candidate list option) m" where
  "npu_factor_split_candidates cfg context fz n =
     mbind (mlift (setting_01 (cfg_env cfg) ''FLAGFFT_NPU_2D_FACTOR_SPLIT'')) (\<lambda>use_split.
       if use_split \<and> ctx_origin_rank context = 2 \<and> complex64_ctx context \<and> 1024 \<le> n \<and>
          fz_remainder fz = 1 \<and> fz_factors fz \<noteq> [] \<and> list_ex (\<lambda>radix. radix \<noteq> 2) (fz_factors fz) then
         mbind (enumerate_divisors n) (\<lambda>divisors.
           case foldl (\<lambda>best n1. better_split cfg n n1 best) None divisors of
             None \<Rightarrow> mret None
           | Some (balance, n1, n2, row, col) \<Rightarrow>
               (let node = FourStepPlanNode n n1 n2 (StockhamPlanNode n1 row) (StockhamPlanNode n2 col);
                    split_cost = dmul (dint n) (dadd (dint (int (length row + length col))) 2)
                in mret (Some [candidate node split_cost])))
       else mret None)"

function peel_radix :: "int \<Rightarrow> int \<Rightarrow> int list \<times> int" where
  "peel_radix factor radix =
     (if 1 < radix \<and> 0 < factor \<and> factor mod radix = 0
      then (case peel_radix (factor div radix) radix of (rs, rest) \<Rightarrow> (radix # rs, rest))
      else ([], factor))"
  by pat_completeness auto
termination
  by (relation "measure (\<lambda>(f, r). nat f)") (auto simp: int_div_less_self)

declare peel_radix.simps [simp del]

definition stockham_radices :: "int list" where
  "stockham_radices = [19, 17, 15, 13, 12, 11, 10, 9, 8, 7, 6, 5, 4, 3, 2]"

definition split_stockham_factor :: "int \<Rightarrow> exn + int list" where
  "split_stockham_factor factor =
     (case foldl (\<lambda>(acc, rest) radix. case peel_radix rest radix of (rs, rest') \<Rightarrow> (acc @ rs, rest'))
             ([], factor) stockham_radices of
        (rs, rest) \<Rightarrow> if rest \<noteq> 1 then Inl (StdException ''unsupported Stockham radix'') else Inr rs)"

fun stockham_factors :: "int list \<Rightarrow> exn + int list" where
  "stockham_factors [] = Inr []"
| "stockham_factors (f # fs) =
     (case split_stockham_factor f of
        Inl e \<Rightarrow> Inl e
      | Inr rs \<Rightarrow> (case stockham_factors fs of Inl e \<Rightarrow> Inl e | Inr rest \<Rightarrow> Inr (rs @ rest)))"

definition npu_stockham_candidates ::
  "plan_cfg \<Rightarrow> factorization \<Rightarrow> int \<Rightarrow> (builder, plan_candidate list option) m" where
  "npu_stockham_candidates cfg fz n =
     (let prime_mode = cfg_env cfg ''FLAGFFT_NPU_STOCKHAM_PRIME'';
          small_radices = ((prime_mode \<noteq> None \<and> prime_mode \<noteq> Some ''0'') \<or>
            (n mod 13 \<noteq> 0 \<and> n mod 17 \<noteq> 0 \<and> n mod 19 \<noteq> 0))
      in if 1 < n \<and> fz_remainder fz = 1 \<and> small_radices then
           mbind (mlift (stockham_factors (fz_factors fz))) (\<lambda>factors.
             mret (Some [candidate (StockhamPlanNode n factors) (dint (n * int (length factors)))]))
         else mret None)"

definition npu_candidates ::
  "plan_cfg \<Rightarrow> node_call \<Rightarrow> cost_call \<Rightarrow> request_ctx \<Rightarrow> int \<Rightarrow> (builder, plan_candidate list) m" where
  "npu_candidates cfg rn rc context n =
     mbind (mlift (npu_direct_dft_max (cfg_env cfg))) (\<lambda>direct_max.
       morelse (npu_3d_candidates cfg context n) (
       morelse (npu_cube_candidates cfg context n) (
       morelse (npu_2d_leaf_candidates cfg context n) (
       morelse (mret (npu_2d_direct_candidates context direct_max n)) (
       mbind (mlift (factorize_supported_radices n)) (\<lambda>fz.
       morelse (npu_factor_split_candidates cfg context fz n) (
       morelse (npu_stockham_candidates cfg fz n) (
       mbind (if n \<le> kDirectDftMaxN then mret (DirectDFTPlanNode n) else make_bluestein_plan cfg rn rc n) (\<lambda>node.
         mret [candidate node (estimate_direct_dft_cost n)])))))))))"

section \<open>Candidates on the other devices\<close>

definition leaf_stage :: "plan_cfg \<Rightarrow> int \<Rightarrow> (builder, plan_candidate list) m" where
  "leaf_stage cfg n =
     mbind (mlift (factorize_supported_radices n)) (\<lambda>fz.
       if fz_remainder fz = 1 \<and> fz_factors fz \<noteq> [] then
         mbind (should_use_leaf n (fz_factors fz)) (\<lambda>fits.
           if fits then
             mbind (select_leaf_factors cfg n) (\<lambda>factors.
             mbind (make_leaf_plan n factors 1) (\<lambda>node.
             mbind (estimate_leaf_warm_cost cfg n) (\<lambda>cost. mret [candidate node cost])))
           else mret [])
       else mret [])"

definition make_thread_local_leaf :: "int \<Rightarrow> plan_node" where
  "make_thread_local_leaf r =
     LeafPlanNode (r * 32) [r, 32] 1 r (if r = 32 then 2 else 1) (if r = 32 then [32] else [])
       (ceil_power_of_two (r * 32))"

definition thread_local_stage ::
  "plan_cfg \<Rightarrow> cost_call \<Rightarrow> request_ctx \<Rightarrow> int \<Rightarrow> (builder, plan_candidate list) m" where
  "thread_local_stage cfg rc context n =
     (let i = ctx_input_dtype context; j = ctx_output_dtype context;
          thread_local_complex = ((i = ''complex64'' \<and> j = ''complex64'') \<or> (i = ''complex128'' \<and> j = ''complex128''));
          n1 = n div 1024;
          register_radix = n1 div 32
      in if ctx_device_type context \<noteq> ''maca'' \<and> thread_local_complex \<and> n mod 1024 = 0 \<and> n1 mod 32 = 0 \<and>
            contains [18, 20, 24, 25, 27, 28, 30, 32] register_radix then
           mbind (four_step_cost cfg rc n1 1024) (\<lambda>cost.
             mret [candidate (FourStepPlanNode n n1 1024 (make_thread_local_leaf register_radix)
                     (make_thread_local_leaf 32)) (dmul cost (1 / 4))])
         else mret [])"

definition split_candidate ::
  "plan_cfg \<Rightarrow> node_call \<Rightarrow> cost_call \<Rightarrow> int \<Rightarrow> int \<Rightarrow> plan_candidate list \<Rightarrow> (builder, plan_candidate list) m" where
  "split_candidate cfg rn rc n n1 candidates =
     (if n1 \<le> 1 \<or> n \<le> n1 then mret candidates
      else let n2 = n div n1 in
        mcatch
          (mbind (split_plan rn n n1 n2) (\<lambda>node.
           mbind (four_step_cost cfg rc n1 n2) (\<lambda>cost.
             mret (candidates @ [candidate node (dadd cost (log_balance cfg n1 n2))]))))
          (mret candidates))"

definition fp64_dtype :: "string \<Rightarrow> bool" where
  "fp64_dtype t \<longleftrightarrow> t = ''complex128'' \<or> t = ''float64''"

definition is_leaf :: "plan_node \<Rightarrow> bool" where
  "is_leaf nd \<longleftrightarrow> node_kind nd = CtLeaf"

definition prefer_bluestein :: "request_ctx \<Rightarrow> int \<Rightarrow> bool \<Rightarrow> bool" where
  "prefer_bluestein context n fused_leaf \<longleftrightarrow>
     (let fp64 = (fp64_dtype (ctx_input_dtype context) \<and> fp64_dtype (ctx_output_dtype context))
      in (ctx_device_type context \<noteq> ''maca'' \<and> complex64_ctx context) \<or>
         (ctx_device_arch context = ''sm_80'' \<and> ctx_batch context = 1 \<and> fp64 \<and> fused_leaf) \<or>
         (ctx_device_type context = ''musa'' \<and> ctx_device_arch context = ''31'' \<and> ctx_batch context = 1 \<and>
          fp64 \<and> fused_leaf) \<or>
         (ctx_device_type context = ''musa'' \<and> ctx_device_arch context = ''31'' \<and> 16 \<le> ctx_batch context \<and>
          fp64 \<and> n = 8191))"

definition prime_stage ::
  "plan_cfg \<Rightarrow> node_call \<Rightarrow> cost_call \<Rightarrow> request_ctx \<Rightarrow> int \<Rightarrow> (builder, plan_candidate list) m" where
  "prime_stage cfg rn rc context n =
     mbind (make_bluestein_plan cfg rn rc n) (\<lambda>node.
       case node of
         BluesteinPlanNode m conv_length fft_plan \<Rightarrow>
           mbind (bluestein_cost rc n conv_length) (\<lambda>bcost.
             if \<not> prefer_bluestein context n (is_leaf fft_plan) \<and> is_prime_length n \<and> n \<le> 16384 then
               mbind (make_rader_plan cfg rn n) (\<lambda>rader.
               mbind (rader_cost rc n) (\<lambda>rcost.
                 mret [candidate node bcost,
                       candidate rader (if supported_length (n - 1) then dmin rcost (dmul bcost (fl (99 / 100))) else rcost)]))
             else mret [candidate node bcost])
       | _ \<Rightarrow> mret [])"

definition build_auto_candidates ::
  "plan_cfg \<Rightarrow> node_call \<Rightarrow> cost_call \<Rightarrow> int \<Rightarrow> (builder, plan_candidate list) m" where
  "build_auto_candidates cfg rn rc n =
     (if n \<le> 0 then runtime_error ''FFT length must be positive''
      else mbind request_context (\<lambda>context.
        if ctx_device_type context = ''npu'' then npu_candidates cfg rn rc context n
        else mbind (leaf_stage cfg n) (\<lambda>leaves.
             let direct = (if n \<le> kDirectDftMaxN
                           then [candidate (DirectDFTPlanNode n) (estimate_direct_dft_cost n)] else [])
             in mbind (thread_local_stage cfg rc context n) (\<lambda>local.
                mbind (enumerate_divisors n) (\<lambda>divisors.
                mbind (mfold (split_candidate cfg rn rc n) divisors (leaves @ direct @ local)) (\<lambda>candidates.
                  if candidates = [] \<and> kDirectDftMaxN < n then prime_stage cfg rn rc context n
                  else mret candidates))))))"

section \<open>Selection and the recursive knot\<close>

definition cheaper :: "plan_candidate \<Rightarrow> plan_candidate \<Rightarrow> bool" where
  "cheaper a b \<longleftrightarrow>
     (if cand_cost a \<noteq> cand_cost b then cand_cost a < cand_cost b else cand_priority a < cand_priority b)"

definition select_candidate :: "plan_candidate list \<Rightarrow> exn + plan_candidate" where
  "select_candidate candidates =
     (case candidates of
        [] \<Rightarrow> Inl (StdException ''no FFT plan candidates were generated'')
      | cd # cds \<Rightarrow> Inr (min_element cheaper cd cds))"

definition set_heuristic :: "bool \<Rightarrow> builder \<Rightarrow> builder" where
  "set_heuristic h b = b\<lparr>b_parallel_leaf_heuristic_enabled := h\<rparr>"

text \<open>\<open>try { \<dots> } catch (...) { restore; throw; } restore;\<close> around a changed heuristic flag.\<close>

definition with_heuristic :: "bool \<Rightarrow> (builder, 'a) m \<Rightarrow> (builder, 'a) m" where
  "with_heuristic h f =
     mbind mget (\<lambda>b.
     mbind (mmodify (set_heuristic h)) (\<lambda>_.
       mfinally f (set_heuristic (b_parallel_leaf_heuristic_enabled b))))"

definition build_auto_node_body :: "plan_cfg \<Rightarrow> node_call \<Rightarrow> cost_call \<Rightarrow> int \<Rightarrow> bool \<Rightarrow> (builder, plan_node) m" where
  "build_auto_node_body cfg rn rc n allow_heuristic =
     mbind mget (\<lambda>b.
       case b_node_cache b n of
         Some node \<Rightarrow> mret node
       | None \<Rightarrow>
           mbind (with_heuristic allow_heuristic
                    (mbind (build_auto_candidates cfg rn rc n) (\<lambda>cs. mlift (select_candidate cs)))) (\<lambda>cd.
           mbind (mmodify (\<lambda>b. b\<lparr>b_node_cache := (b_node_cache b)(n \<mapsto> cand_node cd),
                                 b_cost_cache := (b_cost_cache b)(n \<mapsto> cand_cost cd)\<rparr>)) (\<lambda>_.
             mret (cand_node cd))))"

definition cost_for_body :: "plan_cfg \<Rightarrow> node_call \<Rightarrow> cost_call \<Rightarrow> int \<Rightarrow> (builder, double) m" where
  "cost_for_body cfg rn rc n =
     mbind mget (\<lambda>b.
       case b_cost_cache b n of
         Some cost \<Rightarrow> mret cost
       | None \<Rightarrow>
           mbind (with_heuristic False (build_auto_candidates cfg rn rc n)) (\<lambda>candidates.
             if candidates = [] then
               runtime_error (''length '' @ show_int n @ '' has no supported FFT implementation route'')
             else mbind (mlift (select_candidate candidates)) (\<lambda>best.
                  mbind (mmodify (\<lambda>b. b\<lparr>b_cost_cache := (b_cost_cache b)(n \<mapsto> cand_cost best)\<rparr>)) (\<lambda>_.
                    mret (cand_cost best)))))"

fun build_auto_node_fuel :: "plan_cfg \<Rightarrow> nat \<Rightarrow> int \<Rightarrow> bool \<Rightarrow> (builder, plan_node) m"
  and cost_for_fuel :: "plan_cfg \<Rightarrow> nat \<Rightarrow> int \<Rightarrow> (builder, double) m"
where
  "build_auto_node_fuel cfg 0 n h = mthrow OutOfFuel"
| "build_auto_node_fuel cfg (Suc k) n h =
     build_auto_node_body cfg (build_auto_node_fuel cfg k) (cost_for_fuel cfg k) n h"
| "cost_for_fuel cfg 0 n = mthrow OutOfFuel"
| "cost_for_fuel cfg (Suc k) n = cost_for_body cfg (build_auto_node_fuel cfg k) (cost_for_fuel cfg k) n"

definition plan_fuel :: "int \<Rightarrow> nat" where
  "plan_fuel n = nat (5 * n) + 2"

definition build_auto_node :: "plan_cfg \<Rightarrow> int \<Rightarrow> bool \<Rightarrow> (builder, plan_node) m" where
  "build_auto_node cfg n h = build_auto_node_fuel cfg (plan_fuel n) n h"

definition cost_for :: "plan_cfg \<Rightarrow> int \<Rightarrow> (builder, double) m" where
  "cost_for cfg n = cost_for_fuel cfg (plan_fuel n) n"

section \<open>The root of a plan\<close>

definition build_maca_tail_plan :: "node_call \<Rightarrow> int \<Rightarrow> maca_tail_plan \<Rightarrow> (builder, plan_node) m" where
  "build_maca_tail_plan build_auto n plan =
     (if mtp_name plan = ''default'' then build_auto n True
      else if mtp_second plan \<noteq> 0 then split_plan build_auto n (mtp_first plan) (mtp_second plan)
      else if mtp_name plan = ''rader1008'' then
        mbind (mlift (find_primitive_root n)) (\<lambda>g.
        mbind (mlift (build_rader_index_table n g)) (\<lambda>idx.
        mbind (build_auto (n - 1) False) (\<lambda>conv_plan. mret (RaderPlanNode n g idx conv_plan))))
      else mbind (build_auto (mtp_first plan) False) (\<lambda>fft_plan.
             mret (BluesteinPlanNode n (mtp_first plan) fft_plan)))"

definition hcu_single_c2r_root :: "fft_request \<Rightarrow> int \<Rightarrow> bool" where
  "hcu_single_c2r_root r n \<longleftrightarrow>
     req_device_type r = ''hcu'' \<and> req_raw_dim r = 1 \<and> req_origin_rank r = 1 \<and> req_requested_n r = n \<and>
     req_real_transform r \<and>
     (req_real_transform_kind r = ''c2r'' \<or> req_real_transform_kind r = ''z2d'' \<or>
      req_origin_real_transform_kind r = ''c2r'' \<or> req_origin_real_transform_kind r = ''z2d'')"

text \<open>
  A split requested by a variable: nothing when the request is not in scope, the variable is unset
  or empty, or it names another length; the children are planned by \<open>child\<close>.
\<close>

definition forced_split ::
  "env \<Rightarrow> string \<Rightarrow> string \<Rightarrow> bool \<Rightarrow> (int \<Rightarrow> int \<Rightarrow> int \<Rightarrow> (builder, plan_node) m) \<Rightarrow> int \<Rightarrow>
   (builder, plan_node option) m" where
  "forced_split env name reject in_scope split n =
     (case env name of
        None \<Rightarrow> mret None
      | Some spec \<Rightarrow>
          if \<not> in_scope \<or> spec = '''' then mret None
          else mbind (mlift (parse_split name spec)) (\<lambda>(target_length, n1).
            if target_length = n then
              (if n1 \<le> 1 \<or> n \<le> n1 \<or> n mod n1 \<noteq> 0 then runtime_error reject
               else mbind (split n n1 (n div n1)) (\<lambda>node. mret (Some node)))
            else mret None))"

definition leaf_mode :: "env \<Rightarrow> bool" where
  "leaf_mode env \<longleftrightarrow> env ''FLAGFFT_NPU_FOURSTEP_LEAF'' = Some ''1''"

definition npu_split :: "plan_cfg \<Rightarrow> node_call \<Rightarrow> int \<Rightarrow> int \<Rightarrow> int \<Rightarrow> (builder, plan_node) m" where
  "npu_split cfg rn n n1 n2 =
     (if leaf_mode (cfg_env cfg) then
        mbind (select_leaf_factors cfg n1) (\<lambda>row_factors.
        mbind (select_leaf_factors cfg n2) (\<lambda>col_factors.
        mbind (should_use_leaf n1 row_factors) (\<lambda>row_fits.
        mbind (if row_fits then should_use_leaf n2 col_factors else mret False) (\<lambda>both_fit.
          if \<not> both_fit then runtime_error ''FLAGFFT_NPU_FOURSTEP_LEAF requires two supported leaf lengths''
          else mbind (make_leaf_plan n1 row_factors 1) (\<lambda>row.
               mbind (make_leaf_plan n2 col_factors 1) (\<lambda>col. mret (FourStepPlanNode n n1 n2 row col)))))))
      else split_plan rn n n1 n2)"

definition fitting_leaf :: "plan_cfg \<Rightarrow> int \<Rightarrow> (builder, plan_node option) m" where
  "fitting_leaf cfg n =
     mbind (select_leaf_factors cfg n) (\<lambda>factors.
     mbind (should_use_leaf n factors) (\<lambda>fits.
       if fits then mbind (make_leaf_plan n factors 1) (\<lambda>node. mret (Some node)) else mret None))"

definition build_3d_child :: "plan_cfg \<Rightarrow> node_call \<Rightarrow> bool \<Rightarrow> int \<Rightarrow> (builder, plan_node) m" where
  "build_3d_child cfg rn use_aiv64 len =
     morelse (if use_aiv64 \<and> len = 64 then fitting_leaf cfg len else mret None)
       (if leaf_mode (cfg_env cfg) then
          mbind (fitting_leaf cfg len) (\<lambda>r. case r of
            Some node \<Rightarrow> mret node
          | None \<Rightarrow> runtime_error ''FLAGFFT_NPU_FOURSTEP_LEAF requires supported leaf children'')
        else rn len False)"

definition npu_3d_split :: "plan_cfg \<Rightarrow> node_call \<Rightarrow> bool \<Rightarrow> int \<Rightarrow> int \<Rightarrow> int \<Rightarrow> (builder, plan_node) m" where
  "npu_3d_split cfg rn use_aiv64 n n1 n2 =
     mbind (build_3d_child cfg rn use_aiv64 n1) (\<lambda>row.
     mbind (build_3d_child cfg rn use_aiv64 n2) (\<lambda>col. mret (FourStepPlanNode n n1 n2 row col)))"

definition npu_operator_n1 :: "int \<Rightarrow> int" where
  "npu_operator_n1 n =
     (if n = 16384 then 128 else if n = 46189 then 209 else if n = 185640 then 420
      else if n = 340200 then 567 else if n = 524288 then 512 else if n = 663000 then 663 else 0)"

definition request_complex64 :: "fft_request \<Rightarrow> bool" where
  "request_complex64 r \<longleftrightarrow> req_input_dtype r = ''complex64'' \<and> req_output_dtype r = ''complex64''"

definition npu_operator_stage :: "node_call \<Rightarrow> fft_request \<Rightarrow> int \<Rightarrow> (builder, plan_node option) m" where
  "npu_operator_stage rn r n =
     (if req_device_type r = ''npu'' \<and> req_raw_dim r = 1 \<and> req_origin_rank r = 1 \<and> req_requested_n r = n \<and>
         (req_input_dtype r = ''complex64'' \<or> req_output_dtype r = ''complex64'') \<and> npu_operator_n1 n \<noteq> 0
      then mbind (split_plan rn n (npu_operator_n1 n) (n div npu_operator_n1 n)) (\<lambda>node. mret (Some node))
      else mret None)"

definition maca_stage :: "plan_cfg \<Rightarrow> node_call \<Rightarrow> fft_request \<Rightarrow> int \<Rightarrow> (builder, plan_node option) m" where
  "maca_stage cfg rn r n =
     mbind (mlift (maca_tail_plans (cfg_env cfg) n r False)) (\<lambda>experiments.
       case experiments of
         plan # rest \<Rightarrow> mbind (build_maca_tail_plan rn n plan) (\<lambda>node. mret (Some node))
       | [] \<Rightarrow>
           if req_device_type r = ''maca'' \<and> req_device_arch r = ''102'' \<and> req_raw_dim r = 1 \<and>
              req_origin_rank r \<le> 1 \<and> req_batch r = 64 \<and> n = req_requested_n r \<and> \<not> req_real_transform r \<and>
              request_complex64 r \<and> not_disabled (cfg_env cfg) ''FLAGFFT_MACA_1D_BATCH'' \<and>
              (n = 16384 \<or> n = 663000)
           then let n1 = (if n = 16384 then 256 else 884)
                in mbind (split_plan rn n n1 (n div n1)) (\<lambda>node. mret (Some node))
           else mret None)"

definition build_from :: "plan_cfg \<Rightarrow> node_call \<Rightarrow> int \<Rightarrow> fft_request \<Rightarrow> (builder, plan_node) m" where
  "build_from cfg rn n r =
     (let env = cfg_env cfg; npu = (req_device_type r = ''npu'');
          use_aiv64 = (npu \<and> req_origin_rank r = 3 \<and> req_raw_dim r = 1 \<and> request_complex64 r \<and>
            env ''FLAGFFT_NPU_3D_AIV64'' = Some ''1'')
      in morelse (forced_split env ''FLAGFFT_HCU_C2R_FOURSTEP_SPLIT''
             ''FLAGFFT_HCU_C2R_FOURSTEP_SPLIT n1 must divide the requested length''
             (hcu_single_c2r_root r n) (split_plan rn) n) (
         morelse (if hcu_single_c2r_root r n \<and> n = 340200
                  then mbind (split_plan rn n 567 600) (\<lambda>node. mret (Some node)) else mret None) (
         morelse (forced_split env ''FLAGFFT_NPU_FOURSTEP_SPLIT''
             ''FLAGFFT_NPU_FOURSTEP_SPLIT must divide the requested length''
             (npu \<and> req_origin_rank r = 1) (npu_split cfg rn) n) (
         morelse (forced_split env ''FLAGFFT_NPU_2D_FOURSTEP_SPLIT''
             ''FLAGFFT_NPU_2D_FOURSTEP_SPLIT must divide the requested length''
             (npu \<and> req_origin_rank r = 2 \<and> req_raw_dim r = 1 \<and> req_requested_n r = n \<and> request_complex64 r)
             (npu_split cfg rn) n) (
         morelse (if use_aiv64 \<and> n = 64 then fitting_leaf cfg n else mret None) (
         morelse (forced_split env ''FLAGFFT_NPU_3D_FOURSTEP_SPLIT''
             ''FLAGFFT_NPU_3D_FOURSTEP_SPLIT must divide the requested length''
             (npu \<and> req_origin_rank r = 3 \<and> req_raw_dim r = 1 \<and> req_requested_n r = n \<and> request_complex64 r)
             (npu_3d_split cfg rn use_aiv64) n) (
         morelse (npu_operator_stage rn r n) (
         morelse (maca_stage cfg rn r n) (
           rn n True)))))))))"

definition build :: "plan_cfg \<Rightarrow> int \<Rightarrow> fft_request \<Rightarrow> (builder, plan_node) m" where
  "build cfg n r =
     mbind (set_request_context cfg r) (\<lambda>_.
       if n \<le> 0 then runtime_error ''FFT length must be positive''
       else build_from cfg (build_auto_node cfg) n r)"

definition cost_for_request :: "plan_cfg \<Rightarrow> int \<Rightarrow> fft_request \<Rightarrow> (builder, double) m" where
  "cost_for_request cfg n r = mbind (set_request_context cfg r) (\<lambda>_. cost_for cfg n)"

section \<open>Tuning candidates\<close>

definition node_repr :: "plan_node \<Rightarrow> string" where
  "node_repr nd = plan_key_repr (key_of_node nd)"

definition candidate_before :: "plan_candidate \<Rightarrow> plan_candidate \<Rightarrow> bool" where
  "candidate_before a b \<longleftrightarrow>
     (if cand_cost a \<noteq> cand_cost b then cand_cost a < cand_cost b
      else if cand_priority a \<noteq> cand_priority b then cand_priority a < cand_priority b
      else node_repr (cand_node a) < node_repr (cand_node b))"

fun first_unique :: "plan_candidate list \<Rightarrow> string list \<Rightarrow> nat \<Rightarrow> plan_candidate list" where
  "first_unique [] seen room = []"
| "first_unique (cd # cds) seen room =
     (if node_repr (cand_node cd) \<in> set seen then first_unique cds seen room
      else cd # (if room \<le> 1 then [] else first_unique cds (node_repr (cand_node cd) # seen) (room - 1)))"

definition top_candidates :: "plan_candidate list \<Rightarrow> int \<Rightarrow> plan_candidate list" where
  "top_candidates candidates limit = first_unique (sort_by candidate_before candidates) [] (nat limit)"

definition leaf_order_candidate :: "int \<Rightarrow> int list \<Rightarrow> plan_candidate list \<Rightarrow> (builder, plan_candidate list) m" where
  "leaf_order_candidate n order acc =
     mbind (make_leaf_plan n order 1) (\<lambda>node.
     mbind (estimate_leaf_warm_cost_factors n order) (\<lambda>cost.
     mbind mget (\<lambda>b.
       let lanes = choose_lanes b n order;
           lane_bonus = (if 0 < lanes then ddiv (dint n) (dint lanes) else 0)
       in mret (acc @ [candidate node (dsub cost lane_bonus)]))))"

definition leaf_orders :: "int list \<Rightarrow> int list list" where
  "leaf_orders factors = take (nat kTuneOrdersPerFactorMultiset) [rev (sort factors), sort factors, factors]"

definition build_leaf_tune_candidates :: "int \<Rightarrow> (builder, plan_candidate list) m" where
  "build_leaf_tune_candidates n =
     mbind (mlift (factorize_supported_radices n)) (\<lambda>fz.
       if fz_remainder fz \<noteq> 1 \<or> fz_factors fz = [] then mret []
       else mbind (enumerate_supported_factorizations n) (\<lambda>factorizations.
            mbind (mfold (\<lambda>factors (acc, seen).
                mbind (should_use_leaf n factors) (\<lambda>fits.
                  if \<not> fits \<or> join_ints (sort factors) \<in> set seen then mret (acc, seen)
                  else mbind (mfold (leaf_order_candidate n) (leaf_orders factors) acc) (\<lambda>acc.
                         mret (acc, join_ints (sort factors) # seen)))) factorizations ([], [])) (\<lambda>(candidates, seen).
              mret (top_candidates candidates (if kLeafTuneLargeN \<le> n then kLeafTuneLargeTopK else kLeafTuneTopK)))))"

definition pair_before :: "int \<times> int \<times> double \<Rightarrow> int \<times> int \<times> double \<Rightarrow> bool" where
  "pair_before a b \<longleftrightarrow>
     (if snd (snd a) \<noteq> snd (snd b) then snd (snd a) < snd (snd b) else fst a < fst b)"

definition scored_pairs :: "plan_cfg \<Rightarrow> int \<Rightarrow> int list \<Rightarrow> (int \<times> int \<times> double) list" where
  "scored_pairs cfg n divisors =
     map (\<lambda>n1. let n2 = n div n1 in
            (n1, n2, dadd (log_balance cfg n1 n2) (ddiv (dint (n1 + n2)) (dint n))))
       (filter (\<lambda>n1. 1 < n1 \<and> n1 < n) divisors)"

definition combine_children ::
  "int \<Rightarrow> int \<times> int \<times> double \<Rightarrow> plan_candidate list \<Rightarrow> plan_candidate list \<Rightarrow> plan_candidate list" where
  "combine_children n pair rows cols =
     (case pair of (n1, n2, score) \<Rightarrow>
        map (\<lambda>(row, col).
            candidate (FourStepPlanNode n n1 n2 (cand_node row) (cand_node col))
              (dadd (dadd (dadd (dmul (dint n2) (cand_cost row)) (dmul (dint n1) (cand_cost col)))
                 (dint (n1 * n2))) score))
          (take (nat kTuneFourStepCombosPerPair) (List.product rows cols)))"

text \<open>\<open>levels\<close> is \<open>4 - depth\<close>: from depth four on only leaves are proposed.\<close>

fun build_tune_candidates :: "plan_cfg \<Rightarrow> nat \<Rightarrow> int \<Rightarrow> (builder, plan_candidate list) m" where
  "build_tune_candidates cfg levels n =
     mbind mget (\<lambda>b.
       case b_tune_candidate_cache b n of
         Some cs \<Rightarrow> mret cs
       | None \<Rightarrow>
           (case levels of
              0 \<Rightarrow> build_leaf_tune_candidates n
            | Suc levels' \<Rightarrow>
                mbind (build_leaf_tune_candidates n) (\<lambda>leaves.
                mbind (enumerate_divisors n) (\<lambda>divisors.
                  let direct = (if n \<le> kDirectDftMaxN
                        then [candidate (DirectDFTPlanNode n) (estimate_direct_dft_cost n)] else []);
                      pairs = take (nat kTuneFourStepPairTopK) (sort_by pair_before (scored_pairs cfg n divisors))
                  in mbind (mfold (\<lambda>pair acc.
                          mbind (build_tune_candidates cfg levels' (fst pair)) (\<lambda>rows.
                          mbind (build_tune_candidates cfg levels' (fst (snd pair))) (\<lambda>cols.
                            mret (acc @ combine_children n pair rows cols)))) pairs []) (\<lambda>pair_candidates.
                     let result = top_candidates (leaves @ direct @ top_candidates pair_candidates kTuneFourStepTopK)
                                    kTuneStaticPlanTopK
                     in mbind (mmodify (\<lambda>b. b\<lparr>b_tune_candidate_cache := (b_tune_candidate_cache b)(n \<mapsto> result)\<rparr>))
                          (\<lambda>_. mret result))))))"

section \<open>Decomposition alternatives\<close>

definition append_unique :: "plan_candidate \<Rightarrow> plan_candidate list \<Rightarrow> plan_candidate list" where
  "append_unique cd result =
     (if node_repr (cand_node cd) \<in> set (map (\<lambda>x. node_repr (cand_node x)) result) then result else result @ [cd])"

definition room :: "int \<Rightarrow> plan_candidate list \<Rightarrow> bool" where
  "room limit result \<longleftrightarrow> int (length result) < limit"

definition experiment_cost :: "plan_cfg \<Rightarrow> int \<Rightarrow> plan_node \<Rightarrow> (builder, double) m" where
  "experiment_cost cfg n node =
     (case node of
        BluesteinPlanNode m conv_length fft_plan \<Rightarrow> bluestein_cost (cost_for cfg) n conv_length
      | FourStepPlanNode m n1 n2 row col \<Rightarrow> four_step_cost cfg (cost_for cfg) n1 n2
      | RaderPlanNode p g idx conv_plan \<Rightarrow> rader_cost (cost_for cfg) n
      | _ \<Rightarrow> mret 0)"

definition experiment_candidates ::
  "plan_cfg \<Rightarrow> int \<Rightarrow> maca_tail_plan list \<Rightarrow> (builder, plan_candidate list) m" where
  "experiment_candidates cfg n experiments =
     mfold (\<lambda>experiment acc.
       mbind (build_maca_tail_plan (build_auto_node cfg) n experiment) (\<lambda>node.
       mbind (experiment_cost cfg n node) (\<lambda>cost. mret (acc @ [candidate node cost])))) experiments []"

text \<open>The divisor pair closest to the square root: the last divisor that is not above its cofactor.\<close>

definition balanced_divisor :: "int \<Rightarrow> int list \<Rightarrow> int" where
  "balanced_divisor n divisors = last (1 # takeWhile (\<lambda>d. \<not> n div d < d) divisors)"

definition balanced_alternative ::
  "plan_cfg \<Rightarrow> int \<Rightarrow> int \<Rightarrow> plan_candidate list \<Rightarrow> (builder, plan_candidate list) m" where
  "balanced_alternative cfg n pw result =
     mbind (enumerate_divisors pw) (\<lambda>divisors.
       let n1 = balanced_divisor pw divisors; n2 = pw div n1
       in mbind (build_auto_node cfg n1 False) (\<lambda>row.
          mbind (build_auto_node cfg n2 False) (\<lambda>col.
            if 1 < n1 \<and> is_leaf row \<and> is_leaf col then
              mbind (four_step_cost cfg (cost_for cfg) n1 n2) (\<lambda>cost.
                mret (append_unique
                  (candidate (BluesteinPlanNode n pw (FourStepPlanNode pw n1 n2 row col))
                    (dadd (dmul 3 cost) (dint (n + pw)))) result))
            else mret result)))"

definition power_alternative ::
  "plan_cfg \<Rightarrow> int \<Rightarrow> int \<Rightarrow> plan_candidate list \<Rightarrow> (builder, plan_candidate list) m" where
  "power_alternative cfg n limit result =
     (let pw = ceil_power_of_two (n + (n - 1))
      in mbind (build_auto_node cfg pw False) (\<lambda>child.
         mbind (bluestein_cost (cost_for cfg) n pw) (\<lambda>cost.
           let result = append_unique (candidate (BluesteinPlanNode n pw child) cost) result
           in if room limit result \<and> node_kind child = FourStep then balanced_alternative cfg n pw result
              else mret result)))"

definition prime_alternatives ::
  "plan_cfg \<Rightarrow> bool \<Rightarrow> int \<Rightarrow> int \<Rightarrow> plan_candidate list \<Rightarrow> (builder, plan_candidate list) m" where
  "prime_alternatives cfg tune_maca_single n limit result =
     mbind (if room limit result then
              mbind (make_bluestein_plan cfg (build_auto_node cfg) (cost_for cfg) n) (\<lambda>bs.
              mbind (bluestein_cost (cost_for cfg) n (case bs of BluesteinPlanNode _ m _ \<Rightarrow> m | _ \<Rightarrow> 0)) (\<lambda>cost.
                mret (append_unique (candidate bs cost) result)))
            else mret result) (\<lambda>result.
     mbind (if n \<le> 16384 \<and> room limit result then
              mbind (make_rader_plan cfg (build_auto_node cfg) n) (\<lambda>rader.
              mbind (rader_cost (cost_for cfg) n) (\<lambda>cost.
                mret (append_unique (candidate rader cost) result)))
            else mret result) (\<lambda>result.
       if tune_maca_single \<and> room limit result then power_alternative cfg n limit result else mret result))"

definition balance_pairs :: "plan_cfg \<Rightarrow> int \<Rightarrow> int list \<Rightarrow> (int \<times> int \<times> double) list" where
  "balance_pairs cfg n divisors =
     map (\<lambda>n1. (n1, n div n1, log_balance cfg n1 (n div n1))) (filter (\<lambda>n1. 1 < n1 \<and> n1 < n) divisors)"

definition pair_alternative ::
  "plan_cfg \<Rightarrow> int \<Rightarrow> int \<Rightarrow> plan_node \<Rightarrow> int \<times> int \<times> double \<Rightarrow> plan_candidate list \<Rightarrow>
   (builder, plan_candidate list) m" where
  "pair_alternative cfg n limit automatic pair result =
     (case pair of (n1, n2, balance) \<Rightarrow>
        if \<not> room limit result then mret result
        else if (case automatic of FourStepPlanNode m a1 a2 row col \<Rightarrow> a1 = n1 \<and> a2 = n2 | _ \<Rightarrow> False) then mret result
        else mbind (split_plan (build_auto_node cfg) n n1 n2) (\<lambda>node.
             mbind (cost_for cfg n1) (\<lambda>cost1.
             mbind (cost_for cfg n2) (\<lambda>cost2.
               mret (append_unique (candidate node
                 (dadd (dadd (dmul (dint n2) cost1) (dmul (dint n1) cost2)) (dint n))) result)))))"

definition decomposition_alternatives ::
  "plan_cfg \<Rightarrow> bool \<Rightarrow> int \<Rightarrow> int \<Rightarrow> (builder, plan_candidate list) m" where
  "decomposition_alternatives cfg tune_maca_single n limit =
     mbind (build_auto_candidates cfg (build_auto_node cfg) (cost_for cfg) n) (\<lambda>cs.
     mbind (mlift (select_candidate cs)) (\<lambda>automatic.
       let result = append_unique automatic []
       in if is_prime_length n \<and> kDirectDftMaxN < n then prime_alternatives cfg tune_maca_single n limit result
          else mbind (enumerate_divisors n) (\<lambda>divisors.
                 mfold (pair_alternative cfg n limit (cand_node automatic))
                   (sort_by pair_before (balance_pairs cfg n divisors)) result)))"

definition build_decomposition_tune_candidates ::
  "plan_cfg \<Rightarrow> int \<Rightarrow> fft_request \<Rightarrow> int \<Rightarrow> (builder, plan_candidate list) m" where
  "build_decomposition_tune_candidates cfg n r limit =
     (let tune_maca_single = (req_device_type r = ''maca'' \<and> req_batch r = 1)
      in if n \<le> 0 then runtime_error ''FFT length must be positive''
         else if limit \<le> 0 then runtime_error ''decomposition tune candidate limit must be positive''
         else if tune_maca_single \<and> 2 ^ 61 < n then
           runtime_error ''MACA single tune length exceeds the convolution length range''
         else mbind (set_request_context cfg r) (\<lambda>_.
              mbind (mlift (maca_tail_plans (cfg_env cfg) n r True)) (\<lambda>experiments.
                if experiments \<noteq> [] then
                  (if limit < int (length experiments) then
                     runtime_error (''MACA tail comparison requires --max-candidates >= '' @
                       show_int (int (length experiments)))
                   else experiment_candidates cfg n experiments)
                else decomposition_alternatives cfg tune_maca_single n limit)))"

end
