(* ===== verification/FFT_BuilderFacts.thy ===== *)
theory FFT_BuilderFacts
  imports FFT_Builder
begin

text \<open>
  Facts on the leaf layer of the plan builder: which lengths factor into the supported radices, that
  the enumeration of factorizations is exact, the lane and warp bounds, the soundness of the measured
  overrides, and the invariant \<open>builder_inv\<close> that the member functions keep.
\<close>

section \<open>Smooth lengths\<close>

definition smooth :: "int \<Rightarrow> bool" where
  "smooth n \<longleftrightarrow> 0 < n \<and> (\<forall>q. prime_int q \<and> q dvd n \<longrightarrow> q \<le> 19)"

lemma smooth_pos: "smooth n \<Longrightarrow> 0 < n"
  by (simp add: smooth_def)

lemma smooth_dvd: "smooth n \<Longrightarrow> d dvd n \<Longrightarrow> 0 < d \<Longrightarrow> smooth d"
  unfolding smooth_def by (meson dvd_trans)

lemma smooth_mult: "smooth a \<Longrightarrow> smooth b \<Longrightarrow> smooth (a * b)"
  by (auto simp: smooth_def prime_int_mult_dvd)

lemma smooth_1 [simp]: "smooth 1"
  by (auto simp: smooth_def dest!: prime_intD)

lemma smooth_power: "smooth a \<Longrightarrow> smooth (a ^ k)"
  by (induction k) (simp_all add: smooth_mult)

lemma smooth_small: "0 < n \<Longrightarrow> n \<le> 19 \<Longrightarrow> smooth n"
  unfolding smooth_def using zdvd_imp_le by fastforce

lemma radices_bounds: "r \<in> set kSupportedRadices \<Longrightarrow> 2 \<le> r \<and> r \<le> 32"
  by (auto simp: kSupportedRadices_def)

lemma small_radices: "prime_int q \<Longrightarrow> q \<le> 19 \<Longrightarrow> q \<in> set kSupportedRadices"
proof -
  assume q: "prime_int q" "q \<le> 19"
  have "list_all (\<lambda>q. is_prime_length q \<longrightarrow> q \<in> set kSupportedRadices) [0..19]" by code_simp
  moreover have "q \<in> set [0..19]" using q prime_intD [OF q(1)] by simp
  ultimately show ?thesis using q(1) by (simp only: list_all_iff is_prime_length_iff)
qed

lemma radix_smooth: "r \<in> set kSupportedRadices \<Longrightarrow> smooth r"
proof -
  assume r: "r \<in> set kSupportedRadices"
  have "list_all (\<lambda>r. list_all (\<lambda>q. q \<le> 19 \<or> \<not> is_prime_length q \<or> r mod q \<noteq> 0) [0..32]) kSupportedRadices"
    by code_simp
  then have all: "\<And>q. q \<in> set [0..32] \<Longrightarrow> q \<le> 19 \<or> \<not> prime_int q \<or> r mod q \<noteq> 0"
    using r by (simp only: list_all_iff is_prime_length_iff)
  show ?thesis
    unfolding smooth_def
  proof (intro conjI allI impI)
    show "0 < r" using radices_bounds [OF r] by simp
    fix q assume q: "prime_int q \<and> q dvd r"
    then have "q \<le> 32" "1 < q" using radices_bounds [OF r] zdvd_imp_le [of q r] by (auto dest: prime_intD)
    then have "q \<in> set [0..32]" by simp
    from all [OF this] q show "q \<le> 19" by (simp only: dvd_eq_mod_eq_0) blast
  qed
qed

lemma smooth_prod_list: "set fs \<subseteq> set kSupportedRadices \<Longrightarrow> smooth (prod_list fs)"
  by (induction fs) (auto intro: smooth_mult radix_smooth)

lemma prod_radices_pos: "set fs \<subseteq> set kSupportedRadices \<Longrightarrow> 0 < prod_list fs"
  using smooth_prod_list smooth_pos by blast

text \<open>A list of radices that multiplies to the length.\<close>

definition radix_list :: "int \<Rightarrow> int list \<Rightarrow> bool" where
  "radix_list n fs \<longleftrightarrow> fs \<noteq> [] \<and> set fs \<subseteq> set kSupportedRadices \<and> prod_list fs = n"

lemma radix_list_Nil [simp]: "\<not> radix_list n []"
  by (simp add: radix_list_def)

lemma radix_list_smooth: "radix_list n fs \<Longrightarrow> smooth n"
  using smooth_prod_list by (auto simp: radix_list_def)

lemma radix_list_gt1: "radix_list n fs \<Longrightarrow> 1 < n"
proof (cases fs)
  case (Cons f rest)
  moreover assume a: "radix_list n fs"
  ultimately have "2 \<le> f" "0 < prod_list rest" "n = f * prod_list rest"
    using radices_bounds prod_radices_pos by (auto simp: radix_list_def)
  then have "2 * 1 \<le> f * prod_list rest" by (intro mult_mono) auto
  then show ?thesis using \<open>n = f * prod_list rest\<close> by simp
qed (simp add: radix_list_def)

section \<open>Factorization\<close>

lemma factorize_loop_spec:
  assumes "0 < rm"
  shows "\<exists>fs. fz_factors (factorize_loop rm acc) = acc @ fs \<and> set fs \<subseteq> set kSupportedRadices \<and>
    prod_list fs * fz_remainder (factorize_loop rm acc) = rm \<and> 0 < fz_remainder (factorize_loop rm acc) \<and>
    (fz_remainder (factorize_loop rm acc) = 1 \<or>
     (\<forall>r \<in> set kSupportedRadices. \<not> r dvd fz_remainder (factorize_loop rm acc)))"
  using assms
proof (induction rm acc rule: factorize_loop.induct)
  case (1 rm acc)
  show ?case
  proof (cases "1 < rm")
    case False
    with "1.prems" have "factorize_loop rm acc = \<lparr>fz_factors = acc, fz_remainder = 1\<rparr>" "rm = 1"
      by (simp_all add: factorize_loop.simps [of rm])
    then show ?thesis by simp
  next
    case True
    show ?thesis
    proof (cases "find (\<lambda>radix. 1 < radix \<and> rm mod radix = 0) kSupportedRadices")
      case None
      then have "\<forall>r \<in> set kSupportedRadices. \<not> r dvd rm"
        using radices_bounds unfolding find_None_iff by (metis dvd_imp_mod_0 less_le_trans one_less_numeral_iff semiring_norm(76))
      moreover have "factorize_loop rm acc = \<lparr>fz_factors = acc, fz_remainder = rm\<rparr>"
        using None True by (subst factorize_loop.simps) simp
      ultimately show ?thesis using "1.prems" by simp
    next
      case (Some r)
      then have r: "r \<in> set kSupportedRadices" "1 < r" "r dvd rm"
        by (auto simp: find_Some_iff dvd_eq_mod_eq_0)
      have step: "factorize_loop rm acc = factorize_loop (rm div r) (acc @ [r])"
        using True Some by (subst factorize_loop.simps) simp
      have pos: "0 < rm div r" using r "1.prems" by (auto elim!: dvdE simp: zero_less_mult_iff)
      obtain fs where fs: "fz_factors (factorize_loop (rm div r) (acc @ [r])) = (acc @ [r]) @ fs"
        "set fs \<subseteq> set kSupportedRadices"
        "prod_list fs * fz_remainder (factorize_loop (rm div r) (acc @ [r])) = rm div r"
        "0 < fz_remainder (factorize_loop (rm div r) (acc @ [r]))"
        "fz_remainder (factorize_loop (rm div r) (acc @ [r])) = 1 \<or>
         (\<forall>r' \<in> set kSupportedRadices. \<not> r' dvd fz_remainder (factorize_loop (rm div r) (acc @ [r])))"
        using "1.IH" [OF True Some pos] by blast
      have "r * (rm div r) = rm" using r(3) by simp
      with fs r step show ?thesis
        by (intro exI [of _ "r # fs"]) (simp add: mult.assoc)
    qed
  qed
qed

lemma factorize_supported_spec:
  assumes "0 < n"
  obtains fz where "factorize_supported_radices n = Inr fz" "set (fz_factors fz) \<subseteq> set kSupportedRadices"
    "prod_list (fz_factors fz) * fz_remainder fz = n" "0 < fz_remainder fz"
    "fz_remainder fz = 1 \<longleftrightarrow> smooth n"
proof -
  let ?fz = "factorize_loop n []"
  from factorize_loop_spec [OF assms, of "[]"] have f: "set (fz_factors ?fz) \<subseteq> set kSupportedRadices"
    "prod_list (fz_factors ?fz) * fz_remainder ?fz = n" "0 < fz_remainder ?fz"
    "fz_remainder ?fz = 1 \<or> (\<forall>r \<in> set kSupportedRadices. \<not> r dvd fz_remainder ?fz)"
    by auto
  have "fz_remainder ?fz = 1" if "smooth n"
  proof (rule ccontr)
    assume ne: "fz_remainder ?fz \<noteq> 1"
    then obtain q where q: "prime_int q" "q dvd fz_remainder ?fz"
      using prime_factor_exists [of "fz_remainder ?fz"] f(3) by auto
    then have "q dvd n" using f(2) by (metis dvd_mult)
    then have "q \<in> set kSupportedRadices" using small_radices q(1) that by (auto simp: smooth_def)
    with f(4) ne q(2) show False by blast
  qed
  moreover have "smooth n" if "fz_remainder ?fz = 1"
    using smooth_prod_list [OF f(1)] f(2) that by simp
  ultimately have iff: "fz_remainder ?fz = 1 \<longleftrightarrow> smooth n" by blast
  have "factorize_supported_radices n = Inr ?fz" using assms by (simp add: factorize_supported_radices_def)
  from that [OF this f(1-3) iff] show ?thesis .
qed

lemma factorize_or_raise_spec:
  "0 < n \<Longrightarrow> case factorize_or_raise n of Inr fs \<Rightarrow> radix_list n fs | Inl e \<Rightarrow> e \<noteq> OutOfFuel \<and> \<not> (smooth n \<and> 1 < n)"
  by (rule factorize_supported_spec [of n])
    (auto simp: factorize_or_raise_def radix_list_def split: sum.splits if_splits)

subsection \<open>The enumeration\<close>

lemma distinct_remdups_adj_sorted: "sorted xs \<Longrightarrow> distinct (remdups_adj (xs :: 'a :: linorder list))"
proof (induction xs rule: remdups_adj.induct)
  case (3 x y xs)
  show ?case
  proof (cases "x = y")
    case True
    with 3 show ?thesis by simp
  next
    case False
    have "x \<notin> set (y # xs)" using "3.prems" False by auto
    with 3 False show ?thesis by simp
  qed
qed simp_all

definition factorizations_ok :: "factorization_cache \<Rightarrow> bool" where
  "factorizations_ok cache \<longleftrightarrow>
     (\<forall>n L. 0 < n \<and> cache n = Some L \<longrightarrow> set L = {fs. radix_list n fs} \<and> sorted L \<and> distinct L)"

lemma radix_list_Cons:
  assumes "r \<in> set kSupportedRadices"
  shows "radix_list n (r # fs) \<longleftrightarrow> r dvd n \<and> (if n = r then fs = [] else radix_list (n div r) fs)"
proof -
  have r: "2 \<le> r" using radices_bounds [OF assms] by simp
  have one: "prod_list fs = 1 \<longleftrightarrow> fs = []" if "set fs \<subseteq> set kSupportedRadices"
    using radix_list_gt1 [of "prod_list fs" fs] that by (cases "fs = []") (simp_all add: radix_list_def)
  have quot: "r * m = n \<longleftrightarrow> r dvd n \<and> m = n div r" for m using r by auto
  have self: "n div r = 1 \<longleftrightarrow> n = r" if "r dvd n" using that r by (auto elim!: dvdE)
  show ?thesis using assms one quot self r by (auto simp: radix_list_def)
qed

lemma enumerate_spec:
  "0 < n \<Longrightarrow> factorizations_ok cache \<Longrightarrow>
     (case enumerate_factorizations n cache of
        (L, c) \<Rightarrow> set L = {fs. radix_list n fs} \<and> sorted L \<and> distinct L \<and> factorizations_ok c)"
  "0 < n \<Longrightarrow> set rs \<subseteq> set kSupportedRadices \<Longrightarrow> factorizations_ok cache \<Longrightarrow>
     (case enumerate_radices rs n res cache of
        (L, c) \<Rightarrow> set L = set res \<union> {fs. radix_list n fs \<and> hd fs \<in> set rs} \<and> factorizations_ok c)"
proof (induction n cache and rs n res cache rule: enumerate_factorizations_enumerate_radices.induct)
  case (1 n cache)
  show ?case
  proof (cases "cache n")
    case (Some L)
    with "1.prems" show ?thesis by (simp add: enumerate_factorizations.simps factorizations_ok_def)
  next
    case None
    obtain L c where eq: "enumerate_radices kSupportedRadices n [] cache = (L, c)" by fastforce
    have set: "set L = {fs. radix_list n fs \<and> hd fs \<in> set kSupportedRadices}" "factorizations_ok c"
      using "1.IH" [OF None] "1.prems" eq by auto
    have "hd fs \<in> set kSupportedRadices" if "radix_list n fs" for fs
      using that by (cases fs) (auto simp: radix_list_def)
    with set(1) have L: "set L = {fs. radix_list n fs}" by auto
    let ?R = "remdups_adj (sort L)"
    have R: "set ?R = {fs. radix_list n fs}" "sorted ?R" "distinct ?R"
      using L by (simp_all add: sorted_remdups_adj distinct_remdups_adj_sorted)
    then have "factorizations_ok (c(n \<mapsto> ?R))" using set(2) by (simp add: factorizations_ok_def)
    with R eq None show ?thesis by (simp add: enumerate_factorizations.simps Let_def)
  qed
next
  case (2 n res cache)
  then show ?case by simp
next
  case (3 r rs n res cache)
  have r: "r \<in> set kSupportedRadices" "1 < r" "set rs \<subseteq> set kSupportedRadices"
    using "3.prems"(2) radices_bounds by fastforce+
  have split: "{fs. radix_list n fs \<and> hd fs \<in> set (r # rs)} =
      {r # fs | fs. radix_list n (r # fs)} \<union> {fs. radix_list n fs \<and> hd fs \<in> set rs}"
  proof -
    have "fs \<in> {fs. radix_list n fs \<and> hd fs = r} \<longleftrightarrow> fs \<in> {r # fs | fs. radix_list n (r # fs)}" for fs
      by (cases fs) auto
    then have "{fs. radix_list n fs \<and> hd fs = r} = {r # fs | fs. radix_list n (r # fs)}" by blast
    then show ?thesis by auto
  qed
  consider "\<not> r dvd n" | "n = r" | "r dvd n" "n \<noteq> r" by auto
  then show ?case
  proof cases
    case 1
    then have "{r # fs | fs. radix_list n (r # fs)} = {}" using radix_list_Cons [OF r(1)] by simp
    with 1 "3.IH"(1) "3.prems" r split show ?thesis by (simp add: dvd_eq_mod_eq_0)
  next
    case 2
    then have "{r # fs | fs. radix_list n (r # fs)} = {[r]}" using radix_list_Cons [OF r(1)] by auto
    with 2 "3.IH"(2) "3.prems" r split show ?thesis by (auto split: prod.splits)
  next
    case 3
    have pos: "0 < n div r" using 3 r(2) "3.prems"(1) by (auto elim!: dvdE simp: zero_less_mult_iff)
    obtain tails c where eq: "enumerate_factorizations (n div r) cache = (tails, c)" by fastforce
    have guard: "\<not> (\<not> (1 < r \<and> 0 < n) \<or> n mod r \<noteq> 0)" using 3 r "3.prems"(1) by simp
    have t: "set tails = {fs. radix_list (n div r) fs}" "factorizations_ok c"
      using "3.IH"(3) [OF guard 3(2) pos "3.prems"(3)] eq by auto
    have heads: "{r # fs | fs. radix_list n (r # fs)} = (\<lambda>fs. r # fs) ` set tails"
      using radix_list_Cons [OF r(1)] 3 t(1) by auto
    have IH: "case enumerate_radices rs n (res @ map (\<lambda>tail. r # tail) tails) c of
        (L, c) \<Rightarrow> set L = set (res @ map (\<lambda>tail. r # tail) tails) \<union>
          {fs. radix_list n fs \<and> hd fs \<in> set rs} \<and> factorizations_ok c"
      using "3.IH"(4) [OF guard 3(2) eq [symmetric] "3.prems"(1) r(3) t(2)] .
    show ?thesis using IH guard 3(2) eq heads split by (auto split: prod.splits)
  qed
qed

section \<open>Lanes, warps, overrides\<close>

lemma largest_divisor_spec:
  assumes "0 < total_count" and "0 < c"
  shows "1 \<le> largest_divisor total_count c \<and> largest_divisor total_count c \<le> c \<and>
         largest_divisor total_count c dvd total_count"
  using assms
proof (induction total_count c rule: largest_divisor.induct)
  case (1 t c)
  show ?case
  proof (cases "t mod c = 0")
    case True
    with "1.prems" show ?thesis by (simp add: largest_divisor.simps [of t c] dvd_eq_mod_eq_0)
  next
    case False
    then have "1 < c" using "1.prems" by (cases "c = 1") auto
    with False "1.IH" "1.prems" show ?thesis by (simp add: largest_divisor.simps [of t c])
  qed
qed

lemma gcd_fold_dvd:
  "foldl (\<lambda>g f. gcd g (n div f)) g0 fs dvd (g0 :: int) \<and> (\<forall>f \<in> set fs. foldl (\<lambda>g f. gcd g (n div f)) g0 fs dvd n div f)"
proof (induction fs arbitrary: g0)
  case (Cons f fs)
  let ?g = "foldl (\<lambda>g f. gcd g (n div f)) (gcd g0 (n div f)) fs"
  have "?g dvd gcd g0 (n div f)" using Cons by blast
  then have "?g dvd g0" "?g dvd n div f" by (auto intro: dvd_trans)
  with Cons show ?case by auto
qed simp

lemma choose_lanes_spec:
  assumes "factors \<noteq> []" and "\<And>f. f \<in> set factors \<Longrightarrow> 0 < f \<and> f dvd n" and "0 < n"
  shows "1 \<le> choose_lanes b n factors \<and> choose_lanes b n factors \<le> 256 \<and>
         (\<forall>f \<in> set factors. choose_lanes b n factors dvd n div f)"
proof -
  let ?g = "foldl (\<lambda>g f. gcd g (n div f)) (n div hd factors) (tl factors)"
  have hd: "0 < n div hd factors"
    using assms(2) [of "hd factors"] assms(1,3) by (auto elim!: dvdE simp: zero_less_mult_iff)
  have "0 \<le> ?g"
    using hd by (cases "tl factors" rule: rev_cases) (auto simp: less_imp_le)
  moreover have "?g \<noteq> 0" using gcd_fold_dvd [of n "n div hd factors" "tl factors"] hd by auto
  ultimately have g: "0 < ?g" by simp
  have dvd: "?g dvd n div f" if "f \<in> set factors" for f
    using that gcd_fold_dvd [of n "n div hd factors" "tl factors"] assms(1) by (cases factors) auto
  define up :: int where "up = (if (case b_request_context b of None \<Rightarrow> False
          | Some c \<Rightarrow> ctx_device_type c = ''ix'' \<and> ctx_batch c = 1 \<and> ctx_input_dtype c = ''complex64'' \<and>
                      ctx_output_dtype c = ''complex64'' \<and> n = 4096) then 256 else kMaxLanes)"
  have up: "0 < up" "up \<le> 256" by (simp_all add: up_def kMaxLanes_def)
  have eq: "choose_lanes b n factors = largest_divisor ?g (min ?g up)"
    by (simp add: choose_lanes_def Let_def up_def)
  have "1 \<le> largest_divisor ?g (min ?g up) \<and> largest_divisor ?g (min ?g up) \<le> min ?g up \<and>
      largest_divisor ?g (min ?g up) dvd ?g"
    using largest_divisor_spec [OF g, of "min ?g up"] g up by simp
  with eq dvd up show ?thesis by (auto intro: dvd_trans)
qed

lemma double_until_pow2:
  "\<exists>k. double_until w (2 ^ j) = 2 ^ k \<and> j \<le> k"
proof (induction "nat (w - 2 ^ j)" arbitrary: j rule: less_induct)
  case less
  show ?case
  proof (cases "2 ^ j < w")
    case True
    then have "nat (w - 2 ^ Suc j) < nat (w - 2 ^ j)" by simp
    from less [OF this] obtain k where "double_until w (2 ^ Suc j) = 2 ^ k" "Suc j \<le> k" by blast
    with True show ?thesis by (intro exI [of _ k]) (simp add: double_until.simps [of w "2 ^ j"] mult.commute)
  next
    case False
    then show ?thesis by (intro exI [of _ j]) (simp add: double_until.simps [of w "2 ^ j"])
  qed
qed

lemma choose_num_warps_values: "choose_num_warps b lanes \<in> {1, 2, 4, 8}"
proof -
  have m: "min (2 ^ k) 8 \<in> {1, 2, 4, 8 :: int}" for k :: nat
  proof (cases "k \<le> 2")
    case True
    then have "k = 0 \<or> k = 1 \<or> k = 2" by auto
    then show ?thesis by auto
  next
    case False
    then have "(2::int) ^ 3 \<le> 2 ^ k" by (intro power_increasing) auto
    then show ?thesis by (simp add: min_def)
  qed
  have "\<exists>k. double_until w (if m then 2 else 1) = 2 ^ k" for w m
    using double_until_pow2 [of w 0] double_until_pow2 [of w 1] by auto
  then show ?thesis unfolding choose_num_warps_def Let_def using m by metis
qed

lemma choose_from_Some: "choose_from tbl s = Some fs \<Longrightarrow> \<exists>t. (t, fs) \<in> set tbl"
  by (induction tbl s rule: choose_from.induct) (auto split: if_splits)

lemma first_override_Some: "first_override rs = Inr (Some fs) \<Longrightarrow> Inr (Some fs) \<in> set rs"
  by (induction rs rule: first_override.induct) auto

lemma first_override_Inl: "first_override rs = Inl e \<Longrightarrow> Inl e \<in> set rs"
  by (induction rs rule: first_override.induct) auto

lemma measured_lists:
  "radix_list 256 [16, 16]" "radix_list 256 [8, 8, 4]" "radix_list 256 [4, 8, 8]" "radix_list 256 [8, 4, 8]"
  "radix_list 256 [4, 16, 4]" "radix_list 256 [4, 4, 4, 4]" "radix_list 128 [4, 4, 8]"
  "radix_list 128 [4, 8, 4]" "radix_list 128 [8, 8, 2]" "radix_list 128 [16, 8]" "radix_list 128 [8, 16]"
  "radix_list 2048 [8, 16, 16]" "radix_list 2048 [16, 8, 16]" "radix_list 32 [4, 4, 2]" "radix_list 32 [32]"
  "radix_list 32 [4, 8]" "radix_list 64 [8, 8]" "radix_list 1024 [8, 4, 8, 4]" "radix_list 1024 [16, 8, 8]"
  "radix_list 1024 [8, 8, 4, 4]" "radix_list 16 [4, 4]" "radix_list 16 [2, 2, 2, 2]" "radix_list 16 [4, 2, 2]"
  "radix_list 16 [2, 2, 4]" "radix_list 16 [2, 8]" "radix_list 16 [8, 2]" "radix_list 16 [16]"
  by (simp_all add: radix_list_def kSupportedRadices_def)

lemma pick_2048:
  "(if a then Inl e1 else if b then Inl e2 else if p then Inr (Some x) else if q then Inr (Some y)
    else if r then Inr (Some x) else if s then Inl e3 else Inr None) = Inr (Some fs) \<Longrightarrow> fs = x \<or> fs = y"
  by (auto split: if_splits)

lemma override_sound:
  "hcu_256_override env c n = Inr (Some fs) \<Longrightarrow> radix_list n fs"
  "hcu_128_override env c n = Inr (Some fs) \<Longrightarrow> radix_list n fs"
  "hcu_2048_override env c n = Inr (Some fs) \<Longrightarrow> radix_list n fs"
  "maca_musa_override env c n = Inr (Some fs) \<Longrightarrow> radix_list n fs"
  "ix_override env c n = Inr (Some fs) \<Longrightarrow> radix_list n fs"
  "hcu_short_override env c n = Inr (Some fs) \<Longrightarrow> radix_list n fs"
proof -
  show "hcu_256_override env c n = Inr (Some fs) \<Longrightarrow> radix_list n fs"
    by (auto simp: hcu_256_override_def measured_lists split: if_splits option.splits dest!: choose_from_Some)
  show "hcu_128_override env c n = Inr (Some fs) \<Longrightarrow> radix_list n fs"
    by (auto simp: hcu_128_override_def measured_lists split: if_splits option.splits dest!: choose_from_Some)
  show "radix_list n fs" if a: "hcu_2048_override env c n = Inr (Some fs)"
  proof (cases "ctx_device_type c = ''hcu'' \<and> ctx_origin_rank c = 3 \<and> n = 2048")
    case True
    then have "fs = [8, 16, 16] \<or> fs = [16, 8, 16]"
      using a unfolding hcu_2048_override_def Let_def if_P [OF True] by (rule_tac pick_2048)
    with True show ?thesis by (auto simp: measured_lists)
  next
    case False
    then show ?thesis using a unfolding hcu_2048_override_def if_not_P [OF False] by simp
  qed
  show "maca_musa_override env c n = Inr (Some fs) \<Longrightarrow> radix_list n fs"
    by (auto simp: maca_musa_override_def measured_lists split: if_splits option.splits)
  show "ix_override env c n = Inr (Some fs) \<Longrightarrow> radix_list n fs"
    unfolding ix_override_def Let_def
    by (simp only: split: if_split_asm) (auto simp: measured_lists)
  show "hcu_short_override env c n = Inr (Some fs) \<Longrightarrow> radix_list n fs"
    by (auto simp: hcu_short_override_def measured_lists split: if_splits option.splits dest!: choose_from_Some)
qed

lemma leaf_override_sound: "leaf_override env c n = Inr (Some fs) \<Longrightarrow> radix_list n fs"
  unfolding leaf_override_def by (drule first_override_Some) (auto dest: override_sound sym)

end
