(* ===== verification/FFT_BuilderInv.thy ===== *)
theory FFT_BuilderInv
  imports FFT_BuilderFacts
begin

text \<open>
  The invariant of the plan builder and the contract of its leaf operations.

  \<open>plan_ok n node\<close> says that a plan tree computes a transform of length \<open>n\<close>: the factors of a leaf
  multiply to its length, a four-step split is a factorization, a Bluestein convolution is long
  enough, a Rader node carries a primitive root and its index table. \<open>builder_inv c h\<close> says that the
  builder's context is \<open>c\<close>, its heuristic flag is \<open>h\<close> and every cache entry is right for its key.
  \<open>keeps c h f Q E\<close> is the contract of a member function: it keeps the invariant, its result
  satisfies \<open>Q\<close>, its exception \<open>E\<close>.
\<close>

text \<open>
  The lanes of a leaf split the codelets of every stage, or the leaf is one whose stages get lanes of
  their own when its tables are built.
\<close>

definition leaf_lanes_ok :: "int \<Rightarrow> int list \<Rightarrow> int \<Rightarrow> bool" where
  "leaf_lanes_ok n fs lanes \<longleftrightarrow>
     (\<forall>f \<in> set fs. lanes dvd n div f) \<or> (128 \<le> n \<and> n \<le> 4096 \<and> 2 \<le> length fs)"

fun plan_ok :: "int \<Rightarrow> plan_node \<Rightarrow> bool" where
  "plan_ok n (LeafPlanNode m fs rm lanes warps generic smem) \<longleftrightarrow>
     m = n \<and> fs \<noteq> [] \<and> prod_list fs = n \<and> (\<forall>f \<in> set fs. 1 < f) \<and> rm = 1 \<and> 1 \<le> lanes \<and> leaf_lanes_ok n fs lanes \<and>
     warps \<in> {1, 2, 4, 8} \<and> smem = (if length fs \<le> 1 then 0 else ceil_power_of_two n)"
| "plan_ok n (DirectDFTPlanNode m) \<longleftrightarrow> m = n \<and> 0 < n"
| "plan_ok n (StockhamPlanNode m fs) \<longleftrightarrow>
     m = n \<and> fs \<noteq> [] \<and> prod_list fs = n \<and> (\<forall>f \<in> set fs. 1 < f)"
| "plan_ok n (FourStepPlanNode m n1 n2 row col) \<longleftrightarrow>
     m = n \<and> n1 * n2 = n \<and> 1 < n1 \<and> 1 < n2 \<and> plan_ok n1 row \<and> plan_ok n2 col"
| "plan_ok n (BluesteinPlanNode m conv_length fft_plan) \<longleftrightarrow>
     m = n \<and> 1 < n \<and> 2 * n - 1 \<le> conv_length \<and> plan_ok conv_length fft_plan"
| "plan_ok n (RaderPlanNode prime g idx conv_plan) \<longleftrightarrow>
     prime = n \<and> prime_int n \<and> primitive_root n g \<and> build_rader_index_table n g = Inr idx \<and>
     plan_ok (n - 1) conv_plan"
| "plan_ok n (TwoDimPlanNode n0 n1 strategy row col) \<longleftrightarrow> n0 * n1 = n \<and> plan_ok n1 row \<and> plan_ok n0 col"
| "plan_ok n (ThreeDimPlanNode n0 n1 n2 strategy p2 p1 p0) \<longleftrightarrow>
     n0 * n1 * n2 = n \<and> plan_ok n2 p2 \<and> plan_ok n1 p1 \<and> plan_ok n0 p0"

lemma plan_ok_length: "plan_ok n nd \<Longrightarrow> node_length nd = n"
  by (cases nd) auto

definition divisors_ok :: "int \<Rightarrow> int list \<Rightarrow> bool" where
  "divisors_ok n ds \<longleftrightarrow> set ds = {d. 0 < d \<and> d dvd n} \<and> sorted ds \<and> distinct ds"

definition caches_ok :: "builder \<Rightarrow> bool" where
  "caches_ok b \<longleftrightarrow>
     factorizations_ok (b_factorization_cache b) \<and>
     (\<forall>n fs. 0 < n \<and> b_best_leaf_factors_cache b n = Some fs \<longrightarrow> radix_list n fs) \<and>
     (\<forall>n ds. 0 < n \<and> b_divisor_cache b n = Some ds \<longrightarrow> divisors_ok n ds) \<and>
     (\<forall>n nd. 0 < n \<and> b_node_cache b n = Some nd \<longrightarrow> plan_ok n nd) \<and>
     (\<forall>n cs. 0 < n \<and> b_tune_candidate_cache b n = Some cs \<longrightarrow> (\<forall>cd \<in> set cs. plan_ok n (cand_node cd)))"

definition builder_inv :: "request_ctx \<Rightarrow> bool \<Rightarrow> builder \<Rightarrow> bool" where
  "builder_inv c h b \<longleftrightarrow>
     b_request_context b = Some c \<and> b_parallel_leaf_heuristic_enabled b = h \<and> caches_ok b"

definition keeps :: "request_ctx \<Rightarrow> bool \<Rightarrow> (builder, 'a) m \<Rightarrow> ('a \<Rightarrow> bool) \<Rightarrow> (exn \<Rightarrow> bool) \<Rightarrow> bool" where
  "keeps c h f Q E \<longleftrightarrow>
     mtriple (builder_inv c h) f (\<lambda>x s. builder_inv c h s \<and> Q x) (\<lambda>e s. builder_inv c h s \<and> E e)"

text \<open>An exception of the program, and only when the operation is not known to succeed.\<close>

definition fails_unless :: "bool \<Rightarrow> exn \<Rightarrow> bool" where
  "fails_unless ok e \<longleftrightarrow> e \<noteq> OutOfFuel \<and> \<not> ok"

lemma caches_ok_new [simp]: "caches_ok new_builder"
  by (simp add: caches_ok_def new_builder_def factorizations_ok_def)

section \<open>Rules\<close>

lemma keeps_ret: "Q x \<Longrightarrow> keeps c h (mret x) Q E"
  by (simp add: keeps_def mtriple_ret)

lemma keeps_throw: "E e \<Longrightarrow> keeps c h (mthrow e) Q E"
  by (simp add: keeps_def mtriple_throw)

lemma keeps_bind:
  assumes "keeps c h f R E" and "\<And>x. R x \<Longrightarrow> keeps c h (g x) Q E"
  shows "keeps c h (mbind f g) Q E"
  unfolding keeps_def
proof (rule mtriple_bind)
  show "mtriple (builder_inv c h) f (\<lambda>x s. builder_inv c h s \<and> R x) (\<lambda>e s. builder_inv c h s \<and> E e)"
    using assms(1) by (simp add: keeps_def)
  fix x
  show "mtriple (\<lambda>s. builder_inv c h s \<and> R x) (g x) (\<lambda>x s. builder_inv c h s \<and> Q x)
      (\<lambda>e s. builder_inv c h s \<and> E e)"
    using assms(2) by (cases "R x") (auto simp: keeps_def mtriple_def)
qed

lemma keeps_weaken:
  "keeps c h f Q E \<Longrightarrow> (\<And>x. Q x \<Longrightarrow> Q' x) \<Longrightarrow> (\<And>e. E e \<Longrightarrow> E' e) \<Longrightarrow> keeps c h f Q' E'"
  unfolding keeps_def by (erule mtriple_weaken) auto

lemma keeps_lift: "(case r of Inr x \<Rightarrow> Q x | Inl e \<Rightarrow> E e) \<Longrightarrow> keeps c h (mlift r) Q E"
  by (auto simp: keeps_def intro!: mtriple_lift split: sum.splits)

lemma keeps_get: "(\<And>b. builder_inv c h b \<Longrightarrow> keeps c h (g b) Q E) \<Longrightarrow> keeps c h (mbind mget g) Q E"
  by (auto simp: keeps_def mtriple_def mbind_def mget_def)

lemma keeps_context: "keeps c h (g c) Q E \<Longrightarrow> keeps c h (mbind request_context g) Q E"
  unfolding keeps_def mtriple_def
  by (simp add: request_context_def builder_inv_def mbind_def mget_def mret_def)

lemma keeps_modify:
  "(\<And>b. builder_inv c h b \<Longrightarrow> builder_inv c h (f b)) \<Longrightarrow> Q () \<Longrightarrow> keeps c h (mmodify f) Q E"
  by (simp add: keeps_def mtriple_modify)

lemma keeps_fold:
  assumes "I a" and "\<And>x a. x \<in> set xs \<Longrightarrow> I a \<Longrightarrow> keeps c h (f x a) I E"
  shows "keeps c h (mfold f xs a) I E"
  using assms
proof (induction xs arbitrary: a)
  case (Cons x xs)
  show ?case using Cons.prems Cons.IH by (auto intro!: keeps_bind [where R = I])
qed (simp add: keeps_ret)

lemma keeps_catch:
  assumes "keeps c h f Q R" and "keeps c h g Q E" and "\<And>e. R e \<Longrightarrow> e \<noteq> OutOfFuel"
  shows "keeps c h (mcatch f g) Q E"
  unfolding keeps_def
proof (rule mtriple_catch)
  show "mtriple (builder_inv c h) f (\<lambda>x s. builder_inv c h s \<and> Q x) (\<lambda>e s. builder_inv c h s \<and> R e)"
    using assms(1) by (simp add: keeps_def)
  show "mtriple (\<lambda>s. \<exists>e. e \<noteq> OutOfFuel \<and> builder_inv c h s \<and> R e) g (\<lambda>x s. builder_inv c h s \<and> Q x)
      (\<lambda>e s. builder_inv c h s \<and> E e)"
    using assms(2) unfolding keeps_def by (rule mtriple_weaken) auto
qed (use assms(3) in auto)

lemma keeps_if:
  "(P \<Longrightarrow> keeps c h f Q E) \<Longrightarrow> (\<not> P \<Longrightarrow> keeps c h g Q E) \<Longrightarrow> keeps c h (if P then f else g) Q E"
  by simp

lemma keeps_option:
  "(x = None \<Longrightarrow> keeps c h f Q E) \<Longrightarrow> (\<And>y. x = Some y \<Longrightarrow> keeps c h (g y) Q E) \<Longrightarrow>
   keeps c h (case x of None \<Rightarrow> f | Some y \<Rightarrow> g y) Q E"
  by (cases x) auto

lemmas keeps_rules = keeps_ret keeps_throw keeps_context keeps_if keeps_option

section \<open>Leaf operations\<close>

lemma keeps_should_use_leaf:
  "keeps c h (should_use_leaf n fs)
     (\<lambda>r. r \<longrightarrow> n \<le> kLeafMaxN \<and> leaf_smem_elements n fs (ctx_input_dtype c) \<noteq> None) E"
  unfolding should_use_leaf_def
  by (intro keeps_context keeps_ret) (auto simp: leaf_smem_bytes_def split: option.splits)

text \<open>What a leaf needs of its factors.\<close>

definition leaf_factors :: "int \<Rightarrow> int list \<Rightarrow> bool" where
  "leaf_factors n fs \<longleftrightarrow> fs \<noteq> [] \<and> prod_list fs = n \<and> (\<forall>f \<in> set fs. 1 < f)"

lemma radix_list_leaf: "radix_list n fs \<Longrightarrow> leaf_factors n fs"
  using radices_bounds by (fastforce simp: radix_list_def leaf_factors_def)

lemma leaf_factors_pos: "leaf_factors n fs \<Longrightarrow> 0 < n"
  by (auto simp: leaf_factors_def intro!: prod_list_pos)

lemma keeps_make_leaf_plan:
  assumes "leaf_factors n fs"
  shows "keeps c h (make_leaf_plan n fs 1) (plan_ok n)
           (fails_unless (leaf_smem_elements n fs (ctx_input_dtype c) \<noteq> None))"
proof -
  have lanes: "1 \<le> choose_lanes b n fs" "leaf_lanes_ok n fs (choose_lanes b n fs)" for b
    using choose_lanes_spec [of fs n b] assms leaf_factors_pos [OF assms] member_dvd_prod_list
    by (force simp: leaf_factors_def leaf_lanes_ok_def)+
  show ?thesis
    unfolding make_leaf_plan_def
    by (intro keeps_context keeps_option keeps_throw keeps_get)
      (auto simp: fails_unless_def Let_def lanes leaf_smem_elements_def assms [unfolded leaf_factors_def]
         split: if_splits intro!: keeps_ret choose_num_warps_values [simplified])
qed

lemma keeps_estimate_leaf [intro!]: "keeps c h (estimate_leaf_warm_cost_factors n fs) (\<lambda>_. True) E"
  unfolding estimate_leaf_warm_cost_factors_def Let_def by (intro keeps_context keeps_get keeps_ret TrueI)

lemma keeps_score [intro!]: "keeps c h (score_leaf_factorization n fs) (\<lambda>_. True) E"
  unfolding score_leaf_factorization_def Let_def
  by (intro keeps_bind [where R = "\<lambda>_. True"] keeps_get keeps_ret TrueI keeps_estimate_leaf)

lemma keeps_enumerate:
  assumes "0 < n"
  shows "keeps c h (enumerate_supported_factorizations n) (\<lambda>L. set L = {fs. radix_list n fs}) E"
proof -
  have "builder_inv c h (b\<lparr>b_factorization_cache := cache\<rparr>) \<and> set L = {fs. radix_list n fs}"
    if "builder_inv c h b" "enumerate_factorizations n (b_factorization_cache b) = (L, cache)" for b L cache
    using that enumerate_spec(1) [OF assms, of "b_factorization_cache b"]
    by (simp add: builder_inv_def caches_ok_def)
  then show ?thesis
    by (auto simp: keeps_def mtriple_def enumerate_supported_factorizations_def split: prod.splits)
qed

lemma keeps_best_scored:
  assumes "L \<noteq> []" and "\<And>fs. fs \<in> set L \<Longrightarrow> P fs"
  shows "keeps c h (best_scored n L) P E"
  unfolding best_scored_def
proof (intro keeps_bind [OF keeps_score])
  fix score0
  let ?f = "\<lambda>candidate best. mbind (score_leaf_factorization n candidate)
      (\<lambda>score. mret (if snd best < score then (candidate, score) else best))"
  have "keeps c h (mfold ?f L (hd L, score0)) (\<lambda>best. P (fst best)) E"
    using assms by (intro keeps_fold keeps_bind [OF keeps_score] keeps_ret) auto
  then show "keeps c h (mbind (mfold ?f L (hd L, score0)) (\<lambda>best. mret (fst best))) P E"
    by (rule keeps_bind) (simp add: keeps_ret)
qed

lemma keeps_remember:
  assumes "radix_list n fs"
  shows "keeps c h (remember_leaf_factors n fs) (radix_list n) E"
  unfolding remember_leaf_factors_def
  by (rule keeps_bind [where R = "\<lambda>_. True"])
    (use assms in \<open>auto intro!: keeps_modify keeps_ret simp: builder_inv_def caches_ok_def\<close>)

text \<open>No environment variable is set: the measured overrides never throw.\<close>

definition no_overrides :: "plan_cfg \<Rightarrow> bool" where
  "no_overrides cfg \<longleftrightarrow> (\<forall>name. cfg_env cfg name = None)"

lemma leaf_override_no_throw:
  assumes "no_overrides cfg"
  shows "leaf_override (cfg_env cfg) c n \<noteq> Inl e"
proof
  have none: "cfg_env cfg x = None" for x using assms by (simp add: no_overrides_def)
  assume "leaf_override (cfg_env cfg) c n = Inl e"
  then have "Inl e \<in> set [hcu_256_override (cfg_env cfg) c n, hcu_128_override (cfg_env cfg) c n,
      hcu_2048_override (cfg_env cfg) c n, maca_musa_override (cfg_env cfg) c n,
      ix_override (cfg_env cfg) c n, hcu_short_override (cfg_env cfg) c n]"
    unfolding leaf_override_def by (rule first_override_Inl)
  moreover have "hcu_256_override (cfg_env cfg) c n \<noteq> Inl e" by (simp add: hcu_256_override_def none)
  moreover have "hcu_128_override (cfg_env cfg) c n \<noteq> Inl e" by (simp add: hcu_128_override_def none)
  moreover have "hcu_2048_override (cfg_env cfg) c n \<noteq> Inl e"
    by (simp add: hcu_2048_override_def none factors_2048_setting_def Let_def)
  moreover have "maca_musa_override (cfg_env cfg) c n \<noteq> Inl e" by (simp add: maca_musa_override_def none)
  moreover have "ix_override (cfg_env cfg) c n \<noteq> Inl e" by (simp add: ix_override_def Let_def)
  moreover have "hcu_short_override (cfg_env cfg) c n \<noteq> Inl e" by (simp add: hcu_short_override_def none)
  ultimately show False by auto
qed

lemma pick_2048_exn:
  "(if a then Inl e1 else if b then Inl e2 else if p then Inr (Some x) else if q then Inr (Some y)
    else if r then Inr (Some x) else if s then Inl e3 else Inr None) = Inl e \<Longrightarrow> e = e1 \<or> e = e2 \<or> e = e3"
  by (auto split: if_splits)

lemma hcu_2048_no_fuel: "hcu_2048_override env c n \<noteq> Inl OutOfFuel"
proof (cases "ctx_device_type c = ''hcu'' \<and> ctx_origin_rank c = 3 \<and> n = 2048")
  case True
  show ?thesis
    unfolding hcu_2048_override_def Let_def if_P [OF True] by (rule notI, drule pick_2048_exn) simp
next
  case False
  show ?thesis unfolding hcu_2048_override_def if_not_P [OF False] by simp
qed

lemma override_no_fuel: "leaf_override env c n = Inl e \<Longrightarrow> e \<noteq> OutOfFuel"
proof
  assume "leaf_override env c n = Inl e" "e = OutOfFuel"
  then have "Inl OutOfFuel \<in> set [hcu_256_override env c n, hcu_128_override env c n,
      hcu_2048_override env c n, maca_musa_override env c n, ix_override env c n, hcu_short_override env c n]"
    unfolding leaf_override_def by (auto dest: first_override_Inl)
  moreover have "hcu_256_override env c n \<noteq> Inl OutOfFuel" "hcu_128_override env c n \<noteq> Inl OutOfFuel"
    "maca_musa_override env c n \<noteq> Inl OutOfFuel" "hcu_short_override env c n \<noteq> Inl OutOfFuel"
    by (simp_all add: hcu_256_override_def hcu_128_override_def maca_musa_override_def hcu_short_override_def
        split: option.splits)
  moreover have "ix_override env c n \<noteq> Inl OutOfFuel" by (simp add: ix_override_def Let_def)
  ultimately show False using hcu_2048_no_fuel [of env c n] by (auto dest: sym)
qed

lemma keeps_select_leaf_factors:
  assumes "0 < n"
  shows "keeps c h (select_leaf_factors cfg n) (radix_list n) (fails_unless (no_overrides cfg \<and> smooth n \<and> 1 < n))"
    (is "keeps c h _ _ ?E")
proof -
  have ov: "case leaf_override (cfg_env cfg) c n of
      Inr r \<Rightarrow> (\<forall>fs. r = Some fs \<longrightarrow> radix_list n fs) | Inl e \<Rightarrow> ?E e"
    using leaf_override_sound [of "cfg_env cfg" c n] leaf_override_no_throw [of cfg c n]
      override_no_fuel [of "cfg_env cfg" c n]
    by (auto simp: fails_unless_def split: sum.splits)
  have cached: "radix_list n fs" if "builder_inv c h b" "b_best_leaf_factors_cache b n = Some fs" for b fs
    using that assms by (auto simp: builder_inv_def caches_ok_def)
  have single: "radix_list n [n]" if "contains kSupportedRadices n"
    using that by (simp add: radix_list_def contains_def)
  have raise: "keeps c h (mlift (factorize_or_raise n)) (radix_list n) ?E"
    using factorize_or_raise_spec [OF assms]
    by (intro keeps_lift) (auto simp: fails_unless_def split: sum.splits)
  have search: "keeps c h (mbind (enumerate_supported_factorizations n) (\<lambda>candidates.
      mbind (if candidates = [] then mlift (factorize_or_raise n) else best_scored n candidates)
        (\<lambda>best. remember_leaf_factors n best))) (radix_list n) ?E"
    using raise by (intro keeps_bind [OF keeps_enumerate [OF assms]] keeps_bind [where R = "radix_list n"]
        keeps_if keeps_best_scored keeps_remember) auto
  show ?thesis
    unfolding select_leaf_factors_def
    by (intro keeps_context keeps_bind [OF keeps_lift [OF ov]] keeps_option keeps_get keeps_if keeps_ret
        keeps_remember search)
      (auto simp: cached single measured_lists)
qed

lemma keeps_estimate_leaf_warm_cost:
  "0 < n \<Longrightarrow> keeps c h (estimate_leaf_warm_cost cfg n) (\<lambda>_. True) (fails_unless (no_overrides cfg \<and> smooth n \<and> 1 < n))"
  unfolding estimate_leaf_warm_cost_def by (intro keeps_bind [OF keeps_select_leaf_factors]) auto

end
