(* ===== verification/FFT_PlannerFacts.thy ===== *)
theory FFT_PlannerFacts
  imports FFT_Planner FFT_BuilderInv
begin

text \<open>
  The contracts of the planner's member functions. \<open>planner_calls\<close> is the interface between a
  planning step and the recursive calls it makes: \<open>build_auto_node\<close> returns a plan for the length
  it is given, and both recursive functions keep the builder's invariant and fail only on lengths
  that are not \<open>good\<close>. The contract of each step is proved once inside the locale; tying the
  recursion then is an induction on its depth, and the locale is interpreted on
  \<open>build_auto_node_fuel\<close> and \<open>cost_for_fuel\<close>.
\<close>

section \<open>Further rules\<close>

lemma keeps_bind_weak:
  assumes "keeps c h f R E'" and "\<And>e. E' e \<Longrightarrow> E e" and "\<And>x. R x \<Longrightarrow> keeps c h (g x) Q E"
  shows "keeps c h (mbind f g) Q E"
  using keeps_bind [OF keeps_weaken [OF assms(1)]] assms(2,3) by blast

lemma keeps_fold_reach:
  assumes "I a" and "x0 \<in> set xs \<or> J a"
    and "\<And>x a. x \<in> set xs \<Longrightarrow> I a \<Longrightarrow> keeps c h (f x a) (\<lambda>r. I r \<and> (J a \<or> x = x0 \<longrightarrow> J r)) E"
  shows "keeps c h (mfold f xs a) (\<lambda>r. I r \<and> J r) E"
  using assms
proof (induction xs arbitrary: a)
  case Nil
  then show ?case by (simp add: keeps_ret)
next
  case (Cons x xs)
  have "keeps c h (f x a) (\<lambda>r. I r \<and> (J a \<or> x = x0 \<longrightarrow> J r)) E" using Cons.prems by simp
  then show ?case
    unfolding mfold.simps
  proof (rule keeps_bind)
    fix r assume r: "I r \<and> (J a \<or> x = x0 \<longrightarrow> J r)"
    show "keeps c h (mfold f xs r) (\<lambda>r. I r \<and> J r) E"
      using r Cons.prems by (intro Cons.IH) auto
  qed
qed

lemma keeps_catch_fuel:
  assumes "keeps c h f Q R" and "keeps c h g Q E" and "R OutOfFuel \<Longrightarrow> E OutOfFuel"
  shows "keeps c h (mcatch f g) Q E"
  unfolding keeps_def
proof (rule mtriple_catch)
  show "mtriple (builder_inv c h) f (\<lambda>x s. builder_inv c h s \<and> Q x) (\<lambda>e s. builder_inv c h s \<and> R e)"
    using assms(1) by (simp add: keeps_def)
  show "mtriple (\<lambda>s. \<exists>e. e \<noteq> OutOfFuel \<and> builder_inv c h s \<and> R e) g (\<lambda>x s. builder_inv c h s \<and> Q x)
      (\<lambda>e s. builder_inv c h s \<and> E e)"
    using assms(2) unfolding keeps_def by (rule mtriple_weaken) auto
qed (use assms(3) in auto)

lemma keeps_morelse:
  assumes "keeps c h f (\<lambda>r. \<forall>x. r = Some x \<longrightarrow> Q x) E" and "keeps c h g Q E"
  shows "keeps c h (morelse f g) Q E"
  unfolding morelse_def using assms(2)
  by (intro keeps_bind [OF assms(1)] keeps_option keeps_ret) auto

text \<open>As \<open>keeps_morelse\<close>, with what is known when the first alternative declines.\<close>

lemma keeps_morelse_case:
  assumes "keeps c h f (\<lambda>r. case r of Some x \<Rightarrow> Q x | None \<Rightarrow> P) E" and "P \<Longrightarrow> keeps c h g Q E"
  shows "keeps c h (morelse f g) Q E"
  unfolding morelse_def using assms(2)
  by (intro keeps_bind [OF assms(1)] keeps_option keeps_ret) auto

lemma builder_inv_set_heuristic: "builder_inv c h b \<Longrightarrow> builder_inv c h' (set_heuristic h' b)"
  by (simp add: builder_inv_def set_heuristic_def caches_ok_def)

lemma keeps_with_heuristic:
  assumes "keeps c a f Q E"
  shows "keeps c h (with_heuristic a f) Q E"
  unfolding with_heuristic_def
proof (rule keeps_get)
  fix b assume b: "builder_inv c h b"
  have flag: "b_parallel_leaf_heuristic_enabled b = h" using b by (simp add: builder_inv_def)
  show "keeps c h (mbind (mmodify (set_heuristic a)) (\<lambda>_. mfinally f (set_heuristic (b_parallel_leaf_heuristic_enabled b)))) Q E"
    unfolding keeps_def flag
  proof (rule mtriple_bind)
    show "mtriple (builder_inv c h) (mmodify (set_heuristic a)) (\<lambda>_. builder_inv c a) (\<lambda>e s. builder_inv c h s \<and> E e)"
      by (intro mtriple_modify builder_inv_set_heuristic)
    show "mtriple (builder_inv c a) (mfinally f (set_heuristic h)) (\<lambda>x s. builder_inv c h s \<and> Q x)
        (\<lambda>e s. builder_inv c h s \<and> E e)"
      using assms unfolding keeps_def
      by (intro mtriple_finally) (erule mtriple_weaken; auto intro: builder_inv_set_heuristic)
  qed
qed

section \<open>Divisors\<close>

lemma divisor_pairs_step:
  assumes "0 \<le> k"
  shows "divisor_pairs_upto n (k + 1) =
    divisor_pairs_upto n k @
      (if n mod (k + 1) \<noteq> 0 then [] else if n div (k + 1) \<noteq> k + 1 then [k + 1, n div (k + 1)] else [k + 1])"
  using assms by (simp add: divisor_pairs_upto_def upto_rec2)

lemma quotient_dvd: "0 < n \<Longrightarrow> 0 < d \<Longrightarrow> d dvd n \<Longrightarrow> 0 < n div d \<and> n div d dvd n \<and> n div (n div d) = (d :: int)"
  by (auto elim!: dvdE simp: zero_less_mult_iff)

lemma divisor_pairs_spec:
  assumes "0 < n" and "int k * int k \<le> n"
  shows "set (divisor_pairs_upto n (int k)) = {d. 0 < d \<and> d dvd n \<and> (d \<le> int k \<or> n div d \<le> int k)} \<and>
         distinct (divisor_pairs_upto n (int k))"
  using assms(2)
proof (induction k)
  case 0
  have "\<not> n div d \<le> 0" if "0 < d" "d dvd n" for d using quotient_dvd [OF assms(1) that] by simp
  then show ?case by (auto simp: divisor_pairs_upto_def)
next
  case (Suc k)
  let ?m = "int k + 1"
  have sq: "int k * int k \<le> n" using Suc.prems by (simp add: algebra_simps)
  note IH = Suc.IH [OF sq]
  have step: "divisor_pairs_upto n (int (Suc k)) = divisor_pairs_upto n (int k) @
      (if n mod ?m \<noteq> 0 then [] else if n div ?m \<noteq> ?m then [?m, n div ?m] else [?m])"
    using divisor_pairs_step [of "int k" n] by (simp add: add.commute)
  show ?case
  proof (cases "?m dvd n")
    case False
    have "n div d \<noteq> ?m" if "0 < d" "d dvd n" for d using quotient_dvd [OF assms(1) that] False by auto
    moreover have "d \<noteq> ?m" if "d dvd n" for d using that False by auto
    ultimately have "{d. 0 < d \<and> d dvd n \<and> (d \<le> int (Suc k) \<or> n div d \<le> int (Suc k))} =
        {d. 0 < d \<and> d dvd n \<and> (d \<le> int k \<or> n div d \<le> int k)}" by fastforce
    with IH step False show ?thesis by (simp add: dvd_eq_mod_eq_0)
  next
    case True
    have q: "0 < n div ?m" "n div ?m dvd n" "n div (n div ?m) = ?m" using quotient_dvd [OF assms(1) _ True] by auto
    have ge: "?m \<le> n div ?m"
    proof -
      have "?m * ?m \<le> n" using Suc.prems by (simp add: algebra_simps)
      then have "?m * ?m div ?m \<le> n div ?m" by (intro zdiv_mono1) auto
      then show ?thesis by simp
    qed
    have new: "?m \<notin> set (divisor_pairs_upto n (int k))" "n div ?m \<notin> set (divisor_pairs_upto n (int k))"
      using IH ge q by auto
    have mate: "n div d = ?m \<longleftrightarrow> d = n div ?m" if "0 < d" "d dvd n" for d
      using quotient_dvd [OF assms(1) that] q by auto
    have iff: "d \<le> int (Suc k) \<or> n div d \<le> int (Suc k) \<longleftrightarrow>
        (d \<le> int k \<or> n div d \<le> int k) \<or> d = ?m \<or> d = n div ?m" if "0 < d" "d dvd n" for d
      using mate [OF that] by auto
    have "{d. 0 < d \<and> d dvd n \<and> (d \<le> int (Suc k) \<or> n div d \<le> int (Suc k))} =
        {d. 0 < d \<and> d dvd n \<and> (d \<le> int k \<or> n div d \<le> int k)} \<union> {?m, n div ?m}"
      using True q iff by auto
    with IH new step True show ?thesis by (auto simp: dvd_eq_mod_eq_0)
  qed
qed

lemma divisors_complete:
  assumes "0 < n"
  shows "divisors_ok n (sort (divisor_pairs_upto n (sqrt_trunc n)))"
proof -
  let ?r = "sqrt_trunc n"
  have r: "0 \<le> ?r" "?r * ?r \<le> n" "n < (?r + 1) * (?r + 1)" using sqrt_trunc_spec [of n] assms by auto
  then have rk: "?r = int (nat ?r)" by simp
  have all: "d \<le> ?r \<or> n div d \<le> ?r" if "0 < d" "d dvd n" for d
  proof (rule ccontr)
    assume "\<not> ?thesis"
    then have "(?r + 1) * (?r + 1) \<le> d * (n div d)" using r(1) that by (intro mult_mono) auto
    with r(3) that(2) show False by simp
  qed
  have "set (divisor_pairs_upto n ?r) = {d. 0 < d \<and> d dvd n \<and> (d \<le> ?r \<or> n div d \<le> ?r)} \<and>
      distinct (divisor_pairs_upto n ?r)"
    using divisor_pairs_spec [OF assms, of "nat ?r"] r by simp
  with all show ?thesis by (auto simp: divisors_ok_def)
qed

lemma keeps_enumerate_divisors:
  assumes "0 < n"
  shows "keeps c h (enumerate_divisors n) (divisors_ok n) E"
  unfolding enumerate_divisors_def Let_def
proof (intro keeps_get keeps_option)
  fix b ds assume "builder_inv c h b" "b_divisor_cache b n = Some ds"
  then show "keeps c h (mret ds) (divisors_ok n) E"
    using assms by (intro keeps_ret) (simp add: builder_inv_def caches_ok_def)
next
  show "keeps c h (mbind (mmodify (\<lambda>b. b\<lparr>b_divisor_cache := (b_divisor_cache b)
      (n \<mapsto> sort (divisor_pairs_upto n (sqrt_trunc n)))\<rparr>))
      (\<lambda>_. mret (sort (divisor_pairs_upto n (sqrt_trunc n))))) (divisors_ok n) E"
    using divisors_complete [OF assms]
    by (intro keeps_bind [where R = "\<lambda>_. True"] keeps_modify keeps_ret)
      (auto simp: builder_inv_def caches_ok_def)
qed

section \<open>Lengths\<close>

lemma supported_length_iff: "0 < n \<Longrightarrow> supported_length n \<longleftrightarrow> smooth n \<and> 1 < n"
proof (rule factorize_supported_spec [of n])
  fix fz
  assume fz: "factorize_supported_radices n = Inr fz" "set (fz_factors fz) \<subseteq> set kSupportedRadices"
    "prod_list (fz_factors fz) * fz_remainder fz = n" "fz_remainder fz = 1 \<longleftrightarrow> smooth n"
  then have "fz_factors fz \<noteq> [] \<longleftrightarrow> 1 < n" if "fz_remainder fz = 1"
    using that radix_list_gt1 [of n "fz_factors fz"] by (cases "fz_factors fz = []") (auto simp: radix_list_def)
  with fz show ?thesis by (auto simp: supported_length_def)
qed

lemma smooth_pow2: "smooth (2 ^ j)"
  by (intro smooth_power smooth_small) auto

lemma window_lengths_spec:
  assumes "x \<in> set (window_lengths minimum pw)" and "1 < minimum" and "minimum \<le> pw"
  shows "minimum \<le> x \<and> x \<le> pw \<and> smooth x"
proof -
  let ?step = "\<lambda>acc len. if len \<in> set acc then acc else if supported_length len then acc @ [len] else acc"
  have inv: "\<forall>x \<in> set (foldl ?step acc xs). x \<in> set acc \<or> (x \<in> set xs \<and> supported_length x)" for acc xs
  proof (induction xs arbitrary: acc)
    case (Cons y xs)
    show ?case
    proof
      fix x assume "x \<in> set (foldl ?step acc (y # xs))"
      then have "x \<in> set (?step acc y) \<or> (x \<in> set xs \<and> supported_length x)" using Cons.IH by simp
      then show "x \<in> set acc \<or> (x \<in> set (y # xs) \<and> supported_length x)" by (auto split: if_splits)
    qed
  qed simp
  have "x \<in> set (foldl ?step [] ([minimum..(if 4096 < pw - minimum then minimum + 4096 else pw)] @ [pw]))"
    using assms(1) by (simp add: window_lengths_def Let_def)
  with inv have "x \<in> set ([minimum..(if 4096 < pw - minimum then minimum + 4096 else pw)] @ [pw])" "supported_length x"
    by fastforce+
  then have "minimum \<le> x \<and> x \<le> pw" "supported_length x" using assms(3) by (auto split: if_splits)
  then show ?thesis using assms(2) by (simp add: supported_length_iff)
qed

section \<open>The interface of the recursive calls\<close>

locale planner_calls =
  fixes cfg :: plan_cfg and c :: request_ctx and good :: "int \<Rightarrow> bool"
    and rn :: node_call and rc :: cost_call
  assumes node_call: "0 < n \<Longrightarrow> keeps c h (rn n a) (plan_ok n) (\<lambda>e. \<not> good n)"
    and cost_call: "0 < n \<Longrightarrow> keeps c h (rc n) (\<lambda>_. True) (\<lambda>e. \<not> good n)"
begin

lemma keeps_split_plan:
  assumes "n1 * n2 = n" and "1 < n1" and "1 < n2"
  shows "keeps c h (split_plan rn n n1 n2) (plan_ok n) (\<lambda>e. \<not> (good n1 \<and> good n2))"
  unfolding split_plan_def
  by (rule keeps_bind_weak [OF node_call [of n1]], use assms in simp, simp,
      rule keeps_bind_weak [OF node_call [of n2]], use assms in simp, simp)
    (use assms in \<open>auto intro!: keeps_ret\<close>)

lemma keeps_four_step_cost:
  assumes "1 < n1" and "1 < n2"
  shows "keeps c h (four_step_cost cfg rc n1 n2) (\<lambda>_. True)
           (\<lambda>e. \<not> (good n1 \<and> good n2 \<and> no_overrides cfg \<and> smooth n1) \<and> (e = OutOfFuel \<longrightarrow> \<not> (good n1 \<and> good n2)))"
  (is "keeps c h _ _ ?E")
proof -
  have "keeps c h (select_leaf_factors cfg n1) (\<lambda>_. True) ?E"
    by (rule keeps_weaken [OF keeps_select_leaf_factors [of n1 c h cfg]])
      (use assms in \<open>auto simp: fails_unless_def\<close>)
  then have penalty: "keeps c h (double_row_penalty cfg c n n1 cost) (\<lambda>_. True) ?E" for n cost
    unfolding double_row_penalty_def Let_def by (intro keeps_if keeps_bind keeps_ret) auto
  show ?thesis
    unfolding four_step_cost_def
    by (rule keeps_bind_weak [OF cost_call [of n1]], use assms in simp, simp,
        rule keeps_bind_weak [OF cost_call [of n2]], use assms in simp, simp)
      (intro keeps_context keeps_bind [OF penalty] keeps_ret TrueI)
qed

end

text \<open>When every convolution length below a bound may be planned.\<close>

definition smooth_good :: "(int \<Rightarrow> bool) \<Rightarrow> int \<Rightarrow> bool" where
  "smooth_good good bound \<longleftrightarrow> (\<forall>m. smooth m \<and> m < bound \<longrightarrow> good m)"

lemma smooth_goodD: "smooth_good good bound \<Longrightarrow> smooth m \<Longrightarrow> m < bound \<Longrightarrow> good m"
  by (simp add: smooth_good_def)

lemma keeps_fst: "keeps c h f (\<lambda>p. P (fst p)) E \<Longrightarrow> keeps c h (mbind f (\<lambda>p. mret (fst p))) P E"
  by (erule keeps_bind) (simp add: keeps_ret)

context planner_calls
begin

lemma keeps_convolution_cost:
  assumes "smooth len"
  shows "keeps c h (convolution_cost rc len) (\<lambda>_. True) (\<lambda>e. \<not> good len)"
  unfolding convolution_cost_def
  by (rule keeps_bind [OF cost_call]) (use assms smooth_pos in \<open>auto intro: keeps_ret\<close>)

lemma keeps_consider_length:
  assumes "smooth len" and "P len" and "P (fst best)"
  shows "keeps c h (consider_length rc len best) (\<lambda>r. P (fst r)) (\<lambda>e. \<not> good len)"
  unfolding consider_length_def
  by (rule keeps_bind [OF keeps_convolution_cost]) (use assms in \<open>auto intro!: keeps_ret\<close>)

lemma keeps_npu_smooth_length:
  assumes "1 < minimum" and "minimum \<le> pw" and "smooth pw"
  shows "keeps c h (npu_smooth_length rc minimum pw) (\<lambda>m. minimum \<le> m \<and> m \<le> pw \<and> smooth m)
           (\<lambda>e. \<not> smooth_good good (pw + 1))"
proof -
  let ?P = "\<lambda>m. minimum \<le> m \<and> m \<le> pw \<and> smooth m" and ?E = "\<lambda>e. \<not> smooth_good good (pw + 1)"
  have step: "keeps c h (if len < minimum \<or> fst best \<le> len then mret best
      else if \<not> supported_length len then mret best else consider_length rc len best) (\<lambda>r. ?P (fst r)) ?E"
    if "?P (fst best)" for len best
  proof (intro keeps_if keeps_ret that)
    assume a: "\<not> (len < minimum \<or> fst best \<le> len)" "\<not> \<not> supported_length len"
    then have len: "?P len" using assms(1) that supported_length_iff [of len] by auto
    show "keeps c h (consider_length rc len best) (\<lambda>r. ?P (fst r)) ?E"
      by (rule keeps_weaken [OF keeps_consider_length [where P = ?P]])
        (use len that smooth_goodD [of good "pw + 1" len] in auto)
  qed
  show ?thesis
    unfolding npu_smooth_length_def
    by (rule keeps_bind_weak [OF keeps_convolution_cost [OF assms(3)]])
      (use assms step smooth_goodD [of good "pw + 1" pw] in \<open>auto intro!: keeps_fst keeps_fold\<close>)
qed

lemma keeps_window_search:
  assumes "\<And>x. x \<in> set (first # rest) \<Longrightarrow> smooth x \<and> P x \<and> x < bound"
  shows "keeps c h (mbind (convolution_cost rc first) (\<lambda>cost0.
      mbind (mfold (consider_length rc) (first # rest) (first, cost0)) (\<lambda>best. mret (fst best))))
      P (\<lambda>e. \<not> smooth_good good bound)"
proof (rule keeps_bind_weak [OF keeps_convolution_cost])
  show "smooth first" using assms by simp
  show "\<not> good first \<Longrightarrow> \<not> smooth_good good bound" using assms by (auto dest: smooth_goodD)
  fix cost0 :: double
  show "keeps c h (mbind (mfold (consider_length rc) (first # rest) (first, cost0)) (\<lambda>best. mret (fst best)))
      P (\<lambda>e. \<not> smooth_good good bound)"
  proof (intro keeps_fst keeps_fold)
    fix x and best :: "int \<times> double"
    assume x: "x \<in> set (first # rest)" and best: "P (fst best)"
    show "keeps c h (consider_length rc x best) (\<lambda>p. P (fst p)) (\<lambda>e. \<not> smooth_good good bound)"
      by (rule keeps_weaken [OF keeps_consider_length [where P = P]])
        (use assms [OF x] best in \<open>auto dest: smooth_goodD\<close>)
  qed (use assms in simp)
qed

lemma keeps_next_convolution_length:
  assumes "1 < minimum"
  shows "keeps c h (next_supported_convolution_length cfg rc minimum)
     (\<lambda>m. minimum \<le> m \<and> m < 2 * minimum \<and> smooth m \<and>
       (ctx_device_type c = ''npu'' \<and> no_overrides cfg \<longrightarrow> (\<exists>j. m = 2 ^ j)))
     (\<lambda>e. \<not> (no_overrides cfg \<and> (ctx_device_type c = ''npu'' \<or> smooth_good good (2 * minimum))))"
  (is "keeps c h _ ?Q ?E")
proof -
  define pw where "pw = ceil_power_of_two minimum"
  obtain j where j: "pw = 2 ^ j" "minimum \<le> pw" "pw < 2 * minimum"
    using ceil_power_of_two_pow2 [of minimum] assms unfolding pw_def by metis
  have pwok: "?Q pw" using j smooth_pow2 by auto
  have npu: "keeps c h (npu_smooth_length rc minimum pw) ?Q ?E"
    if "cfg_env cfg ''FLAGFFT_NPU_2D_BLUESTEIN_SMOOTH_CONV'' \<noteq> None" for h
    by (rule keeps_weaken [OF keeps_npu_smooth_length])
      (use assms j smooth_pow2 that in \<open>auto simp: no_overrides_def\<close>)
  have search: "keeps c h (mbind (convolution_cost rc first) (\<lambda>cost0.
      mbind (mfold (consider_length rc) (first # rest) (first, cost0)) (\<lambda>best. mret (fst best)))) ?Q ?E"
    if w: "window_lengths minimum pw = first # rest" and "ctx_device_type c \<noteq> ''npu''" for first rest h
    by (rule keeps_weaken [OF keeps_window_search [where bound = "2 * minimum" and
          P = "\<lambda>m. minimum \<le> m \<and> m < 2 * minimum \<and> smooth m"]])
      (use window_lengths_spec [of _ minimum pw] assms j that in \<open>fastforce+\<close>)
  show ?thesis
    unfolding next_supported_convolution_length_def Let_def pw_def [symmetric]
  proof (intro keeps_if keeps_context keeps_ret keeps_throw)
    show "minimum \<le> 1 \<Longrightarrow> ?Q 1" using assms by simp
    show "?Q pw" "?Q pw" by (rule pwok)+
    show "keeps c h (case window_lengths minimum pw of [] \<Rightarrow> mret pw
       | first # rest \<Rightarrow> mbind (convolution_cost rc first) (\<lambda>cost0.
           mbind (mfold (consider_length rc) (first # rest) (first, cost0)) (\<lambda>best. mret (fst best)))) ?Q ?E"
      if "ctx_device_type c \<noteq> ''npu''"
      using search pwok that by (cases "window_lengths minimum pw") (auto intro!: keeps_ret)
    show "keeps c h (npu_smooth_length rc minimum pw) ?Q ?E"
      if "ctx_origin_rank c = 2 \<and> cfg_env cfg ''FLAGFFT_NPU_2D_BLUESTEIN_SMOOTH_CONV'' \<noteq> None \<and>
          cfg_env cfg ''FLAGFFT_NPU_2D_BLUESTEIN_SMOOTH_CONV'' \<noteq> Some ''0''"
      using that by (intro npu) simp
  qed (auto simp: no_overrides_def)
qed

end

text \<open>
  What a planning step for length \<open>n\<close> needs of its recursive calls to be sure to succeed: on NPU the
  power-of-two lengths; elsewhere the proper divisors and, for a length with a large prime factor,
  its predecessor and the smooth lengths a convolution may use.
\<close>

definition step_good :: "plan_cfg \<Rightarrow> request_ctx \<Rightarrow> (int \<Rightarrow> bool) \<Rightarrow> int \<Rightarrow> bool" where
  "step_good cfg c good n \<longleftrightarrow>
     no_overrides cfg \<and>
     (if ctx_device_type c = ''npu''
      then 1024 \<le> ctx_max_dynamic_smem_bytes c \<and> ((\<exists>j. n = 2 ^ j) \<or> (\<forall>j. good (2 ^ j)))
      else (\<forall>d. 0 < d \<and> d dvd n \<and> d < n \<longrightarrow> good d) \<and>
           (\<not> smooth n \<longrightarrow> good (n - 1) \<and> smooth_good good (4 * n)))"

definition convolutions_good :: "plan_cfg \<Rightarrow> request_ctx \<Rightarrow> (int \<Rightarrow> bool) \<Rightarrow> int \<Rightarrow> bool" where
  "convolutions_good cfg c good n \<longleftrightarrow>
     no_overrides cfg \<and>
     (if ctx_device_type c = ''npu'' then \<forall>j. good (2 ^ j) else smooth_good good (4 * n))"

lemma pow2_literals: "(1024::int) = 2 ^ 10" "(2048::int) = 2 ^ 11"
  by simp_all

lemma smooth_literals: "smooth 90" "smooth 91" "smooth 180" "smooth 1024" "smooth 2048"
proof -
  have s: "smooth 9" "smooth 10" "smooth 7" "smooth 13" "smooth 18" by (rule smooth_small; simp)+
  show "smooth 90" using smooth_mult [OF s(1) s(2)] by simp
  show "smooth 91" using smooth_mult [OF s(3) s(4)] by simp
  show "smooth 180" using smooth_mult [OF s(5) s(2)] by simp
  show "smooth 1024" "smooth 2048" unfolding pow2_literals by (rule smooth_pow2)+
qed

context planner_calls
begin

lemma convolutions_goodD:
  "convolutions_good cfg c good n \<Longrightarrow> smooth m \<Longrightarrow> m < 4 * n \<Longrightarrow>
   (ctx_device_type c = ''npu'' \<longrightarrow> (\<exists>j. m = 2 ^ j)) \<Longrightarrow> good m"
  by (auto simp: convolutions_good_def dest: smooth_goodD split: if_splits)

lemma keeps_make_bluestein_plan:
  assumes "1 < n"
  shows "keeps c h (make_bluestein_plan cfg rn rc n)
     (\<lambda>nd. \<exists>m f. nd = BluesteinPlanNode n m f \<and> plan_ok n nd \<and> smooth m \<and> m < 4 * n)
     (\<lambda>e. \<not> convolutions_good cfg c good n)"
  (is "keeps c h _ ?Q ?E")
proof -
  have balanced: "keeps c h (split_plan rn 1048576 1024 1024) (plan_ok 1048576) ?E" if "n = 524287"
  proof (rule keeps_weaken [OF keeps_split_plan])
    assume bad: "\<not> (good 1024 \<and> good 1024)"
    have "\<exists>j. (1024::int) = 2 ^ j" by (rule exI [of _ 10]) simp
    then show "?E e" for e
      using bad that convolutions_goodD [of n 1024] smooth_literals by auto
  qed simp_all
  show ?thesis
    unfolding make_bluestein_plan_def Let_def
  proof (rule keeps_bind_weak [OF keeps_next_convolution_length])
    show "1 < 2 * n - 1" using assms by simp
    show "\<not> (no_overrides cfg \<and> (ctx_device_type c = ''npu'' \<or> smooth_good good (2 * (2 * n - 1)))) \<Longrightarrow> ?E e" for e
      by (auto simp: convolutions_good_def smooth_good_def split: if_splits)
    fix m
    assume m: "2 * n - 1 \<le> m \<and> m < 2 * (2 * n - 1) \<and> smooth m \<and>
      (ctx_device_type c = ''npu'' \<and> no_overrides cfg \<longrightarrow> (\<exists>j. m = 2 ^ j))"
    let ?v = "bluestein_length c n m"
    have v: "2 * n - 1 \<le> ?v" "?v < 4 * n" "smooth ?v"
      "ctx_device_type c = ''npu'' \<and> no_overrides cfg \<longrightarrow> (\<exists>j. ?v = 2 ^ j)"
      using m smooth_literals by (auto simp: bluestein_length_def)
    have "keeps c h (rn ?v False) (plan_ok ?v) ?E"
      by (rule keeps_weaken [OF node_call])
        (use v convolutions_goodD [of n ?v] smooth_pos in \<open>auto simp: convolutions_good_def\<close>)
    then have "keeps c h (if balanced_maca_batch (cfg_env cfg) c n ?v then split_plan rn ?v 1024 1024
        else rn ?v False) (plan_ok ?v) ?E"
      using balanced by (intro keeps_if) (auto simp: balanced_maca_batch_def)
    then show "keeps c h (mbind request_context (\<lambda>context.
        mbind (if balanced_maca_batch (cfg_env cfg) context n (bluestein_length context n m)
               then split_plan rn (bluestein_length context n m) 1024 1024
               else rn (bluestein_length context n m) False) (\<lambda>fft_plan.
          mret (BluesteinPlanNode n (bluestein_length context n m) fft_plan)))) ?Q ?E"
      by (intro keeps_context) (erule keeps_bind, use v assms in \<open>auto intro!: keeps_ret\<close>)
  qed
qed

lemma keeps_make_rader_plan:
  assumes "prime_int n"
  shows "keeps c h (make_rader_plan cfg rn n) (plan_ok n) (\<lambda>e. \<not> (good (n - 1) \<and> smooth_good good (4 * n)))"
  (is "keeps c h _ _ ?E")
proof -
  have n1: "1 < n" using assms by (rule prime_intD)
  obtain g where g: "find_primitive_root n = Inr g" using find_primitive_root_total [OF assms] ..
  have prim: "primitive_root n g" using find_primitive_root_sound [OF g] by simp
  let ?idx = "index_table_loop (nat (n - 1)) 1 g n"
  have idx: "build_rader_index_table n g = Inr ?idx" using n1 by (simp add: build_rader_index_table_def)
  have small: "good 90 \<and> good 91 \<and> good 180" if "n = 8191 \<or> n = 16381" "smooth_good good (4 * n)"
    using that smooth_literals by (auto dest: smooth_goodD)
  have "keeps c h (if rader_tuned_split (cfg_env cfg) c n
      then split_plan rn (n - 1) (if n = 8191 then 90 else 91) (if n = 8191 then 91 else 180)
      else rn (n - 1) False) (plan_ok (n - 1)) ?E"
  proof (rule keeps_if)
    assume "rader_tuned_split (cfg_env cfg) c n"
    then have n: "n = 8191 \<or> n = 16381" by (simp add: rader_tuned_split_def)
    show "keeps c h (split_plan rn (n - 1) (if n = 8191 then 90 else 91) (if n = 8191 then 91 else 180))
        (plan_ok (n - 1)) ?E"
      by (rule keeps_weaken [OF keeps_split_plan]) (use n small in auto)
  next
    show "keeps c h (rn (n - 1) False) (plan_ok (n - 1)) ?E"
      by (rule keeps_weaken [OF node_call]) (use n1 in auto)
  qed
  then show ?thesis
    unfolding make_rader_plan_def Let_def
    using g idx prim assms
    by (intro keeps_bind [OF keeps_lift [where Q = "\<lambda>x. x = g"]] keeps_bind [OF keeps_lift [where Q = "\<lambda>x. x = ?idx"]]
        keeps_context keeps_bind [where R = "plan_ok (n - 1)"] keeps_ret) auto
qed

lemma keeps_leaf_stage:
  assumes "0 < n"
  shows "keeps c h (leaf_stage cfg n) (\<lambda>cs. \<forall>cd \<in> set cs. plan_ok n (cand_node cd)) (fails_unless (no_overrides cfg))"
  (is "keeps c h _ ?Q ?E")
proof (rule factorize_supported_spec [OF assms])
  fix fz
  assume fz: "factorize_supported_radices n = Inr fz" "fz_remainder fz = 1 \<longleftrightarrow> smooth n"
    "prod_list (fz_factors fz) * fz_remainder fz = n" "set (fz_factors fz) \<subseteq> set kSupportedRadices"
  have sel: "keeps c h (select_leaf_factors cfg n) (radix_list n) ?E" if "smooth n" "1 < n"
    by (rule keeps_weaken [OF keeps_select_leaf_factors]) (use that in \<open>auto simp: fails_unless_def\<close>)
  have cost: "keeps c h (estimate_leaf_warm_cost cfg n) (\<lambda>_. True) ?E" if "smooth n" "1 < n"
    by (rule keeps_weaken [OF keeps_estimate_leaf_warm_cost]) (use that in \<open>auto simp: fails_unless_def\<close>)
  have leaf: "keeps c h (make_leaf_plan n fs 1) (plan_ok n) ?E"
    if "radix_list n fs" "leaf_smem_elements n (fz_factors fz) (ctx_input_dtype c) \<noteq> None" for fs
    by (rule keeps_weaken [OF keeps_make_leaf_plan])
      (use that radix_list_leaf in \<open>auto simp: fails_unless_def leaf_smem_elements_def split: if_splits\<close>)
  have gt1: "1 < n" if "fz_remainder fz = 1" "fz_factors fz \<noteq> []"
    using that fz radix_list_gt1 [of n "fz_factors fz"] by (simp add: radix_list_def)
  have "keeps c h (mbind (should_use_leaf n (fz_factors fz)) (\<lambda>fits. if fits then
      mbind (select_leaf_factors cfg n) (\<lambda>factors. mbind (make_leaf_plan n factors 1) (\<lambda>node.
        mbind (estimate_leaf_warm_cost cfg n) (\<lambda>cost. mret [candidate node cost]))) else mret [])) ?Q ?E"
    if "smooth n" "1 < n"
    using that by (intro keeps_bind [OF keeps_should_use_leaf] keeps_if keeps_ret
        keeps_bind [OF sel] keeps_bind [OF leaf] keeps_bind [OF cost]) (auto simp: candidate_def)
  then show ?thesis
    unfolding leaf_stage_def
    using fz(1,2) gt1
    by (intro keeps_bind [OF keeps_lift [where Q = "\<lambda>x. x = fz"]] keeps_if keeps_ret) auto
qed

end

text \<open>Every candidate is a plan for the length.\<close>

definition candidates_ok :: "int \<Rightarrow> plan_candidate list \<Rightarrow> bool" where
  "candidates_ok n cs \<longleftrightarrow> (\<forall>cd \<in> set cs. plan_ok n (cand_node cd))"

lemma candidates_ok_simps [simp]:
  "candidates_ok n []" "candidates_ok n (cd # cs) \<longleftrightarrow> plan_ok n (cand_node cd) \<and> candidates_ok n cs"
  "candidates_ok n (cs @ ds) \<longleftrightarrow> candidates_ok n cs \<and> candidates_ok n ds"
  by (auto simp: candidates_ok_def)

lemma cand_node_candidate [simp]: "cand_node (candidate nd cost) = nd"
  by (simp add: candidate_def)

lemma thread_local_leaf_ok: "4 \<le> r \<Longrightarrow> r \<le> 128 \<Longrightarrow> plan_ok (r * 32) (make_thread_local_leaf r)"
  by (simp add: make_thread_local_leaf_def leaf_lanes_ok_def)

lemma smooth_composite:
  assumes "smooth n" and "19 < n"
  shows "\<exists>d. 1 < d \<and> d < n \<and> d dvd n"
proof -
  obtain q where q: "prime_int q" "q dvd n" using prime_factor_exists [of n] assms by auto
  then have "q \<le> 19" using assms(1) by (auto simp: smooth_def)
  with q assms(2) prime_intD [OF q(1)] show ?thesis by auto
qed

context planner_calls
begin

lemma keeps_thread_local_stage:
  assumes "0 < n" and "ctx_device_type c \<noteq> ''npu''"
  shows "keeps c h (thread_local_stage cfg rc c n) (candidates_ok n) (\<lambda>e. \<not> step_good cfg c good n)"
proof -
  define r where "r = n div 1024 div 32"
  show ?thesis
  proof (cases "n mod 1024 = 0 \<and> (n div 1024) mod 32 = 0 \<and> contains [18, 20, 24, 25, 27, 28, 30, 32] r")
    case False
    then show ?thesis by (auto simp: thread_local_stage_def Let_def r_def intro!: keeps_ret)
  next
    case True
    then have r: "18 \<le> r" "r \<le> 32" "r \<in> set kSupportedRadices"
      by (auto simp: contains_def kSupportedRadices_def)
    have n1: "n div 1024 = r * 32" using True by (auto simp: r_def dvd_eq_mod_eq_0 [symmetric] mult.commute)
    have n: "n = r * 32 * 1024" using True n1 by (auto simp: dvd_eq_mod_eq_0 [symmetric] elim!: dvdE)
    have sm: "smooth (r * 32)" using r radix_smooth by (intro smooth_mult) (auto simp: kSupportedRadices_def)
    have cost: "keeps c h (four_step_cost cfg rc (r * 32) 1024) (\<lambda>_. True) (\<lambda>e. \<not> step_good cfg c good n)"
    proof (rule keeps_weaken [OF keeps_four_step_cost])
      have "r * 32 dvd n" "1024 dvd n" "r * 32 < n" "1024 < n" using n r by auto
      then show "\<not> step_good cfg c good n"
        if "\<not> (good (r * 32) \<and> good 1024 \<and> no_overrides cfg \<and> smooth (r * 32)) \<and>
          (e = OutOfFuel \<longrightarrow> \<not> (good (r * 32) \<and> good 1024))" for e
        using that sm assms(2) r by (auto simp: step_good_def)
    qed (use r in auto)
    have "plan_ok n (FourStepPlanNode n (r * 32) 1024 (make_thread_local_leaf r) (make_thread_local_leaf 32))"
      using thread_local_leaf_ok [of r] thread_local_leaf_ok [of 32] r n by simp
    then have ok: "candidates_ok n [candidate (FourStepPlanNode n (r * 32) 1024 (make_thread_local_leaf r)
        (make_thread_local_leaf 32)) x]" for x
      by (simp only: candidates_ok_simps cand_node_candidate simp_thms)
    have rr: "r * 32 div 32 = r" by simp
    show ?thesis
      unfolding thread_local_stage_def Let_def n1 rr
      by (intro keeps_if keeps_bind [OF cost] keeps_ret ok candidates_ok_simps(1))
  qed
qed

lemma keeps_split_candidate:
  assumes "0 < n" and "ctx_device_type c \<noteq> ''npu''" and "n1 dvd n" and "0 < n1" and "candidates_ok n cs"
  shows "keeps c h (split_candidate cfg rn rc n n1 cs)
     (\<lambda>r. candidates_ok n r \<and> (cs \<noteq> [] \<or> (1 < n1 \<and> n1 < n \<and> smooth n \<and> step_good cfg c good n) \<longrightarrow> r \<noteq> []))
     (\<lambda>e. \<not> step_good cfg c good n)"
proof (cases "1 < n1 \<and> n1 < n")
  case False
  then show ?thesis using assms(5) by (auto simp: split_candidate_def intro!: keeps_ret)
next
  case True
  let ?n2 = "n div n1" and ?G = "step_good cfg c good n"
  have n2: "n1 * ?n2 = n" "?n2 dvd n" "0 < ?n2" using assms quotient_dvd [of n n1] by auto
  have n2b: "1 < ?n2" "?n2 < n"
  proof -
    show "1 < ?n2"
    proof (rule ccontr)
      assume "\<not> 1 < ?n2"
      then have "?n2 = 1" using n2(3) by simp
      with n2(1) True show False by simp
    qed
    have "1 * ?n2 < n1 * ?n2" using True n2(3) by (intro mult_strict_right_mono) auto
    then show "?n2 < n" using n2(1) by simp
  qed
  have gd: "good n1 \<and> good ?n2" if ?G using that assms True n2 n2b by (auto simp: step_good_def)
  have sm: "smooth n1" if "smooth n" using that assms smooth_dvd by blast
  have no: "no_overrides cfg" if ?G using that by (simp add: step_good_def)
  let ?R = "\<lambda>e. \<not> (?G \<and> smooth n) \<and> (e = OutOfFuel \<longrightarrow> \<not> ?G)"
  have body: "keeps c h (mbind (split_plan rn n n1 ?n2) (\<lambda>node.
      mbind (four_step_cost cfg rc n1 ?n2) (\<lambda>cost.
        mret (cs @ [candidate node (dadd cost (log_balance cfg n1 ?n2))]))))
      (\<lambda>r. candidates_ok n r \<and> r \<noteq> []) ?R"
  proof (rule keeps_bind_weak [OF keeps_split_plan])
    show "?R e" if "\<not> (good n1 \<and> good ?n2)" for e using that gd by blast
    fix node assume node: "plan_ok n node"
    show "keeps c h (mbind (four_step_cost cfg rc n1 ?n2) (\<lambda>cost.
        mret (cs @ [candidate node (dadd cost (log_balance cfg n1 ?n2))]))) (\<lambda>r. candidates_ok n r \<and> r \<noteq> []) ?R"
      by (rule keeps_bind_weak [OF keeps_four_step_cost])
        (use True n2b gd sm no node assms(5) in \<open>auto intro!: keeps_ret\<close>)
  qed (use n2 n2b True in auto)
  have "keeps c h (split_candidate cfg rn rc n n1 cs)
     (\<lambda>r. candidates_ok n r \<and> (cs \<noteq> [] \<or> (smooth n \<and> ?G) \<longrightarrow> r \<noteq> [])) (\<lambda>e. \<not> ?G)"
  proof (cases "smooth n \<and> ?G")
    case sg: True
    have "keeps c h (mcatch (mbind (split_plan rn n n1 ?n2) (\<lambda>node.
        mbind (four_step_cost cfg rc n1 ?n2) (\<lambda>cost.
          mret (cs @ [candidate node (dadd cost (log_balance cfg n1 ?n2))])))) (mret cs))
        (\<lambda>r. candidates_ok n r \<and> r \<noteq> []) (\<lambda>e. \<not> ?G)"
      using body sg unfolding keeps_def mtriple_def mcatch_def
      by (fastforce split: prod.splits sum.splits exn.splits)
    then show ?thesis using True sg by (auto simp: split_candidate_def Let_def elim: keeps_weaken)
  next
    case sg: False
    have "keeps c h (mcatch (mbind (split_plan rn n n1 ?n2) (\<lambda>node.
        mbind (four_step_cost cfg rc n1 ?n2) (\<lambda>cost.
          mret (cs @ [candidate node (dadd cost (log_balance cfg n1 ?n2))])))) (mret cs))
        (\<lambda>r. candidates_ok n r \<and> (cs \<noteq> [] \<longrightarrow> r \<noteq> [])) (\<lambda>e. \<not> ?G)"
      by (rule keeps_catch_fuel [where R = ?R], rule keeps_weaken [OF body])
        (use assms(5) in \<open>auto intro!: keeps_ret\<close>)
    then show ?thesis using True sg by (auto simp: split_candidate_def Let_def elim: keeps_weaken)
  qed
  then show ?thesis using True by (auto elim: keeps_weaken)
qed

lemma keeps_prime_stage:
  assumes "128 < n" and "ctx_device_type c \<noteq> ''npu''"
  shows "keeps c h (prime_stage cfg rn rc c n) (\<lambda>cs. candidates_ok n cs \<and> cs \<noteq> [])
     (\<lambda>e. \<not> (step_good cfg c good n \<and> \<not> smooth n))"
  (is "keeps c h _ ?Q ?E")
proof -
  have sg: "good (n - 1) \<and> smooth_good good (4 * n) \<and> convolutions_good cfg c good n"
    if "step_good cfg c good n \<and> \<not> smooth n"
    using that assms(2) by (simp add: step_good_def convolutions_good_def)
  have bcost: "keeps c h (bluestein_cost rc n m) (\<lambda>_. True) ?E" if "smooth m" "m < 4 * n" for m
    unfolding bluestein_cost_def
    by (rule keeps_bind_weak [OF cost_call])
      (use that smooth_pos sg smooth_goodD [of good "4 * n" m] in \<open>auto intro!: keeps_ret\<close>)
  have rcost: "keeps c h (rader_cost rc n) (\<lambda>_. True) ?E"
    unfolding rader_cost_def
    by (rule keeps_bind_weak [OF cost_call]) (use assms sg in \<open>auto intro!: keeps_ret\<close>)
  have rader: "keeps c h (make_rader_plan cfg rn n) (plan_ok n) ?E" if "is_prime_length n"
    by (rule keeps_weaken [OF keeps_make_rader_plan]) (use that sg in \<open>auto simp: is_prime_length_iff\<close>)
  show ?thesis
    unfolding prime_stage_def
  proof (rule keeps_bind_weak [OF keeps_make_bluestein_plan])
    fix nd assume "\<exists>m f. nd = BluesteinPlanNode n m f \<and> plan_ok n nd \<and> smooth m \<and> m < 4 * n"
    then obtain m f where nd: "nd = BluesteinPlanNode n m f" "plan_ok n nd" "smooth m" "m < 4 * n" by blast
    show "keeps c h (case nd of
         BluesteinPlanNode m conv_length fft_plan \<Rightarrow>
           mbind (bluestein_cost rc n conv_length) (\<lambda>bcost.
             if \<not> prefer_bluestein c n (is_leaf fft_plan) \<and> is_prime_length n \<and> n \<le> 16384 then
               mbind (make_rader_plan cfg rn n) (\<lambda>rader.
               mbind (rader_cost rc n) (\<lambda>rcost.
                 mret [candidate nd bcost,
                       candidate rader (if supported_length (n - 1) then dmin rcost (dmul bcost (fl (99 / 100))) else rcost)]))
             else mret [candidate nd bcost])
       | _ \<Rightarrow> mret []) ?Q ?E"
      using nd(2-4) unfolding nd(1) plan_node.case
      by (intro keeps_bind [OF bcost] keeps_if keeps_bind [OF rader] keeps_bind [OF rcost] keeps_ret) auto
  qed (use assms sg in auto)
qed

end

section \<open>The NPU stages\<close>

definition option_ok :: "int \<Rightarrow> plan_candidate list option \<Rightarrow> bool" where
  "option_ok n r \<longleftrightarrow> (\<forall>cs. r = Some cs \<longrightarrow> candidates_ok n cs \<and> cs \<noteq> [])"

lemma option_ok_simps [simp]:
  "option_ok n None" "option_ok n (Some cs) \<longleftrightarrow> candidates_ok n cs \<and> cs \<noteq> []"
  by (simp_all add: option_ok_def)

lemma keeps_setting_01:
  "keeps c h (mlift (setting_01 (cfg_env cfg) name)) (\<lambda>b. no_overrides cfg \<longrightarrow> \<not> b) (\<lambda>e. \<not> no_overrides cfg)"
  by (rule keeps_lift) (auto simp: setting_01_def no_overrides_def)

lemma keeps_npu_direct_dft_max:
  "keeps c h (mlift (npu_direct_dft_max (cfg_env cfg))) (\<lambda>_. True) (\<lambda>e. \<not> no_overrides cfg)"
  by (rule keeps_lift) (auto simp: npu_direct_dft_max_def no_overrides_def Let_def split: sum.splits option.splits)

lemma keeps_leaf_candidate:
  assumes "leaf_factors n fs"
  shows "keeps c h (leaf_candidate n fs) (option_ok n)
           (fails_unless (leaf_smem_elements n fs (ctx_input_dtype c) \<noteq> None))"
  unfolding leaf_candidate_def
  by (intro keeps_bind [OF keeps_make_leaf_plan [OF assms]] keeps_bind [OF keeps_estimate_leaf] keeps_ret) simp

lemma keeps_should_use_leaf_exact:
  "keeps c h (should_use_leaf n fs)
     (\<lambda>r. r \<longleftrightarrow> n \<le> kLeafMaxN \<and> (case leaf_smem_bytes n fs (ctx_input_dtype c) of
        None \<Rightarrow> False | Some bytes \<Rightarrow> bytes \<le> ctx_max_dynamic_smem_bytes c)) E"
  unfolding should_use_leaf_def by (intro keeps_context keeps_ret) simp

lemma fits_elements:
  "(case leaf_smem_bytes n fs t of None \<Rightarrow> False | Some bytes \<Rightarrow> bytes \<le> cap) \<Longrightarrow> leaf_smem_elements n fs t \<noteq> None"
  by (auto simp: leaf_smem_bytes_def split: option.splits)

lemma parse_radices_ok:
  "parse_radices n tokens prd acc = Inr fs \<Longrightarrow> prod_list acc = prd \<Longrightarrow> \<forall>f \<in> set acc. 1 < f \<Longrightarrow>
   prod_list fs = n \<and> (\<forall>f \<in> set fs. 1 < f)"
  by (induction n tokens prd acc rule: parse_radices.induct) (auto split: if_splits sum.splits)

lemma keeps_npu_3d:
  assumes "0 < n"
  shows "keeps c h (npu_3d_candidates cfg c n) (option_ok n) (\<lambda>e. \<not> no_overrides cfg)"
proof -
  have sel: "keeps c h (select_leaf_factors cfg n) (radix_list n) (\<lambda>e. \<not> no_overrides cfg)" if "n = 16 \<or> n = 32 \<or> n = 256"
  proof (rule keeps_weaken [OF keeps_select_leaf_factors [OF assms]])
    have "\<exists>j. n = 2 ^ j" using that by (auto intro: exI [of _ 4] exI [of _ 5] exI [of _ 8])
    then show "\<not> no_overrides cfg" if "fails_unless (no_overrides cfg \<and> smooth n \<and> 1 < n) e" for e
      using that \<open>n = 16 \<or> n = 32 \<or> n = 256\<close> smooth_pow2 by (auto simp: fails_unless_def)
  qed auto
  have cand: "keeps c h (leaf_candidate n fs) (option_ok n) (\<lambda>e. \<not> no_overrides cfg)"
    if "radix_list n fs" "complex64_ctx c" for fs
    by (rule keeps_weaken [OF keeps_leaf_candidate [OF radix_list_leaf [OF that(1)]]])
      (use that(2) in \<open>auto simp: fails_unless_def leaf_smem_elements_def complex64_ctx_def split: if_splits\<close>)
  show ?thesis
    unfolding npu_3d_candidates_def
    by (intro keeps_bind [OF keeps_setting_01] keeps_if keeps_ret keeps_bind [OF sel] cand
        keeps_bind [OF keeps_should_use_leaf_exact]) auto
qed

lemma keeps_npu_cube:
  assumes "0 < n"
  shows "keeps c h (npu_cube_candidates cfg c n) (option_ok n) (\<lambda>e. \<not> no_overrides cfg)"
  unfolding npu_cube_candidates_def
  by (intro keeps_bind [OF keeps_setting_01] keeps_if keeps_ret) (use assms in auto)

lemma keeps_npu_2d_leaf:
  assumes "0 < n"
  shows "keeps c h (npu_2d_leaf_candidates cfg c n) (option_ok n)
           (\<lambda>e. \<not> (no_overrides cfg \<and> 1024 \<le> ctx_max_dynamic_smem_bytes c))"
  (is "keeps c h _ _ ?E")
proof -
  let ?env = "cfg_env cfg"
  define measured where "measured \<longleftrightarrow> ctx_origin_rank c = 2 \<and> n = 64 \<and>
    ((ctx_real_transform_kind c = ''r2c'' \<or> ctx_real_transform_kind c = ''c2r'') \<or> ctx_real_transform_kind c = '''')"
  have len: "keeps c h (mlift (npu_2d_leaf_length ?env (if measured then n else 0)))
      (\<lambda>v. (?env ''FLAGFFT_NPU_2D_LEAF_LENGTH'' \<noteq> None \<longrightarrow> 1 < v) \<and>
           (?env ''FLAGFFT_NPU_2D_LEAF_LENGTH'' = None \<longrightarrow> v = (if measured then n else 0))) ?E"
    by (rule keeps_lift) (auto simp: npu_2d_leaf_length_def no_overrides_def split: option.splits sum.splits)
  have sel: "keeps c h (select_leaf_factors cfg n) (radix_list n) ?E"
    if "measured \<or> ?env ''FLAGFFT_NPU_2D_LEAF_LENGTH'' \<noteq> None"
  proof (rule keeps_weaken [OF keeps_select_leaf_factors [OF assms]])
    have "smooth 64" using smooth_pow2 [of 6] by simp
    then show "?E e" if "fails_unless (no_overrides cfg \<and> smooth n \<and> 1 < n) e" for e
      using that \<open>measured \<or> _\<close> by (auto simp: fails_unless_def measured_def no_overrides_def)
  qed auto
  have factors: "keeps c h (mlift (case ?env ''FLAGFFT_NPU_2D_LEAF_FACTORS'' of
         Some raw \<Rightarrow> parse_radices n (split_on (CHR ''x'') raw) 1 []
       | None \<Rightarrow> Inr (if n = 64 then [8, 8] else fs)))
      (\<lambda>gs. leaf_factors n gs \<and> (no_overrides cfg \<and> n = 64 \<longrightarrow> gs = [8, 8])) ?E"
    if "radix_list n fs" "1 < n" for fs
  proof (rule keeps_lift)
    have ok: "leaf_factors n gs" if "parse_radices n ts 1 [] = Inr gs" for ts gs
      using parse_radices_ok [OF that] \<open>1 < n\<close> by (auto simp: leaf_factors_def)
    have "leaf_factors 64 [8, 8]" by (simp add: leaf_factors_def)
    then show "case (case ?env ''FLAGFFT_NPU_2D_LEAF_FACTORS'' of
         Some raw \<Rightarrow> parse_radices n (split_on (CHR ''x'') raw) 1 []
       | None \<Rightarrow> Inr (if n = 64 then [8, 8] else fs)) of
        Inr gs \<Rightarrow> leaf_factors n gs \<and> (no_overrides cfg \<and> n = 64 \<longrightarrow> gs = [8, 8]) | Inl e \<Rightarrow> ?E e"
      using ok radix_list_leaf [OF that(1)] by (auto simp: no_overrides_def split: option.splits sum.splits)
  qed
  have cand: "keeps c h (leaf_candidate n gs) (option_ok n) ?E"
    if "leaf_factors n gs" "complex64_ctx c" for gs
    by (rule keeps_weaken [OF keeps_leaf_candidate [OF that(1)]])
      (use that(2) in \<open>auto simp: fails_unless_def leaf_smem_elements_def complex64_ctx_def split: if_splits\<close>)
  have fit64: "ceil_power_of_two 64 = 64" by (simp add: ceil_power_of_two_def pow2_loop.simps)
  have fit: "no_overrides cfg \<and> 1024 \<le> ctx_max_dynamic_smem_bytes c \<Longrightarrow> n = 64 \<Longrightarrow> complex64_ctx c \<Longrightarrow> gs = [8, 8] \<Longrightarrow>
      n \<le> kLeafMaxN \<and> (case leaf_smem_bytes n gs (ctx_input_dtype c) of None \<Rightarrow> False
        | Some bytes \<Rightarrow> bytes \<le> ctx_max_dynamic_smem_bytes c)" for gs
    by (simp add: leaf_smem_bytes_def leaf_smem_elements_def complex64_ctx_def kLeafMaxN_def fit64)
  have body: "keeps c h (mbind (select_leaf_factors cfg n) (\<lambda>selected.
      mbind (mlift (case ?env ''FLAGFFT_NPU_2D_LEAF_FACTORS'' of
                      Some raw \<Rightarrow> parse_radices n (split_on (CHR ''x'') raw) 1 []
                    | None \<Rightarrow> Inr (if n = 64 then [8, 8] else selected))) (\<lambda>factors.
      mbind (should_use_leaf n factors) (\<lambda>fits.
        if \<not> fits then runtime_error ''FLAGFFT_NPU_2D_LEAF_LENGTH requires a supported factorization''
        else leaf_candidate n factors)))) (option_ok n) ?E"
    if "measured \<or> ?env ''FLAGFFT_NPU_2D_LEAF_LENGTH'' \<noteq> None" "1 < n" "complex64_ctx c"
  proof (intro keeps_bind [OF sel] keeps_bind [OF factors] keeps_bind [OF keeps_should_use_leaf_exact] keeps_if
      keeps_throw cand)
    show "?E e" if "leaf_factors n gs \<and> (no_overrides cfg \<and> n = 64 \<longrightarrow> gs = [8, 8])"
      "fits \<longleftrightarrow> n \<le> kLeafMaxN \<and> (case leaf_smem_bytes n gs (ctx_input_dtype c) of None \<Rightarrow> False
        | Some bytes \<Rightarrow> bytes \<le> ctx_max_dynamic_smem_bytes c)" "\<not> fits" for e gs fits
      using that fit [of gs] \<open>measured \<or> _\<close> \<open>complex64_ctx c\<close> by (auto simp: no_overrides_def measured_def)
  qed (use that in auto)
  show ?thesis
    unfolding npu_2d_leaf_candidates_def Let_def measured_def [symmetric]
    by (intro keeps_bind [OF len] keeps_if keeps_ret body) (auto simp: measured_def split: if_splits)
qed

lemma supported_factors_ok: "0 < n \<Longrightarrow> supported_factors n = Some fs \<Longrightarrow> radix_list n fs"
  by (rule factorize_supported_spec [of n]) (auto simp: supported_factors_def radix_list_def split: if_splits)

definition split_ok :: "int \<Rightarrow> split_choice \<Rightarrow> bool" where
  "split_ok n best \<longleftrightarrow>
     (case best of None \<Rightarrow> True
      | Some (b, n1, n2, row, col) \<Rightarrow> n1 * n2 = n \<and> radix_list n1 row \<and> radix_list n2 col)"

lemma better_split_ok:
  assumes "0 < n" "0 < n1" "n1 dvd n" "split_ok n best"
  shows "split_ok n (better_split cfg n n1 best)"
  using assms quotient_dvd [of n n1] supported_factors_ok [of n1] supported_factors_ok [of "n div n1"]
  by (auto simp: better_split_def Let_def split_ok_def split: option.splits prod.splits if_splits)

lemma keeps_npu_factor_split:
  assumes "0 < n"
  shows "keeps c h (npu_factor_split_candidates cfg c fz n) (option_ok n) (\<lambda>e. \<not> no_overrides cfg)"
proof -
  have fold: "split_ok n (foldl (\<lambda>best n1. better_split cfg n n1 best) b ds)"
    if "split_ok n b" "\<And>d. d \<in> set ds \<Longrightarrow> 0 < d \<and> d dvd n" for b ds
    using that by (induction ds arbitrary: b) (auto intro: better_split_ok [OF assms])
  have stock: "plan_ok m (StockhamPlanNode m fs)" "1 < m" if "radix_list m fs" for m fs
    using radix_list_leaf [OF that] radix_list_gt1 [OF that] by (simp_all add: leaf_factors_def)
  have "keeps c h (case foldl (\<lambda>best n1. better_split cfg n n1 best) None ds of
      None \<Rightarrow> mret None
    | Some (balance, n1, n2, row, col) \<Rightarrow>
        mret (Some [candidate (FourStepPlanNode n n1 n2 (StockhamPlanNode n1 row) (StockhamPlanNode n2 col))
          (dmul (dint n) (dadd (dint (int (length row + length col))) 2))])) (option_ok n) (\<lambda>e. \<not> no_overrides cfg)"
    if "divisors_ok n ds" for ds
    using fold [of None ds] that stock
    by (auto simp: split_ok_def divisors_ok_def split: option.splits prod.splits intro!: keeps_ret)
  then show ?thesis
    unfolding npu_factor_split_candidates_def Let_def
    by (intro keeps_bind [OF keeps_setting_01] keeps_if keeps_ret keeps_bind [OF keeps_enumerate_divisors [OF assms]]) auto
qed

lemma stockham_factor_table:
  "f \<in> set kSupportedRadices \<Longrightarrow>
   \<exists>rs. split_stockham_factor f = Inr rs \<and> rs \<noteq> [] \<and> prod_list rs = f \<and> (\<forall>r \<in> set rs. 1 < r)"
proof -
  assume f: "f \<in> set kSupportedRadices"
  have "list_all (\<lambda>f. case split_stockham_factor f of
      Inr rs \<Rightarrow> rs \<noteq> [] \<and> prod_list rs = f \<and> list_all (\<lambda>r. 1 < r) rs | Inl e \<Rightarrow> False) kSupportedRadices"
    by code_simp
  with f have "case split_stockham_factor f of
      Inr rs \<Rightarrow> rs \<noteq> [] \<and> prod_list rs = f \<and> list_all (\<lambda>r. 1 < r) rs | Inl e \<Rightarrow> False" by (simp add: list_all_iff)
  then show ?thesis by (cases "split_stockham_factor f") (auto simp: list_all_iff)
qed

lemma stockham_factors_ok:
  "set fs \<subseteq> set kSupportedRadices \<Longrightarrow>
   \<exists>rs. stockham_factors fs = Inr rs \<and> prod_list rs = prod_list fs \<and> (\<forall>r \<in> set rs. 1 < r)"
proof (induction fs)
  case (Cons f fs)
  obtain rs where "split_stockham_factor f = Inr rs" "prod_list rs = f" "\<forall>r \<in> set rs. 1 < r"
    using stockham_factor_table [of f] Cons.prems by auto
  with Cons show ?case by auto
qed simp

lemma pow2_no_large_radix: "(2::int) ^ j mod 13 \<noteq> 0" "(2::int) ^ j mod 17 \<noteq> 0" "(2::int) ^ j mod 19 \<noteq> 0"
proof -
  have p: "is_prime_length 13" "is_prime_length 17" "is_prime_length 19" by code_simp+
  have "\<not> q dvd (2::int) ^ j" if "is_prime_length q" "2 < q" for q
    using that prime_int_power_dvd [of q 2 j] zdvd_imp_le [of q 2] by (auto simp: is_prime_length_iff)
  with p show "(2::int) ^ j mod 13 \<noteq> 0" "(2::int) ^ j mod 17 \<noteq> 0" "(2::int) ^ j mod 19 \<noteq> 0"
    by (auto simp: dvd_eq_mod_eq_0 [symmetric])
qed

lemma keeps_npu_stockham:
  assumes "0 < n" and "factorize_supported_radices n = Inr fz"
  shows "keeps c h (npu_stockham_candidates cfg fz n)
     (\<lambda>r. case r of Some cs \<Rightarrow> candidates_ok n cs \<and> cs \<noteq> [] | None \<Rightarrow> 1 < n \<longrightarrow> \<not> (\<exists>j. n = 2 ^ j)) E"
proof (rule factorize_supported_spec [OF assms(1)])
  fix fz' assume fz: "factorize_supported_radices n = Inr fz'" "set (fz_factors fz') \<subseteq> set kSupportedRadices"
    "prod_list (fz_factors fz') * fz_remainder fz' = n" "fz_remainder fz' = 1 \<longleftrightarrow> smooth n"
  have eq: "fz' = fz" using fz(1) assms(2) by simp
  obtain rs where rs: "stockham_factors (fz_factors fz) = Inr rs" "prod_list rs = prod_list (fz_factors fz)"
    "\<forall>r \<in> set rs. 1 < r" using stockham_factors_ok fz(2) eq by blast
  have node: "plan_ok n (StockhamPlanNode n rs)" if "1 < n" "fz_remainder fz = 1"
    using that rs fz(3) eq by auto
  have none: "\<not> (\<exists>j. n = 2 ^ j)"
    if "\<not> (1 < n \<and> fz_remainder fz = 1 \<and>
       ((P \<and> R) \<or> n mod 13 \<noteq> 0 \<and> n mod 17 \<noteq> 0 \<and> n mod 19 \<noteq> 0))" "1 < n" for P R
  proof
    assume "\<exists>j. n = 2 ^ j"
    then obtain j where j: "n = 2 ^ j" ..
    then show False using that fz(4) eq smooth_pow2 [of j] pow2_no_large_radix [of j] by simp
  qed
  show ?thesis
    unfolding npu_stockham_candidates_def Let_def
  proof (rule keeps_if)
    assume "1 < n \<and> fz_remainder fz = 1 \<and> ((cfg_env cfg ''FLAGFFT_NPU_STOCKHAM_PRIME'' \<noteq> None \<and>
      cfg_env cfg ''FLAGFFT_NPU_STOCKHAM_PRIME'' \<noteq> Some ''0'') \<or> n mod 13 \<noteq> 0 \<and> n mod 17 \<noteq> 0 \<and> n mod 19 \<noteq> 0)"
    then show "keeps c h (mbind (mlift (stockham_factors (fz_factors fz)))
        (\<lambda>factors. mret (Some [candidate (StockhamPlanNode n factors) (dint (n * int (length factors)))])))
       (\<lambda>r. case r of Some cs \<Rightarrow> candidates_ok n cs \<and> cs \<noteq> [] | None \<Rightarrow> 1 < n \<longrightarrow> \<not> (\<exists>j. n = 2 ^ j)) E"
      using node rs(1) by (intro keeps_bind [OF keeps_lift [where Q = "\<lambda>x. x = rs"]] keeps_ret) auto
  next
    assume neg: "\<not> (1 < n \<and> fz_remainder fz = 1 \<and> ((cfg_env cfg ''FLAGFFT_NPU_STOCKHAM_PRIME'' \<noteq> None \<and>
      cfg_env cfg ''FLAGFFT_NPU_STOCKHAM_PRIME'' \<noteq> Some ''0'') \<or> n mod 13 \<noteq> 0 \<and> n mod 17 \<noteq> 0 \<and> n mod 19 \<noteq> 0))"
    show "keeps c h (mret None)
       (\<lambda>r. case r of Some cs \<Rightarrow> candidates_ok n cs \<and> cs \<noteq> [] | None \<Rightarrow> 1 < n \<longrightarrow> \<not> (\<exists>j. n = 2 ^ j)) E"
      using none [OF neg] by (intro keeps_ret) simp
  qed
qed

end
