(* ===== verification/FFT_PlannerKnot.thy ===== *)
theory FFT_PlannerKnot
  imports FFT_PlannerFacts
begin

text \<open>
  The recursion of the planner. The contract of one planning step is completed, the recursive
  functions \<open>build_auto_node_fuel\<close> and \<open>cost_for_fuel\<close> are shown to satisfy the interface
  \<open>planner_calls\<close> by induction on the recursion depth, and from the interpretation follow the
  contracts of \<open>build\<close> and \<open>cost_for\<close>: which plans they return, and that they do return.
\<close>

section \<open>One planning step\<close>

lemma npu_2d_direct_ok: "0 < n \<Longrightarrow> option_ok n (npu_2d_direct_candidates c direct_max n)"
  by (simp add: npu_2d_direct_candidates_def)

lemma keeps_option_ok_morelse:
  assumes "keeps c h f (option_ok n) E" and "keeps c h g (\<lambda>cs. candidates_ok n cs \<and> cs \<noteq> []) E"
  shows "keeps c h (morelse f g) (\<lambda>cs. candidates_ok n cs \<and> cs \<noteq> []) E"
  by (rule keeps_morelse [OF keeps_weaken [OF assms(1)] assms(2)]) (auto simp: option_ok_def)

context planner_calls
begin

lemma keeps_npu_candidates:
  assumes "0 < n" and "ctx_device_type c = ''npu''"
  shows "keeps c h (npu_candidates cfg rn rc c n) (\<lambda>cs. candidates_ok n cs \<and> cs \<noteq> [])
           (\<lambda>e. \<not> step_good cfg c good n)"
  (is "keeps c h _ ?Q ?E")
proof -
  have sg: "no_overrides cfg \<and> 1024 \<le> ctx_max_dynamic_smem_bytes c" if "step_good cfg c good n"
    using that assms(2) by (simp add: step_good_def)
  note early = keeps_weaken [where Q' = "option_ok n" and E' = ?E]
  have last: "keeps c h (mbind (if n \<le> kDirectDftMaxN then mret (DirectDFTPlanNode n) else make_bluestein_plan cfg rn rc n)
      (\<lambda>node. mret [candidate node (estimate_direct_dft_cost n)])) ?Q ?E"
    if np2: "1 < n \<longrightarrow> \<not> (\<exists>j. n = 2 ^ j)"
  proof (rule keeps_bind [where R = "plan_ok n"], rule keeps_if)
    show "keeps c h (mret (DirectDFTPlanNode n)) (plan_ok n) ?E" using assms(1) by (intro keeps_ret) simp
    assume "\<not> n \<le> kDirectDftMaxN"
    then have n: "1 < n" by (simp add: kDirectDftMaxN_def)
    show "keeps c h (make_bluestein_plan cfg rn rc n) (plan_ok n) ?E"
      by (rule keeps_weaken [OF keeps_make_bluestein_plan [OF n]])
        (use n np2 assms(2) in \<open>auto simp: step_good_def convolutions_good_def\<close>)
  qed (auto intro!: keeps_ret)
  show ?thesis
    unfolding npu_candidates_def
  proof (intro keeps_bind_weak [OF keeps_npu_direct_dft_max] keeps_option_ok_morelse)
    show "keeps c h (npu_3d_candidates cfg c n) (option_ok n) ?E"
      by (rule early [OF keeps_npu_3d [OF assms(1)]]) (use sg in auto)
    show "keeps c h (npu_cube_candidates cfg c n) (option_ok n) ?E"
      by (rule early [OF keeps_npu_cube [OF assms(1)]]) (use sg in auto)
    show "keeps c h (npu_2d_leaf_candidates cfg c n) (option_ok n) ?E"
      by (rule early [OF keeps_npu_2d_leaf [OF assms(1)]]) (use sg in auto)
    show "keeps c h (mret (npu_2d_direct_candidates c direct_max n)) (option_ok n) ?E" for direct_max
      using npu_2d_direct_ok assms(1) by (intro keeps_ret)
    show "keeps c h (mbind (mlift (factorize_supported_radices n)) (\<lambda>fz.
        morelse (npu_factor_split_candidates cfg c fz n) (morelse (npu_stockham_candidates cfg fz n)
         (mbind (if n \<le> kDirectDftMaxN then mret (DirectDFTPlanNode n) else make_bluestein_plan cfg rn rc n)
           (\<lambda>node. mret [candidate node (estimate_direct_dft_cost n)]))))) ?Q ?E"
    proof (rule factorize_supported_spec [OF assms(1)])
      fix fz assume fz: "factorize_supported_radices n = Inr fz"
      have "keeps c h (npu_factor_split_candidates cfg c fz n) (option_ok n) ?E"
        by (rule early [OF keeps_npu_factor_split [OF assms(1)]]) (use sg in auto)
      then have "keeps c h (morelse (npu_factor_split_candidates cfg c fz n) (morelse (npu_stockham_candidates cfg fz n)
         (mbind (if n \<le> kDirectDftMaxN then mret (DirectDFTPlanNode n) else make_bluestein_plan cfg rn rc n)
           (\<lambda>node. mret [candidate node (estimate_direct_dft_cost n)])))) ?Q ?E"
        by (intro keeps_option_ok_morelse keeps_morelse_case [OF keeps_npu_stockham [OF assms(1) fz]] last)
      then show ?thesis
        unfolding fz by (intro keeps_bind [OF keeps_lift [where Q = "\<lambda>x. x = fz"]]) auto
    qed
  qed (use sg in auto)
qed

lemma keeps_device_candidates:
  assumes "0 < n" and "ctx_device_type c \<noteq> ''npu''"
  shows "keeps c h (mbind (leaf_stage cfg n) (\<lambda>leaves.
             let direct = (if n \<le> kDirectDftMaxN
                           then [candidate (DirectDFTPlanNode n) (estimate_direct_dft_cost n)] else [])
             in mbind (thread_local_stage cfg rc c n) (\<lambda>local.
                mbind (enumerate_divisors n) (\<lambda>divisors.
                mbind (mfold (split_candidate cfg rn rc n) divisors (leaves @ direct @ local)) (\<lambda>candidates.
                  if candidates = [] \<and> kDirectDftMaxN < n then prime_stage cfg rn rc c n
                  else mret candidates))))) (\<lambda>cs. candidates_ok n cs \<and> cs \<noteq> []) (\<lambda>e. \<not> step_good cfg c good n)"
  (is "keeps c h _ ?Q ?E")
proof -
  let ?sg = "step_good cfg c good n" and ?direct = "if n \<le> kDirectDftMaxN
    then [candidate (DirectDFTPlanNode n) (estimate_direct_dft_cost n)] else []"
  let ?I = "\<lambda>r. candidates_ok n r \<and> (n \<le> kDirectDftMaxN \<longrightarrow> r \<noteq> [])" and ?J = "\<lambda>r. smooth n \<and> ?sg \<longrightarrow> r \<noteq> []"
  have direct: "candidates_ok n ?direct" using assms(1) by simp
  have leaf: "keeps c h (leaf_stage cfg n) (candidates_ok n) ?E"
    by (rule keeps_weaken [OF keeps_leaf_stage [OF assms(1)]])
      (auto simp: candidates_ok_def fails_unless_def step_good_def)
  have splits: "keeps c h (mfold (split_candidate cfg rn rc n) ds cs) (\<lambda>r. ?I r \<and> ?J r) ?E"
    if ds: "divisors_ok n ds" and cs: "candidates_ok n cs" "n \<le> kDirectDftMaxN \<longrightarrow> cs \<noteq> []" for ds cs
  proof -
    obtain d where d: "d \<in> set ds \<and> 1 < d \<and> d < n \<or> \<not> smooth n \<or> n \<le> kDirectDftMaxN"
    proof (cases "smooth n \<and> \<not> n \<le> kDirectDftMaxN")
      case True
      then obtain d where "1 < d \<and> d < n \<and> d dvd n" using smooth_composite [of n] by (auto simp: kDirectDftMaxN_def)
      then show ?thesis using ds that [of d] by (auto simp: divisors_ok_def)
    qed (use that in blast)
    show ?thesis
    proof (rule keeps_fold_reach [where ?x0.0 = d])
      show "d \<in> set ds \<or> ?J cs" using d cs(2) by auto
      fix x a assume x: "x \<in> set ds" and a: "?I a"
      show "keeps c h (split_candidate cfg rn rc n x a) (\<lambda>r. ?I r \<and> (?J a \<or> x = d \<longrightarrow> ?J r)) ?E"
      proof (rule keeps_weaken [OF keeps_split_candidate [of n x a]])
        show "x dvd n" "0 < x" using x ds by (auto simp: divisors_ok_def)
        fix r
        assume "candidates_ok n r \<and> (a \<noteq> [] \<or> (1 < x \<and> x < n \<and> smooth n \<and> ?sg) \<longrightarrow> r \<noteq> [])"
        then show "?I r \<and> (?J a \<or> x = d \<longrightarrow> ?J r)" using d a by blast
      qed (use assms a in auto)
    qed (use cs in blast)
  qed
  have prime: "keeps c h (prime_stage cfg rn rc c n) ?Q ?E" if "kDirectDftMaxN < n" "\<not> (smooth n \<and> ?sg)"
    by (rule keeps_weaken [OF keeps_prime_stage]) (use that assms(2) in \<open>auto simp: kDirectDftMaxN_def\<close>)
  show ?thesis
    unfolding Let_def
    by (intro keeps_bind [OF leaf] keeps_bind [OF keeps_thread_local_stage [OF assms]]
        keeps_bind [OF keeps_enumerate_divisors [OF assms(1)]] keeps_bind [OF splits] keeps_if keeps_ret prime)
      (use direct in auto)
qed

lemma keeps_build_auto_candidates:
  assumes "0 < n"
  shows "keeps c h (build_auto_candidates cfg rn rc n) (\<lambda>cs. candidates_ok n cs \<and> cs \<noteq> [])
           (\<lambda>e. \<not> step_good cfg c good n)"
  unfolding build_auto_candidates_def
  by (intro keeps_if keeps_context keeps_npu_candidates keeps_device_candidates) (use assms in auto)

lemma keeps_selected:
  assumes "0 < n"
  shows "keeps c h (mbind (build_auto_candidates cfg rn rc n) (\<lambda>cs. mlift (select_candidate cs)))
           (\<lambda>cd. plan_ok n (cand_node cd)) (\<lambda>e. \<not> step_good cfg c good n)"
proof (intro keeps_bind [OF keeps_build_auto_candidates [OF assms]] keeps_lift)
  fix cs assume "candidates_ok n cs \<and> cs \<noteq> []"
  then obtain cd cds where cs: "cs = cd # cds" "\<forall>x \<in> insert cd (set cds). plan_ok n (cand_node x)"
    by (cases cs) (auto simp: candidates_ok_def)
  then show "case select_candidate cs of Inr x \<Rightarrow> plan_ok n (cand_node x) | Inl e \<Rightarrow> \<not> step_good cfg c good n"
    using min_element_mem [of cheaper cd cds] by (auto simp: select_candidate_def)
qed

lemma keeps_build_auto_node_body:
  assumes "0 < n"
  shows "keeps c h (build_auto_node_body cfg rn rc n a) (plan_ok n) (\<lambda>e. \<not> step_good cfg c good n)"
  unfolding build_auto_node_body_def
proof (intro keeps_get keeps_option)
  fix b nd assume "builder_inv c h b" "b_node_cache b n = Some nd"
  then show "keeps c h (mret nd) (plan_ok n) (\<lambda>e. \<not> step_good cfg c good n)"
    using assms by (intro keeps_ret) (simp add: builder_inv_def caches_ok_def)
next
  show "keeps c h (mbind (with_heuristic a (mbind (build_auto_candidates cfg rn rc n) (\<lambda>cs. mlift (select_candidate cs))))
      (\<lambda>cd. mbind (mmodify (\<lambda>b. b\<lparr>b_node_cache := (b_node_cache b)(n \<mapsto> cand_node cd),
                                 b_cost_cache := (b_cost_cache b)(n \<mapsto> cand_cost cd)\<rparr>)) (\<lambda>_.
             mret (cand_node cd)))) (plan_ok n) (\<lambda>e. \<not> step_good cfg c good n)"
    by (intro keeps_bind [OF keeps_with_heuristic [OF keeps_selected [OF assms]]]
        keeps_bind [where R = "\<lambda>_. True"] keeps_modify keeps_ret TrueI)
      (auto simp: builder_inv_def caches_ok_def)
qed

lemma keeps_cost_for_body:
  assumes "0 < n"
  shows "keeps c h (cost_for_body cfg rn rc n) (\<lambda>_. True) (\<lambda>e. \<not> step_good cfg c good n)"
  unfolding cost_for_body_def
  by (intro keeps_get keeps_option keeps_ret TrueI keeps_if keeps_throw
      keeps_bind [OF keeps_with_heuristic [OF keeps_build_auto_candidates [OF assms]]]
      keeps_bind [OF keeps_lift [where Q = "\<lambda>_. True"]] keeps_bind [where R = "\<lambda>_. True"] keeps_modify)
    (auto simp: builder_inv_def caches_ok_def select_candidate_def split: list.splits)

end

section \<open>Tying the recursion\<close>

text \<open>
  The depth a length needs. A step for a smooth length recurses on proper divisors; one for another
  length also on its predecessor and on smooth lengths below four times itself. On NPU a power of
  two needs no recursive call and any other length only calls for powers of two.
\<close>

definition fuel_need :: "request_ctx \<Rightarrow> int \<Rightarrow> int" where
  "fuel_need c n =
     (if ctx_device_type c = ''npu'' then (if \<exists>j. n = 2 ^ j then 1 else 2)
      else if smooth n then n else 5 * n)"

definition plannable :: "plan_cfg \<Rightarrow> request_ctx \<Rightarrow> bool" where
  "plannable cfg c \<longleftrightarrow>
     no_overrides cfg \<and> (ctx_device_type c = ''npu'' \<longrightarrow> 1024 \<le> ctx_max_dynamic_smem_bytes c)"

definition enough :: "plan_cfg \<Rightarrow> request_ctx \<Rightarrow> nat \<Rightarrow> int \<Rightarrow> bool" where
  "enough cfg c k n \<longleftrightarrow> plannable cfg c \<and> 0 < n \<and> fuel_need c n \<le> int k"

lemma not_enough_0: "\<not> enough cfg c 0 n"
  by (auto simp: enough_def fuel_need_def)

lemma enough_step:
  assumes "enough cfg c (Suc k) n"
  shows "step_good cfg c (enough cfg c k) n"
proof (cases "ctx_device_type c = ''npu''")
  case True
  then show ?thesis using assms by (auto simp: enough_def plannable_def step_good_def fuel_need_def split: if_splits)
next
  case False
  have n: "0 < n" and pl: "plannable cfg c" and k: "(if smooth n then n else 5 * n) \<le> int k + 1"
    using assms False by (auto simp: enough_def fuel_need_def)
  have en: "enough cfg c k m \<longleftrightarrow> 0 < m \<and> (if smooth m then m else 5 * m) \<le> int k" for m
    using False pl by (auto simp: enough_def fuel_need_def)
  have "enough cfg c k d" if d: "0 < d" "d dvd n" "d < n" for d
    using d k n smooth_dvd [of n d] by (auto simp: en split: if_splits)
  moreover have "enough cfg c k (n - 1) \<and> smooth_good (enough cfg c k) (4 * n)" if "\<not> smooth n"
  proof -
    have "1 < n" using that n smooth_small [of 1] by (cases "n = 1") auto
    then show ?thesis using k that smooth_pos by (auto simp: en smooth_good_def)
  qed
  ultimately show ?thesis using False pl by (auto simp: step_good_def plannable_def)
qed

lemma knot: "planner_calls c (enough cfg c k) (build_auto_node_fuel cfg k) (cost_for_fuel cfg k)"
proof (induction k)
  case 0
  show ?case by unfold_locales (simp_all add: not_enough_0 keeps_throw)
next
  case (Suc k)
  note body = planner_calls.keeps_build_auto_node_body [OF Suc] planner_calls.keeps_cost_for_body [OF Suc]
  show ?case
    using enough_step [of cfg c k] unfolding planner_calls_def
    by (auto intro: keeps_weaken [OF body(1)] keeps_weaken [OF body(2)])
qed

interpretation calls: planner_calls cfg c "enough cfg c k" "build_auto_node_fuel cfg k" "cost_for_fuel cfg k"
  for cfg c k
  by (rule knot)

lemma plan_fuel_enough: "plannable cfg c \<Longrightarrow> 0 < n \<Longrightarrow> enough cfg c (plan_fuel n) n"
  by (auto simp: enough_def fuel_need_def plan_fuel_def)

lemma keeps_build_auto_node:
  "0 < n \<Longrightarrow> keeps c h (build_auto_node cfg n a) (plan_ok n) (\<lambda>e. \<not> plannable cfg c)"
  unfolding build_auto_node_def
  by (rule keeps_weaken [OF calls.node_call]) (auto simp: plan_fuel_enough)

lemma keeps_cost_for: "0 < n \<Longrightarrow> keeps c h (cost_for cfg n) (\<lambda>_. True) (\<lambda>e. \<not> plannable cfg c)"
  unfolding cost_for_def
  by (rule keeps_weaken [OF calls.cost_call]) (auto simp: plan_fuel_enough)

section \<open>The root of a plan\<close>

definition always_good :: "plan_cfg \<Rightarrow> (int \<Rightarrow> bool) \<Rightarrow> bool" where
  "always_good cfg good \<longleftrightarrow> no_overrides cfg \<and> (\<forall>m. 0 < m \<longrightarrow> good m)"

lemma maca_tail_plans_no_throw:
  "no_overrides cfg \<Longrightarrow> \<exists>plans. maca_tail_plans (cfg_env cfg) n r tuning = Inr plans"
  by (simp add: no_overrides_def maca_tail_plans_def maca_tail_automatic_plan_def maca_tail_policy_enabled_def
      Let_def split: sum.splits)

lemma always_goodD: "always_good cfg good \<Longrightarrow> 0 < m \<Longrightarrow> good m"
  by (simp add: always_good_def)

context planner_calls
begin

lemma keeps_split_root:
  assumes "1 < n1" and "n1 < n" and "n1 dvd n"
  shows "keeps c h (split_plan rn n n1 (n div n1)) (plan_ok n) (\<lambda>e. \<not> always_good cfg good)"
proof -
  have "n1 * (n div n1) = n" "0 < n div n1" using assms quotient_dvd [of n n1] by auto
  moreover have "1 < n div n1" using calculation assms by (cases "n div n1 = 1") auto
  ultimately show ?thesis
    using assms always_goodD [of cfg good n1] always_goodD [of cfg good "n div n1"]
    by (intro keeps_weaken [OF keeps_split_plan]) auto
qed

lemma keeps_maca_tail_plan:
  assumes "0 < n" and "maca_plan_ok n p"
  shows "keeps c h (build_maca_tail_plan rn n p) (plan_ok n) (\<lambda>e. \<not> always_good cfg good)"
    (is "keeps c h _ _ ?E")
proof -
  have call: "keeps c h (rn m a) (plan_ok m) ?E" if "0 < m" for m a
    by (rule keeps_weaken [OF node_call [OF that]]) (use that in \<open>auto dest: always_goodD\<close>)
  have rader: "keeps c h (mbind (mlift (find_primitive_root n)) (\<lambda>g.
      mbind (mlift (build_rader_index_table n g)) (\<lambda>idx.
      mbind (rn (n - 1) False) (\<lambda>conv_plan. mret (RaderPlanNode n g idx conv_plan))))) (plan_ok n) ?E"
    if prm: "prime_int n"
  proof -
    have n1: "1 < n" using prm by (rule prime_intD)
    obtain g where g: "find_primitive_root n = Inr g" "primitive_root n g"
      using find_primitive_root_total [OF prm] find_primitive_root_sound by blast
    obtain idx where idx: "build_rader_index_table n g = Inr idx" using n1 by (simp add: build_rader_index_table_def)
    have "keeps c h (mbind (rn (n - 1) False) (\<lambda>conv_plan. mret (RaderPlanNode n g idx conv_plan))) (plan_ok n) ?E"
      using n1 prm g idx by (intro keeps_bind [OF call] keeps_ret) auto
    with g(1) idx show ?thesis
      by (intro keeps_bind [OF keeps_lift [where Q = "\<lambda>x. x = g"]] keeps_bind [OF keeps_lift [where Q = "\<lambda>x. x = idx"]]) auto
  qed
  have split: "keeps c h (split_plan rn m a b) (plan_ok m) ?E" if "1 < a" "1 < b" "m = a * b" for m a b
    using that always_goodD [of cfg good a] always_goodD [of cfg good b]
    by (intro keeps_weaken [OF keeps_split_plan]) auto
  have bluestein: "keeps c h (mbind (rn (mtp_first p) False) (\<lambda>fft_plan. mret (BluesteinPlanNode n (mtp_first p) fft_plan)))
      (plan_ok n) ?E" if "1 < n" "2 * n - 1 \<le> mtp_first p"
    by (rule keeps_bind [OF call]) (use that in \<open>auto intro!: keeps_ret\<close>)
  show ?thesis
    using assms(2) unfolding build_maca_tail_plan_def maca_plan_ok_def
    by (intro keeps_if) (auto intro: call [OF assms(1)] rader split bluestein simp: is_prime_length_iff)
qed

lemma keeps_forced_split:
  assumes "0 < n"
    and "\<And>n1. 1 < n1 \<Longrightarrow> n1 < n \<Longrightarrow> n1 dvd n \<Longrightarrow> keeps c h (split n n1 (n div n1)) (plan_ok n) (\<lambda>e. \<not> always_good cfg good)"
  shows "keeps c h (forced_split (cfg_env cfg) name reject in_scope split n) (\<lambda>r. \<forall>nd. r = Some nd \<longrightarrow> plan_ok n nd)
           (\<lambda>e. \<not> always_good cfg good)"
  unfolding forced_split_def
proof (intro keeps_option keeps_if keeps_ret keeps_bind [OF keeps_lift [where Q = "\<lambda>_. True"]])
  fix spec x
  assume set: "cfg_env cfg name = Some spec"
  then have no: "\<not> always_good cfg good" by (auto simp: always_good_def no_overrides_def)
  then show "case parse_split name spec of Inl e \<Rightarrow> \<not> always_good cfg good | Inr x \<Rightarrow> True" by (simp split: sum.splits)
  show "keeps c h (case x of (target_length, n1) \<Rightarrow>
      if target_length = n then
        (if n1 \<le> 1 \<or> n \<le> n1 \<or> n mod n1 \<noteq> 0 then runtime_error reject
         else mbind (split n n1 (n div n1)) (\<lambda>node. mret (Some node)))
      else mret None) (\<lambda>r. \<forall>nd. r = Some nd \<longrightarrow> plan_ok n nd) (\<lambda>e. \<not> always_good cfg good)"
  proof (cases x, simp only: prod.case, intro keeps_if keeps_ret keeps_throw no keeps_bind [OF assms(2)])
    show "\<not> (n1 \<le> 1 \<or> n \<le> n1 \<or> n mod n1 \<noteq> 0) \<Longrightarrow> 1 < n1" "\<not> (n1 \<le> 1 \<or> n \<le> n1 \<or> n mod n1 \<noteq> 0) \<Longrightarrow> n1 < n"
      "\<not> (n1 \<le> 1 \<or> n \<le> n1 \<or> n mod n1 \<noteq> 0) \<Longrightarrow> n1 dvd n" for n1
      by (auto simp: dvd_eq_mod_eq_0)
  qed simp_all
qed auto

end

definition node_option_ok :: "int \<Rightarrow> plan_node option \<Rightarrow> bool" where
  "node_option_ok n r \<longleftrightarrow> (\<forall>nd. r = Some nd \<longrightarrow> plan_ok n nd)"

lemma node_option_ok_simps [simp]: "node_option_ok n None" "node_option_ok n (Some nd) \<longleftrightarrow> plan_ok n nd"
  by (simp_all add: node_option_ok_def)

lemma keeps_some: "keeps c h f (plan_ok n) E \<Longrightarrow> keeps c h (mbind f (\<lambda>node. mret (Some node))) (node_option_ok n) E"
  by (erule keeps_bind) (simp add: keeps_ret)

lemma keeps_node_morelse:
  "keeps c h f (node_option_ok n) E \<Longrightarrow> keeps c h g (plan_ok n) E \<Longrightarrow> keeps c h (morelse f g) (plan_ok n) E"
  by (rule keeps_morelse) (auto simp: node_option_ok_def elim: keeps_weaken)

context planner_calls
begin

lemma keeps_leaf_overridden:
  assumes "0 < n" and "\<not> no_overrides cfg"
  shows "keeps c h (select_leaf_factors cfg n) (radix_list n) (\<lambda>e. \<not> always_good cfg good)"
  by (rule keeps_weaken [OF keeps_select_leaf_factors [OF assms(1)]]) (use assms(2) in \<open>auto simp: always_good_def\<close>)

lemma keeps_make_leaf_overridden:
  assumes "radix_list n fs" and "\<not> no_overrides cfg"
  shows "keeps c h (make_leaf_plan n fs 1) (plan_ok n) (\<lambda>e. \<not> always_good cfg good)"
  by (rule keeps_weaken [OF keeps_make_leaf_plan [OF radix_list_leaf [OF assms(1)]]])
    (use assms(2) in \<open>auto simp: always_good_def\<close>)

lemma keeps_fitting_leaf:
  assumes "0 < n" and "\<not> no_overrides cfg"
  shows "keeps c h (fitting_leaf cfg n) (node_option_ok n) (\<lambda>e. \<not> always_good cfg good)"
  unfolding fitting_leaf_def
  by (intro keeps_bind [OF keeps_leaf_overridden] keeps_bind [OF keeps_should_use_leaf] keeps_if keeps_ret
      keeps_some keeps_make_leaf_overridden) (use assms in auto)

lemma leaf_mode_override: "leaf_mode (cfg_env cfg) \<Longrightarrow> \<not> no_overrides cfg"
  by (auto simp: leaf_mode_def no_overrides_def)

lemma keeps_npu_split:
  assumes "1 < n1" and "n1 < n" and "n1 dvd n"
  shows "keeps c h (npu_split cfg rn n n1 (n div n1)) (plan_ok n) (\<lambda>e. \<not> always_good cfg good)"
proof -
  have n2: "0 < n div n1" "n1 * (n div n1) = n" using assms quotient_dvd [of n n1] by auto
  have n2': "1 < n div n1" using n2 assms by (cases "n div n1 = 1") auto
  have fail: "\<not> always_good cfg good" if "leaf_mode (cfg_env cfg)"
    using leaf_mode_override [OF that] by (simp add: always_good_def)
  show ?thesis
    unfolding npu_split_def
    by (intro keeps_if keeps_split_root assms keeps_bind [OF keeps_leaf_overridden] keeps_throw fail
        keeps_bind [OF keeps_should_use_leaf] keeps_bind [where R = "\<lambda>_. True"]
        keeps_bind [OF keeps_make_leaf_overridden] leaf_mode_override keeps_ret TrueI
        keeps_weaken [OF keeps_should_use_leaf]) (use assms n2 n2' in auto)
qed

lemma keeps_build_3d_child:
  assumes "0 < n" and "use_aiv64 \<Longrightarrow> \<not> no_overrides cfg"
  shows "keeps c h (build_3d_child cfg rn use_aiv64 n) (plan_ok n) (\<lambda>e. \<not> always_good cfg good)"
proof -
  have call: "keeps c h (rn n a) (plan_ok n) (\<lambda>e. \<not> always_good cfg good)" for a
    by (rule keeps_weaken [OF node_call [OF assms(1)]]) (use assms(1) always_goodD [of cfg good n] in auto)
  have fail: "\<not> always_good cfg good" if "leaf_mode (cfg_env cfg)"
    using leaf_mode_override [OF that] by (simp add: always_good_def)
  show ?thesis
    unfolding build_3d_child_def
    by (intro keeps_node_morelse keeps_if keeps_fitting_leaf call keeps_bind [OF keeps_fitting_leaf]
        keeps_option keeps_ret keeps_throw fail) (use assms leaf_mode_override in auto)
qed

lemma keeps_npu_3d_split:
  assumes "1 < n1" and "n1 < n" and "n1 dvd n" and "use_aiv64 \<Longrightarrow> \<not> no_overrides cfg"
  shows "keeps c h (npu_3d_split cfg rn use_aiv64 n n1 (n div n1)) (plan_ok n) (\<lambda>e. \<not> always_good cfg good)"
proof -
  have n2: "0 < n div n1" "n1 * (n div n1) = n" using assms quotient_dvd [of n n1] by auto
  have n2': "1 < n div n1" using n2 assms by (cases "n div n1 = 1") auto
  show ?thesis
    unfolding npu_3d_split_def
    by (intro keeps_bind [OF keeps_build_3d_child] keeps_ret) (use assms n2 n2' in auto)
qed

lemma npu_operator_n1_ok:
  "npu_operator_n1 n \<noteq> 0 \<Longrightarrow> 1 < npu_operator_n1 n \<and> npu_operator_n1 n < n \<and> npu_operator_n1 n dvd n"
  by (simp add: npu_operator_n1_def split: if_splits)

lemma keeps_npu_operator_stage:
  "keeps c h (npu_operator_stage rn r n) (node_option_ok n) (\<lambda>e. \<not> always_good cfg good)"
  unfolding npu_operator_stage_def
  by (intro keeps_if keeps_some keeps_split_root keeps_ret) (use npu_operator_n1_ok [of n] in auto)

lemma keeps_maca_stage:
  assumes "0 < n"
  shows "keeps c h (maca_stage cfg rn r n) (node_option_ok n) (\<lambda>e. \<not> always_good cfg good)"
proof -
  let ?E = "\<lambda>e. \<not> always_good cfg good"
  have plans: "keeps c h (mlift (maca_tail_plans (cfg_env cfg) n r False)) (\<lambda>ps. list_all (maca_plan_ok n) ps) ?E"
    using maca_tail_plans_ok [of "cfg_env cfg" n r False] maca_tail_plans_no_throw [of cfg n r False]
    by (intro keeps_lift) (auto simp: list_all_iff always_good_def split: sum.splits)
  have root: "keeps c h (split_plan rn n (if n = 16384 then 256 else 884) (n div (if n = 16384 then 256 else 884)))
      (plan_ok n) ?E" if "n = 16384 \<or> n = 663000"
    by (rule keeps_split_root) (use that in auto)
  show ?thesis
    unfolding maca_stage_def Let_def
  proof (intro keeps_bind [OF plans])
    fix ps assume ps: "list_all (maca_plan_ok n) ps"
    show "keeps c h (case ps of
         plan # rest \<Rightarrow> mbind (build_maca_tail_plan rn n plan) (\<lambda>node. mret (Some node))
       | [] \<Rightarrow>
           if req_device_type r = ''maca'' \<and> req_device_arch r = ''102'' \<and> req_raw_dim r = 1 \<and>
              req_origin_rank r \<le> 1 \<and> req_batch r = 64 \<and> n = req_requested_n r \<and> \<not> req_real_transform r \<and>
              request_complex64 r \<and> not_disabled (cfg_env cfg) ''FLAGFFT_MACA_1D_BATCH'' \<and>
              (n = 16384 \<or> n = 663000)
           then mbind (split_plan rn n (if n = 16384 then 256 else 884) (n div (if n = 16384 then 256 else 884)))
                  (\<lambda>node. mret (Some node))
           else mret None) (node_option_ok n) ?E"
      using ps assms root
      by (cases ps) (simp_all, auto intro!: keeps_some keeps_maca_tail_plan keeps_ret)
  qed
qed

end

lemma keeps_forced:
  "keeps c h f (\<lambda>r. \<forall>nd. r = Some nd \<longrightarrow> plan_ok n nd) E \<Longrightarrow> keeps c h f (node_option_ok n) E"
  by (erule keeps_weaken) (auto simp: node_option_ok_def)

context planner_calls
begin

lemma keeps_build_from:
  assumes "0 < n"
  shows "keeps c h (build_from cfg rn n r) (plan_ok n) (\<lambda>e. \<not> always_good cfg good)"
proof -
  let ?E = "\<lambda>e. \<not> always_good cfg good"
  have none: "keeps c h (mret None) (node_option_ok n) ?E" by (rule keeps_ret) (simp add: node_option_ok_def)
  have hcu: "keeps c h (mbind (split_plan rn n 567 600) (\<lambda>node. mret (Some node))) (node_option_ok n) ?E"
    if "hcu_single_c2r_root r n \<and> n = 340200"
    using keeps_split_root [of 567 n h] that by (intro keeps_some) simp
  have forced: "keeps c h (forced_split (cfg_env cfg) name reject cond (split_plan rn) n) (node_option_ok n) ?E" for name reject cond
    by (intro keeps_forced keeps_forced_split keeps_split_root assms)
  have forced_npu: "keeps c h (forced_split (cfg_env cfg) name reject cond (npu_split cfg rn) n) (node_option_ok n) ?E"
    for name reject cond
    by (intro keeps_forced keeps_forced_split keeps_npu_split assms)
  have forced_3d: "keeps c h (forced_split (cfg_env cfg) name reject cond (npu_3d_split cfg rn aiv) n) (node_option_ok n) ?E"
    if "aiv \<Longrightarrow> cfg_env cfg ''FLAGFFT_NPU_3D_AIV64'' = Some ''1''" for name reject cond aiv
    by (intro keeps_forced keeps_forced_split keeps_npu_3d_split assms) (use that in \<open>auto simp: no_overrides_def\<close>)
  have node: "keeps c h (rn n True) (plan_ok n) ?E"
    by (rule keeps_weaken [OF node_call [OF assms]]) (use assms in \<open>auto simp: always_good_def\<close>)
  show ?thesis
    unfolding build_from_def Let_def
    by (intro keeps_node_morelse forced forced_npu forced_3d hcu none node keeps_npu_operator_stage keeps_maca_stage keeps_if
        keeps_fitting_leaf assms) (auto simp: no_overrides_def)
qed

end

text \<open>The planner's own functions satisfy the interface, with every length good once no override is set.\<close>

lemma planner_calls_top: "planner_calls c (\<lambda>_. plannable cfg c) (build_auto_node cfg) (cost_for cfg)"
  by unfold_locales (simp_all add: keeps_build_auto_node keeps_cost_for)

interpretation top: planner_calls cfg c "\<lambda>_. plannable cfg c" "build_auto_node cfg" "cost_for cfg" for cfg c
  by (rule planner_calls_top)

lemma request_ctx_eq_iff: "request_ctx_eq a b \<longleftrightarrow> a = b"
  by (cases a; cases b) (auto simp: request_ctx_eq_def)

lemma caches_ok_switch:
  "caches_ok b \<Longrightarrow> caches_ok (b\<lparr>b_request_context := Some c, b_node_cache := (\<lambda>_. None),
     b_cost_cache := (\<lambda>_. None), b_tune_candidate_cache := (\<lambda>_. None)\<rparr>)"
  by (simp add: caches_ok_def)

lemma mtriple_set_request_context:
  assumes "make_request_context cfg r = Inr c"
  shows "mtriple (\<lambda>b. caches_ok b \<and> b_parallel_leaf_heuristic_enabled b = h) (set_request_context cfg r)
           (\<lambda>_. builder_inv c h) E"
  using assms caches_ok_switch
  by (auto simp: mtriple_def set_request_context_def mlift_def mbind_def mget_def mret_def mmodify_def
      builder_inv_def request_ctx_eq_iff split: option.splits)

lemma mtriple_build:
  assumes "make_request_context cfg r = Inr c"
  shows "mtriple (\<lambda>b. caches_ok b \<and> b_parallel_leaf_heuristic_enabled b = h) (build cfg n r)
     (\<lambda>nd b. builder_inv c h b \<and> 0 < n \<and> plan_ok n nd) (\<lambda>e b. builder_inv c h b \<and> \<not> (0 < n \<and> plannable cfg c))"
  unfolding build_def
proof (rule mtriple_bind [OF mtriple_set_request_context [OF assms]])
  have "keeps c h (if n \<le> 0 then runtime_error ''FFT length must be positive''
      else build_from cfg (build_auto_node cfg) n r) (\<lambda>nd. 0 < n \<and> plan_ok n nd) (\<lambda>e. \<not> (0 < n \<and> plannable cfg c))"
    by (intro keeps_if keeps_throw keeps_weaken [OF top.keeps_build_from])
      (auto simp: always_good_def plannable_def)
  then show "mtriple (builder_inv c h) (if n \<le> 0 then runtime_error ''FFT length must be positive''
      else build_from cfg (build_auto_node cfg) n r) (\<lambda>nd b. builder_inv c h b \<and> 0 < n \<and> plan_ok n nd)
      (\<lambda>e b. builder_inv c h b \<and> \<not> (0 < n \<and> plannable cfg c))"
    by (simp add: keeps_def)
qed

lemma make_request_context_no_throw:
  "no_overrides cfg \<Longrightarrow> \<exists>c. make_request_context cfg r = Inr c"
  by (auto simp: no_overrides_def make_request_context_def ix_ct_single_policy_enabled_def
      ix_ct_batch_policy_enabled_def ix_switch_def Let_def split: sum.splits)

lemma make_request_context_fields:
  "make_request_context cfg r = Inr c \<Longrightarrow>
   ctx_device_type c = req_device_type r \<and>
   ctx_max_dynamic_smem_bytes c =
     (if req_device_type r = cfg_backend_name cfg then cfg_max_dynamic_smem_bytes cfg (req_device_index r)
      else kDynamicSmemFallbackBytes)"
  by (auto simp: make_request_context_def split: sum.splits if_splits)

lemma set_request_context_throws:
  "make_request_context cfg r = Inl e \<Longrightarrow> set_request_context cfg r b = (Inl e, b)"
  by (simp add: set_request_context_def mlift_def mbind_def mthrow_def)

text \<open>What a planning entry point does to the builder, whatever the environment holds.\<close>

definition steady :: "('a \<Rightarrow> bool) \<Rightarrow> builder \<Rightarrow> (exn + 'a) \<times> builder \<Rightarrow> bool" where
  "steady Q b res \<longleftrightarrow>
     (case res of (r, b') \<Rightarrow>
        caches_ok b' \<and> b_parallel_leaf_heuristic_enabled b' = b_parallel_leaf_heuristic_enabled b \<and>
        (case r of Inr x \<Rightarrow> Q x | Inl e \<Rightarrow> True))"

lemma steady_entry:
  assumes "\<And>c h. keeps c h f Q (E c)" and "caches_ok b"
  shows "steady Q b (mbind (set_request_context cfg r) (\<lambda>_. f) b)"
proof (cases "make_request_context cfg r")
  case (Inl e)
  then show ?thesis using assms(2) by (simp add: steady_def mbind_def set_request_context_throws)
next
  case (Inr c)
  let ?h = "b_parallel_leaf_heuristic_enabled b"
  have "mtriple (\<lambda>x. caches_ok x \<and> b_parallel_leaf_heuristic_enabled x = ?h) (mbind (set_request_context cfg r) (\<lambda>_. f))
      (\<lambda>x s. builder_inv c ?h s \<and> Q x) (\<lambda>e s. builder_inv c ?h s \<and> E c e)"
    using assms(1) [unfolded keeps_def] by (intro mtriple_bind [OF mtriple_set_request_context [OF Inr]])
  moreover obtain res b' where eq: "mbind (set_request_context cfg r) (\<lambda>_. f) b = (res, b')" by fastforce
  ultimately have "case res of Inr x \<Rightarrow> builder_inv c ?h b' \<and> Q x | Inl e \<Rightarrow> builder_inv c ?h b' \<and> E c e"
    using assms(2) by (cases res) (auto dest: mtriple_resultD mtriple_exnD)
  then show ?thesis unfolding eq by (cases res) (auto simp: steady_def builder_inv_def)
qed

lemma build_steady:
  assumes "caches_ok b"
  shows "steady (\<lambda>nd. 0 < n \<and> plan_ok n nd) b (build cfg n r b)"
proof -
  have "keeps c h (if n \<le> 0 then runtime_error ''FFT length must be positive''
      else build_from cfg (build_auto_node cfg) n r) (\<lambda>nd. 0 < n \<and> plan_ok n nd) (\<lambda>_. True)" for c h
    by (intro keeps_if keeps_throw keeps_weaken [OF top.keeps_build_from]) auto
  from steady_entry [OF this assms] show ?thesis by (simp add: build_def)
qed

section \<open>Properties\<close>

text \<open>
  C3. Whatever the environment variables, the device and the state the builder was left in, a plan
  that \<open>PlanBuilder::build\<close> returns is a plan for the requested length: every leaf's radices
  multiply to its length, every split is a factorization, every Bluestein convolution is at least
  \<open>2n - 1\<close> long, every Rader node has a primitive root and its index table. On return and on
  every exception the caches stay right and the heuristic flag is back at its old value.
\<close>

theorem build_sound:
  assumes "caches_ok b"
  shows "case build cfg n r b of (res, b') \<Rightarrow>
           caches_ok b' \<and> b_parallel_leaf_heuristic_enabled b' = b_parallel_leaf_heuristic_enabled b \<and>
           (case res of Inr nd \<Rightarrow> 0 < n \<and> plan_ok n nd | Inl e \<Rightarrow> True)"
  using build_steady [OF assms, of n cfg r] by (simp add: steady_def)

definition example_cfg :: plan_cfg where
  "example_cfg = \<lparr>cfg_env = (\<lambda>_. None), cfg_backend_name = ''cuda'',
     cfg_max_dynamic_smem_bytes = (\<lambda>_. 98304), cfg_log = (\<lambda>x. x)\<rparr>"

theorem build_sound_witness:
  "case build example_cfg 1009 (default_request\<lparr>req_device_type := ''maca''\<rparr>) new_builder of (res, b') \<Rightarrow>
     caches_ok b' \<and> b_parallel_leaf_heuristic_enabled b' = b_parallel_leaf_heuristic_enabled new_builder \<and>
     (case res of Inr nd \<Rightarrow> (0::int) < 1009 \<and> plan_ok 1009 nd | Inl e \<Rightarrow> True)"
  by (rule build_sound) simp

text \<open>
  C2. Every positive length can be planned: when no override variable is set (and an NPU reports at
  least 1024 bytes of shared memory), \<open>PlanBuilder::build\<close> returns, from every state of the
  builder whose caches are right, for every request, and the recursion through
  \<open>build_auto_node\<close> and \<open>cost_for\<close> ends within the depth \<open>plan_fuel\<close> of each length. Lengths are
  integers of the model; they are those of the program as long as the convolution length, below
  \<open>4n\<close>, and the costs' operands fit \<open>int64_t\<close>.
\<close>

theorem build_returns:
  assumes "0 < n" and "caches_ok b" and "no_overrides cfg"
    and "req_device_type r = ''npu'' \<longrightarrow> cfg_backend_name cfg = ''npu'' \<longrightarrow>
           1024 \<le> cfg_max_dynamic_smem_bytes cfg (req_device_index r)"
  shows "\<exists>nd b'. build cfg n r b = (Inr nd, b') \<and> plan_ok n nd"
proof -
  obtain c where c: "make_request_context cfg r = Inr c" using make_request_context_no_throw [OF assms(3)] ..
  have "plannable cfg c"
    using make_request_context_fields [OF c] assms(3,4) by (auto simp: plannable_def kDynamicSmemFallbackBytes_def)
  moreover obtain res b' where eq: "build cfg n r b = (res, b')" by fastforce
  ultimately show ?thesis
    using mtriple_build [OF c, of "b_parallel_leaf_heuristic_enabled b" n] assms(1,2)
    by (cases res) (auto dest: mtriple_resultD mtriple_exnD)
qed

theorem build_returns_witness:
  "\<exists>nd b'. build example_cfg 8191 (default_request\<lparr>req_device_type := ''npu''\<rparr>) new_builder = (Inr nd, b') \<and> plan_ok 8191 nd"
  by (rule build_returns) (simp_all add: no_overrides_def example_cfg_def)

text \<open>
  C33. Error behaviour of the entry point: a length that is not positive is refused with the message
  of the source, after the request context was switched, for every request.
\<close>

theorem build_rejects_nonpositive:
  assumes "n \<le> 0" and "no_overrides cfg"
  shows "fst (build cfg n r b) = Inl (StdException ''FFT length must be positive'')"
proof -
  obtain c where "make_request_context cfg r = Inr c" using make_request_context_no_throw [OF assms(2)] ..
  then show ?thesis
    using assms(1) by (auto simp: build_def set_request_context_def mbind_def mlift_def mget_def mret_def mmodify_def
        mthrow_def split: option.splits)
qed

theorem build_rejects_nonpositive_witness:
  "fst (build example_cfg 0 default_request new_builder) = Inl (StdException ''FFT length must be positive'')"
  by (rule build_rejects_nonpositive) (simp_all add: no_overrides_def example_cfg_def)

text \<open>
  C34. Which caches survive a change of request: switching to a different context drops the node,
  cost and tuning caches and keeps the divisor, factorization and leaf factor caches. The first two
  depend on the length only; the leaf factors were chosen for the old context and stay in use.
\<close>

theorem context_switch_caches:
  assumes "make_request_context cfg r = Inr c" and "b_request_context b \<noteq> Some c"
  shows "\<exists>b'. set_request_context cfg r b = (Inr (), b') \<and>
     b_request_context b' = Some c \<and> b_node_cache b' = (\<lambda>_. None) \<and> b_cost_cache b' = (\<lambda>_. None) \<and>
     b_tune_candidate_cache b' = (\<lambda>_. None) \<and> b_divisor_cache b' = b_divisor_cache b \<and>
     b_factorization_cache b' = b_factorization_cache b \<and>
     b_best_leaf_factors_cache b' = b_best_leaf_factors_cache b"
  using assms
  by (auto simp: set_request_context_def mbind_def mlift_def mget_def mret_def mmodify_def request_ctx_eq_iff
      split: option.splits)

theorem context_switch_caches_witness:
  "\<exists>c b'. set_request_context example_cfg default_request (new_builder\<lparr>b_best_leaf_factors_cache := [64 \<mapsto> [8, 8]]\<rparr>) =
     (Inr (), b') \<and> b_request_context b' = Some c \<and> b_best_leaf_factors_cache b' 64 = Some [8, 8]"
proof -
  obtain c where c: "make_request_context example_cfg default_request = Inr c"
    using make_request_context_no_throw [of example_cfg] by (auto simp: no_overrides_def example_cfg_def)
  show ?thesis
    using context_switch_caches [OF c, of "new_builder\<lparr>b_best_leaf_factors_cache := [64 \<mapsto> [8, 8]]\<rparr>"]
    by (auto simp: new_builder_def)
qed

end
