(* ===== verification/FFT_Tuning.thy ===== *)
theory FFT_Tuning
  imports FFT_PlannerKnot
begin

text \<open>
  The candidate generators used by tuning, and the plan builder as a state machine. Every candidate
  of \<open>build_tune_candidates\<close> and \<open>build_decomposition_tune_candidates\<close> is a plan for its length, the
  lists have no duplicates and respect their limits, and every history of calls of the builder's
  entry points leaves it in a state where the contracts of \<open>FFT_PlannerKnot\<close> apply.
\<close>

section \<open>Lists of distinct candidates\<close>

definition reprs :: "plan_candidate list \<Rightarrow> string list" where
  "reprs cs = map (\<lambda>cd. node_repr (cand_node cd)) cs"

text \<open>At least one and at most \<open>limit\<close> plans for length \<open>n\<close>, no two with the same plan key.\<close>

definition shortlist :: "int \<Rightarrow> int \<Rightarrow> plan_candidate list \<Rightarrow> bool" where
  "shortlist n limit cs \<longleftrightarrow> candidates_ok n cs \<and> distinct (reprs cs) \<and> cs \<noteq> [] \<and> int (length cs) \<le> limit"

lemma first_unique_spec:
  "set (first_unique cds seen k) \<subseteq> set cds \<and> distinct (reprs (first_unique cds seen k)) \<and>
   set (reprs (first_unique cds seen k)) \<inter> set seen = {} \<and> length (first_unique cds seen k) \<le> max 1 k"
proof (induction cds arbitrary: seen k)
  case (Cons cd cds)
  let ?x = "node_repr (cand_node cd)"
  show ?case
  proof (cases "?x \<in> set seen \<or> k \<le> 1")
    case True
    then show ?thesis using Cons.IH [of seen k] by (auto simp: reprs_def)
  next
    case False
    then show ?thesis using Cons.IH [of "?x # seen" "k - 1"] by (auto simp: reprs_def)
  qed
qed (simp add: reprs_def)

lemma top_candidates_spec:
  "0 < limit \<Longrightarrow> set (top_candidates cs limit) \<subseteq> set cs \<and> distinct (reprs (top_candidates cs limit)) \<and>
   int (length (top_candidates cs limit)) \<le> limit"
  using first_unique_spec [of "sort_by candidate_before cs" "[]" "nat limit"] set_sort_by [of candidate_before cs]
  by (auto simp: top_candidates_def)

lemma top_candidates_ok: "candidates_ok n cs \<Longrightarrow> candidates_ok n (top_candidates cs limit)"
  using first_unique_spec [of "sort_by candidate_before cs" "[]" "nat limit"] set_sort_by [of candidate_before cs]
  by (auto simp: top_candidates_def candidates_ok_def)

lemma append_unique_shortlist:
  assumes "shortlist n limit cs" and "room limit cs" and "plan_ok n (cand_node cd)"
  shows "shortlist n limit (append_unique cd cs)"
  using assms by (auto simp: shortlist_def append_unique_def room_def reprs_def)

lemma append_unique_nil [simp]: "append_unique cd [] = [cd]"
  by (simp add: append_unique_def)

section \<open>Static tuning candidates\<close>

lemma keeps_leaf_order_candidate:
  assumes "leaf_factors n order" and "leaf_smem_elements n order (ctx_input_dtype c) \<noteq> None" and "candidates_ok n acc"
  shows "keeps c h (leaf_order_candidate n order acc) (candidates_ok n) E"
proof -
  have leaf: "keeps c h (make_leaf_plan n order 1) (plan_ok n) E"
    by (rule keeps_weaken [OF keeps_make_leaf_plan [OF assms(1)]]) (use assms(2) in \<open>auto simp: fails_unless_def\<close>)
  show ?thesis
    unfolding leaf_order_candidate_def Let_def
    by (intro keeps_bind [OF leaf] keeps_bind [OF keeps_estimate_leaf] keeps_get keeps_ret) (use assms(3) in simp)
qed

lemma leaf_orders_factors:
  assumes "leaf_factors n fs" and "order \<in> set (leaf_orders fs)"
  shows "leaf_factors n order \<and> mset order = mset fs"
proof -
  have "mset order = mset fs" using assms(2) by (auto simp: leaf_orders_def dest!: in_set_takeD)
  then have "set order = set fs" "prod_list order = prod_list fs"
    by (auto dest: mset_eq_setD simp: prod_mset_prod_list [symmetric])
  then show ?thesis using assms(1) \<open>mset order = mset fs\<close> by (auto simp: leaf_factors_def)
qed

lemma leaf_smem_elements_mset:
  assumes "mset order = mset fs"
  shows "leaf_smem_elements n order t = leaf_smem_elements n fs t"
  using mset_eq_length [OF assms] by (simp add: leaf_smem_elements_def)

lemma keeps_build_leaf_tune_candidates:
  assumes "0 < n"
  shows "keeps c h (build_leaf_tune_candidates n) (candidates_ok n) E"
proof (rule factorize_supported_spec [OF assms])
  fix fz assume fz: "factorize_supported_radices n = Inr fz"
  have inner: "keeps c h (mfold (leaf_order_candidate n) (leaf_orders fs) acc) (candidates_ok n) E"
    if "radix_list n fs" "leaf_smem_elements n fs (ctx_input_dtype c) \<noteq> None" "candidates_ok n acc" for fs acc
  proof (intro keeps_fold keeps_leaf_order_candidate)
    fix order assume "order \<in> set (leaf_orders fs)"
    note ord = leaf_orders_factors [OF radix_list_leaf [OF that(1)] this]
    show "leaf_factors n order" using ord by blast
    show "leaf_smem_elements n order (ctx_input_dtype c) \<noteq> None"
      using leaf_smem_elements_mset [of order fs] ord that(2) by metis
  qed (use that in auto)
  let ?f = "\<lambda>factors (acc, seen). mbind (should_use_leaf n factors) (\<lambda>fits.
      if \<not> fits \<or> join_ints (sort factors) \<in> set seen then mret (acc, seen)
      else mbind (mfold (leaf_order_candidate n) (leaf_orders factors) acc) (\<lambda>acc.
             mret (acc, join_ints (sort factors) # seen)))"
  have step: "keeps c h (?f fs a) (\<lambda>a. candidates_ok n (fst a)) E" if "radix_list n fs" "candidates_ok n (fst a)" for fs a
    using that by (cases a) (auto intro!: keeps_bind [OF keeps_should_use_leaf] keeps_if keeps_ret keeps_bind [OF inner])
  have search: "keeps c h (mbind (enumerate_supported_factorizations n) (\<lambda>factorizations.
      mbind (mfold ?f factorizations ([], [])) (\<lambda>(candidates, seen).
        mret (top_candidates candidates (if kLeafTuneLargeN \<le> n then kLeafTuneLargeTopK else kLeafTuneTopK)))))
      (candidates_ok n) E"
  proof (intro keeps_bind [OF keeps_enumerate [OF assms]])
    fix L assume L: "set L = {fs. radix_list n fs}"
    have "keeps c h (mfold ?f L ([], [])) (\<lambda>a. candidates_ok n (fst a)) E"
      by (rule keeps_fold) (use L step in auto)
    then show "keeps c h (mbind (mfold ?f L ([], [])) (\<lambda>(candidates, seen).
        mret (top_candidates candidates (if kLeafTuneLargeN \<le> n then kLeafTuneLargeTopK else kLeafTuneTopK))))
        (candidates_ok n) E"
      by (rule keeps_bind)
        (auto intro!: keeps_ret top_candidates_ok)
  qed
  show ?thesis
    unfolding build_leaf_tune_candidates_def fz using search
    by (intro keeps_bind [OF keeps_lift [where Q = "\<lambda>x. x = fz"]] keeps_if keeps_ret) auto
qed

lemma scored_pairs_spec:
  assumes "divisors_ok n ds" and "p \<in> set (scored_pairs cfg n ds)" and "0 < n"
  shows "1 < fst p \<and> 1 < fst (snd p) \<and> fst p * fst (snd p) = n"
proof -
  obtain n1 where n1: "n1 \<in> set ds" "1 < n1" "n1 < n" "fst p = n1" "fst (snd p) = n div n1"
    using assms(2) by (auto simp: scored_pairs_def Let_def)
  have d: "1 < fst p" "fst p < n" "fst p dvd n" "fst (snd p) = n div fst p"
    using n1 assms(1) by (simp_all add: divisors_ok_def)
  have q: "0 < n div fst p" "fst p * (n div fst p) = n" using d quotient_dvd [of n "fst p"] assms(3) by auto
  with d have "n div fst p \<noteq> 1" by auto
  with q d show ?thesis by auto
qed

lemma combine_children_ok:
  assumes "candidates_ok n1 rows" and "candidates_ok n2 cols" and "1 < n1" and "1 < n2" and "n1 * n2 = n"
  shows "candidates_ok n (combine_children n (n1, n2, score) rows cols)"
  using assms by (auto simp: candidates_ok_def combine_children_def dest!: in_set_takeD)

lemma keeps_build_tune_candidates:
  "0 < n \<Longrightarrow> keeps c h (build_tune_candidates cfg levels n) (candidates_ok n) E"
proof (induction levels arbitrary: n)
  case 0
  have cached: "candidates_ok n cs" if "builder_inv c h b" "b_tune_candidate_cache b n = Some cs" for b cs
    using that 0 by (simp add: builder_inv_def caches_ok_def candidates_ok_def)
  show ?case
    unfolding build_tune_candidates.simps [of cfg 0]
    by (intro keeps_get keeps_option keeps_ret) (auto intro: cached keeps_build_leaf_tune_candidates 0)
next
  case (Suc levels)
  have cached: "candidates_ok n cs" if "builder_inv c h b" "b_tune_candidate_cache b n = Some cs" for b cs
    using that Suc.prems by (simp add: builder_inv_def caches_ok_def candidates_ok_def)
  have pairs: "keeps c h (mfold (\<lambda>pair acc.
        mbind (build_tune_candidates cfg levels (fst pair)) (\<lambda>rows.
        mbind (build_tune_candidates cfg levels (fst (snd pair))) (\<lambda>cols.
          mret (acc @ combine_children n pair rows cols)))) ps []) (candidates_ok n) E"
    if "\<And>p. p \<in> set ps \<Longrightarrow> 1 < fst p \<and> 1 < fst (snd p) \<and> fst p * fst (snd p) = n" for ps
    by (intro keeps_fold keeps_bind [OF Suc.IH] keeps_ret)
      (use that combine_children_ok [of "fst _" _ "fst (snd _)" _ n "snd (snd _)", simplified] in fastforce)+
  have ps: "1 < fst p \<and> 1 < fst (snd p) \<and> fst p * fst (snd p) = n"
    if "divisors_ok n ds" "p \<in> set (take k (sort_by pair_before (scored_pairs cfg n ds)))" for ds p k
  proof -
    have "p \<in> set (scored_pairs cfg n ds)" using that(2) by (auto dest!: in_set_takeD)
    then show ?thesis by (rule scored_pairs_spec [OF that(1) _ Suc.prems])
  qed
  show ?case
    unfolding build_tune_candidates.simps [of cfg "Suc levels"] nat.case Let_def
    by (intro keeps_get keeps_option keeps_ret keeps_bind [OF keeps_build_leaf_tune_candidates]
        keeps_bind [OF keeps_enumerate_divisors] keeps_bind [OF pairs] ps keeps_bind [where R = "\<lambda>_. True"] keeps_modify)
      (use Suc.prems cached in \<open>auto simp: builder_inv_def caches_ok_def candidates_ok_def [symmetric]
         intro!: top_candidates_ok\<close>)
qed

section \<open>Decomposition alternatives\<close>

lemma keeps_top_four_step_cost:
  "1 < n1 \<Longrightarrow> 1 < n2 \<Longrightarrow> smooth n1 \<Longrightarrow>
   keeps c h (four_step_cost cfg (cost_for cfg) n1 n2) (\<lambda>_. True) (\<lambda>e. \<not> plannable cfg c)"
  by (rule keeps_weaken [OF top.keeps_four_step_cost]) (auto simp: plannable_def)

lemma keeps_top_bluestein_cost:
  "0 < m \<Longrightarrow> keeps c h (bluestein_cost (cost_for cfg) n m) (\<lambda>_. True) (\<lambda>e. \<not> plannable cfg c)"
  unfolding bluestein_cost_def by (intro keeps_bind [OF keeps_cost_for] keeps_ret) auto

lemma keeps_top_rader_cost:
  "1 < n \<Longrightarrow> keeps c h (rader_cost (cost_for cfg) n) (\<lambda>_. True) (\<lambda>e. \<not> plannable cfg c)"
  unfolding rader_cost_def by (intro keeps_bind [OF keeps_cost_for] keeps_ret) auto

lemma select_candidate_mem:
  assumes "cs \<noteq> []"
  shows "\<exists>cd. select_candidate cs = Inr cd \<and> cd \<in> set cs"
  using assms min_element_mem [of cheaper "hd cs" "tl cs"] by (cases cs) (auto simp: select_candidate_def)

lemma plannable_step_good: "plannable cfg c \<Longrightarrow> step_good cfg c (\<lambda>_. plannable cfg c) n"
  by (auto simp: step_good_def plannable_def smooth_good_def)

lemma plannable_convolutions: "plannable cfg c \<Longrightarrow> convolutions_good cfg c (\<lambda>_. plannable cfg c) n"
  by (auto simp: convolutions_good_def plannable_def smooth_good_def)

lemma keeps_append:
  assumes "keeps c h f (\<lambda>_. True) E" and "shortlist n limit cs" and "room limit cs" and "plan_ok n nd"
  shows "keeps c h (mbind f (\<lambda>cost. mret (append_unique (candidate nd (g cost)) cs))) (shortlist n limit) E"
  using assms by (intro keeps_bind [OF assms(1)] keeps_ret append_unique_shortlist) auto

lemma divisors_okD: "divisors_ok n ds \<Longrightarrow> d \<in> set ds \<Longrightarrow> 0 < d \<and> d dvd n"
  by (simp add: divisors_ok_def)

lemma balanced_divisor_spec:
  assumes "0 < n" and "divisors_ok n ds"
  shows "0 < balanced_divisor n ds \<and> balanced_divisor n ds dvd n"
proof -
  let ?xs = "takeWhile (\<lambda>d. \<not> n div d < d) ds"
  have "last (1 # ?xs) \<in> set (1 # ?xs)" by (rule last_in_set) simp
  moreover have "set ?xs \<subseteq> set ds" by (meson set_takeWhileD subsetI)
  ultimately have "balanced_divisor n ds = 1 \<or> balanced_divisor n ds \<in> set ds"
    unfolding balanced_divisor_def by (auto simp del: last.simps)
  then show ?thesis using divisors_okD [OF assms(2)] by (metis one_dvd zero_less_one)
qed

lemma prod_list_gt1: "fs \<noteq> [] \<Longrightarrow> \<forall>f \<in> set fs. 1 < f \<Longrightarrow> 1 < (prod_list fs :: int)"
proof (induction fs)
  case (Cons f fs)
  then show ?case using mult_strict_mono [of 1 f 1 "prod_list fs"] by (cases "fs = []") auto
qed simp

lemma leaf_length_gt1: "plan_ok n nd \<Longrightarrow> is_leaf nd \<Longrightarrow> 1 < n"
proof -
  assume a: "plan_ok n nd" "is_leaf nd"
  then obtain fs where fs: "fs \<noteq> []" "prod_list fs = n" "\<forall>f \<in> set fs. 1 < f" by (cases nd) (auto simp: is_leaf_def)
  then show ?thesis using prod_list_gt1 by blast
qed

lemma ceil_power_spec: "0 < m \<Longrightarrow> m \<le> ceil_power_of_two m \<and> smooth (ceil_power_of_two m)"
  using ceil_power_of_two_pow2 [of m] smooth_pow2 by metis

lemma keeps_balanced_alternative:
  assumes "1 < n" and "2 * n - 1 \<le> pw" and "smooth pw" and "shortlist n limit cs" and "room limit cs"
  shows "keeps c h (balanced_alternative cfg n pw cs) (shortlist n limit) (\<lambda>e. \<not> plannable cfg c)"
proof -
  have pw: "0 < pw" using assms by simp
  show ?thesis
    unfolding balanced_alternative_def Let_def
  proof (intro keeps_bind [OF keeps_enumerate_divisors [OF pw]])
    fix ds assume "divisors_ok pw ds"
    let ?n1 = "balanced_divisor pw ds"
    have n1: "0 < ?n1" "?n1 dvd pw" using balanced_divisor_spec [OF pw \<open>divisors_ok pw ds\<close>] by auto
    then have n2: "0 < pw div ?n1" "?n1 * (pw div ?n1) = pw" using quotient_dvd [OF pw] by auto
    have node: "plan_ok n (BluesteinPlanNode n pw (FourStepPlanNode pw ?n1 (pw div ?n1) row col))"
      if "1 < ?n1" "1 < pw div ?n1" "plan_ok ?n1 row" "plan_ok (pw div ?n1) col" for row col
      using that assms n2 by simp
    show "keeps c h (mbind (build_auto_node cfg ?n1 False) (\<lambda>row.
        mbind (build_auto_node cfg (pw div ?n1) False) (\<lambda>col.
          if 1 < ?n1 \<and> is_leaf row \<and> is_leaf col then
            mbind (four_step_cost cfg (cost_for cfg) ?n1 (pw div ?n1)) (\<lambda>cost.
              mret (append_unique
                (candidate (BluesteinPlanNode n pw (FourStepPlanNode pw ?n1 (pw div ?n1) row col))
                  (dadd (dmul 3 cost) (dint (n + pw)))) cs))
          else mret cs))) (shortlist n limit) (\<lambda>e. \<not> plannable cfg c)"
      by (intro keeps_bind [OF keeps_build_auto_node] keeps_if keeps_append keeps_top_four_step_cost keeps_ret node n1 n2)
        (use assms n1 smooth_dvd [OF assms(3) n1(2)] leaf_length_gt1 in auto)
  qed
qed

lemma keeps_power_alternative:
  assumes "1 < n" and "shortlist n limit cs" and "room limit cs"
  shows "keeps c h (power_alternative cfg n limit cs) (shortlist n limit) (\<lambda>e. \<not> plannable cfg c)"
proof -
  let ?pw = "ceil_power_of_two (n + (n - 1))"
  have pw: "2 * n - 1 \<le> ?pw" "smooth ?pw" using ceil_power_spec [of "n + (n - 1)"] assms(1) by auto
  then have pos: "0 < ?pw" using assms(1) by simp
  have app: "shortlist n limit (append_unique (candidate (BluesteinPlanNode n ?pw child) cost) cs)"
    if "plan_ok ?pw child" for child cost
    by (rule append_unique_shortlist) (use assms pw that in auto)
  show ?thesis
    unfolding power_alternative_def Let_def
    by (intro keeps_bind [OF keeps_build_auto_node [OF pos]] keeps_bind [OF keeps_top_bluestein_cost [OF pos]]
        keeps_if keeps_balanced_alternative keeps_ret app assms(1) pw) auto
qed

lemma keeps_prime_alternatives:
  assumes "is_prime_length n" and "shortlist n limit cs"
  shows "keeps c h (prime_alternatives cfg tms n limit cs) (shortlist n limit) (\<lambda>e. \<not> plannable cfg c)"
    (is "keeps c h _ _ ?E")
proof -
  have p: "prime_int n" using assms(1) by (simp add: is_prime_length_iff)
  then have n: "1 < n" by (rule prime_intD)
  have bs: "keeps c h (make_bluestein_plan cfg (build_auto_node cfg) (cost_for cfg) n)
      (\<lambda>nd. \<exists>m f. nd = BluesteinPlanNode n m f \<and> plan_ok n nd) ?E"
    by (rule keeps_weaken [OF top.keeps_make_bluestein_plan [OF n]]) (use plannable_convolutions in auto)
  have rd: "keeps c h (make_rader_plan cfg (build_auto_node cfg) n) (plan_ok n) ?E"
    by (rule keeps_weaken [OF top.keeps_make_rader_plan [OF p]]) (auto simp: smooth_good_def)
  have first: "keeps c h (mbind (make_bluestein_plan cfg (build_auto_node cfg) (cost_for cfg) n) (\<lambda>bs.
      mbind (bluestein_cost (cost_for cfg) n (case bs of BluesteinPlanNode _ m _ \<Rightarrow> m | _ \<Rightarrow> 0)) (\<lambda>cost.
        mret (append_unique (candidate bs cost) cs)))) (shortlist n limit) ?E" if "room limit cs" "shortlist n limit cs" for cs
  proof (rule keeps_bind [OF bs])
    fix nd assume "\<exists>m f. nd = BluesteinPlanNode n m f \<and> plan_ok n nd"
    then obtain m f where nd: "nd = BluesteinPlanNode n m f" "plan_ok n nd" by blast
    then show "keeps c h (mbind (bluestein_cost (cost_for cfg) n (case nd of BluesteinPlanNode _ m _ \<Rightarrow> m | _ \<Rightarrow> 0))
        (\<lambda>cost. mret (append_unique (candidate nd cost) cs))) (shortlist n limit) ?E"
      using that n by (intro keeps_append keeps_top_bluestein_cost) auto
  qed
  have second: "keeps c h (mbind (make_rader_plan cfg (build_auto_node cfg) n) (\<lambda>rader.
      mbind (rader_cost (cost_for cfg) n) (\<lambda>cost. mret (append_unique (candidate rader cost) cs))))
      (shortlist n limit) ?E" if "room limit cs" "shortlist n limit cs" for cs
    using that n by (intro keeps_bind [OF rd] keeps_append keeps_top_rader_cost)
  show ?thesis
    unfolding prime_alternatives_def
    by (intro keeps_bind [where R = "shortlist n limit"] keeps_if keeps_ret first second keeps_power_alternative n)
      (use assms in auto)
qed

lemma balance_pairs_spec:
  assumes "divisors_ok n ds" and "p \<in> set (balance_pairs cfg n ds)" and "0 < n"
  shows "\<exists>n1 n2 x. p = (n1, n2, x) \<and> 1 < n1 \<and> 1 < n2 \<and> n1 * n2 = n"
proof -
  obtain n1 x where n1: "n1 \<in> set ds" "1 < n1" "n1 < n" "p = (n1, n div n1, x)"
    using assms(2) by (auto simp: balance_pairs_def)
  then have q: "0 < n div n1" "n1 * (n div n1) = n"
    using quotient_dvd [OF assms(3)] divisors_okD [OF assms(1)] by auto
  with n1 have "n div n1 \<noteq> 1" by auto
  with q n1 show ?thesis by auto
qed

lemma keeps_pair_alternative:
  assumes "1 < n1" and "1 < n2" and "n1 * n2 = n" and "shortlist n limit cs"
  shows "keeps c h (pair_alternative cfg n limit automatic (n1, n2, x) cs) (shortlist n limit) (\<lambda>e. \<not> plannable cfg c)"
proof -
  have split: "keeps c h (split_plan (build_auto_node cfg) n n1 n2) (plan_ok n) (\<lambda>e. \<not> plannable cfg c)"
    by (rule keeps_weaken [OF top.keeps_split_plan]) (use assms in auto)
  show ?thesis
    unfolding pair_alternative_def prod.case
    by (intro keeps_if keeps_ret keeps_bind [OF split] keeps_bind [OF keeps_cost_for] append_unique_shortlist)
      (use assms in auto)
qed

lemma keeps_decomposition_alternatives:
  assumes "0 < n" and "0 < limit"
  shows "keeps c h (decomposition_alternatives cfg tms n limit) (shortlist n limit) (\<lambda>e. \<not> plannable cfg c)"
    (is "keeps c h _ _ ?E")
proof -
  have cands: "keeps c h (build_auto_candidates cfg (build_auto_node cfg) (cost_for cfg) n)
      (\<lambda>cs. candidates_ok n cs \<and> cs \<noteq> []) ?E"
    by (rule keeps_weaken [OF top.keeps_build_auto_candidates [OF assms(1)]]) (use plannable_step_good in auto)
  have sel: "keeps c h (mlift (select_candidate cs)) (\<lambda>cd. plan_ok n (cand_node cd)) ?E"
    if "candidates_ok n cs \<and> cs \<noteq> []" for cs
    using select_candidate_mem [of cs] that by (intro keeps_lift) (auto simp: candidates_ok_def)
  have one: "shortlist n limit [cd]" if "plan_ok n (cand_node cd)" for cd
    using that assms(2) by (simp add: shortlist_def reprs_def)
  have pairs: "keeps c h (mfold (pair_alternative cfg n limit automatic)
      (sort_by pair_before (balance_pairs cfg n ds)) cs) (shortlist n limit) ?E"
    if "divisors_ok n ds" "shortlist n limit cs" for ds cs automatic
  proof (rule keeps_fold, rule that(2))
    fix p a assume "p \<in> set (sort_by pair_before (balance_pairs cfg n ds))" "shortlist n limit a"
    then show "keeps c h (pair_alternative cfg n limit automatic p a) (shortlist n limit) ?E"
      using balance_pairs_spec [OF that(1) _ assms(1), of p cfg] keeps_pair_alternative by auto
  qed
  show ?thesis
    unfolding decomposition_alternatives_def Let_def append_unique_nil
    by (intro keeps_bind [OF cands] keeps_bind [OF sel] keeps_if keeps_prime_alternatives
        keeps_bind [OF keeps_enumerate_divisors [OF assms(1)]] pairs one) auto
qed

text \<open>The experiments a MACA request gets on its own, without a variable set.\<close>

lemma automatic_experiments:
  assumes "maca_tail_plans (cfg_env cfg) n r tuning = Inr ps" and "no_overrides cfg"
  shows "ps = [] \<or> ps = [mtp ''bs2048'' 2048 0] \<or> ps = [mtp ''ct1024x1024'' 1024 1024]"
proof -
  obtain a where a: "maca_tail_automatic_plan (cfg_env cfg) r = Inr a"
    using assms(1) by (auto simp: maca_tail_plans_def split: sum.splits)
  show ?thesis
    using assms maca_tail_automatic_ok [OF a] a
    by (auto simp: maca_tail_plans_def no_overrides_def split: if_splits)
qed

lemma keeps_experiment_cost:
  assumes "plan_ok n nd" and "no_overrides cfg \<Longrightarrow> case nd of FourStepPlanNode _ n1 _ _ _ \<Rightarrow> smooth n1 | _ \<Rightarrow> True"
  shows "keeps c h (experiment_cost cfg n nd) (\<lambda>_. True) (\<lambda>e. \<not> plannable cfg c)"
proof -
  have four: "keeps c h (four_step_cost cfg (cost_for cfg) n1 n2) (\<lambda>_. True) (\<lambda>e. \<not> plannable cfg c)"
    if "1 < n1" "1 < n2" "no_overrides cfg \<Longrightarrow> smooth n1" for n1 n2
    by (rule keeps_weaken [OF top.keeps_four_step_cost]) (use that in \<open>auto simp: plannable_def\<close>)
  show ?thesis
    using assms unfolding experiment_cost_def
    by (cases nd) (auto intro!: keeps_ret four keeps_top_bluestein_cost keeps_top_rader_cost dest: prime_intD)
qed

lemma keeps_conj:
  assumes "keeps c h f Q E" and "keeps c h f Q' E'"
  shows "keeps c h f (\<lambda>x. Q x \<and> Q' x) E"
  using assms unfolding keeps_def by (intro mtripleI) (blast dest: mtriple_resultD mtriple_exnD)+

lemma experiment_node_split:
  assumes "maca_plan_ok n p" and "mtp_name p \<noteq> ''default''"
  shows "keeps c h (build_maca_tail_plan (build_auto_node cfg) n p)
     (\<lambda>nd. case nd of FourStepPlanNode _ n1 _ _ _ \<Rightarrow> n1 = mtp_first p | _ \<Rightarrow> True) (\<lambda>e. True)"
  using assms unfolding build_maca_tail_plan_def split_plan_def maca_plan_ok_def
  by (auto intro!: keeps_bind [where R = "\<lambda>_. True"] keeps_ret keeps_lift keeps_weaken [OF keeps_build_auto_node]
      split: sum.splits dest: zero_less_mult_pos simp: is_prime_length_iff dest!: prime_intD)

lemma keeps_experiment_node:
  assumes "0 < n" and "maca_plan_ok n p" and "no_overrides cfg \<Longrightarrow> mtp_name p \<noteq> ''default'' \<and> smooth (mtp_first p)"
  shows "keeps c h (build_maca_tail_plan (build_auto_node cfg) n p)
     (\<lambda>nd. plan_ok n nd \<and> (no_overrides cfg \<longrightarrow> (case nd of FourStepPlanNode _ n1 _ _ _ \<Rightarrow> smooth n1 | _ \<Rightarrow> True)))
     (\<lambda>e. \<not> plannable cfg c)"
proof (rule keeps_conj)
  show "keeps c h (build_maca_tail_plan (build_auto_node cfg) n p) (plan_ok n) (\<lambda>e. \<not> plannable cfg c)"
    by (rule keeps_weaken [OF top.keeps_maca_tail_plan [OF assms(1,2)]]) (auto simp: always_good_def plannable_def)
  show "keeps c h (build_maca_tail_plan (build_auto_node cfg) n p)
     (\<lambda>nd. no_overrides cfg \<longrightarrow> (case nd of FourStepPlanNode _ n1 _ _ _ \<Rightarrow> smooth n1 | _ \<Rightarrow> True)) (\<lambda>e. True)"
  proof (cases "mtp_name p = ''default''")
    case True
    then show ?thesis
      using assms(3) by (intro keeps_weaken [OF top.keeps_maca_tail_plan [OF assms(1,2)]]) auto
  next
    case False
    then show ?thesis
      using assms(3) by (intro keeps_weaken [OF experiment_node_split [OF assms(2)]]) (auto split: plan_node.splits)
  qed
qed

lemma keeps_experiment_candidates:
  assumes "0 < n" and "\<And>p. p \<in> set ps \<Longrightarrow> maca_plan_ok n p"
    and "\<And>p. no_overrides cfg \<Longrightarrow> p \<in> set ps \<Longrightarrow> mtp_name p \<noteq> ''default'' \<and> smooth (mtp_first p)"
  shows "keeps c h (experiment_candidates cfg n ps) (\<lambda>cs. candidates_ok n cs \<and> length cs = length ps)
           (\<lambda>e. \<not> plannable cfg c)"
proof -
  let ?f = "\<lambda>experiment acc. mbind (build_maca_tail_plan (build_auto_node cfg) n experiment) (\<lambda>node.
       mbind (experiment_cost cfg n node) (\<lambda>cost. mret (acc @ [candidate node cost])))"
  have "keeps c h (mfold ?f ps acc) (\<lambda>cs. candidates_ok n cs \<and> length cs = length acc + length ps) (\<lambda>e. \<not> plannable cfg c)"
    if "candidates_ok n acc" for acc
    using assms(2,3) that
  proof (induction ps arbitrary: acc)
    case Nil
    then show ?case by (simp add: keeps_ret)
  next
    case (Cons p ps)
    have "keeps c h (?f p acc) (\<lambda>acc'. candidates_ok n acc' \<and> length acc' = Suc (length acc)) (\<lambda>e. \<not> plannable cfg c)"
      using Cons.prems
      by (intro keeps_bind [OF keeps_experiment_node [OF assms(1)]] keeps_bind [OF keeps_experiment_cost] keeps_ret) auto
    then show ?case
      unfolding mfold.simps
    proof (rule keeps_bind)
      fix acc' assume "candidates_ok n acc' \<and> length acc' = Suc (length acc)"
      then show "keeps c h (mfold ?f ps acc') (\<lambda>cs. candidates_ok n cs \<and> length cs = length acc + length (p # ps))
          (\<lambda>e. \<not> plannable cfg c)"
        using Cons.IH [of acc'] Cons.prems by simp
    qed
  qed
  from this [of "[]"] show ?thesis by (simp add: experiment_candidates_def)
qed

definition experiments_off :: "plan_cfg \<Rightarrow> int \<Rightarrow> fft_request \<Rightarrow> bool" where
  "experiments_off cfg n r \<longleftrightarrow> maca_tail_plans (cfg_env cfg) n r True = Inr []"

definition decomposition_ok :: "plan_cfg \<Rightarrow> int \<Rightarrow> fft_request \<Rightarrow> int \<Rightarrow> plan_candidate list \<Rightarrow> bool" where
  "decomposition_ok cfg n r limit cs \<longleftrightarrow>
     candidates_ok n cs \<and> cs \<noteq> [] \<and> int (length cs) \<le> limit \<and> (experiments_off cfg n r \<longrightarrow> distinct (reprs cs))"

lemma keeps_decomposition:
  assumes "0 < n" and "0 < limit"
  shows "keeps c h (mbind (mlift (maca_tail_plans (cfg_env cfg) n r True)) (\<lambda>experiments.
                if experiments \<noteq> [] then
                  (if limit < int (length experiments) then
                     runtime_error (''MACA tail comparison requires --max-candidates >= '' @
                       show_int (int (length experiments)))
                   else experiment_candidates cfg n experiments)
                else decomposition_alternatives cfg tms n limit))
     (decomposition_ok cfg n r limit) (\<lambda>e. \<not> plannable cfg c)"
proof -
  let ?plans = "maca_tail_plans (cfg_env cfg) n r True"
  have plans: "keeps c h (mlift ?plans) (\<lambda>ps. ?plans = Inr ps) (\<lambda>e. \<not> plannable cfg c)"
    using maca_tail_plans_no_throw [of cfg n r True]
    by (intro keeps_lift) (auto simp: plannable_def split: sum.splits)
  have auto_ok: "(mtp_name p \<noteq> ''default'' \<and> smooth (mtp_first p)) \<and> length ps = 1"
    if "?plans = Inr ps" "no_overrides cfg" "p \<in> set ps" for ps p
    using automatic_experiments [OF that(1,2)] that(3) smooth_literals by (auto simp: mtp_def)
  show ?thesis
  proof (intro keeps_bind [OF plans] keeps_if keeps_throw)
    fix ps assume ps: "?plans = Inr ps" "ps \<noteq> []"
    then have hd: "hd ps \<in> set ps" by simp
    show "\<not> plannable cfg c" if "limit < int (length ps)"
      using auto_ok [OF ps(1) _ hd] that assms(2) by (auto simp: plannable_def)
    show "keeps c h (experiment_candidates cfg n ps) (decomposition_ok cfg n r limit) (\<lambda>e. \<not> plannable cfg c)"
      if "\<not> limit < int (length ps)"
      by (rule keeps_weaken [OF keeps_experiment_candidates [OF assms(1)]])
        (use ps that maca_tail_plans_ok [OF ps(1)] auto_ok [OF ps(1)] in
          \<open>auto simp: decomposition_ok_def experiments_off_def\<close>)
  next
    fix ps assume "?plans = Inr ps" "\<not> ps \<noteq> []"
    then show "keeps c h (decomposition_alternatives cfg tms n limit) (decomposition_ok cfg n r limit) (\<lambda>e. \<not> plannable cfg c)"
      by (intro keeps_weaken [OF keeps_decomposition_alternatives [OF assms]])
        (auto simp: decomposition_ok_def shortlist_def)
  qed
qed

section \<open>The builder as a state machine\<close>

lemma keeps_cost_for_any: "keeps c h (cost_for cfg n) (\<lambda>_. True) (\<lambda>_. True)"
proof (cases "0 < n")
  case True
  then show ?thesis by (intro keeps_weaken [OF keeps_cost_for]) auto
next
  case False
  have "plan_fuel n = Suc 1" using False by (simp add: plan_fuel_def)
  moreover have "keeps c h (cost_for_body cfg rn rc n) (\<lambda>_. True) (\<lambda>_. True)" for rn rc
    unfolding cost_for_body_def
    by (intro keeps_get keeps_option keeps_ret TrueI keeps_bind [OF keeps_with_heuristic [where Q = "\<lambda>_. False"]])
      (use False in \<open>auto simp: build_auto_candidates_def intro!: keeps_throw\<close>)
  ultimately show ?thesis by (simp add: cost_for_def)
qed

text \<open>
  One call of a public member function: \<open>build\<close>, \<open>cost_for\<close> or
  \<open>build_decomposition_tune_candidates\<close>, for any length and request, in any environment (variables
  may change between calls), returning or throwing.
\<close>

inductive builder_step :: "builder \<Rightarrow> builder \<Rightarrow> bool" where
  step_build: "build cfg n r b = (res, b') \<Longrightarrow> builder_step b b'"
| step_cost: "cost_for_request cfg n r b = (res, b') \<Longrightarrow> builder_step b b'"
| step_decompose: "build_decomposition_tune_candidates cfg n r limit b = (res, b') \<Longrightarrow> builder_step b b'"

inductive builder_reachable :: "builder \<Rightarrow> bool" where
  reach_new: "builder_reachable new_builder"
| reach_step: "builder_reachable b \<Longrightarrow> builder_step b b' \<Longrightarrow> builder_reachable b'"

inductive_cases builder_stepE: "builder_step b b'"

lemma steady_build: "caches_ok b \<Longrightarrow> steady (\<lambda>nd. 0 < n \<and> plan_ok n nd) b (build cfg n r b)"
  unfolding build_def
  by (rule steady_entry, intro keeps_if keeps_throw keeps_weaken [OF top.keeps_build_from]) auto

lemma steady_cost: "caches_ok b \<Longrightarrow> steady (\<lambda>_. True) b (cost_for_request cfg n r b)"
  unfolding cost_for_request_def by (rule steady_entry [OF keeps_cost_for_any])

lemma steady_decomposition:
  assumes "caches_ok b"
  shows "steady (\<lambda>cs. 0 < n \<and> 0 < limit \<and> decomposition_ok cfg n r limit cs) b
           (build_decomposition_tune_candidates cfg n r limit b)"
proof (cases "0 < n \<and> 0 < limit \<and> \<not> (req_device_type r = ''maca'' \<and> req_batch r = 1 \<and> 2 ^ 61 < n)")
  case True
  have "steady (\<lambda>cs. decomposition_ok cfg n r limit cs) b (build_decomposition_tune_candidates cfg n r limit b)"
    unfolding build_decomposition_tune_candidates_def Let_def
    using True assms by (auto intro!: steady_entry keeps_decomposition)
  with True show ?thesis by (simp add: steady_def)
next
  case False
  then have "\<exists>e. build_decomposition_tune_candidates cfg n r limit b = (Inl e, b)"
    by (auto simp: build_decomposition_tune_candidates_def Let_def mthrow_def)
  with assms show ?thesis by (auto simp: steady_def)
qed

lemma builder_step_steady:
  "builder_step b b' \<Longrightarrow> caches_ok b \<Longrightarrow>
   caches_ok b' \<and> b_parallel_leaf_heuristic_enabled b' = b_parallel_leaf_heuristic_enabled b"
proof (erule builder_stepE)
  show "build cfg n r b = (res, b') \<Longrightarrow> caches_ok b \<Longrightarrow> ?thesis" for cfg n r res
    using steady_build [of b n cfg r] by (simp add: steady_def)
  show "cost_for_request cfg n r b = (res, b') \<Longrightarrow> caches_ok b \<Longrightarrow> ?thesis" for cfg n r res
    using steady_cost [of b cfg n r] by (simp add: steady_def)
  show "build_decomposition_tune_candidates cfg n r limit b = (res, b') \<Longrightarrow> caches_ok b \<Longrightarrow> ?thesis" for cfg n r limit res
    using steady_decomposition [of b n limit cfg r] by (simp add: steady_def)
qed

lemma reachable_inv: "builder_reachable b \<Longrightarrow> caches_ok b \<and> \<not> b_parallel_leaf_heuristic_enabled b"
  by (induction rule: builder_reachable.induct) (auto simp: builder_step_steady new_builder_def [symmetric], auto simp: new_builder_def)

section \<open>Properties\<close>



text \<open>
  C14. The decomposition alternatives offered to the tuner: the list is never empty and never
  longer than the limit, every entry is a plan for the length, and outside the MACA experiment
  matrix no two entries have the same plan key. With no override variable set the call returns,
  from every state a builder can be in.
\<close>

theorem decomposition_candidates_ok:
  assumes "builder_reachable b" and "0 < n" and "0 < limit" and "no_overrides cfg"
    and "req_device_type r = ''maca'' \<longrightarrow> req_batch r = 1 \<longrightarrow> n \<le> 2 ^ 61"
    and "req_device_type r = ''npu'' \<longrightarrow> cfg_backend_name cfg = ''npu'' \<longrightarrow>
           1024 \<le> cfg_max_dynamic_smem_bytes cfg (req_device_index r)"
  shows "\<exists>cs b'. build_decomposition_tune_candidates cfg n r limit b = (Inr cs, b') \<and>
     list_all (\<lambda>cd. plan_ok n (cand_node cd)) cs \<and> cs \<noteq> [] \<and> int (length cs) \<le> limit \<and>
     (maca_tail_plans (cfg_env cfg) n r True = Inr [] \<longrightarrow> distinct (map (\<lambda>cd. node_repr (cand_node cd)) cs))"
proof -
  obtain c where c: "make_request_context cfg r = Inr c" using make_request_context_no_throw [OF assms(4)] ..
  have pl: "plannable cfg c"
    using make_request_context_fields [OF c] assms(4,6) by (auto simp: plannable_def kDynamicSmemFallbackBytes_def)
  let ?h = "b_parallel_leaf_heuristic_enabled b" and ?tms = "req_device_type r = ''maca'' \<and> req_batch r = 1"
  have "mtriple (\<lambda>x. caches_ok x \<and> b_parallel_leaf_heuristic_enabled x = ?h)
      (build_decomposition_tune_candidates cfg n r limit)
      (\<lambda>cs s. builder_inv c ?h s \<and> decomposition_ok cfg n r limit cs) (\<lambda>e s. builder_inv c ?h s \<and> \<not> plannable cfg c)"
    using assms(2,3,5) keeps_decomposition [OF assms(2,3), of c ?h cfg r ?tms]
    unfolding build_decomposition_tune_candidates_def Let_def keeps_def
    by (auto intro!: mtriple_bind [OF mtriple_set_request_context [OF c]])
  moreover obtain res b' where "build_decomposition_tune_candidates cfg n r limit b = (res, b')" by fastforce
  ultimately show ?thesis
    using reachable_inv [OF assms(1)] pl
    by (cases res) (auto simp: decomposition_ok_def experiments_off_def candidates_ok_def reprs_def list_all_iff
        dest: mtriple_resultD mtriple_exnD)
qed

theorem decomposition_candidates_ok_witness:
  "\<exists>cs b'. build_decomposition_tune_candidates example_cfg 1009 (default_request\<lparr>req_device_type := ''maca''\<rparr>) 4 new_builder =
       (Inr cs, b') \<and> list_all (\<lambda>cd. plan_ok 1009 (cand_node cd)) cs \<and> cs \<noteq> [] \<and> int (length cs) \<le> 4"
proof -
  have "no_overrides example_cfg" by (simp add: no_overrides_def example_cfg_def)
  from decomposition_candidates_ok [OF reach_new _ _ this, of 1009 4 "default_request\<lparr>req_device_type := ''maca''\<rparr>"]
  show ?thesis by (auto simp: example_cfg_def)
qed

text \<open>
  C30. Selection: the automatic choice is one of the candidates, no candidate is cheaper, and among
  the candidates of the same cost none has a smaller priority (leaves before four-step splits
  before the rest). An empty list is the only error.
\<close>

theorem select_candidate_least:
  "case select_candidate cs of
     Inl e \<Rightarrow> cs = []
   | Inr cd \<Rightarrow> cd \<in> set cs \<and>
       list_all (\<lambda>x. cand_cost cd < cand_cost x \<or> (cand_cost cd = cand_cost x \<and> cand_priority cd \<le> cand_priority x)) cs"
proof (cases cs)
  case (Cons cd cds)
  have least: "\<not> cheaper x (min_element cheaper cd cds)" if "x \<in> insert cd (set cds)" for x
    by (rule min_element_least [OF _ _ _ that]) (auto simp: cheaper_def split: if_splits)
  let ?m = "min_element cheaper cd cds"
  have "cand_cost ?m < cand_cost x \<or> (cand_cost ?m = cand_cost x \<and> cand_priority ?m \<le> cand_priority x)"
    if "x \<in> set cs" for x using least [of x] that Cons by (auto simp: cheaper_def split: if_splits)
  then show ?thesis
    using Cons min_element_mem [of cheaper cd cds] by (auto simp: select_candidate_def list_all_iff)
qed (simp add: select_candidate_def)

text \<open>
  C27. The enumeration of radix sequences is exact: for a positive length the list holds, without
  repetition and in lexicographic order, precisely the non-empty sequences of supported radices
  with that product, whatever earlier calls left in the factorization cache.
\<close>

theorem enumerate_factorizations_exact:
  assumes "builder_reachable b" and "0 < n"
  shows "\<exists>L b'. enumerate_supported_factorizations n b = (Inr L, b') \<and> sorted L \<and> distinct L \<and>
     set L = {fs. fs \<noteq> [] \<and> set fs \<subseteq> set kSupportedRadices \<and> prod_list fs = n}"
  using enumerate_spec(1) [OF assms(2), of "b_factorization_cache b"] reachable_inv [OF assms(1)]
  by (auto simp: enumerate_supported_factorizations_def caches_ok_def radix_list_def split: prod.splits)

theorem enumerate_factorizations_exact_witness:
  "\<exists>L b'. enumerate_supported_factorizations 64 new_builder = (Inr L, b') \<and> [8, 8] \<in> set L \<and> [32, 2] \<in> set L"
  using enumerate_factorizations_exact [OF reach_new, of 64] by (auto simp: kSupportedRadices_def)

text \<open>
  C28. The greedy factorization succeeds exactly on the lengths it should: for a positive length the
  factors are supported radices, factors and remainder multiply to the length, and the remainder is
  one if and only if no prime factor exceeds 19.
\<close>

theorem factorize_supported_exact:
  assumes "0 < n"
  shows "\<exists>fz. factorize_supported_radices n = Inr fz \<and> set (fz_factors fz) \<subseteq> set kSupportedRadices \<and>
     prod_list (fz_factors fz) * fz_remainder fz = n \<and>
     (fz_remainder fz = 1 \<longleftrightarrow> (\<forall>q. prime_int q \<and> q dvd n \<longrightarrow> q \<le> 19))"
  using assms by (rule factorize_supported_spec) (auto simp: smooth_def assms)

theorem factorize_supported_exact_witness:
  "\<exists>fz. factorize_supported_radices 92378 = Inr fz \<and> prod_list (fz_factors fz) * fz_remainder fz = 92378"
  using factorize_supported_exact [of 92378] by auto

text \<open>
  C29. \<open>enumerate_divisors\<close> returns the positive divisors of a positive length in ascending order
  without repetition, cached or not; the square-root loop neither misses a divisor nor lists the
  root of a square twice.
\<close>

theorem enumerate_divisors_exact:
  assumes "builder_reachable b" and "0 < n"
  shows "\<exists>ds b'. enumerate_divisors n b = (Inr ds, b') \<and> set ds = {d. 0 < d \<and> d dvd n} \<and> sorted ds \<and> distinct ds"
proof -
  have "caches_ok b" using reachable_inv [OF assms(1)] by simp
  then show ?thesis
    using divisors_complete [OF assms(2)] assms(2)
    by (auto simp: enumerate_divisors_def mbind_def mget_def mret_def mmodify_def divisors_ok_def caches_ok_def Let_def
        split: option.splits)
qed

theorem enumerate_divisors_exact_witness:
  "\<exists>ds b'. enumerate_divisors 36 new_builder = (Inr ds, b') \<and> 6 \<in> set ds \<and> 12 \<in> set ds \<and> 5 \<notin> set ds"
  using enumerate_divisors_exact [OF reach_new, of 36] by fastforce

text \<open>
  C31. Launch shape of a leaf: the lane count lies between 1 and 256 and divides the length of the
  stage of every factor, so each stage's work splits evenly, and the warp count is 1, 2, 4 or 8.
\<close>

theorem leaf_launch_shape:
  assumes "fs \<noteq> []" and "prod_list fs = n" and "list_all (\<lambda>f. 1 < f) fs"
  shows "1 \<le> choose_lanes b n fs \<and> choose_lanes b n fs \<le> 256 \<and>
     list_all (\<lambda>f. choose_lanes b n fs dvd n div f) fs \<and> choose_num_warps b (choose_lanes b n fs) \<in> {1, 2, 4, 8}"
proof -
  have pos: "0 < n" using prod_list_gt1 [OF assms(1)] assms(2,3) by (simp add: list_all_iff)
  have "0 < f \<and> f dvd n" if "f \<in> set fs" for f
    using that assms member_dvd_prod_list [of f fs] by (force simp: list_all_iff)
  from choose_lanes_spec [OF assms(1) this pos] show ?thesis
    using choose_num_warps_values by (auto simp: list_all_iff)
qed

theorem leaf_launch_shape_witness:
  "1 \<le> choose_lanes new_builder 4096 [16, 16, 16] \<and> choose_lanes new_builder 4096 [16, 16, 16] dvd 256"
  using leaf_launch_shape [of "[16, 16, 16]" 4096 new_builder] by auto

text \<open>
  C32. The measured leaf orders chosen per device, and the ones requested through environment
  variables, are always factorizations of the length they are used for; a malformed request is an
  error, never a wrong factorization.
\<close>

theorem leaf_override_factors:
  assumes "leaf_override env c n = Inr (Some fs)"
  shows "fs \<noteq> [] \<and> set fs \<subseteq> set kSupportedRadices \<and> prod_list fs = n"
  using leaf_override_sound [OF assms] by (simp add: radix_list_def)

definition example_ctx :: request_ctx where
  "example_ctx = \<lparr>ctx_input_dtype = ''complex64'', ctx_output_dtype = ''complex64'', ctx_real_transform_kind = '''',
     ctx_origin_real_transform_kind = '''', ctx_device_type = ''hcu'', ctx_device_index = 0, ctx_device_arch = '''',
     ctx_origin_rank = 3, ctx_requested_n = 256, ctx_batch = 1, ctx_maca_3d_c2c32_single_cube = False,
     ctx_ix_short_single = False, ctx_ix_ct_batch = False, ctx_max_dynamic_smem_bytes = 65536\<rparr>"

theorem leaf_override_factors_witness:
  "leaf_override [''FLAGFFT_HCU_3D_256_FACTORS'' \<mapsto> ''8,8,4''] example_ctx 256 = Inr (Some [8, 8, 4]) \<and>
   prod_list [8, 8, 4 :: int] = 256"
proof -
  have h: "leaf_override [''FLAGFFT_HCU_3D_256_FACTORS'' \<mapsto> ''8,8,4''] example_ctx 256 = Inr (Some [8, 8, 4])"
    by (simp add: leaf_override_def hcu_256_override_def example_ctx_def del: fun_upd_apply add: fun_upd_same)
  with leaf_override_factors [OF h] show ?thesis by simp
qed

end
