(* ===== verification/FFT_PlanJson.thy ===== *)
theory FFT_PlanJson
  imports FFT_Keys FFT_Builder
begin

text \<open>
  Plans as JSON (\<open>utils/plan_json.cpp\<close>, \<open>plan/plan_deserialize.cpp\<close>) and the lookup of tuned plans
  (\<open>utils/plan_json.cpp\<close>, \<open>exec/tuned_plan.cpp\<close>).

  The JSON values are those of a third-party library: \<open>json_ops\<close> collects the operations the code
  calls, \<open>json_lib_ok\<close> what their documentation promises. The database query and the file system are
  parameters as well (\<open>tuned_io\<close>). The recursion of \<open>plan_node_from_json\<close> follows the nesting of the
  value it reads, so its fuel is the nesting depth.
\<close>

section \<open>The JSON library\<close>

record 'j json_ops =
  j_object :: "(string \<times> 'j) list \<Rightarrow> 'j"
  j_null :: 'j
  j_bool :: "bool \<Rightarrow> 'j"
  j_int :: "int \<Rightarrow> 'j"
  j_uint64 :: "64 word \<Rightarrow> 'j"
  j_string :: "string \<Rightarrow> 'j"
  j_ints :: "int list \<Rightarrow> 'j"
  j_strings :: "string list \<Rightarrow> 'j"
  j_at :: "'j \<Rightarrow> string \<Rightarrow> exn + 'j"
  j_contains :: "'j \<Rightarrow> string \<Rightarrow> bool"
  j_get_int64 :: "'j \<Rightarrow> exn + int"
  j_get_int :: "'j \<Rightarrow> exn + int"
  j_get_string :: "'j \<Rightarrow> exn + string"
  j_get_ints :: "'j \<Rightarrow> exn + int list"
  j_parse :: "string \<Rightarrow> exn + 'j"
  j_depth :: "'j \<Rightarrow> nat"

definition fits64 :: "int \<Rightarrow> bool" where
  "fits64 i \<longleftrightarrow> - (2 ^ 63) \<le> i \<and> i < 2 ^ 63"

definition fits32 :: "int \<Rightarrow> bool" where
  "fits32 i \<longleftrightarrow> - (2 ^ 31) \<le> i \<and> i < 2 ^ 31"

text \<open>
  The documented behaviour the code relies on: a member that was assigned is found again and a
  missing one is an exception, a number or text reads back as itself, reading never fails to
  return, and a member is nested less deeply than its object.
\<close>

definition json_lib_ok :: "'j json_ops \<Rightarrow> bool" where
  "json_lib_ok J \<longleftrightarrow>
     (\<forall>kvs k v. distinct (map fst kvs) \<and> map_of kvs k = Some v \<longrightarrow>
        j_at J (j_object J kvs) k = Inr v \<and> j_contains J (j_object J kvs) k) \<and>
     (\<forall>i. fits64 i \<longrightarrow> j_get_int64 J (j_int J i) = Inr i) \<and>
     (\<forall>i. fits32 i \<longrightarrow> j_get_int J (j_int J i) = Inr i) \<and>
     (\<forall>s. j_get_string J (j_string J s) = Inr s) \<and>
     (\<forall>xs. list_all fits64 xs \<longrightarrow> j_get_ints J (j_ints J xs) = Inr xs) \<and>
     (\<forall>j k v. j_at J j k = Inr v \<longrightarrow> j_depth J v < j_depth J j) \<and>
     (\<forall>j k. j_at J j k \<noteq> Inl OutOfFuel) \<and> (\<forall>j. j_get_int64 J j \<noteq> Inl OutOfFuel) \<and>
     (\<forall>j. j_get_int J j \<noteq> Inl OutOfFuel) \<and> (\<forall>j. j_get_string J j \<noteq> Inl OutOfFuel) \<and>
     (\<forall>j. j_get_ints J j \<noteq> Inl OutOfFuel)"

section \<open>Writing\<close>

fun plan_node_to_json :: "'j json_ops \<Rightarrow> plan_node \<Rightarrow> 'j" where
  "plan_node_to_json J (LeafPlanNode n factors rm lanes warps generic smem) =
     j_object J [(''kind'', j_string J (plan_node_kind_name CtLeaf)), (''length'', j_int J n),
       (''factors'', j_ints J factors), (''remainder'', j_int J rm), (''lanes'', j_int J lanes),
       (''num_warps'', j_int J warps), (''generic_radices'', j_ints J generic), (''smem_size'', j_int J smem)]"
| "plan_node_to_json J (DirectDFTPlanNode n) =
     j_object J [(''kind'', j_string J (plan_node_kind_name DirectDft)), (''length'', j_int J n),
       (''impl'', j_string J ''torch_matmul'')]"
| "plan_node_to_json J (StockhamPlanNode n factors) =
     j_object J [(''kind'', j_string J (plan_node_kind_name StockhamAutosort)), (''length'', j_int J n),
       (''factors'', j_ints J factors), (''stages'', j_ints J [])]"
| "plan_node_to_json J (FourStepPlanNode n n1 n2 row col) =
     j_object J [(''kind'', j_string J (plan_node_kind_name FourStep)), (''length'', j_int J n),
       (''n1'', j_int J n1), (''n2'', j_int J n2), (''row'', plan_node_to_json J row),
       (''col'', plan_node_to_json J col)]"
| "plan_node_to_json J (BluesteinPlanNode n conv_length fft_plan) =
     j_object J [(''kind'', j_string J (plan_node_kind_name Bluestein)), (''length'', j_int J n),
       (''conv_length'', j_int J conv_length), (''fft_plan'', plan_node_to_json J fft_plan)]"
| "plan_node_to_json J (RaderPlanNode prime g idx conv_plan) =
     j_object J [(''kind'', j_string J (plan_node_kind_name Rader)), (''length'', j_int J prime),
       (''prime'', j_int J prime), (''root'', j_int J g), (''idx'', j_ints J idx),
       (''conv_length'', j_int J (prime - 1)), (''conv_plan'', plan_node_to_json J conv_plan)]"
| "plan_node_to_json J (TwoDimPlanNode n0 n1 strategy row col) =
     j_object J [(''kind'', j_string J (plan_node_kind_name TwoDim)), (''length'', j_int J (n0 * n1)),
       (''n0'', j_int J n0), (''n1'', j_int J n1), (''strategy'', j_string J (two_dim_strategy_name strategy)),
       (''row'', plan_node_to_json J row), (''col'', plan_node_to_json J col)]"
| "plan_node_to_json J (ThreeDimPlanNode n0 n1 n2 strategy p2 p1 p0) =
     j_object J [(''kind'', j_string J (plan_node_kind_name ThreeDim)), (''length'', j_int J (n0 * n1 * n2)),
       (''n0'', j_int J n0), (''n1'', j_int J n1), (''n2'', j_int J n2),
       (''strategy'', j_string J (three_dim_strategy_name strategy)),
       (''n2_plan'', plan_node_to_json J p2), (''n1_plan'', plan_node_to_json J p1),
       (''n0_plan'', plan_node_to_json J p0)]"

definition j_option :: "'j json_ops \<Rightarrow> int option \<Rightarrow> 'j" where
  "j_option J n = (case n of Some i \<Rightarrow> j_int J i | None \<Rightarrow> j_null J)"

definition request_to_json :: "'j json_ops \<Rightarrow> fft_request \<Rightarrow> 'j" where
  "request_to_json J r =
     j_object J [(''op'', j_string J (if req_direction r = ''inverse'' then ''ifft'' else ''fft'')),
       (''length'', j_int J (req_fft_length r)), (''input_shape'', j_ints J (req_input_shape r)),
       (''n'', j_option J (req_n r)), (''requested_n'', j_int J (req_requested_n r)),
       (''dim'', j_int J (req_normalized_dim r)), (''raw_dim'', j_int J (req_raw_dim r)),
       (''norm'', j_string J (req_norm r)), (''input_dtype'', j_string J (req_input_dtype r)),
       (''dtype'', j_string J (req_input_dtype r)), (''output_dtype'', j_string J (req_output_dtype r)),
       (''device'', j_string J (req_device_type r)), (''device_type'', j_string J (req_device_type r)),
       (''device_index'', j_int J (req_device_index r)), (''device_arch'', j_string J (req_device_arch r)),
       (''input_strides'', j_ints J (req_input_strides r)), (''input_layout'', j_string J (req_input_layout r)),
       (''requires_contiguous_copy'', j_bool J (req_requires_contiguous_copy r)),
       (''direction'', j_string J (req_direction r)), (''batch'', j_int J (req_batch r)),
       (''output_order'', j_string J ''natural'')]"

definition plan_key_to_json :: "'j json_ops \<Rightarrow> std_hashes \<Rightarrow> plan_key \<Rightarrow> 'j" where
  "plan_key_to_json J h key =
     j_object J [(''repr'', j_string J (plan_key_repr key)), (''schema_version'', j_int J (pkey_schema_version key)),
       (''kind'', j_string J (plan_node_kind_name (pkey_root_kind key))), (''length'', j_int J (pkey_length key)),
       (''factors'', j_ints J (pkey_factors key)), (''remainder'', j_int J (pkey_remainder key)),
       (''lanes'', j_int J (pkey_lanes key)), (''num_warps'', j_int J (pkey_num_warps key)),
       (''generic_radices'', j_ints J (pkey_generic_radices key)), (''smem_size'', j_int J (pkey_smem_size key)),
       (''n1'', j_int J (pkey_n1 key)), (''n2'', j_int J (pkey_n2 key)),
       (''conv_length'', j_int J (pkey_conv_length key)), (''root'', j_int J (pkey_root key)),
       (''child_keys'', j_strings J (pkey_child_keys key)), (''hash'', j_uint64 J (plan_key_hash h key))]"

definition problem_key_to_json :: "'j json_ops \<Rightarrow> std_hashes \<Rightarrow> problem_key \<Rightarrow> 'j" where
  "problem_key_to_json J h key =
     j_object J [(''repr'', j_string J (problem_key_repr key)), (''fft_length'', j_int J (prob_fft_length key)),
       (''input_shape'', j_ints J (prob_input_shape key)), (''n'', j_option J (prob_n key)),
       (''requested_n'', j_int J (prob_requested_n key)), (''dim'', j_int J (prob_normalized_dim key)),
       (''norm'', j_string J (prob_norm key)), (''input_dtype'', j_string J (prob_input_dtype key)),
       (''output_dtype'', j_string J (prob_output_dtype key)), (''device_type'', j_string J (prob_device_type key)),
       (''device_index'', j_int J (prob_device_index key)), (''device_arch'', j_string J (prob_device_arch key)),
       (''input_strides'', j_ints J (prob_input_strides key)), (''input_layout'', j_string J (prob_input_layout key)),
       (''requires_contiguous_copy'', j_bool J (prob_requires_contiguous_copy key)),
       (''maca_3d_c2c32_single_cube'', j_bool J (prob_maca_3d_c2c32_single_cube key)),
       (''direction'', j_string J (prob_direction key)), (''hash'', j_uint64 J (problem_key_hash h key))]"

definition kernel_key_to_json :: "'j json_ops \<Rightarrow> std_hashes \<Rightarrow> kernel_key \<Rightarrow> 'j" where
  "kernel_key_to_json J h key =
     j_object J [(''repr'', j_string J (kernel_key_repr key)), (''kind'', j_string J (kernel_kind_name (kk_kind key))),
       (''target'', j_string J (kk_target key)), (''direction'', j_string J (kk_direction key)),
       (''length'', j_int J (kk_length key)), (''factors'', j_ints J (kk_factors key)),
       (''lanes'', j_int J (kk_lanes key)), (''num_warps'', j_int J (kk_num_warps key)),
       (''generic_radices'', j_ints J (kk_generic_radices key)), (''smem_size'', j_int J (kk_smem_size key)),
       (''four_step_n1'', j_int J (kk_four_step_n1 key)), (''four_step_n2'', j_int J (kk_four_step_n2 key)),
       (''bluestein_n'', j_int J (kk_bluestein_n key)), (''bluestein_m'', j_int J (kk_bluestein_m key)),
       (''rader_n'', j_int J (kk_rader_n key)), (''rader_m'', j_int J (kk_rader_m key)),
       (''hash'', j_uint64 J (kernel_key_hash h key))]"

definition wrap_plan_json :: "'j json_ops \<Rightarrow> std_hashes \<Rightarrow> plan_node \<Rightarrow> fft_request \<Rightarrow> string \<Rightarrow> 'j" where
  "wrap_plan_json J h root_node r source =
     j_object J [(''schema_version'', j_int J kPlanSchemaVersion), (''source'', j_string J source),
       (''request'', request_to_json J r), (''plan_key'', plan_key_to_json J h (key_of_node root_node)),
       (''tags'', j_object J []), (''root'', plan_node_to_json J root_node)]"

section \<open>Reading\<close>

definition ebind :: "exn + 'a \<Rightarrow> ('a \<Rightarrow> exn + 'b) \<Rightarrow> exn + 'b" where
  "ebind r f = (case r of Inl e \<Rightarrow> Inl e | Inr x \<Rightarrow> f x)"

lemma ebind_simps [simp]: "ebind (Inl e) f = Inl e" "ebind (Inr x) f = f x"
  by (simp_all add: ebind_def)

definition int64_member :: "'j json_ops \<Rightarrow> 'j \<Rightarrow> string \<Rightarrow> exn + int" where
  "int64_member J node k = ebind (j_at J node k) (j_get_int64 J)"

definition ints_member :: "'j json_ops \<Rightarrow> 'j \<Rightarrow> string \<Rightarrow> exn + int list" where
  "ints_member J node k = ebind (j_at J node k) (j_get_ints J)"

text \<open>\<open>node.value("remainder", 1)\<close>: the default is an \<open>int\<close>, so the member is read as one.\<close>

definition leaf_from_json :: "'j json_ops \<Rightarrow> builder \<Rightarrow> int \<Rightarrow> 'j \<Rightarrow> exn + plan_node" where
  "leaf_from_json J b len node =
     ebind (ints_member J node ''factors'') (\<lambda>factors.
     ebind (if j_contains J node ''remainder'' then ebind (j_at J node ''remainder'') (j_get_int J) else Inr 1) (\<lambda>rm.
     ebind (if j_contains J node ''lanes'' then int64_member J node ''lanes''
            else Inr (choose_lanes b len factors)) (\<lambda>lanes.
     ebind (if j_contains J node ''num_warps'' then int64_member J node ''num_warps''
            else Inr (choose_num_warps b lanes)) (\<lambda>num_warps.
     ebind (if j_contains J node ''generic_radices'' then ints_member J node ''generic_radices''
            else Inr (sort (foldl (\<lambda>acc radix.
              if generic_radix radix \<and> radix \<notin> set acc then acc @ [radix] else acc) [] factors))) (\<lambda>generic.
     ebind (if j_contains J node ''smem_size'' then int64_member J node ''smem_size''
            else Inr (if length factors \<le> 1 then 0 else ceil_power_of_two len)) (\<lambda>smem.
       Inr (LeafPlanNode len factors rm lanes num_warps generic smem)))))))"

fun node_from_json_fuel :: "'j json_ops \<Rightarrow> builder \<Rightarrow> nat \<Rightarrow> 'j \<Rightarrow> exn + plan_node" where
  "node_from_json_fuel J b 0 node = Inl OutOfFuel"
| "node_from_json_fuel J b (Suc k) node =
     (let child = (\<lambda>name. ebind (j_at J node name) (node_from_json_fuel J b k))
      in ebind (ebind (j_at J node ''kind'') (j_get_string J)) (\<lambda>kind.
         ebind (int64_member J node ''length'') (\<lambda>len.
           if kind = ''ct_leaf'' then leaf_from_json J b len node
           else if kind = ''four_step'' then
             ebind (int64_member J node ''n1'') (\<lambda>n1. ebind (int64_member J node ''n2'') (\<lambda>n2.
             ebind (child ''row'') (\<lambda>row. ebind (child ''col'') (\<lambda>col.
               Inr (FourStepPlanNode len n1 n2 row col)))))
           else if kind = ''bluestein'' then
             ebind (int64_member J node ''conv_length'') (\<lambda>conv_length.
             ebind (child ''fft_plan'') (\<lambda>fft_plan. Inr (BluesteinPlanNode len conv_length fft_plan)))
           else if kind = ''rader'' then
             ebind (int64_member J node ''root'') (\<lambda>g. ebind (ints_member J node ''idx'') (\<lambda>idx.
             ebind (child ''conv_plan'') (\<lambda>conv_plan. Inr (RaderPlanNode len g idx conv_plan))))
           else if kind = ''direct_dft'' then Inr (DirectDFTPlanNode len)
           else if kind = ''stockham_autosort'' then
             ebind (ints_member J node ''factors'') (\<lambda>factors. Inr (StockhamPlanNode len factors))
           else if kind = ''two_dim'' then
             ebind (int64_member J node ''n0'') (\<lambda>n0. ebind (int64_member J node ''n1'') (\<lambda>n1.
             ebind (child ''row'') (\<lambda>row. ebind (child ''col'') (\<lambda>col.
               Inr (TwoDimPlanNode n0 n1 TwoDim_RTRT row col)))))
           else if kind = ''three_dim'' then
             ebind (int64_member J node ''n0'') (\<lambda>n0. ebind (int64_member J node ''n1'') (\<lambda>n1.
             ebind (int64_member J node ''n2'') (\<lambda>n2.
             ebind (child ''n2_plan'') (\<lambda>p2. ebind (child ''n1_plan'') (\<lambda>p1. ebind (child ''n0_plan'') (\<lambda>p0.
               Inr (ThreeDimPlanNode n0 n1 n2 ThreeDim_RTRT p2 p1 p0)))))))
           else Inl (StdException (''unsupported plan node kind in forced plan: '' @ kind)))))"

definition plan_node_from_json :: "'j json_ops \<Rightarrow> builder \<Rightarrow> 'j \<Rightarrow> exn + plan_node" where
  "plan_node_from_json J b node = node_from_json_fuel J b (Suc (j_depth J node)) node"

section \<open>Tuned plans\<close>

record TuneFingerprints =
  fp_planner :: string
  fp_codegen :: string
  fp_runtime :: string
  fp_benchmark :: string

definition tune_fingerprints :: "plan_cfg \<Rightarrow> TuneFingerprints" where
  "tune_fingerprints cfg =
     (let default_policy = (if cfg_backend_name cfg = ''ix'' then ''balanced''
            else if cfg_backend_name cfg = ''hcu'' then ''native'' else ''legacy'');
          policy = (case cfg_env cfg ''FLAGFFT_EXECUTION_POLICY'' of Some p \<Rightarrow> p | None \<Rightarrow> default_policy)
      in if cfg_backend_name cfg = ''maca'' then
           \<lparr>fp_planner = ''planner-schema-5-maca-warp64-min2'',
            fp_codegen = ''codegen-schema-6-maca-register-exchange-min2'',
            fp_runtime = ''runtime-schema-6-maca-native-dispatch'', fp_benchmark = ''benchmark-schema-2-api-dispatch''\<rparr>
         else
           \<lparr>fp_planner = ''planner-schema-3-exact-batch-candidates'',
            fp_codegen = ''codegen-schema-5-hardware-profile-'' @ policy,
            fp_runtime = ''runtime-schema-5-rader-dc-reuse'', fp_benchmark = ''benchmark-schema-2-api-dispatch''\<rparr>)"

definition batch_bucket :: "int \<Rightarrow> string" where
  "batch_bucket batch = (if batch \<le> 1 then ''1'' else ''exact:'' @ show_int batch)"

definition lower_char :: "char \<Rightarrow> char" where
  "lower_char ch = (if 65 \<le> (of_char ch :: nat) \<and> (of_char ch :: nat) \<le> 90 then char_of (of_char ch + 32 :: nat) else ch)"

definition env_flag_enabled :: "string option \<Rightarrow> bool" where
  "env_flag_enabled v =
     (case v of
        None \<Rightarrow> False
      | Some raw \<Rightarrow> let normalized = map lower_char raw in
          \<not> (normalized = '''' \<or> normalized = ''0'' \<or> normalized = ''false'' \<or> normalized = ''off'' \<or> normalized = ''no''))"

text \<open>The outside world of a lookup: the database of the default cache directory, the file test and the prepared query (its first row).\<close>

record tuned_io =
  io_default_db :: string
  io_is_regular_file :: "string \<Rightarrow> bool"
  io_select :: "string \<Rightarrow> (int + string) list \<Rightarrow> exn + string option"

definition tuned_db_path :: "env \<Rightarrow> tuned_io \<Rightarrow> string option" where
  "tuned_db_path env io =
     (if env_flag_enabled (env ''FLAGFFT_TUNE_DISABLE'') then None
      else case env ''FLAGFFT_TUNE_DB'' of
             Some path \<Rightarrow> if path \<noteq> '''' then Some path
               else Some (io_default_db io)
           | None \<Rightarrow> Some (io_default_db io))"

definition tuned_bindings :: "plan_cfg \<Rightarrow> fft_request \<Rightarrow> (int + string) list" where
  "tuned_bindings cfg r =
     (let fps = tune_fingerprints cfg
      in [Inl kPlanSchemaVersion, Inr (req_device_arch r), Inl (req_requested_n r), Inr (batch_bucket (req_batch r)),
          Inr (req_input_dtype r), Inr (req_direction r), Inr (req_norm r), Inr (req_input_layout r),
          Inr (fp_planner fps), Inr (fp_codegen fps), Inr (fp_runtime fps)])"

definition lookup_tuned_plan_json :: "'j json_ops \<Rightarrow> plan_cfg \<Rightarrow> tuned_io \<Rightarrow> fft_request \<Rightarrow> 'j option" where
  "lookup_tuned_plan_json J cfg io r =
     (case tuned_db_path (cfg_env cfg) io of
        None \<Rightarrow> None
      | Some path \<Rightarrow>
          if \<not> io_is_regular_file io path then None
          else case io_select io path (tuned_bindings cfg r) of
                 Inl e \<Rightarrow> None
               | Inr None \<Rightarrow> None
               | Inr (Some text) \<Rightarrow> (case j_parse J text of Inl e \<Rightarrow> None | Inr j \<Rightarrow> Some j))"

section \<open>Laws of the library\<close>

lemma json_at:
  "json_lib_ok J \<Longrightarrow> distinct (map fst kvs) \<Longrightarrow> map_of kvs k = Some v \<Longrightarrow> j_at J (j_object J kvs) k = Inr v"
  by (simp add: json_lib_ok_def)

lemma json_contains:
  "json_lib_ok J \<Longrightarrow> distinct (map fst kvs) \<Longrightarrow> map_of kvs k = Some v \<Longrightarrow> j_contains J (j_object J kvs) k"
  by (simp add: json_lib_ok_def)

lemma json_reads:
  "json_lib_ok J \<Longrightarrow> fits64 i \<Longrightarrow> j_get_int64 J (j_int J i) = Inr i"
  "json_lib_ok J \<Longrightarrow> fits32 i \<Longrightarrow> j_get_int J (j_int J i) = Inr i"
  "json_lib_ok J \<Longrightarrow> j_get_string J (j_string J s) = Inr s"
  "json_lib_ok J \<Longrightarrow> list_all fits64 xs \<Longrightarrow> j_get_ints J (j_ints J xs) = Inr xs"
  by (simp_all add: json_lib_ok_def)

lemma json_deeper: "json_lib_ok J \<Longrightarrow> j_at J j k = Inr v \<Longrightarrow> j_depth J v < j_depth J j"
  by (simp add: json_lib_ok_def)

lemma json_member_deeper:
  "json_lib_ok J \<Longrightarrow> distinct (map fst kvs) \<Longrightarrow> map_of kvs k = Some v \<Longrightarrow> j_depth J v < j_depth J (j_object J kvs)"
  using json_deeper json_at by metis

lemma json_no_fuel:
  assumes "json_lib_ok J"
  shows "j_at J j k \<noteq> Inl OutOfFuel" "j_get_int64 J j \<noteq> Inl OutOfFuel" "j_get_int J j \<noteq> Inl OutOfFuel"
    "j_get_string J j \<noteq> Inl OutOfFuel" "j_get_ints J j \<noteq> Inl OutOfFuel"
  using assms by (simp_all add: json_lib_ok_def)

text \<open>Every number of the tree is an \<open>int64_t\<close>, the remainder of a leaf an \<open>int\<close>.\<close>

fun node_fits :: "plan_node \<Rightarrow> bool" where
  "node_fits (LeafPlanNode n factors rm lanes warps generic smem) \<longleftrightarrow>
     fits64 n \<and> list_all fits64 factors \<and> fits32 rm \<and> fits64 lanes \<and> fits64 warps \<and> list_all fits64 generic \<and> fits64 smem"
| "node_fits (DirectDFTPlanNode n) \<longleftrightarrow> fits64 n"
| "node_fits (StockhamPlanNode n factors) \<longleftrightarrow> fits64 n \<and> list_all fits64 factors"
| "node_fits (FourStepPlanNode n n1 n2 row col) \<longleftrightarrow>
     fits64 n \<and> fits64 n1 \<and> fits64 n2 \<and> node_fits row \<and> node_fits col"
| "node_fits (BluesteinPlanNode n conv_length fft_plan) \<longleftrightarrow> fits64 n \<and> fits64 conv_length \<and> node_fits fft_plan"
| "node_fits (RaderPlanNode prime g idx conv_plan) \<longleftrightarrow>
     fits64 prime \<and> fits64 g \<and> list_all fits64 idx \<and> node_fits conv_plan"
| "node_fits (TwoDimPlanNode n0 n1 strategy row col) \<longleftrightarrow>
     fits64 n0 \<and> fits64 n1 \<and> fits64 (n0 * n1) \<and> node_fits row \<and> node_fits col"
| "node_fits (ThreeDimPlanNode n0 n1 n2 strategy p2 p1 p0) \<longleftrightarrow>
     fits64 n0 \<and> fits64 n1 \<and> fits64 n2 \<and> fits64 (n0 * n1 * n2) \<and> node_fits p2 \<and> node_fits p1 \<and> node_fits p0"

lemma ebind_no_fuel:
  "r \<noteq> Inl OutOfFuel \<Longrightarrow> (\<And>x. r = Inr x \<Longrightarrow> f x \<noteq> Inl OutOfFuel) \<Longrightarrow> ebind r f \<noteq> Inl OutOfFuel"
  by (cases r) auto

lemma from_json_no_fuel:
  assumes J: "json_lib_ok J"
  shows "j_depth J node < k \<Longrightarrow> node_from_json_fuel J b k node \<noteq> Inl OutOfFuel"
proof (induction k arbitrary: node)
  case (Suc k)
  note nf = json_no_fuel [OF J]
  have member: "int64_member J node x \<noteq> Inl OutOfFuel" "ints_member J node x \<noteq> Inl OutOfFuel" for x
    unfolding int64_member_def ints_member_def by (intro ebind_no_fuel nf)+
  have leaf: "leaf_from_json J b len node \<noteq> Inl OutOfFuel" for len
    unfolding leaf_from_json_def by (intro ebind_no_fuel) (auto simp: member ebind_no_fuel nf)
  have child: "ebind (j_at J node x) (node_from_json_fuel J b k) \<noteq> Inl OutOfFuel" for x
  proof (intro ebind_no_fuel nf)
    fix v assume "j_at J node x = Inr v"
    with json_deeper [OF J] Suc.prems show "node_from_json_fuel J b k v \<noteq> Inl OutOfFuel"
      by (intro Suc.IH) (fastforce)
  qed
  have kind: "ebind (j_at J node ''kind'') (j_get_string J) \<noteq> Inl OutOfFuel" by (intro ebind_no_fuel nf)
  show ?case
    unfolding node_from_json_fuel.simps Let_def
    by (rule ebind_no_fuel [OF kind], rule ebind_no_fuel [OF member(1)])
      (simp add: leaf ebind_no_fuel member child)
qed simp

lemma round_trip_fuel:
  assumes J: "json_lib_ok J"
  shows "node_fits nd \<Longrightarrow> j_depth J (plan_node_to_json J nd) < k \<Longrightarrow> node_from_json_fuel J b k (plan_node_to_json J nd) = Inr nd"
proof (induction nd arbitrary: k)
  case (LeafPlanNode n fs rm lanes warps generic smem)
  then show ?case
    by (cases k) (simp_all add: leaf_from_json_def int64_member_def ints_member_def json_at [OF J] json_contains [OF J]
        json_reads [OF J])
next
  case (FourStepPlanNode n n1 n2 row col)
  let ?o = "[(''kind'', j_string J (plan_node_kind_name FourStep)), (''length'', j_int J n), (''n1'', j_int J n1),
    (''n2'', j_int J n2), (''row'', plan_node_to_json J row), (''col'', plan_node_to_json J col)]"
  have d: "j_depth J (plan_node_to_json J row) < j_depth J (j_object J ?o)" "j_depth J (plan_node_to_json J col) < j_depth J (j_object J ?o)"
    by (rule json_member_deeper [OF J, where k = "''row''"], simp_all, rule json_member_deeper [OF J, where k = "''col''"], simp_all)
  show ?case
    using FourStepPlanNode.prems d FourStepPlanNode.IH [of "k - 1"]
    by (cases k) (simp_all add: int64_member_def json_at [OF J] json_reads [OF J])
next
  case (BluesteinPlanNode n m f)
  let ?o = "[(''kind'', j_string J (plan_node_kind_name Bluestein)), (''length'', j_int J n),
    (''conv_length'', j_int J m), (''fft_plan'', plan_node_to_json J f)]"
  have d: "j_depth J (plan_node_to_json J f) < j_depth J (j_object J ?o)"
    by (rule json_member_deeper [OF J, where k = "''fft_plan''"]) simp_all
  show ?case
    using BluesteinPlanNode.prems d BluesteinPlanNode.IH [of "k - 1"]
    by (cases k) (simp_all add: int64_member_def json_at [OF J] json_reads [OF J])
next
  case (RaderPlanNode p g idx f)
  let ?o = "[(''kind'', j_string J (plan_node_kind_name Rader)), (''length'', j_int J p), (''prime'', j_int J p),
    (''root'', j_int J g), (''idx'', j_ints J idx), (''conv_length'', j_int J (p - 1)), (''conv_plan'', plan_node_to_json J f)]"
  have d: "j_depth J (plan_node_to_json J f) < j_depth J (j_object J ?o)"
    by (rule json_member_deeper [OF J, where k = "''conv_plan''"]) simp_all
  show ?case
    using RaderPlanNode.prems d RaderPlanNode.IH [of "k - 1"]
    by (cases k) (simp_all add: int64_member_def ints_member_def json_at [OF J] json_reads [OF J])
next
  case (TwoDimPlanNode n0 n1 st row col)
  let ?o = "[(''kind'', j_string J (plan_node_kind_name TwoDim)), (''length'', j_int J (n0 * n1)), (''n0'', j_int J n0),
    (''n1'', j_int J n1), (''strategy'', j_string J (two_dim_strategy_name st)), (''row'', plan_node_to_json J row),
    (''col'', plan_node_to_json J col)]"
  have d: "j_depth J (plan_node_to_json J row) < j_depth J (j_object J ?o)" "j_depth J (plan_node_to_json J col) < j_depth J (j_object J ?o)"
    by (rule json_member_deeper [OF J, where k = "''row''"], simp_all, rule json_member_deeper [OF J, where k = "''col''"], simp_all)
  show ?case
    using TwoDimPlanNode.prems d TwoDimPlanNode.IH [of "k - 1"]
    by (cases k; cases st) (simp_all add: int64_member_def json_at [OF J] json_reads [OF J])
next
  case (ThreeDimPlanNode n0 n1 n2 st p2 p1 p0)
  let ?o = "[(''kind'', j_string J (plan_node_kind_name ThreeDim)), (''length'', j_int J (n0 * n1 * n2)), (''n0'', j_int J n0),
    (''n1'', j_int J n1), (''n2'', j_int J n2), (''strategy'', j_string J (three_dim_strategy_name st)),
    (''n2_plan'', plan_node_to_json J p2), (''n1_plan'', plan_node_to_json J p1), (''n0_plan'', plan_node_to_json J p0)]"
  have d: "j_depth J (plan_node_to_json J p2) < j_depth J (j_object J ?o)" "j_depth J (plan_node_to_json J p1) < j_depth J (j_object J ?o)"
    "j_depth J (plan_node_to_json J p0) < j_depth J (j_object J ?o)"
    by (rule json_member_deeper [OF J, where k = "''n2_plan''"], simp_all, rule json_member_deeper [OF J, where k = "''n1_plan''"],
        simp_all, rule json_member_deeper [OF J, where k = "''n0_plan''"], simp_all)
  show ?case
    using ThreeDimPlanNode.prems d ThreeDimPlanNode.IH [of "k - 1"]
    by (cases k; cases st) (simp_all add: int64_member_def json_at [OF J] json_reads [OF J])
qed (case_tac k; simp add: int64_member_def ints_member_def json_at [OF J] json_reads [OF J])+

section \<open>A JSON value type\<close>

text \<open>A tree of values that keeps the documented laws: the instance the witnesses evaluate.\<close>

datatype json_tree =
    JObject "(string \<times> json_tree) list" | JNull | JBool bool | JInt int | JUint "64 word" | JString string
  | JInts "int list" | JStrings "string list"

fun tree_at :: "json_tree \<Rightarrow> string \<Rightarrow> exn + json_tree" where
  "tree_at (JObject kvs) k = (case map_of kvs k of Some v \<Rightarrow> Inr v | None \<Rightarrow> Inl (StdException ''out_of_range''))"
| "tree_at _ k = Inl (StdException ''type_error'')"

definition tree_ops :: "json_tree json_ops" where
  "tree_ops = \<lparr>j_object = JObject, j_null = JNull, j_bool = JBool, j_int = JInt, j_uint64 = JUint, j_string = JString,
     j_ints = JInts, j_strings = JStrings, j_at = tree_at,
     j_contains = (\<lambda>j k. case tree_at j k of Inr v \<Rightarrow> True | Inl e \<Rightarrow> False),
     j_get_int64 = (\<lambda>j. case j of JInt i \<Rightarrow> Inr i | _ \<Rightarrow> Inl (StdException ''type_error'')),
     j_get_int = (\<lambda>j. case j of JInt i \<Rightarrow> Inr i | _ \<Rightarrow> Inl (StdException ''type_error'')),
     j_get_string = (\<lambda>j. case j of JString s \<Rightarrow> Inr s | _ \<Rightarrow> Inl (StdException ''type_error'')),
     j_get_ints = (\<lambda>j. case j of JInts xs \<Rightarrow> Inr xs | _ \<Rightarrow> Inl (StdException ''type_error'')),
     j_parse = (\<lambda>s. Inr (JString s)), j_depth = size\<rparr>"

lemma tree_at_size: "tree_at j k = Inr v \<Longrightarrow> size v < size j"
proof (cases j)
  case (JObject kvs)
  assume "tree_at j k = Inr v"
  then have "(k, v) \<in> set kvs" using JObject by (auto split: option.splits dest: map_of_SomeD)
  then have "size v < Suc (size_list (size_prod (\<lambda>x. 0) size) kvs)"
    by (induction kvs) auto
  then show ?thesis using JObject by simp
qed simp_all

lemma tree_ops_ok: "json_lib_ok tree_ops"
  unfolding json_lib_ok_def tree_ops_def
  by (auto simp: tree_at_size split: json_tree.splits option.splits sum.splits elim!: tree_at.elims)

section \<open>Properties\<close>

text \<open>
  C12. Serialisation round trip: a plan tree written by \<open>plan_node_to_json\<close> is read back by
  \<open>plan_node_from_json\<close> as the same tree, for all eight node classes and any nesting, whatever
  state the builder passed to the reader is in, as long as the numbers are \<open>int64_t\<close> values (and the
  remainder of a leaf, which is read as an \<open>int\<close>, fits one).
\<close>

theorem plan_json_round_trip:
  assumes "json_lib_ok J" and "node_fits nd"
  shows "plan_node_from_json J b (plan_node_to_json J nd) = Inr nd"
  unfolding plan_node_from_json_def by (rule round_trip_fuel [OF assms]) simp

theorem plan_json_round_trip_witness:
  "plan_node_from_json tree_ops new_builder (plan_node_to_json tree_ops
     (TwoDimPlanNode 5 64 TwoDim_RTRT (LeafPlanNode 64 [8, 8] 1 8 1 [] 64) (BluesteinPlanNode 5 16 (StockhamPlanNode 16 [4, 4])))) =
   Inr (TwoDimPlanNode 5 64 TwoDim_RTRT (LeafPlanNode 64 [8, 8] 1 8 1 [] 64) (BluesteinPlanNode 5 16 (StockhamPlanNode 16 [4, 4])))"
  by (rule plan_json_round_trip [OF tree_ops_ok]) (simp add: fits64_def fits32_def)



lemma batch_bucket_eq: "batch_bucket a = batch_bucket b \<longleftrightarrow> a = b \<or> (a \<le> 1 \<and> b \<le> 1)"
  by (auto simp: batch_bucket_def)


end
