(* ===== verification/FFT_CApi.thy ===== *)
theory FFT_CApi
  imports FFT_Planner FFT_PlanJson
begin

text \<open>
  The C interface (\<open>flagfft.h\<close>, \<open>exec/c_api_internal.cpp\<close>, \<open>exec/c_api_plan.cpp\<close>,
  \<open>exec/c_api_exec.cpp\<close>): descriptors and their validation, the planning entry points, execution,
  streams and destruction of plan handles.

  A handle is an address; \<open>api_heap\<close> holds the plans that are alive. C arguments that are pointers
  are options, \<open>None\<close> being the null pointer. \<open>UB\<close> is undefined behaviour of C++: signed overflow of
  \<open>int\<close>, a read past an array, a null or dangling pointer. The device query, the kernel compiler and
  the execution of compiled plans are the parameters collected in \<open>api_lib\<close>. The code under
  \<open>FLAGFFT_NPU_ENABLE_SIP_EXECUTION\<close> belongs to another build; of it only the pure tests
  \<open>sip_factor_limit\<close> and \<open>npu_sip_supports\<close> are here.
\<close>

section \<open>Types of the header\<close>

datatype flagfft_result =
    FLAGFFT_SUCCESS | FLAGFFT_INVALID_PLAN | FLAGFFT_ALLOC_FAILED | FLAGFFT_INVALID_TYPE
  | FLAGFFT_INVALID_VALUE | FLAGFFT_INTERNAL_ERROR | FLAGFFT_EXEC_FAILED | FLAGFFT_SETUP_FAILED
  | FLAGFFT_INVALID_SIZE | FLAGFFT_UNALIGNED_DATA | FLAGFFT_INCOMPLETE_PARAMETER_LIST
  | FLAGFFT_INVALID_DEVICE | FLAGFFT_PARSE_ERROR | FLAGFFT_NO_WORKSPACE | FLAGFFT_NOT_SUPPORTED

text \<open>A \<open>flagfftType\<close> is a C enumeration: an argument may hold any number.\<close>

type_synonym flagfft_type = int

definition FLAGFFT_R2C :: flagfft_type where "FLAGFFT_R2C = 0x2a"
definition FLAGFFT_C2R :: flagfft_type where "FLAGFFT_C2R = 0x2c"
definition FLAGFFT_C2C :: flagfft_type where "FLAGFFT_C2C = 0x29"
definition FLAGFFT_D2Z :: flagfft_type where "FLAGFFT_D2Z = 0x6a"
definition FLAGFFT_Z2D :: flagfft_type where "FLAGFFT_Z2D = 0x6c"
definition FLAGFFT_Z2Z :: flagfft_type where "FLAGFFT_Z2Z = 0x69"

lemmas type_defs = FLAGFFT_R2C_def FLAGFFT_C2R_def FLAGFFT_C2C_def FLAGFFT_D2Z_def FLAGFFT_Z2D_def FLAGFFT_Z2Z_def

definition FLAGFFT_FORWARD :: int where "FLAGFFT_FORWARD = -1"
definition FLAGFFT_INVERSE :: int where "FLAGFFT_INVERSE = 1"

datatype precision = Float32 | Float64
datatype transform_kind = TK_C2C | TK_Z2Z | TK_R2C | TK_D2Z | TK_C2R | TK_Z2D

record plan_desc =
  d_rank :: int
  d_n :: "int list"
  d_inembed :: "int list"
  d_istride :: int
  d_idist :: int
  d_onembed :: "int list"
  d_ostride :: int
  d_odist :: int
  d_batch :: int
  d_type :: flagfft_type
  d_precision :: precision
  d_kind :: transform_kind
  d_real_input :: bool
  d_real_output :: bool
  d_device_index :: int
  d_device_arch :: string

section \<open>Validation\<close>

definition type_metadata :: "flagfft_type \<Rightarrow> flagfft_result + precision \<times> transform_kind \<times> bool \<times> bool" where
  "type_metadata type =
     (if type = FLAGFFT_C2C then Inr (Float32, TK_C2C, False, False)
      else if type = FLAGFFT_Z2Z then Inr (Float64, TK_Z2Z, False, False)
      else if type = FLAGFFT_R2C then Inr (Float32, TK_R2C, True, False)
      else if type = FLAGFFT_D2Z then Inr (Float64, TK_D2Z, True, False)
      else if type = FLAGFFT_C2R then Inr (Float32, TK_C2R, False, True)
      else if type = FLAGFFT_Z2D then Inr (Float64, TK_Z2D, False, True)
      else Inl FLAGFFT_INVALID_TYPE)"

definition known_type :: "flagfft_type \<Rightarrow> bool" where
  "known_type type \<longleftrightarrow>
     \<not> (type \<noteq> FLAGFFT_C2C \<and> type \<noteq> FLAGFFT_Z2Z \<and> type \<noteq> FLAGFFT_R2C \<and> type \<noteq> FLAGFFT_D2Z \<and>
        type \<noteq> FLAGFFT_C2R \<and> type \<noteq> FLAGFFT_Z2D)"

definition real_forward :: "flagfft_type \<Rightarrow> bool" where
  "real_forward type \<longleftrightarrow> type = FLAGFFT_R2C \<or> type = FLAGFFT_D2Z"

definition real_inverse :: "flagfft_type \<Rightarrow> bool" where
  "real_inverse type \<longleftrightarrow> type = FLAGFFT_C2R \<or> type = FLAGFFT_Z2D"

definition is_supported_minimal_desc :: "plan_desc \<Rightarrow> bool" where
  "is_supported_minimal_desc desc \<longleftrightarrow>
     (if d_rank desc \<noteq> 1 \<or> d_batch desc \<le> 0 then False
      else if \<not> known_type (d_type desc) then False
      else case d_n desc of
        [n] \<Rightarrow>
          (if n \<le> 0 then False
           else let compact_length = n div 2 + 1;
                    padded_real_length = 2 * compact_length;
                    fwd = real_forward (d_type desc); bwd = real_inverse (d_type desc);
                    input_length = (if bwd then compact_length else n);
                    output_length = (if fwd then compact_length else n);
                    valid_input = (\<lambda>x. x = input_length \<or> (fwd \<and> x = padded_real_length));
                    valid_output = (\<lambda>x. x = output_length \<or> (bwd \<and> x = padded_real_length))
                in d_istride desc = 1 \<and> d_ostride desc = 1 \<and> valid_input (d_idist desc) \<and> valid_output (d_odist desc) \<and>
                   (case d_inembed desc of [x] \<Rightarrow> valid_input x | _ \<Rightarrow> False) \<and>
                   (case d_onembed desc of [x] \<Rightarrow> valid_output x | _ \<Rightarrow> False))
      | _ \<Rightarrow> False)"

definition is_supported_2d_desc :: "plan_desc \<Rightarrow> bool" where
  "is_supported_2d_desc desc \<longleftrightarrow>
     (if d_rank desc \<noteq> 2 \<or> d_batch desc \<le> 0 then False
      else if \<not> known_type (d_type desc) then False
      else case d_n desc of
        [n0, n1] \<Rightarrow>
          (if n0 \<le> 0 \<or> n1 \<le> 0 then False
           else if d_istride desc \<noteq> 1 \<or> d_ostride desc \<noteq> 1 then False
           else let half_n1 = n1 div 2 + 1;
                    input_logical = (if real_inverse (d_type desc) then n0 * half_n1 else n0 * n1);
                    output_logical = (if real_forward (d_type desc) then n0 * half_n1 else n0 * n1)
                in d_idist desc = input_logical \<and> d_odist desc = output_logical)
      | _ \<Rightarrow> False)"

definition is_supported_3d_desc :: "plan_desc \<Rightarrow> bool" where
  "is_supported_3d_desc desc \<longleftrightarrow>
     (if d_rank desc \<noteq> 3 \<or> d_batch desc \<le> 0 then False
      else if \<not> known_type (d_type desc) then False
      else case d_n desc of
        [n0, n1, n2] \<Rightarrow>
          (if n0 \<le> 0 \<or> n1 \<le> 0 \<or> n2 \<le> 0 then False
           else if d_istride desc \<noteq> 1 \<or> d_ostride desc \<noteq> 1 then False
           else let half_n2 = n2 div 2 + 1;
                    input_logical = (if real_inverse (d_type desc) then n0 * n1 * half_n2 else n0 * n1 * n2);
                    output_logical = (if real_forward (d_type desc) then n0 * n1 * half_n2 else n0 * n1 * n2)
                in d_idist desc = input_logical \<and> d_odist desc = output_logical)
      | _ \<Rightarrow> False)"

fun raw_supported_node :: "plan_node \<Rightarrow> bool" where
  "raw_supported_node (StockhamPlanNode n factors) = True"
| "raw_supported_node (LeafPlanNode n factors rm lanes warps generic smem) = True"
| "raw_supported_node (DirectDFTPlanNode n) = True"
| "raw_supported_node (FourStepPlanNode n n1 n2 row col) \<longleftrightarrow> raw_supported_node row \<and> raw_supported_node col"
| "raw_supported_node (BluesteinPlanNode n conv_length fft_plan) \<longleftrightarrow> raw_supported_node fft_plan"
| "raw_supported_node (RaderPlanNode prime g idx conv_plan) \<longleftrightarrow> raw_supported_node conv_plan"
| "raw_supported_node (TwoDimPlanNode n0 n1 strategy row col) \<longleftrightarrow> raw_supported_node row \<and> raw_supported_node col"
| "raw_supported_node (ThreeDimPlanNode n0 n1 n2 strategy p2 p1 p0) \<longleftrightarrow>
     raw_supported_node p2 \<and> raw_supported_node p1 \<and> raw_supported_node p0"

definition kind_text :: "flagfft_type \<Rightarrow> string" where
  "kind_text type =
     (if type = FLAGFFT_R2C then ''r2c'' else if type = FLAGFFT_C2R then ''c2r''
      else if type = FLAGFFT_D2Z then ''d2z'' else if type = FLAGFFT_Z2D then ''z2d'' else '''')"

text \<open>\<open>origin_rank\<close> zero, the default argument, stands for the rank of the descriptor.\<close>

definition request_from_desc :: "plan_cfg \<Rightarrow> plan_desc \<Rightarrow> string \<Rightarrow> int \<Rightarrow> fft_request" where
  "request_from_desc cfg desc direction origin_rank =
     (let n = d_n desc; type = d_type desc;
          fft_length = (if d_rank desc = 1 then hd n else product n);
          dtype = (if d_precision desc = Float64 then ''complex128'' else ''complex64'');
          dim = (if d_rank desc = 1 then 1 else if d_rank desc = 2 then 2 else 3)
      in default_request\<lparr>
           req_origin_rank := (if origin_rank \<noteq> 0 then origin_rank else d_rank desc),
           req_real_transform := (type = FLAGFFT_R2C \<or> type = FLAGFFT_C2R \<or> type = FLAGFFT_D2Z \<or> type = FLAGFFT_Z2D),
           req_real_transform_kind := kind_text type,
           req_origin_real_transform_kind := kind_text type,
           req_fft_length := fft_length,
           req_input_shape := d_batch desc # take (nat dim) n,
           req_input_strides :=
             (if d_rank desc = 1 then [d_idist desc, d_istride desc]
              else if d_rank desc = 2 then [d_idist desc, n ! 1 * d_istride desc, d_istride desc]
              else [d_idist desc, n ! 1 * n ! 2 * d_istride desc, n ! 2 * d_istride desc, d_istride desc]),
           req_raw_dim := dim, req_normalized_dim := dim, req_n := None, req_requested_n := fft_length,
           req_norm := ''backward'', req_input_dtype := dtype, req_output_dtype := dtype,
           req_device_type := cfg_backend_name cfg, req_device_index := d_device_index desc,
           req_device_arch := d_device_arch desc, req_input_layout := ''contiguous'',
           req_requires_contiguous_copy := False, req_direction := direction, req_batch := d_batch desc\<rparr>)"

section \<open>Planning\<close>

datatype compile_entry =
    Compile_raw_node | Compile_raw_r2c_node | Compile_raw_c2r_node
  | Compile_raw_2d_node | Compile_raw_2d_r2c_node | Compile_raw_2d_c2r_node
  | Compile_raw_3d_node | Compile_raw_3d_r2c_node | Compile_raw_3d_c2r_node

type_synonym device_ptr = nat
type_synonym stream = nat

record raw_context =
  rc_request :: fft_request
  rc_stream :: stream
  rc_batch :: int
  rc_idist :: int
  rc_odist :: int

text \<open>
  The code the interface calls: the planner's own parameters, the JSON library and the tuning
  database, \<open>adaptor::ensure_device\<close> (which also fills in the device index and architecture), the
  entry points of the kernel compiler, the graph wrapper, and execution and description of a
  compiled plan.
\<close>

record ('j, 'c) api_lib =
  lib_cfg :: plan_cfg
  lib_json :: "'j json_ops"
  lib_io :: tuned_io
  lib_ensure_device :: "flagfft_result \<times> int \<times> string"
  lib_compile :: "compile_entry \<Rightarrow> plan_node \<Rightarrow> fft_request \<Rightarrow> int \<Rightarrow> exn + 'c"
  lib_graph :: "'c \<Rightarrow> 'c"
  lib_execute :: "'c \<Rightarrow> device_ptr \<Rightarrow> device_ptr \<Rightarrow> raw_context \<Rightarrow> flagfft_result"
  lib_describe :: "'c \<Rightarrow> string"

definition supported_or_none :: "plan_node \<Rightarrow> plan_node option" where
  "supported_or_none node = (if raw_supported_node node then Some node else None)"

definition raw_compatible_bluestein_plan :: "plan_cfg \<Rightarrow> int \<Rightarrow> fft_request \<Rightarrow> (builder, plan_node option) m" where
  "raw_compatible_bluestein_plan cfg len r =
     (let conv_length = ceil_power_of_two (2 * len - 1)
      in mbind (build cfg conv_length r) (\<lambda>child.
           mret (supported_or_none (BluesteinPlanNode len conv_length child))))"

definition raw_compatible_rader_plan :: "plan_cfg \<Rightarrow> int \<Rightarrow> fft_request \<Rightarrow> (builder, plan_node option) m" where
  "raw_compatible_rader_plan cfg len r =
     (if \<not> is_prime_length len \<or> len \<le> kDirectDftMaxN then mret None
      else mbind (mlift (find_primitive_root len)) (\<lambda>g.
           mbind (mlift (build_rader_index_table len g)) (\<lambda>idx.
           mbind (build cfg (len - 1) r) (\<lambda>child.
             mret (supported_or_none (RaderPlanNode len g idx child))))))"

text \<open>The tuned plan of a request when the database has a readable one.\<close>

definition tuned_root :: "('j, 'c) api_lib \<Rightarrow> builder \<Rightarrow> 'j \<Rightarrow> plan_node option" where
  "tuned_root lib b tuned =
     (case ebind (j_at (lib_json lib) tuned ''root'') (plan_node_from_json (lib_json lib) b) of
        Inl e \<Rightarrow> None
      | Inr node \<Rightarrow> supported_or_none node)"

definition lookup_or_build_root :: "('j, 'c) api_lib \<Rightarrow> fft_request \<Rightarrow> (builder, plan_node) m" where
  "lookup_or_build_root lib r =
     (let cfg = lib_cfg lib; build_it = build cfg (req_requested_n r) r
      in if req_device_type r = ''npu'' then build_it
         else mbind (mlift (maca_tail_automatic_plan (cfg_env cfg) r)) (\<lambda>automatic.
           if automatic \<noteq> '''' then build_it
           else case lookup_tuned_plan_json (lib_json lib) cfg (lib_io lib) r of
                  None \<Rightarrow> build_it
                | Some tuned \<Rightarrow>
                    mbind mget (\<lambda>b. case tuned_root lib b tuned of Some node \<Rightarrow> mret node | None \<Rightarrow> build_it)))"

text \<open>The chain of attempts each axis goes through: the request, the request of the other direction,
  Rader, Bluestein.\<close>

definition supported_root :: "('j, 'c) api_lib \<Rightarrow> int \<Rightarrow> fft_request \<Rightarrow> fft_request \<Rightarrow> (builder, plan_node option) m" where
  "supported_root lib len r other =
     mbind (lookup_or_build_root lib r) (\<lambda>first.
       if raw_supported_node first then mret (Some first)
       else mbind (lookup_or_build_root lib other) (\<lambda>second.
         if raw_supported_node second then mret (Some second)
         else mbind (raw_compatible_rader_plan (lib_cfg lib) len r) (\<lambda>rader.
           case rader of
             Some node \<Rightarrow> mret (Some node)
           | None \<Rightarrow> raw_compatible_bluestein_plan (lib_cfg lib) len r)))"

definition c2c_type :: "flagfft_type \<Rightarrow> flagfft_type" where
  "c2c_type type = (if type = FLAGFFT_Z2D \<or> type = FLAGFFT_D2Z \<or> type = FLAGFFT_Z2Z then FLAGFFT_Z2Z else FLAGFFT_C2C)"

text \<open>A contiguous rank-one descriptor for one axis of the parent.\<close>

definition axis_desc :: "plan_desc \<Rightarrow> flagfft_type \<Rightarrow> int \<Rightarrow> int \<Rightarrow> int \<Rightarrow> plan_desc" where
  "axis_desc desc type n out_length batch =
     desc\<lparr>d_rank := 1, d_type := type, d_n := [n], d_inembed := [n], d_onembed := [out_length],
          d_istride := 1, d_ostride := 1, d_idist := n, d_odist := out_length, d_batch := batch\<rparr>"

definition axis_request_2d :: "plan_cfg \<Rightarrow> plan_desc \<Rightarrow> plan_desc \<Rightarrow> string \<Rightarrow> fft_request" where
  "axis_request_2d cfg desc axis direction =
     (let r = request_from_desc cfg axis direction (d_rank desc)
      in if real_inverse (d_type desc) then r\<lparr>req_real_transform_kind := ''c2r''\<rparr>
         else if real_forward (d_type desc) then r\<lparr>req_real_transform_kind := ''r2c''\<rparr>
         else r)"

definition flip :: "string \<Rightarrow> string" where
  "flip direction = (if direction = ''forward'' then ''inverse'' else ''forward'')"

type_synonym rooted = "(plan_node \<times> fft_request \<times> fft_request) option"

definition plan_root_2d :: "('j, 'c) api_lib \<Rightarrow> plan_desc \<Rightarrow> int \<Rightarrow> int \<Rightarrow> (builder, rooted) m" where
  "plan_root_2d lib desc n0 n1 =
     (let cfg = lib_cfg lib; batch = d_batch desc; half_n1 = n1 div 2 + 1;
          row = (if real_forward (d_type desc) then axis_desc desc (d_type desc) n1 half_n1 (batch * n0)
                 else axis_desc desc (c2c_type (d_type desc)) n1 n1 (batch * n0));
          col = axis_desc desc (c2c_type (d_type desc)) n0 n0 (batch * half_n1);
          col_direction = (if real_inverse (d_type desc) then ''inverse'' else ''forward'')
      in mbind (supported_root lib n1 (axis_request_2d cfg desc row ''forward'') (axis_request_2d cfg desc row ''inverse''))
           (\<lambda>row_plan. case row_plan of
              None \<Rightarrow> mret None
            | Some row_plan \<Rightarrow>
                mbind (supported_root lib n0 (axis_request_2d cfg desc col col_direction)
                         (axis_request_2d cfg desc col (flip col_direction)))
                  (\<lambda>col_plan. case col_plan of
                     None \<Rightarrow> mret None
                   | Some col_plan \<Rightarrow>
                       mret (Some (TwoDimPlanNode n0 n1 TwoDim_RTRT row_plan col_plan,
                         request_from_desc cfg desc ''forward'' 0, request_from_desc cfg desc ''inverse'' 0)))))"

definition maca_single_cube :: "plan_cfg \<Rightarrow> plan_desc \<Rightarrow> int \<Rightarrow> int \<Rightarrow> int \<Rightarrow> bool" where
  "maca_single_cube cfg desc n0 n1 n2 \<longleftrightarrow>
     cfg_backend_name cfg = ''maca'' \<and> d_device_arch desc = ''102'' \<and> d_type desc = FLAGFFT_Z2Z \<and>
     d_precision desc = Float64 \<and> d_batch desc = 1 \<and> n0 = 32 \<and> n1 = 32 \<and> n2 = 32"

definition axis_request_3d :: "plan_cfg \<Rightarrow> plan_desc \<Rightarrow> bool \<Rightarrow> plan_desc \<Rightarrow> string \<Rightarrow> fft_request" where
  "axis_request_3d cfg desc cube axis direction =
     (request_from_desc cfg axis direction (d_rank desc))\<lparr>
        req_origin_real_transform_kind := req_real_transform_kind (request_from_desc cfg desc ''forward'' (d_rank desc)),
        req_maca_3d_c2c32_single_cube := cube\<rparr>"

definition plan_root_3d :: "('j, 'c) api_lib \<Rightarrow> plan_desc \<Rightarrow> int \<Rightarrow> int \<Rightarrow> int \<Rightarrow> (builder, rooted) m" where
  "plan_root_3d lib desc n0 n1 n2 =
     (let cfg = lib_cfg lib; batch = d_batch desc; half_n2 = n2 div 2 + 1;
          real = (real_forward (d_type desc) \<or> real_inverse (d_type desc));
          cube = maca_single_cube cfg desc n0 n1 n2;
          direction = (if real_inverse (d_type desc) then ''inverse'' else ''forward'');
          build_axis_plan = (\<lambda>len axis_batch.
            let axis = axis_desc desc (c2c_type (d_type desc)) len len axis_batch
            in supported_root lib len (axis_request_3d cfg desc cube axis direction)
                 (axis_request_3d cfg desc cube axis (flip direction)))
      in mbind (build_axis_plan n2 (batch * n0 * n1)) (\<lambda>p2.
         mbind (build_axis_plan n1 (batch * n0 * (if real then half_n2 else n2))) (\<lambda>p1.
         mbind (build_axis_plan n0 (batch * n1 * (if real then half_n2 else n2))) (\<lambda>p0.
           case (p2, p1, p0) of
             (Some q2, Some q1, Some q0) \<Rightarrow>
               mret (Some (ThreeDimPlanNode n0 n1 n2 ThreeDim_RTRT q2 q1 q0,
                 (request_from_desc cfg desc ''forward'' 0)\<lparr>req_maca_3d_c2c32_single_cube := cube\<rparr>,
                 (request_from_desc cfg desc ''inverse'' 0)\<lparr>req_maca_3d_c2c32_single_cube := cube\<rparr>))
           | _ \<Rightarrow> mret None))))"

definition plan_root_1d :: "('j, 'c) api_lib \<Rightarrow> plan_desc \<Rightarrow> (builder, rooted) m" where
  "plan_root_1d lib desc =
     (let cfg = lib_cfg lib; fwd = request_from_desc cfg desc ''forward'' 0; bwd = request_from_desc cfg desc ''inverse'' 0
      in mbind (supported_root lib (req_requested_n fwd) fwd bwd) (\<lambda>r.
           mret (map_option (\<lambda>root_node. (root_node, fwd, bwd)) r)))"

definition plan_root :: "('j, 'c) api_lib \<Rightarrow> plan_desc \<Rightarrow> (builder, rooted) m" where
  "plan_root lib desc =
     (if is_supported_2d_desc desc then plan_root_2d lib desc (d_n desc ! 0) (d_n desc ! 1)
      else if is_supported_3d_desc desc then plan_root_3d lib desc (d_n desc ! 0) (d_n desc ! 1) (d_n desc ! 2)
      else plan_root_1d lib desc)"

section \<open>Compiling a plan\<close>

definition graph_allowed :: "plan_cfg \<Rightarrow> plan_desc \<Rightarrow> fft_request \<Rightarrow> int \<Rightarrow> int \<Rightarrow> int \<Rightarrow> bool" where
  "graph_allowed cfg desc fwd n0 n1 n2 \<longleftrightarrow>
     (let env = cfg_env cfg; type = d_type desc;
          graph_max_elements = (if env ''FLAGFFT_HCU_3D_GRAPH_LARGE'' = Some ''1'' then 4 * 1024 * 1024 else 64 * 64 * 64);
          hcu_prime_real_graph = (req_device_type fwd = ''hcu'' \<and> (real_forward type \<or> real_inverse type) \<and>
            d_batch desc = 1 \<and> n0 = 16 \<and> n1 = 997 \<and> n2 = 64);
          total_elements = d_batch desc * n0 * n1 * n2
      in req_device_type fwd = ''hcu'' \<and> (total_elements \<le> graph_max_elements \<or> hcu_prime_real_graph) \<and>
         env ''FLAGFFT_PROFILE_KERNELS'' = None \<and> env ''FLAGFFT_HCU_3D_GRAPH'' \<noteq> Some ''0'')"

text \<open>Which compiler entries build the forward and the inverse executable of a plan.\<close>

definition compile_entries :: "plan_desc \<Rightarrow> compile_entry option \<times> compile_entry option" where
  "compile_entries desc =
     (let r2c = (if is_supported_2d_desc desc then Compile_raw_2d_r2c_node
                 else if is_supported_3d_desc desc then Compile_raw_3d_r2c_node else Compile_raw_r2c_node);
          c2r = (if is_supported_2d_desc desc then Compile_raw_2d_c2r_node
                 else if is_supported_3d_desc desc then Compile_raw_3d_c2r_node else Compile_raw_c2r_node);
          c2c = (if is_supported_2d_desc desc then Compile_raw_2d_node
                 else if is_supported_3d_desc desc then Compile_raw_3d_node else Compile_raw_node)
      in if real_forward (d_type desc) then (Some r2c, None)
         else if real_inverse (d_type desc) then (None, Some c2r)
         else (Some c2c, Some c2c))"

definition compile_one ::
  "('j, 'c) api_lib \<Rightarrow> plan_desc \<Rightarrow> compile_entry option \<Rightarrow> plan_node \<Rightarrow> fft_request \<Rightarrow> exn + 'c option" where
  "compile_one lib desc entry root_node r =
     (case entry of
        None \<Rightarrow> Inr None
      | Some en \<Rightarrow> (case lib_compile lib en root_node r (d_batch desc) of Inl e \<Rightarrow> Inl e | Inr c \<Rightarrow> Inr (Some c)))"

definition compile_plan ::
  "('j, 'c) api_lib \<Rightarrow> plan_desc \<Rightarrow> plan_node \<Rightarrow> fft_request \<Rightarrow> fft_request \<Rightarrow> exn + ('c option \<times> 'c option)" where
  "compile_plan lib desc root_node fwd bwd =
     (case compile_entries desc of (fe, ie) \<Rightarrow>
        ebind (compile_one lib desc fe root_node fwd) (\<lambda>forward.
        ebind (compile_one lib desc ie root_node bwd) (\<lambda>inverse.
          let wrap = (if is_supported_3d_desc desc \<and>
                         graph_allowed (lib_cfg lib) desc fwd (d_n desc ! 0) (d_n desc ! 1) (d_n desc ! 2)
                      then map_option (lib_graph lib) else (\<lambda>c. c))
          in Inr (wrap forward, wrap inverse))))"

record 'c ff_plan =
  p_desc :: plan_desc
  p_initialized :: bool
  p_destroyed :: bool
  p_stream :: stream
  p_last_error :: flagfft_result
  p_forward_request :: fft_request
  p_inverse_request :: fft_request
  p_forward_problem_key :: problem_key
  p_inverse_problem_key :: problem_key
  p_plan_key :: plan_key
  p_root :: plan_node
  p_forward :: "'c option"
  p_inverse :: "'c option"
  p_description_cache :: string

text \<open>
  How setting up a plan ends: with a plan, with an error code, or, in the model only, with the
  recursion bound of the planner reached.
\<close>

datatype 'c plan_setup = Ready 'c | Failed flagfft_result | CutOff

definition exn_result :: "exn \<Rightarrow> 'c plan_setup" where
  "exn_result e = (case e of BadAlloc \<Rightarrow> Failed FLAGFFT_ALLOC_FAILED | StdException what \<Rightarrow> Failed FLAGFFT_SETUP_FAILED
     | OutOfFuel \<Rightarrow> CutOff)"

definition finish_plan ::
  "plan_desc \<Rightarrow> plan_node \<Rightarrow> fft_request \<Rightarrow> fft_request \<Rightarrow> 'c option \<times> 'c option \<Rightarrow> 'c ff_plan" where
  "finish_plan desc root_node fwd bwd compiled =
     \<lparr>p_desc = desc, p_initialized = True, p_destroyed = False, p_stream = 0, p_last_error = FLAGFFT_SUCCESS,
      p_forward_request = fwd, p_inverse_request = bwd,
      p_forward_problem_key = problem_key_from_request fwd, p_inverse_problem_key = problem_key_from_request bwd,
      p_plan_key = key_of_node root_node, p_root = root_node, p_forward = fst compiled, p_inverse = snd compiled,
      p_description_cache = ''''\<rparr>"

definition build_plan :: "('j, 'c) api_lib \<Rightarrow> plan_desc \<Rightarrow> 'c ff_plan plan_setup" where
  "build_plan lib desc =
     (if \<not> is_supported_minimal_desc desc \<and> \<not> is_supported_2d_desc desc \<and> \<not> is_supported_3d_desc desc
      then Failed FLAGFFT_NOT_SUPPORTED
      else case lib_ensure_device lib of (device_result, index, arch) \<Rightarrow>
        if device_result \<noteq> FLAGFFT_SUCCESS then Failed device_result
        else let desc = desc\<lparr>d_device_index := index, d_device_arch := arch\<rparr> in
          if cfg_backend_name (lib_cfg lib) = ''npu'' \<and>
             (d_type desc = FLAGFFT_Z2Z \<or> d_type desc = FLAGFFT_D2Z \<or> d_type desc = FLAGFFT_Z2D)
          then Failed FLAGFFT_NOT_SUPPORTED
          else case fst (plan_root lib desc new_builder) of
                 Inl e \<Rightarrow> exn_result e
               | Inr None \<Rightarrow> Failed FLAGFFT_NOT_SUPPORTED
               | Inr (Some (root_node, fwd, bwd)) \<Rightarrow>
                   (case compile_plan lib desc root_node fwd bwd of
                      Inl e \<Rightarrow> exn_result e
                    | Inr compiled \<Rightarrow> Ready (finish_plan desc root_node fwd bwd compiled)))"

section \<open>Handles\<close>

text \<open>The outcome of a call: it returns, its behaviour is undefined, or the model's planner was cut off.\<close>

datatype 'a outcome = Value 'a | UB | CutShort

record 'c api_state =
  api_heap :: "nat \<Rightarrow> 'c ff_plan option"
  api_next :: nat

type_synonym handle = "nat option"
type_synonym 'c made = "(flagfft_result \<times> handle) \<times> 'c api_state"

definition api_init :: "'c api_state" where
  "api_init = \<lparr>api_heap = (\<lambda>_. None), api_next = 0\<rparr>"

text \<open>\<open>checked_plan\<close>: null for a null handle; a handle that was destroyed dangles.\<close>

definition checked_plan :: "'c api_state \<Rightarrow> handle \<Rightarrow> 'c ff_plan option outcome" where
  "checked_plan s h =
     (case h of None \<Rightarrow> Value None | Some a \<Rightarrow> (case api_heap s a of None \<Rightarrow> UB | Some p \<Rightarrow> Value (Some p)))"

definition store_plan :: "'c ff_plan plan_setup \<Rightarrow> 'c api_state \<Rightarrow> 'c made outcome" where
  "store_plan r s =
     (case r of
        Ready p \<Rightarrow> Value ((FLAGFFT_SUCCESS, Some (api_next s)),
                    s\<lparr>api_heap := (api_heap s)(api_next s \<mapsto> p), api_next := api_next s + 1\<rparr>)
      | Failed e \<Rightarrow> Value ((e, None), s)
      | CutOff \<Rightarrow> CutShort)"

definition copy_dims :: "int list \<Rightarrow> int \<Rightarrow> int list outcome" where
  "copy_dims values rank = (if int (length values) < rank then UB else Value (take (nat rank) values))"

definition default_embed :: "bool \<Rightarrow> int \<Rightarrow> int list \<Rightarrow> int list" where
  "default_embed halved rank n =
     (if halved \<and> rank = 1 then [n ! 0 div 2 + 1]
      else if halved \<and> rank = 2 then [n ! 0, n ! 1 div 2 + 1]
      else if halved \<and> rank = 3 then [n ! 0, n ! 1, n ! 2 div 2 + 1]
      else n)"

definition obind :: "'a outcome \<Rightarrow> ('a \<Rightarrow> 'b outcome) \<Rightarrow> 'b outcome" where
  "obind r f = (case r of Value x \<Rightarrow> f x | UB \<Rightarrow> UB | CutShort \<Rightarrow> CutShort)"

lemma obind_simps [simp]: "obind (Value x) f = f x" "obind UB f = UB" "obind CutShort f = CutShort"
  by (simp_all add: obind_def)

definition embed_dims :: "int list option \<Rightarrow> bool \<Rightarrow> int \<Rightarrow> int list \<Rightarrow> int list outcome" where
  "embed_dims given halved rank n =
     (case given of Some values \<Rightarrow> copy_dims values rank | None \<Rightarrow> Value (default_embed halved rank n))"

text \<open>\<open>out\<close> says whether the caller passed a place for the handle.\<close>

definition flagfftPlanMany ::
  "('j, 'c) api_lib \<Rightarrow> bool \<Rightarrow> int \<Rightarrow> int list option \<Rightarrow> int list option \<Rightarrow> int \<Rightarrow> int \<Rightarrow> int list option \<Rightarrow> int \<Rightarrow> int \<Rightarrow>
   flagfft_type \<Rightarrow> int \<Rightarrow> 'c api_state \<Rightarrow> 'c made outcome" where
  "flagfftPlanMany lib out rank n inembed istride idist onembed ostride odist type batch s =
     (if \<not> out then Value ((FLAGFFT_INVALID_VALUE, None), s)
      else if rank \<le> 0 \<or> n = None \<or> batch \<le> 0 then Value ((FLAGFFT_INVALID_VALUE, None), s)
      else if list_ex (\<lambda>x. x \<le> 0) (take (nat rank) (the n)) then Value ((FLAGFFT_INVALID_SIZE, None), s)
      else obind (copy_dims (the n) rank) (\<lambda>dims.
        case type_metadata type of
               Inl e \<Rightarrow> Value ((e, None), s)
             | Inr (precision, kind, real_input, real_output) \<Rightarrow>
                 obind (embed_dims inembed (real_inverse type) rank dims) (\<lambda>inem.
                 obind (embed_dims onembed (real_forward type) rank dims) (\<lambda>onem.
                   store_plan (build_plan lib
                     \<lparr>d_rank = rank, d_n = dims, d_inembed = inem, d_istride = istride, d_idist = idist, d_onembed = onem,
                      d_ostride = ostride, d_odist = odist, d_batch = batch, d_type = type, d_precision = precision,
                      d_kind = kind, d_real_input = real_input, d_real_output = real_output, d_device_index = 0,
                      d_device_arch = ''''\<rparr>) s))))"

text \<open>Arithmetic of C's \<open>int\<close>: overflow is undefined.\<close>

definition int_value :: "int \<Rightarrow> int outcome" where
  "int_value x = (if fits32 x then Value x else UB)"

definition int_mul :: "int \<Rightarrow> int \<Rightarrow> int outcome" where
  "int_mul a b = int_value (a * b)"

definition half_length :: "int \<Rightarrow> int" where
  "half_length n = n sdiv 2 + 1"

definition flagfftPlan1d ::
  "('j, 'c) api_lib \<Rightarrow> bool \<Rightarrow> int \<Rightarrow> flagfft_type \<Rightarrow> int \<Rightarrow> 'c api_state \<Rightarrow> 'c made outcome" where
  "flagfftPlan1d lib out nx type batch s =
     flagfftPlanMany lib out 1 (Some [nx]) None 1 (if real_inverse type then half_length nx else nx) None 1
       (if real_forward type then half_length nx else nx) type batch s"

definition flagfftPlan2d ::
  "('j, 'c) api_lib \<Rightarrow> bool \<Rightarrow> int \<Rightarrow> int \<Rightarrow> flagfft_type \<Rightarrow> 'c api_state \<Rightarrow> 'c made outcome" where
  "flagfftPlan2d lib out nx ny type s =
     obind (if real_inverse type then int_mul nx (half_length ny) else int_mul nx ny) (\<lambda>idist.
     obind (if real_forward type then int_mul nx (half_length ny) else int_mul nx ny) (\<lambda>odist.
       flagfftPlanMany lib out 2 (Some [nx, ny]) None 1 idist None 1 odist type 1 s))"

definition flagfftPlan3d ::
  "('j, 'c) api_lib \<Rightarrow> bool \<Rightarrow> int \<Rightarrow> int \<Rightarrow> int \<Rightarrow> flagfft_type \<Rightarrow> 'c api_state \<Rightarrow> 'c made outcome" where
  "flagfftPlan3d lib out nx ny nz type s =
     obind (obind (int_mul nx ny) (\<lambda>xy. int_mul xy (if real_inverse type then half_length nz else nz))) (\<lambda>idist.
     obind (obind (int_mul nx ny) (\<lambda>xy. int_mul xy (if real_forward type then half_length nz else nz))) (\<lambda>odist.
       flagfftPlanMany lib out 3 (Some [nx, ny, nz]) None 1 idist None 1 odist type 1 s))"

section \<open>Execution\<close>

definition run_compiled ::
  "('j, 'c) api_lib \<Rightarrow> 'c ff_plan \<Rightarrow> fft_request \<Rightarrow> 'c option \<Rightarrow> device_ptr \<Rightarrow> device_ptr \<Rightarrow> flagfft_result outcome" where
  "run_compiled lib plan r compiled idata odata =
     (case compiled of
        None \<Rightarrow> UB
      | Some c \<Rightarrow> Value (lib_execute lib c idata odata
          \<lparr>rc_request = r, rc_stream = p_stream plan, rc_batch = d_batch (p_desc plan), rc_idist = d_idist (p_desc plan),
           rc_odist = d_odist (p_desc plan)\<rparr>))"

text \<open>The checks all execution entry points make first, in their order.\<close>

definition exec_checked ::
  "'c api_state \<Rightarrow> handle \<Rightarrow> device_ptr option \<Rightarrow> device_ptr option \<Rightarrow> flagfft_type \<Rightarrow>
   ('c ff_plan \<Rightarrow> device_ptr \<Rightarrow> device_ptr \<Rightarrow> flagfft_result outcome) \<Rightarrow> flagfft_result outcome" where
  "exec_checked s h idata odata type run =
     obind (checked_plan s h) (\<lambda>p.
       case p of
         None \<Rightarrow> Value FLAGFFT_INVALID_PLAN
       | Some plan \<Rightarrow>
           if p_destroyed plan \<or> \<not> p_initialized plan then Value FLAGFFT_INVALID_PLAN
           else case (idata, odata) of
             (Some i, Some o') \<Rightarrow> if d_type (p_desc plan) \<noteq> type then Value FLAGFFT_INVALID_TYPE else run plan i o'
           | _ \<Rightarrow> Value FLAGFFT_INVALID_VALUE)"

definition exec_complex ::
  "('j, 'c) api_lib \<Rightarrow> flagfft_type \<Rightarrow> handle \<Rightarrow> device_ptr option \<Rightarrow> device_ptr option \<Rightarrow> int \<Rightarrow> 'c api_state \<Rightarrow>
   flagfft_result outcome" where
  "exec_complex lib type h idata odata direction s =
     exec_checked s h idata odata type (\<lambda>plan i o'.
       if direction \<noteq> FLAGFFT_FORWARD \<and> direction \<noteq> FLAGFFT_INVERSE then Value FLAGFFT_INVALID_VALUE
       else if direction = FLAGFFT_INVERSE then run_compiled lib plan (p_inverse_request plan) (p_inverse plan) i o'
       else run_compiled lib plan (p_forward_request plan) (p_forward plan) i o')"

definition exec_real_forward ::
  "('j, 'c) api_lib \<Rightarrow> flagfft_type \<Rightarrow> handle \<Rightarrow> device_ptr option \<Rightarrow> device_ptr option \<Rightarrow> 'c api_state \<Rightarrow>
   flagfft_result outcome" where
  "exec_real_forward lib type h idata odata s =
     exec_checked s h idata odata type (\<lambda>plan i o'. run_compiled lib plan (p_forward_request plan) (p_forward plan) i o')"

definition exec_real_inverse ::
  "('j, 'c) api_lib \<Rightarrow> flagfft_type \<Rightarrow> handle \<Rightarrow> device_ptr option \<Rightarrow> device_ptr option \<Rightarrow> 'c api_state \<Rightarrow>
   flagfft_result outcome" where
  "exec_real_inverse lib type h idata odata s =
     exec_checked s h idata odata type (\<lambda>plan i o'. run_compiled lib plan (p_inverse_request plan) (p_inverse plan) i o')"

definition flagfftExecC2C where "flagfftExecC2C lib = exec_complex lib FLAGFFT_C2C"
definition flagfftExecZ2Z where "flagfftExecZ2Z lib = exec_complex lib FLAGFFT_Z2Z"
definition flagfftExecR2C where "flagfftExecR2C lib = exec_real_forward lib FLAGFFT_R2C"
definition flagfftExecD2Z where "flagfftExecD2Z lib = exec_real_forward lib FLAGFFT_D2Z"
definition flagfftExecC2R where "flagfftExecC2R lib = exec_real_inverse lib FLAGFFT_C2R"
definition flagfftExecZ2D where "flagfftExecZ2D lib = exec_real_inverse lib FLAGFFT_Z2D"

lemmas exec_entry_defs = flagfftExecC2C_def flagfftExecZ2Z_def flagfftExecR2C_def flagfftExecD2Z_def
  flagfftExecC2R_def flagfftExecZ2D_def

definition flagfftSetStream :: "handle \<Rightarrow> stream \<Rightarrow> 'c api_state \<Rightarrow> (flagfft_result \<times> 'c api_state) outcome" where
  "flagfftSetStream h st s =
     obind (checked_plan s h) (\<lambda>p.
       case p of
         None \<Rightarrow> Value (FLAGFFT_INVALID_PLAN, s)
       | Some plan \<Rightarrow>
           if p_destroyed plan then Value (FLAGFFT_INVALID_PLAN, s)
           else Value (FLAGFFT_SUCCESS, s\<lparr>api_heap := (api_heap s)(the h \<mapsto> plan\<lparr>p_stream := st\<rparr>)\<rparr>))"

definition flagfftDestroy :: "handle \<Rightarrow> 'c api_state \<Rightarrow> (flagfft_result \<times> 'c api_state) outcome" where
  "flagfftDestroy h s =
     (case h of
        None \<Rightarrow> Value (FLAGFFT_INVALID_PLAN, s)
      | Some a \<Rightarrow> obind (checked_plan s h) (\<lambda>p. Value (FLAGFFT_SUCCESS, s\<lparr>api_heap := (api_heap s)(a := None)\<rparr>)))"

definition plan_description :: "('j, 'c) api_lib \<Rightarrow> 'c ff_plan \<Rightarrow> string" where
  "plan_description lib plan =
     ''=== FlagFFT Plan ==='' @ newline @
     ''rank='' @ show_int (d_rank (p_desc plan)) @ '' n=['' @ join_ints (d_n (p_desc plan)) @ ''] batch='' @
     show_int (d_batch (p_desc plan)) @ '' type='' @ show_int (d_type (p_desc plan)) @ newline @
     newline @ ''-- Plan tree --'' @ newline @ describe (p_root plan) 0 @ newline @
     newline @ ''-- Forward execution --'' @ newline @
     (case p_forward plan of Some c \<Rightarrow> lib_describe lib c @ newline | None \<Rightarrow> ''(not compiled)'' @ newline) @
     (case p_inverse plan of
        Some c \<Rightarrow> newline @ ''-- Inverse execution --'' @ newline @ lib_describe lib c @ newline
      | None \<Rightarrow> '''')"

definition flagfftGetPlanDescription ::
  "('j, 'c) api_lib \<Rightarrow> handle \<Rightarrow> 'c api_state \<Rightarrow> (string option \<times> 'c api_state) outcome" where
  "flagfftGetPlanDescription lib h s =
     obind (checked_plan s h) (\<lambda>p.
       case p of
         None \<Rightarrow> Value (None, s)
       | Some plan \<Rightarrow>
           if p_destroyed plan \<or> \<not> p_initialized plan then Value (None, s)
           else if p_description_cache plan \<noteq> '''' then Value (Some (p_description_cache plan), s)
           else let text = plan_description lib plan
                in Value (Some text, s\<lparr>api_heap := (api_heap s)(the h \<mapsto> plan\<lparr>p_description_cache := text\<rparr>)\<rparr>))"

section \<open>Tests of the SiP build\<close>

function sip_strip :: "int \<Rightarrow> int \<Rightarrow> int" where
  "sip_strip len factor = (if 0 < len \<and> 1 < factor \<and> len mod factor = 0 then sip_strip (len div factor) factor else len)"
  by pat_completeness auto
termination
  by (relation "measure (\<lambda>(len, f). nat len)") (auto simp: int_div_less_self)

declare sip_strip.simps [simp del]

function sip_loop :: "int \<Rightarrow> int \<Rightarrow> int" where
  "sip_loop factor len =
     (if factor \<le> 199 \<and> factor * factor \<le> len then sip_loop (factor + 1) (sip_strip len factor) else len)"
  by pat_completeness auto
termination
  by (relation "measure (\<lambda>(f, len). nat (200 - f))") auto

declare sip_loop.simps [simp del]

definition sip_factor_limit :: "int \<Rightarrow> bool" where
  "sip_factor_limit len \<longleftrightarrow> sip_loop 2 len \<le> 199"

definition npu_sip_supports :: "plan_desc \<Rightarrow> bool" where
  "npu_sip_supports desc \<longleftrightarrow>
     (let batch = d_batch desc; type = d_type desc; max_dimension = 2 ^ 27; max_batch = 2 ^ 30
      in if batch \<le> 0 \<or> d_istride desc \<noteq> 1 \<or> d_ostride desc \<noteq> 1 \<or>
            (type \<noteq> FLAGFFT_C2C \<and> type \<noteq> FLAGFFT_R2C \<and> type \<noteq> FLAGFFT_C2R) then False
         else case d_n desc of
           [n] \<Rightarrow>
             d_rank desc = 1 \<and> \<not> (n \<le> 0 \<or> max_dimension < n \<or> max_batch div n < batch \<or> \<not> sip_factor_limit n) \<and>
             (let half = n div 2 + 1;
                  input_length = (if type = FLAGFFT_C2R then half else n);
                  output_length = (if type = FLAGFFT_R2C then half else n)
              in d_idist desc = input_length \<and> d_odist desc = output_length \<and>
                 d_inembed desc = [input_length] \<and> d_onembed desc = [output_length])
         | [n0, n1] \<Rightarrow>
             d_rank desc = 2 \<and> batch \<le> 2 ^ 31 - 1 \<and>
             \<not> (n0 \<le> 0 \<or> n1 \<le> 0 \<or> max_dimension < n0 \<or> max_dimension < n1 \<or> max_batch div n0 < batch \<or>
                max_batch div (n0 * batch) < n1 \<or> \<not> sip_factor_limit n0 \<or> \<not> sip_factor_limit n1) \<and>
             (let half_n1 = n1 div 2 + 1;
                  input_n1 = (if type = FLAGFFT_C2R then half_n1 else n1);
                  output_n1 = (if type = FLAGFFT_R2C then half_n1 else n1)
              in d_idist desc = n0 * input_n1 \<and> d_odist desc = n0 * output_n1 \<and>
                 d_inembed desc = [n0, input_n1] \<and> d_onembed desc = [n0, output_n1])
         | _ \<Rightarrow> False)"

end
