(* ===== verification/FFT_CApiFacts.thy ===== *)
theory FFT_CApiFacts
  imports FFT_CApi FFT_Tuning
begin

text \<open>
  What the C interface promises. \<open>plan_wf\<close> is the invariant of a live plan: its tree is a plan for
  the product of the dimensions and exactly the executables its type can ask for are compiled.
  The planning entry points only store such plans, every other call keeps them, and so execution
  never meets a null executable; misuse is reported by the documented codes.
\<close>

section \<open>Contracts\<close>

lemma raw_supported_all [simp]: "raw_supported_node nd"
  by (induction nd) auto

lemma supported_or_none_all [simp]: "supported_or_none nd = Some nd"
  by (simp add: supported_or_none_def)

text \<open>\<open>plans f Q E\<close>: the contract of a planning function over builders with right caches.\<close>

definition plans :: "(builder, 'a) m \<Rightarrow> ('a \<Rightarrow> bool) \<Rightarrow> (exn \<Rightarrow> bool) \<Rightarrow> bool" where
  "plans f Q E \<longleftrightarrow> mtriple caches_ok f (\<lambda>x s. caches_ok s \<and> Q x) (\<lambda>e s. caches_ok s \<and> E e)"

lemma plans_ret: "Q x \<Longrightarrow> plans (mret x) Q E"
  by (simp add: plans_def mtriple_ret)

lemma plans_bind:
  assumes "plans f R E" and "\<And>x. R x \<Longrightarrow> plans (g x) Q E"
  shows "plans (mbind f g) Q E"
  unfolding plans_def
proof (rule mtriple_bind)
  show "mtriple caches_ok f (\<lambda>x s. caches_ok s \<and> R x) (\<lambda>e s. caches_ok s \<and> E e)"
    using assms(1) by (simp add: plans_def)
  show "mtriple (\<lambda>s. caches_ok s \<and> R x) (g x) (\<lambda>x s. caches_ok s \<and> Q x) (\<lambda>e s. caches_ok s \<and> E e)" for x
    using assms(2) by (cases "R x") (auto simp: plans_def mtriple_def)
qed

lemma plans_weaken:
  "plans f Q E \<Longrightarrow> (\<And>x. Q x \<Longrightarrow> Q' x) \<Longrightarrow> (\<And>e. E e \<Longrightarrow> E' e) \<Longrightarrow> plans f Q' E'"
  unfolding plans_def by (erule mtriple_weaken) auto

lemma plans_lift: "(case r of Inr x \<Rightarrow> Q x | Inl e \<Rightarrow> E e) \<Longrightarrow> plans (mlift r) Q E"
  by (auto simp: plans_def intro!: mtriple_lift split: sum.splits)

lemma plans_get: "(\<And>b. plans (g b) Q E) \<Longrightarrow> plans (mbind mget g) Q E"
  by (auto simp: plans_def mtriple_def mbind_def mget_def)

lemma plans_resultD: "plans f Q E \<Longrightarrow> caches_ok b \<Longrightarrow> fst (f b) = Inr x \<Longrightarrow> Q x"
  unfolding plans_def by (cases "f b") (auto dest: mtriple_resultD)

lemma plans_exnD: "plans f Q E \<Longrightarrow> caches_ok b \<Longrightarrow> fst (f b) = Inl e \<Longrightarrow> E e"
  unfolding plans_def by (cases "f b") (auto dest: mtriple_exnD)

text \<open>When planning on a device is sure to succeed.\<close>

definition device_ready :: "plan_cfg \<Rightarrow> int \<Rightarrow> bool" where
  "device_ready cfg index \<longleftrightarrow>
     no_overrides cfg \<and> (cfg_backend_name cfg = ''npu'' \<longrightarrow> 1024 \<le> cfg_max_dynamic_smem_bytes cfg index)"

definition for_device :: "plan_cfg \<Rightarrow> int \<Rightarrow> fft_request \<Rightarrow> bool" where
  "for_device cfg index r \<longleftrightarrow> req_device_type r = cfg_backend_name cfg \<and> req_device_index r = index"

lemma plans_build:
  assumes "0 < n" and "for_device cfg index r"
  shows "plans (build cfg n r) (plan_ok n) (\<lambda>e. \<not> device_ready cfg index)"
  unfolding plans_def
proof (rule mtripleI)
  fix b nd b' assume b: "caches_ok b" and eq: "build cfg n r b = (Inr nd, b')"
  show "caches_ok b' \<and> plan_ok n nd" using steady_build [OF b, of n cfg r] eq by (simp add: steady_def)
next
  fix b e b' assume b: "caches_ok b" and eq: "build cfg n r b = (Inl e, b')"
  have "\<not> device_ready cfg index"
  proof
    assume rd: "device_ready cfg index"
    then obtain c where c: "make_request_context cfg r = Inr c"
      using make_request_context_no_throw [of cfg r] by (auto simp: device_ready_def)
    have "plannable cfg c"
      using make_request_context_fields [OF c] rd assms(2)
      by (auto simp: plannable_def device_ready_def for_device_def kDynamicSmemFallbackBytes_def)
    with mtriple_exnD [OF mtriple_build [OF c, of "b_parallel_leaf_heuristic_enabled b" n] _ eq] b assms(1)
    show False by simp
  qed
  then show "caches_ok b' \<and> \<not> device_ready cfg index" using steady_build [OF b, of n cfg r] eq by (simp add: steady_def)
qed

text \<open>What the tuning database holds: a readable row for a request is a plan for its length.\<close>

definition tuned_sound :: "('j, 'c) api_lib \<Rightarrow> bool" where
  "tuned_sound lib \<longleftrightarrow>
     (\<forall>r b tuned nd. lookup_tuned_plan_json (lib_json lib) (lib_cfg lib) (lib_io lib) r = Some tuned \<and>
        tuned_root lib b tuned = Some nd \<longrightarrow> plan_ok (req_requested_n r) nd)"

lemma maca_automatic_no_throw:
  "no_overrides cfg \<Longrightarrow> \<exists>a. maca_tail_automatic_plan (cfg_env cfg) r = Inr a"
  by (simp add: no_overrides_def maca_tail_automatic_plan_def maca_tail_policy_enabled_def Let_def split: sum.splits)

lemma plans_lookup:
  assumes "0 < req_requested_n r" and "for_device (lib_cfg lib) index r" and "tuned_sound lib"
  shows "plans (lookup_or_build_root lib r) (plan_ok (req_requested_n r)) (\<lambda>e. \<not> device_ready (lib_cfg lib) index)"
proof -
  note b = plans_build [OF assms(1,2)]
  have auto_plan: "plans (mlift (maca_tail_automatic_plan (cfg_env (lib_cfg lib)) r)) (\<lambda>_. True)
      (\<lambda>e. \<not> device_ready (lib_cfg lib) index)"
    using maca_automatic_no_throw [of "lib_cfg lib" r] by (intro plans_lift) (auto simp: device_ready_def split: sum.splits)
  have tuned: "plans (mbind mget (\<lambda>b. case tuned_root lib b t of Some node \<Rightarrow> mret node
        | None \<Rightarrow> build (lib_cfg lib) (req_requested_n r) r))
      (plan_ok (req_requested_n r)) (\<lambda>e. \<not> device_ready (lib_cfg lib) index)"
    if "lookup_tuned_plan_json (lib_json lib) (lib_cfg lib) (lib_io lib) r = Some t" for t
    using that assms(3) b by (intro plans_get) (auto simp: tuned_sound_def split: option.splits intro!: plans_ret)
  show ?thesis
    unfolding lookup_or_build_root_def Let_def
    using b tuned by (auto intro!: plans_bind [OF auto_plan] split: option.splits)
qed

lemma plans_supported_root:
  assumes "0 < n" and "req_requested_n r = n" and "for_device (lib_cfg lib) index r" and "tuned_sound lib"
  shows "plans (supported_root lib n r other) (\<lambda>x. \<exists>nd. x = Some nd \<and> plan_ok n nd) (\<lambda>e. \<not> device_ready (lib_cfg lib) index)"
  unfolding supported_root_def
  by (rule plans_bind [OF plans_lookup [of r lib index]]) (use assms in \<open>auto intro!: plans_ret\<close>)


section \<open>Plans of descriptors\<close>

lemma requested_n_desc [simp]:
  "req_requested_n (request_from_desc cfg desc direction origin) =
     (if d_rank desc = 1 then hd (d_n desc) else product (d_n desc))"
  by (simp add: request_from_desc_def Let_def)

lemma for_device_desc [simp]: "for_device cfg (d_device_index desc) (request_from_desc cfg desc direction origin)"
  by (simp add: for_device_def request_from_desc_def Let_def)

lemma axis_requests [simp]:
  "req_requested_n (axis_request_2d cfg desc (axis_desc desc type n out b) direction) = n"
  "for_device cfg (d_device_index desc) (axis_request_2d cfg desc (axis_desc desc type n out b) direction)"
  "req_requested_n (axis_request_3d cfg desc cube (axis_desc desc type n out b) direction) = n"
  "for_device cfg (d_device_index desc) (axis_request_3d cfg desc cube (axis_desc desc type n out b) direction)"
  by (simp_all add: axis_request_2d_def axis_request_3d_def axis_desc_def for_device_def request_from_desc_def Let_def)

definition root_ok :: "int \<Rightarrow> rooted \<Rightarrow> bool" where
  "root_ok n x \<longleftrightarrow> (\<exists>nd fwd bwd. x = Some (nd, fwd, bwd) \<and> plan_ok n nd)"

lemma plans_root_2d:
  assumes "0 < n0" and "0 < n1" and "tuned_sound lib"
  shows "plans (plan_root_2d lib desc n0 n1) (root_ok (n0 * n1)) (\<lambda>e. \<not> device_ready (lib_cfg lib) (d_device_index desc))"
proof -
  let ?E = "\<lambda>e. \<not> device_ready (lib_cfg lib) (d_device_index desc)"
  have axis: "plans (supported_root lib n (axis_request_2d (lib_cfg lib) desc (axis_desc desc type n out b) dir) other)
      (\<lambda>x. \<exists>nd. x = Some nd \<and> plan_ok n nd) ?E" if "0 < n" for n type out b dir other
    using that assms(3) by (intro plans_supported_root) auto
  show ?thesis
    unfolding plan_root_2d_def Let_def
    by (intro plans_bind [where R = "\<lambda>x. \<exists>nd. x = Some nd \<and> plan_ok n1 nd"])
      (use assms(1,2) in \<open>auto simp: root_ok_def intro!: axis plans_ret plans_bind [OF axis]\<close>)
qed

lemma plans_root_3d:
  assumes "0 < n0" and "0 < n1" and "0 < n2" and "tuned_sound lib"
  shows "plans (plan_root_3d lib desc n0 n1 n2) (root_ok (n0 * n1 * n2))
    (\<lambda>e. \<not> device_ready (lib_cfg lib) (d_device_index desc))"
  unfolding plan_root_3d_def Let_def
  by (intro plans_bind [OF plans_supported_root [where index = "d_device_index desc"]])
    (use assms in \<open>auto simp: root_ok_def intro!: plans_ret\<close>)

lemma plans_root_1d:
  assumes "d_rank desc = 1" and "0 < hd (d_n desc)" and "tuned_sound lib"
  shows "plans (plan_root_1d lib desc) (root_ok (hd (d_n desc))) (\<lambda>e. \<not> device_ready (lib_cfg lib) (d_device_index desc))"
  unfolding plan_root_1d_def Let_def
  by (intro plans_bind [OF plans_supported_root [where index = "d_device_index desc"]])
    (use assms in \<open>auto simp: root_ok_def intro!: plans_ret\<close>)


definition supported_desc :: "plan_desc \<Rightarrow> bool" where
  "supported_desc desc \<longleftrightarrow> is_supported_minimal_desc desc \<or> is_supported_2d_desc desc \<or> is_supported_3d_desc desc"

lemma supported_minimalD:
  "is_supported_minimal_desc desc \<Longrightarrow> d_rank desc = 1 \<and> (\<exists>n. d_n desc = [n] \<and> 0 < n) \<and> known_type (d_type desc) \<and> 0 < d_batch desc"
  by (auto simp: is_supported_minimal_desc_def Let_def split: if_splits list.splits)

lemma supported_2dD:
  "is_supported_2d_desc desc \<Longrightarrow>
   d_rank desc = 2 \<and> (\<exists>n0 n1. d_n desc = [n0, n1] \<and> 0 < n0 \<and> 0 < n1) \<and> known_type (d_type desc) \<and> 0 < d_batch desc"
  by (auto simp: is_supported_2d_desc_def Let_def split: if_splits list.splits)

lemma supported_3dD:
  "is_supported_3d_desc desc \<Longrightarrow>
   d_rank desc = 3 \<and> (\<exists>n0 n1 n2. d_n desc = [n0, n1, n2] \<and> 0 < n0 \<and> 0 < n1 \<and> 0 < n2) \<and> known_type (d_type desc) \<and> 0 < d_batch desc"
  by (auto simp: is_supported_3d_desc_def Let_def split: if_splits list.splits)

lemma plans_root:
  assumes "supported_desc desc" and "tuned_sound lib"
  shows "plans (plan_root lib desc) (root_ok (product (d_n desc))) (\<lambda>e. \<not> device_ready (lib_cfg lib) (d_device_index desc))"
proof -
  consider (two) "is_supported_2d_desc desc" | (three) "\<not> is_supported_2d_desc desc" "is_supported_3d_desc desc"
    | (one) "\<not> is_supported_2d_desc desc" "\<not> is_supported_3d_desc desc" "is_supported_minimal_desc desc"
    using assms(1) by (auto simp: supported_desc_def)
  then show ?thesis
  proof cases
    case two
    with supported_2dD [OF two] assms(2) show ?thesis
      by (auto simp: plan_root_def product_eq dest: plans_root_2d [of _ _ lib desc])
  next
    case three
    with supported_3dD [OF three(2)] assms(2) show ?thesis
      by (auto simp: plan_root_def product_eq mult.assoc dest: plans_root_3d [of _ _ _ lib desc])
  next
    case one
    with supported_minimalD [OF one(3)] assms(2) show ?thesis
      using plans_root_1d [of desc lib] by (auto simp: plan_root_def product_eq)
  qed
qed

section \<open>The invariant of a plan\<close>

definition plan_wf :: "'c ff_plan \<Rightarrow> bool" where
  "plan_wf p \<longleftrightarrow>
     p_initialized p \<and> \<not> p_destroyed p \<and> supported_desc (p_desc p) \<and> plan_ok (product (d_n (p_desc p))) (p_root p) \<and>
     p_plan_key p = key_of_node (p_root p) \<and>
     p_forward_problem_key p = problem_key_from_request (p_forward_request p) \<and>
     p_inverse_problem_key p = problem_key_from_request (p_inverse_request p) \<and>
     (p_forward p = None \<longleftrightarrow> real_inverse (d_type (p_desc p))) \<and>
     (p_inverse p = None \<longleftrightarrow> real_forward (d_type (p_desc p)))"

lemma real_types_disjoint [simp]: "real_forward type \<Longrightarrow> \<not> real_inverse type"
  by (auto simp: real_forward_def real_inverse_def type_defs)

lemma compile_plan_presence:
  assumes "compile_plan lib desc nd fwd bwd = Inr (f, i)"
  shows "(f = None \<longleftrightarrow> real_inverse (d_type desc)) \<and> (i = None \<longleftrightarrow> real_forward (d_type desc))"
  using assms
  by (auto simp: compile_plan_def compile_entries_def compile_one_def ebind_def Let_def real_types_disjoint
      split: if_splits sum.splits prod.splits)

lemma supported_with_device [simp]:
  "supported_desc (desc\<lparr>d_device_index := i, d_device_arch := a\<rparr>) = supported_desc desc"
  by (simp add: supported_desc_def is_supported_minimal_desc_def is_supported_2d_desc_def is_supported_3d_desc_def Let_def
      cong: if_cong list.case_cong)

lemma new_builder_caches_ok: "caches_ok new_builder"
  using reachable_inv [OF reach_new] by blast


section \<open>Setting up a plan\<close>

definition double_type :: "flagfft_type \<Rightarrow> bool" where
  "double_type type \<longleftrightarrow> type = FLAGFFT_Z2Z \<or> type = FLAGFFT_D2Z \<or> type = FLAGFFT_Z2D"

lemma finish_plan_wf:
  assumes "supported_desc desc" and "plan_ok (product (d_n desc)) nd" and "compile_plan lib desc nd fwd bwd = Inr compiled"
  shows "plan_wf (finish_plan desc nd fwd bwd compiled)"
  using assms compile_plan_presence [of lib desc nd fwd bwd "fst compiled" "snd compiled"]
  by (simp add: plan_wf_def finish_plan_def)

lemma finish_plan_desc [simp]: "p_desc (finish_plan desc nd fwd bwd compiled) = desc"
  by (simp add: finish_plan_def)

text \<open>
  The whole of \<open>build_plan\<close> for a descriptor that passes the three filters: the only failures left are
  exceptions, and a plan that is ready is well formed.
\<close>

lemma build_plan_cases:
  assumes "supported_desc desc" and "tuned_sound lib" and "lib_ensure_device lib = (FLAGFFT_SUCCESS, index, arch)"
    and "\<not> (cfg_backend_name (lib_cfg lib) = ''npu'' \<and> double_type (d_type desc))"
  obtains (ready) nd fwd bwd compiled where
      "compile_plan lib (desc\<lparr>d_device_index := index, d_device_arch := arch\<rparr>) nd fwd bwd = Inr compiled"
      "plan_ok (product (d_n desc)) nd"
      "build_plan lib desc = Ready (finish_plan (desc\<lparr>d_device_index := index, d_device_arch := arch\<rparr>) nd fwd bwd compiled)"
    | (planner) e where "\<not> device_ready (lib_cfg lib) index" "build_plan lib desc = exn_result e"
    | (compiler) entry nd r b e where "lib_compile lib entry nd r b = Inl e" "build_plan lib desc = exn_result e"
proof -
  let ?d = "desc\<lparr>d_device_index := index, d_device_arch := arch\<rparr>"
  note pl = plans_root [of ?d lib, simplified, OF assms(1,2)]
  have b: "build_plan lib desc = (case fst (plan_root lib ?d new_builder) of
                 Inl e \<Rightarrow> exn_result e
               | Inr None \<Rightarrow> Failed FLAGFFT_NOT_SUPPORTED
               | Inr (Some (root_node, fwd, bwd)) \<Rightarrow>
                   (case compile_plan lib ?d root_node fwd bwd of
                      Inl e \<Rightarrow> exn_result e
                    | Inr compiled \<Rightarrow> Ready (finish_plan ?d root_node fwd bwd compiled)))"
    using assms by (auto simp: build_plan_def supported_desc_def double_type_def Let_def)
  show thesis
  proof (cases "fst (plan_root lib ?d new_builder)")
    case (Inl e)
    then show thesis using plans_exnD [OF pl new_builder_caches_ok Inl] b by (intro planner) simp_all
  next
    case (Inr x)
    with plans_resultD [OF pl new_builder_caches_ok Inr] obtain nd fwd bwd
      where x: "x = Some (nd, fwd, bwd)" and ok: "plan_ok (product (d_n desc)) nd" by (auto simp: root_ok_def)
    show thesis
    proof (cases "compile_plan lib ?d nd fwd bwd")
      case c: (Inl e)
      then obtain entry r where "lib_compile lib entry nd r (d_batch ?d) = Inl e"
        by (auto simp: compile_plan_def compile_one_def ebind_def Let_def split: sum.splits prod.splits option.splits)
      then show thesis using b Inr x c by (intro compiler) simp_all
    next
      case (Inr compiled)
      then show thesis using b \<open>fst _ = Inr x\<close> x ok by (intro ready) simp_all
    qed
  qed
qed

lemma build_plan_ready_wf:
  assumes "build_plan lib desc = Ready p" and "tuned_sound lib"
  shows "plan_wf p \<and> (\<exists>index arch. p_desc p = desc\<lparr>d_device_index := index, d_device_arch := arch\<rparr>)"
proof -
  obtain res index arch where dev: "lib_ensure_device lib = (res, index, arch)" by (cases "lib_ensure_device lib") auto
  have sup: "supported_desc desc" and ok: "res = FLAGFFT_SUCCESS"
    and nd: "\<not> (cfg_backend_name (lib_cfg lib) = ''npu'' \<and> double_type (d_type desc))"
    using assms(1) dev
    by (auto simp: build_plan_def supported_desc_def double_type_def Let_def split: if_splits)
  show ?thesis
  proof (rule build_plan_cases [OF sup assms(2) dev [unfolded ok] nd])
    fix nd fwd bwd compiled
    assume "compile_plan lib (desc\<lparr>d_device_index := index, d_device_arch := arch\<rparr>) nd fwd bwd = Inr compiled"
      "plan_ok (product (d_n desc)) nd"
      "build_plan lib desc = Ready (finish_plan (desc\<lparr>d_device_index := index, d_device_arch := arch\<rparr>) nd fwd bwd compiled)"
    then show ?thesis
      using assms(1) sup finish_plan_wf [of "desc\<lparr>d_device_index := index, d_device_arch := arch\<rparr>" nd lib fwd bwd compiled]
      by auto
  qed (use assms(1) in \<open>auto simp: exn_result_def split: exn.splits\<close>)
qed


text \<open>The platform works: there is a device, planning on it succeeds and the compiler does not throw.\<close>

definition platform_ready :: "('j, 'c) api_lib \<Rightarrow> bool" where
  "platform_ready lib \<longleftrightarrow>
     fst (lib_ensure_device lib) = FLAGFFT_SUCCESS \<and> device_ready (lib_cfg lib) (fst (snd (lib_ensure_device lib))) \<and>
     (\<forall>entry nd r b e. lib_compile lib entry nd r b \<noteq> Inl e) \<and> tuned_sound lib"

definition type_allowed :: "('j, 'c) api_lib \<Rightarrow> flagfft_type \<Rightarrow> bool" where
  "type_allowed lib type \<longleftrightarrow> known_type type \<and> \<not> (cfg_backend_name (lib_cfg lib) = ''npu'' \<and> double_type type)"

lemma build_plan_total:
  assumes "platform_ready lib" and "supported_desc desc" and "type_allowed lib (d_type desc)"
  shows "\<exists>p. build_plan lib desc = Ready p"
proof -
  obtain index arch where dev: "lib_ensure_device lib = (FLAGFFT_SUCCESS, index, arch)"
    using assms(1) by (cases "lib_ensure_device lib") (auto simp: platform_ready_def)
  have ok: "tuned_sound lib" "\<not> (cfg_backend_name (lib_cfg lib) = ''npu'' \<and> double_type (d_type desc))"
    "device_ready (lib_cfg lib) index" "\<And>entry nd r b e. lib_compile lib entry nd r b \<noteq> Inl e"
    using assms(1,3) dev by (auto simp: platform_ready_def type_allowed_def)
  show ?thesis
    by (rule build_plan_cases [OF assms(2) ok(1) dev ok(2)]) (use ok in auto)
qed

lemma build_plan_npu_double:
  assumes "platform_ready lib" and "supported_desc desc" and "known_type (d_type desc)" and "\<not> type_allowed lib (d_type desc)"
  shows "build_plan lib desc = Failed FLAGFFT_NOT_SUPPORTED"
  using assms by (auto simp: build_plan_def platform_ready_def supported_desc_def type_allowed_def double_type_def Let_def
      split: prod.splits)

section \<open>The planning entry points\<close>

definition made_plan :: "('j, 'c) api_lib \<Rightarrow> int list \<Rightarrow> flagfft_type \<Rightarrow> int \<Rightarrow> 'c api_state \<Rightarrow> 'c made outcome \<Rightarrow> bool" where
  "made_plan lib dims type batch s r \<longleftrightarrow>
     (\<exists>p. r = Value ((FLAGFFT_SUCCESS, Some (api_next s)),
                s\<lparr>api_heap := (api_heap s)(api_next s \<mapsto> p), api_next := api_next s + 1\<rparr>) \<and>
          plan_wf p \<and> d_n (p_desc p) = dims \<and> d_type (p_desc p) = type \<and> d_batch (p_desc p) = batch)"

lemma store_plan_made:
  assumes "platform_ready lib" and "supported_desc desc" and "type_allowed lib (d_type desc)"
  shows "made_plan lib (d_n desc) (d_type desc) (d_batch desc) s (store_plan (build_plan lib desc) s)"
proof -
  obtain p where p: "build_plan lib desc = Ready p" using build_plan_total [OF assms] by blast
  with build_plan_ready_wf [OF p] assms(1) show ?thesis
    by (auto simp: made_plan_def store_plan_def platform_ready_def)
qed

lemma type_metadata_known: "(case type_metadata type of Inl e \<Rightarrow> \<not> known_type type \<and> e = FLAGFFT_INVALID_TYPE | Inr _ \<Rightarrow> known_type type)"
  by (auto simp: type_metadata_def known_type_def)


text \<open>
  What a planning call for a compact layout answers: the checks in the order of the code, then a
  plan under a fresh handle.
\<close>

definition plan_result ::
  "('j, 'c) api_lib \<Rightarrow> bool \<Rightarrow> int list \<Rightarrow> flagfft_type \<Rightarrow> int \<Rightarrow> 'c api_state \<Rightarrow> 'c made outcome \<Rightarrow> bool" where
  "plan_result lib out dims type batch s r \<longleftrightarrow>
     (if \<not> out \<or> batch \<le> 0 then r = Value ((FLAGFFT_INVALID_VALUE, None), s)
      else if \<exists>n \<in> set dims. n \<le> 0 then r = Value ((FLAGFFT_INVALID_SIZE, None), s)
      else if \<not> known_type type then r = Value ((FLAGFFT_INVALID_TYPE, None), s)
      else if \<not> type_allowed lib type then r = Value ((FLAGFFT_NOT_SUPPORTED, None), s)
      else made_plan lib dims type batch s r)"

definition compact_dims :: "bool \<Rightarrow> int list \<Rightarrow> int list" where
  "compact_dims halved dims = (if halved then butlast dims @ [List.last dims div 2 + 1] else dims)"

lemma default_embed_compact:
  "dims \<noteq> [] \<Longrightarrow> length dims \<le> 3 \<Longrightarrow> default_embed halved (int (length dims)) dims = compact_dims halved dims"
  by (cases dims; cases "tl dims"; cases "tl (tl dims)") (auto simp: default_embed_def compact_dims_def)

lemma compact_supported:
  assumes "d_n desc \<noteq> []" and "length (d_n desc) \<le> 3" and "d_rank desc = int (length (d_n desc))"
    and "\<forall>n \<in> set (d_n desc). 0 < n" and "known_type (d_type desc)" and "0 < d_batch desc"
    and "d_istride desc = 1" and "d_ostride desc = 1"
    and "d_inembed desc = compact_dims (real_inverse (d_type desc)) (d_n desc)"
    and "d_onembed desc = compact_dims (real_forward (d_type desc)) (d_n desc)"
    and "d_idist desc = prod_list (d_inembed desc)" and "d_odist desc = prod_list (d_onembed desc)"
  shows "supported_desc desc"
proof -
  consider n where "d_n desc = [n]" | n0 n1 where "d_n desc = [n0, n1]" | n0 n1 n2 where "d_n desc = [n0, n1, n2]"
    using assms(1,2) by (cases "d_n desc"; cases "tl (d_n desc)"; cases "tl (tl (d_n desc))") auto
  then show ?thesis
  proof cases
    case 1
    then have "is_supported_minimal_desc desc"
      using assms by (simp add: is_supported_minimal_desc_def compact_dims_def Let_def)
    then show ?thesis by (simp add: supported_desc_def)
  next
    case 2
    then have "is_supported_2d_desc desc"
      using assms by (simp add: is_supported_2d_desc_def compact_dims_def Let_def)
    then show ?thesis by (simp add: supported_desc_def)
  next
    case 3
    then have "is_supported_3d_desc desc"
      using assms by (simp add: is_supported_3d_desc_def compact_dims_def Let_def mult.assoc)
    then show ?thesis by (simp add: supported_desc_def)
  qed
qed

lemma plan_many_compact:
  assumes "platform_ready lib" and "dims \<noteq> []" and "length dims \<le> 3" and "rank = int (length dims)"
    and "(\<forall>n \<in> set dims. 0 < n) \<Longrightarrow> idist = prod_list (compact_dims (real_inverse type) dims)"
    and "(\<forall>n \<in> set dims. 0 < n) \<Longrightarrow> odist = prod_list (compact_dims (real_forward type) dims)"
  shows "plan_result lib out dims type batch s
    (flagfftPlanMany lib out rank (Some dims) None 1 idist None 1 odist type batch s)"
proof (cases "out \<and> 0 < batch \<and> (\<forall>n \<in> set dims. 0 < n) \<and> known_type type")
  case False
  then show ?thesis
    using assms(2,3,4) type_metadata_known [of type]
    by (auto simp: plan_result_def flagfftPlanMany_def list_ex_iff copy_dims_def not_le split: sum.splits)
next
  case True
  then obtain pr k ri ro where meta: "type_metadata type = Inr (pr, k, ri, ro)"
    using type_metadata_known [of type] by (cases "type_metadata type") auto
  let ?desc = "\<lparr>d_rank = rank, d_n = dims, d_inembed = compact_dims (real_inverse type) dims, d_istride = 1, d_idist = idist,
      d_onembed = compact_dims (real_forward type) dims, d_ostride = 1, d_odist = odist, d_batch = batch, d_type = type,
      d_precision = pr, d_kind = k, d_real_input = ri, d_real_output = ro, d_device_index = 0, d_device_arch = ''''\<rparr>"
  have sup: "supported_desc ?desc"
    using True assms by (intro compact_supported) auto
  have call: "flagfftPlanMany lib out rank (Some dims) None 1 idist None 1 odist type batch s =
      store_plan (build_plan lib ?desc) s"
    using True assms(2,3,4) meta
    by (auto simp: flagfftPlanMany_def list_ex_iff copy_dims_def embed_dims_def default_embed_compact)
  show ?thesis
  proof (cases "type_allowed lib type")
    case allowed: True
    with store_plan_made [OF assms(1) sup, of s] True show ?thesis
      unfolding call by (auto simp: plan_result_def)
  next
    case False
    with build_plan_npu_double [OF assms(1) sup] True show ?thesis
      unfolding call by (auto simp: plan_result_def store_plan_def)
  qed
qed


lemma half_length_pos: "0 \<le> n \<Longrightarrow> half_length n = n div 2 + 1"
  by (cases "n = 0") (simp_all add: half_length_def signed_divide_int_def)

lemma half_length_between:
  "0 < n \<and> 0 < half_length n \<and> half_length n \<le> n \<or> n \<in> {0, -1} \<and> half_length n = 1 \<or> n \<le> -2 \<and> n \<le> half_length n \<and> half_length n \<le> 0"
proof -
  consider "0 < n" | "n \<in> {0, -1}" | "n \<le> -2" by force
  then show ?thesis
  proof cases
    case 3
    then have "half_length n = 1 - (- n) div 2" by (simp add: half_length_def signed_divide_int_def)
    with 3 show ?thesis by linarith
  qed (auto simp: half_length_def signed_divide_int_def)
qed

lemma fits32_between: "fits32 a \<Longrightarrow> fits32 b \<Longrightarrow> a \<le> x \<and> x \<le> b \<or> b \<le> x \<and> x \<le> a \<Longrightarrow> fits32 x"
  by (auto simp: fits32_def)

lemma fits32_half:
  assumes "fits32 a" and "fits32 (a * n)"
  shows "fits32 (a * half_length n)"
proof -
  have between: "fits32 (a * x)" if "0 \<le> x \<and> x \<le> n \<or> n \<le> x \<and> x \<le> 0" for x
  proof (rule fits32_between [of 0 "a * n"])
    show "0 \<le> a * x \<and> a * x \<le> a * n \<or> a * n \<le> a * x \<and> a * x \<le> 0"
      using that by (cases "0 \<le> a")
        (auto simp: mult_left_mono mult_left_mono_neg zero_le_mult_iff mult_le_0_iff)
  qed (use assms(2) in \<open>simp_all add: fits32_def\<close>)
  show ?thesis
    using half_length_between [of n] between [of "half_length n"] assms(1) by auto
qed


lemma plan1d_compact:
  assumes "platform_ready lib"
  shows "plan_result lib out [nx] type batch s (flagfftPlan1d lib out nx type batch s)"
  unfolding flagfftPlan1d_def
  by (rule plan_many_compact [OF assms]) (auto simp: compact_dims_def half_length_pos)

lemma plan2d_compact:
  assumes "platform_ready lib" and "fits32 nx"
  shows "if fits32 (nx * ny) then plan_result lib out [nx, ny] type 1 s (flagfftPlan2d lib out nx ny type s)
         else flagfftPlan2d lib out nx ny type s = UB"
proof (cases "fits32 (nx * ny)")
  case True
  then have "flagfftPlan2d lib out nx ny type s =
      flagfftPlanMany lib out 2 (Some [nx, ny]) None 1 (if real_inverse type then nx * half_length ny else nx * ny) None 1
        (if real_forward type then nx * half_length ny else nx * ny) type 1 s"
    using fits32_half [OF assms(2) True] by (simp add: flagfftPlan2d_def int_mul_def int_value_def)
  moreover have "plan_result lib out [nx, ny] type 1 s (\<dots>)"
    by (rule plan_many_compact [OF assms(1)]) (auto simp: compact_dims_def half_length_pos)
  ultimately show ?thesis using True by simp
next
  case False
  then show ?thesis by (auto simp: flagfftPlan2d_def int_mul_def int_value_def)
qed

lemma plan3d_compact:
  assumes "platform_ready lib"
  shows "if fits32 (nx * ny) \<and> fits32 (nx * ny * nz)
         then plan_result lib out [nx, ny, nz] type 1 s (flagfftPlan3d lib out nx ny nz type s)
         else flagfftPlan3d lib out nx ny nz type s = UB"
proof (cases "fits32 (nx * ny) \<and> fits32 (nx * ny * nz)")
  case True
  then have "flagfftPlan3d lib out nx ny nz type s =
      flagfftPlanMany lib out 3 (Some [nx, ny, nz]) None 1 (nx * ny * (if real_inverse type then half_length nz else nz)) None 1
        (nx * ny * (if real_forward type then half_length nz else nz)) type 1 s"
    using fits32_half [of "nx * ny" nz] by (simp add: flagfftPlan3d_def int_mul_def int_value_def)
  moreover have "plan_result lib out [nx, ny, nz] type 1 s (\<dots>)"
    by (rule plan_many_compact [OF assms(1)]) (auto simp: compact_dims_def half_length_pos)
  ultimately show ?thesis using True by simp
next
  case False
  then show ?thesis by (auto simp: flagfftPlan3d_def int_mul_def int_value_def)
qed

section \<open>Histories of calls\<close>

text \<open>
  A step is one call that returns: planning (whatever it answers), binding a stream, destroying a
  handle, asking for the description. Execution does not change the state.
\<close>

inductive api_step :: "('j, 'c) api_lib \<Rightarrow> 'c api_state \<Rightarrow> 'c api_state \<Rightarrow> bool" for lib where
  step_plan: "flagfftPlanMany lib out rank n inembed istride idist onembed ostride odist type batch s = Value (res, s') \<Longrightarrow>
    api_step lib s s'"
| step_stream: "flagfftSetStream h st s = Value (res, s') \<Longrightarrow> api_step lib s s'"
| step_destroy: "flagfftDestroy h s = Value (res, s') \<Longrightarrow> api_step lib s s'"
| step_describe: "flagfftGetPlanDescription lib h s = Value (text, s') \<Longrightarrow> api_step lib s s'"

inductive api_reachable :: "('j, 'c) api_lib \<Rightarrow> 'c api_state \<Rightarrow> bool" for lib where
  api_start: "api_reachable lib api_init"
| api_next_step: "api_reachable lib s \<Longrightarrow> api_step lib s s' \<Longrightarrow> api_reachable lib s'"

inductive_cases api_stepE: "api_step lib s s'"

text \<open>Live plans are well formed, their handles were given out, and a cached description is current.\<close>

definition plan_inv :: "('j, 'c) api_lib \<Rightarrow> 'c ff_plan \<Rightarrow> bool" where
  "plan_inv lib p \<longleftrightarrow> plan_wf p \<and> (p_description_cache p = '''' \<or> p_description_cache p = plan_description lib p)"

definition api_ok :: "('j, 'c) api_lib \<Rightarrow> 'c api_state \<Rightarrow> bool" where
  "api_ok lib s \<longleftrightarrow> (\<forall>a p. api_heap s a = Some p \<longrightarrow> plan_inv lib p \<and> a < api_next s)"

lemma api_ok_init: "api_ok lib api_init"
  by (simp add: api_ok_def api_init_def)

lemma plan_inv_updates [simp]:
  "plan_inv lib p \<Longrightarrow> plan_inv lib (p\<lparr>p_stream := st\<rparr>)"
  "plan_inv lib p \<Longrightarrow> plan_inv lib (p\<lparr>p_description_cache := plan_description lib p\<rparr>)"
  by (auto simp: plan_inv_def plan_wf_def plan_description_def)

lemma api_ok_create: "api_ok lib s \<Longrightarrow> plan_inv lib p \<Longrightarrow>
   api_ok lib (s\<lparr>api_heap := (api_heap s)(api_next s \<mapsto> p), api_next := api_next s + 1\<rparr>)"
  by (auto simp: api_ok_def less_Suc_eq)

lemma api_ok_update: "api_ok lib s \<Longrightarrow> api_heap s a = Some p \<Longrightarrow> plan_inv lib p' \<Longrightarrow>
   api_ok lib (s\<lparr>api_heap := (api_heap s)(a \<mapsto> p')\<rparr>)"
  by (auto simp: api_ok_def)

lemma api_ok_remove: "api_ok lib s \<Longrightarrow> api_ok lib (s\<lparr>api_heap := (api_heap s)(a := None)\<rparr>)"
  by (auto simp: api_ok_def)

lemma api_okD: "api_ok lib s \<Longrightarrow> api_heap s a = Some p \<Longrightarrow> plan_inv lib p"
  by (simp add: api_ok_def)

lemma obind_Value: "obind r f = Value y \<longleftrightarrow> (\<exists>x. r = Value x \<and> f x = Value y)"
  by (cases r) simp_all

text \<open>What each call that returns does to the handles.\<close>

lemma store_plan_effect:
  "store_plan r s = Value ((res, h), s') \<Longrightarrow> h = None \<and> s' = s \<or>
    (\<exists>p. r = Ready p \<and> res = FLAGFFT_SUCCESS \<and> h = Some (api_next s) \<and>
       s' = s\<lparr>api_heap := (api_heap s)(api_next s \<mapsto> p), api_next := api_next s + 1\<rparr>)"
  by (auto simp: store_plan_def split: plan_setup.splits)

lemma plan_many_effect:
  assumes "flagfftPlanMany lib out rank n inembed istride idist onembed ostride odist type batch s = Value ((res, h), s')"
  shows "h = None \<and> s' = s \<or>
    (\<exists>desc p. build_plan lib desc = Ready p \<and> res = FLAGFFT_SUCCESS \<and> h = Some (api_next s) \<and>
       s' = s\<lparr>api_heap := (api_heap s)(api_next s \<mapsto> p), api_next := api_next s + 1\<rparr>)"
proof -
  have "h = None \<and> s' = s \<or> (\<exists>desc. store_plan (build_plan lib desc) s = Value ((res, h), s'))"
  proof (cases "type_metadata type")
    case (Inl e)
    with assms show ?thesis by (auto simp: flagfftPlanMany_def obind_Value split: if_splits)
  next
    case (Inr m)
    with assms show ?thesis by (cases m) (auto simp: flagfftPlanMany_def obind_Value split: if_splits)
  qed
  then show ?thesis using store_plan_effect by blast
qed

lemma set_stream_effect:
  assumes "flagfftSetStream h st s = Value (res, s')"
  shows "s' = s \<or> (\<exists>a p. h = Some a \<and> api_heap s a = Some p \<and> s' = s\<lparr>api_heap := (api_heap s)(a \<mapsto> p\<lparr>p_stream := st\<rparr>)\<rparr>)"
  using assms by (auto simp: flagfftSetStream_def checked_plan_def split: option.splits if_splits)

lemma destroy_effect:
  assumes "flagfftDestroy h s = Value (res, s')"
  shows "s' = s \<or> (\<exists>a p. h = Some a \<and> api_heap s a = Some p \<and> s' = s\<lparr>api_heap := (api_heap s)(a := None)\<rparr>)"
  using assms by (auto simp: flagfftDestroy_def checked_plan_def split: option.splits)

lemma describe_effect:
  assumes "flagfftGetPlanDescription lib h s = Value (text, s')"
  shows "s' = s \<or> (\<exists>a p. h = Some a \<and> api_heap s a = Some p \<and>
    s' = s\<lparr>api_heap := (api_heap s)(a \<mapsto> p\<lparr>p_description_cache := plan_description lib p\<rparr>)\<rparr>)"
  using assms by (auto simp: flagfftGetPlanDescription_def checked_plan_def Let_def split: option.splits if_splits)

lemma api_step_effect:
  assumes "api_step lib s s'"
  obtains (stay) "s' = s"
    | (create) desc p where "build_plan lib desc = Ready p"
        "s' = s\<lparr>api_heap := (api_heap s)(api_next s \<mapsto> p), api_next := api_next s + 1\<rparr>"
    | (stream) a p st where "api_heap s a = Some p" "s' = s\<lparr>api_heap := (api_heap s)(a \<mapsto> p\<lparr>p_stream := st\<rparr>)\<rparr>"
    | (destroy) a p where "api_heap s a = Some p" "s' = s\<lparr>api_heap := (api_heap s)(a := None)\<rparr>"
    | (describe) a p where "api_heap s a = Some p"
        "s' = s\<lparr>api_heap := (api_heap s)(a \<mapsto> p\<lparr>p_description_cache := plan_description lib p\<rparr>)\<rparr>"
  using assms
proof (cases rule: api_step.cases)
  case (step_plan out rank n inembed istride idist onembed ostride odist type batch res)
  then show thesis using plan_many_effect stay create by (cases res) blast
next
  case (step_stream h st res)
  from set_stream_effect [OF this] show thesis using stay stream by blast
next
  case (step_destroy h res)
  from destroy_effect [OF this] show thesis using stay destroy by blast
next
  case (step_describe h str)
  from describe_effect [OF this] show thesis using stay describe by blast
qed

lemma build_plan_inv: "build_plan lib desc = Ready p \<Longrightarrow> tuned_sound lib \<Longrightarrow> plan_inv lib p"
proof -
  assume r: "build_plan lib desc = Ready p" and t: "tuned_sound lib"
  have "p_description_cache p = ''''"
    using r by (auto simp: build_plan_def finish_plan_def exn_result_def Let_def
        split: if_splits prod.splits sum.splits option.splits exn.splits)
  with build_plan_ready_wf [OF r t] show ?thesis by (simp add: plan_inv_def)
qed

lemma api_step_ok:
  assumes "tuned_sound lib" and "api_step lib s s'" and "api_ok lib s"
  shows "api_ok lib s'"
  using assms(2)
proof (cases rule: api_step_effect)
  case (create desc p)
  then show ?thesis using build_plan_inv assms api_ok_create by blast
qed (use assms(3) in \<open>auto intro!: api_ok_update api_ok_remove dest: api_okD\<close>)

lemma api_reachable_inv: "api_reachable lib s \<Longrightarrow> tuned_sound lib \<Longrightarrow> api_ok lib s"
  by (induction rule: api_reachable.induct) (auto intro: api_ok_init api_step_ok)

end
