(* ===== verification/FFT_CApiSafety.thy ===== *)
theory FFT_CApiSafety
  imports FFT_CApiFacts
begin

text \<open>
  The properties of the C interface: what each planning entry point answers, the invariant of live
  plans over every history of calls, what execution answers on null and live handles, the
  simulation of an abstract table of handles, and the exactness of the factor test of the SiP build.
\<close>

section \<open>Execution\<close>

text \<open>
  The answer of an execution entry point for transforms of \<open>type\<close>: a code for each kind of misuse, in
  the order of the checks, or the result of running the executable of the asked direction.
\<close>

definition exec_spec ::
  "('j, 'c) api_lib \<Rightarrow> flagfft_type \<Rightarrow> handle \<Rightarrow> device_ptr option \<Rightarrow> device_ptr option \<Rightarrow> int \<Rightarrow> 'c api_state \<Rightarrow>
   flagfft_result outcome \<Rightarrow> bool" where
  "exec_spec lib type h idata odata direction s answer \<longleftrightarrow>
     (case h of
        None \<Rightarrow> answer = Value FLAGFFT_INVALID_PLAN
      | Some a \<Rightarrow> (\<exists>p. api_heap s a = Some p \<and>
          (if idata = None \<or> odata = None then answer = Value FLAGFFT_INVALID_VALUE
           else if d_type (p_desc p) \<noteq> type then answer = Value FLAGFFT_INVALID_TYPE
           else if direction \<noteq> FLAGFFT_FORWARD \<and> direction \<noteq> FLAGFFT_INVERSE then answer = Value FLAGFFT_INVALID_VALUE
           else \<exists>c. (if direction = FLAGFFT_INVERSE then p_inverse p else p_forward p) = Some c \<and>
                  answer = Value (lib_execute lib c (the idata) (the odata)
                    \<lparr>rc_request = (if direction = FLAGFFT_INVERSE then p_inverse_request p else p_forward_request p),
                     rc_stream = p_stream p, rc_batch = d_batch (p_desc p), rc_idist = d_idist (p_desc p),
                     rc_odist = d_odist (p_desc p)\<rparr>))))"

definition usable :: "'c api_state \<Rightarrow> handle \<Rightarrow> bool" where
  "usable s h \<longleftrightarrow> (case h of None \<Rightarrow> True | Some a \<Rightarrow> api_heap s a \<noteq> None)"

lemma directions_differ [simp]: "FLAGFFT_FORWARD \<noteq> FLAGFFT_INVERSE" "FLAGFFT_INVERSE \<noteq> FLAGFFT_FORWARD"
  by (simp_all add: FLAGFFT_FORWARD_def FLAGFFT_INVERSE_def)

lemmas exec_defs = exec_checked_def run_compiled_def checked_plan_def plan_inv_def plan_wf_def

lemma exec_complex_spec:
  assumes "api_ok lib s" and "usable s h" and "\<not> real_forward type" and "\<not> real_inverse type"
  shows "exec_spec lib type h idata odata direction s (exec_complex lib type h idata odata direction s)"
  using assms api_okD [OF assms(1)]
  by (auto simp: exec_spec_def usable_def exec_complex_def exec_defs split: option.splits)

lemma exec_forward_spec:
  assumes "api_ok lib s" and "usable s h" and "real_forward type"
  shows "exec_spec lib type h idata odata FLAGFFT_FORWARD s (exec_real_forward lib type h idata odata s)"
  using assms api_okD [OF assms(1)]
  by (auto simp: exec_spec_def usable_def exec_real_forward_def exec_defs split: option.splits)

lemma exec_inverse_spec:
  assumes "api_ok lib s" and "usable s h" and "real_inverse type"
  shows "exec_spec lib type h idata odata FLAGFFT_INVERSE s (exec_real_inverse lib type h idata odata s)"
  using assms api_okD [OF assms(1)] real_types_disjoint [of type]
  by (auto simp: exec_spec_def usable_def exec_real_inverse_def exec_defs split: option.splits)

section \<open>Handles\<close>

text \<open>The abstract table of handles: what a client can know of a plan, and the handles ever given out.\<close>

record handle_view =
  v_dims :: "int list"
  v_type :: flagfft_type
  v_batch :: int
  v_stream :: stream

type_synonym handle_table = "(nat \<rightharpoonup> handle_view) \<times> nat set"

inductive table_step :: "handle_table \<Rightarrow> handle_table \<Rightarrow> bool" where
  table_same: "table_step t t"
| table_create: "a \<notin> given \<Longrightarrow> v_dims v \<noteq> [] \<Longrightarrow> \<forall>n \<in> set (v_dims v). 0 < n \<Longrightarrow> 0 < v_batch v \<Longrightarrow> known_type (v_type v) \<Longrightarrow>
    v_stream v = 0 \<Longrightarrow> table_step (m, given) (m(a \<mapsto> v), insert a given)"
| table_stream: "m a = Some v \<Longrightarrow> table_step (m, given) (m(a \<mapsto> v\<lparr>v_stream := st\<rparr>), given)"
| table_destroy: "m a = Some v \<Longrightarrow> table_step (m, given) (m(a := None), given)"

definition view :: "'c ff_plan \<Rightarrow> handle_view" where
  "view p = \<lparr>v_dims = d_n (p_desc p), v_type = d_type (p_desc p), v_batch = d_batch (p_desc p), v_stream = p_stream p\<rparr>"

definition table_of :: "'c api_state \<Rightarrow> handle_table" where
  "table_of s = (map_option view \<circ> api_heap s, {a. a < api_next s})"

lemma view_updates [simp]:
  "view (p\<lparr>p_stream := st\<rparr>) = (view p)\<lparr>v_stream := st\<rparr>"
  "view (p\<lparr>p_description_cache := x\<rparr>) = view p"
  by (simp_all add: view_def)

lemma supported_desc_dims:
  "supported_desc desc \<Longrightarrow> d_n desc \<noteq> [] \<and> (\<forall>n \<in> set (d_n desc). 0 < n) \<and> 0 < d_batch desc \<and> known_type (d_type desc)"
  by (auto simp: supported_desc_def dest!: supported_minimalD supported_2dD supported_3dD)

lemma build_plan_stream: "build_plan lib desc = Ready p \<Longrightarrow> p_stream p = 0"
  by (auto simp: build_plan_def finish_plan_def exn_result_def Let_def
      split: if_splits prod.splits sum.splits option.splits exn.splits)

lemma table_simulation:
  assumes "tuned_sound lib" and "api_step lib s s'"
  shows "table_step (table_of s) (table_of s')"
  using assms(2)
proof (cases rule: api_step_effect)
  case stay
  then show ?thesis by (simp add: table_same)
next
  case (create desc p)
  have wf: "plan_wf p" using build_plan_ready_wf create(1) assms(1) by blast
  have "table_of s' = ((fst (table_of s))(api_next s \<mapsto> view p), insert (api_next s) (snd (table_of s)))"
    using create(2) by (auto simp: table_of_def)
  moreover have "table_step (table_of s) \<dots>"
    unfolding table_of_def fst_conv snd_conv
    by (rule table_create)
      (use supported_desc_dims [of "p_desc p"] wf build_plan_stream [OF create(1)] in \<open>auto simp: view_def plan_wf_def\<close>)
  ultimately show ?thesis by simp
next
  case (stream a p st)
  then have "table_of s' = ((fst (table_of s))(a \<mapsto> (view p)\<lparr>v_stream := st\<rparr>), snd (table_of s))"
    by (auto simp: table_of_def)
  moreover have "table_step (table_of s) \<dots>"
    unfolding table_of_def fst_conv snd_conv by (rule table_stream) (use stream in simp)
  ultimately show ?thesis by simp
next
  case (destroy a p)
  then have "table_of s' = ((fst (table_of s))(a := None), snd (table_of s))" by (auto simp: table_of_def)
  moreover have "table_step (table_of s) \<dots>"
    unfolding table_of_def fst_conv snd_conv by (rule table_destroy [where v = "view p"]) (use destroy in simp)
  ultimately show ?thesis by simp
next
  case (describe a p)
  then have "table_of s' = table_of s" by (auto simp: table_of_def)
  then show ?thesis by (simp add: table_same)
qed


section \<open>The factor test of the SiP build\<close>

lemma sip_strip_spec:
  assumes "0 < len" and "1 < factor"
  shows "0 < sip_strip len factor \<and> \<not> factor dvd sip_strip len factor \<and>
    (\<forall>p. prime_int p \<longrightarrow> p dvd len \<longrightarrow> p dvd sip_strip len factor \<or> p dvd factor) \<and> sip_strip len factor dvd len"
  using assms
proof (induction len factor rule: sip_strip.induct)
  case (1 len factor)
  show ?case
  proof (cases "len mod factor = 0")
    case True
    then obtain q where q: "len = factor * q" by (auto simp: mod_eq_0_iff_dvd dvd_def)
    with "1.prems" have qpos: "0 < q" "len div factor = q" by (auto simp: zero_less_mult_iff)
    have ih: "0 < sip_strip q factor \<and> \<not> factor dvd sip_strip q factor \<and>
      (\<forall>p. prime_int p \<longrightarrow> p dvd q \<longrightarrow> p dvd sip_strip q factor \<or> p dvd factor) \<and> sip_strip q factor dvd q"
      using "1.IH" "1.prems" True qpos by simp
    have "sip_strip len factor = sip_strip q factor"
      using sip_strip.simps [of len factor] "1.prems" True qpos by simp
    with ih q qpos show ?thesis by (auto simp: prime_int_mult_dvd dvd_mult)
  next
    case False
    then have "sip_strip len factor = len" using sip_strip.simps [of len factor] by simp
    with False "1.prems" show ?thesis by (auto simp: mod_eq_0_iff_dvd)
  qed
qed

lemma no_small_factors_prime:
  assumes "1 < len" and "len < factor * factor" and "0 < factor" and "\<forall>p. prime_int p \<longrightarrow> p dvd len \<longrightarrow> factor \<le> p"
  shows "prime_int len"
  unfolding prime_int_def
proof (intro conjI allI impI notI)
  have large: "factor \<le> d" if d: "1 < d" "d dvd len" for d
  proof -
    obtain p where p: "prime_int p" "p dvd d" using prime_factor_exists [OF d(1)] by blast
    then have "factor \<le> p" using assms(4) dvd_trans [OF p(2) d(2)] by simp
    also have "p \<le> d" using zdvd_imp_le [OF p(2)] d(1) by simp
    finally show ?thesis .
  qed
  fix d assume d: "1 < d \<and> d < len" "d dvd len"
  then obtain e where e: "len = d * e" by (auto simp: dvd_def)
  with d assms(1) have "0 < e" "e \<noteq> 1" by (auto simp: zero_less_mult_iff)
  then have "factor \<le> e" using large [of e] e by simp
  then have "factor * factor \<le> d * e" using large [of d] d assms(3) by (intro mult_mono) auto
  with e assms(2) show False by simp
qed (fact assms(1))

lemma sip_loop_spec:
  assumes "0 < len" and "2 \<le> factor" and "factor \<le> 200" and "\<forall>p. prime_int p \<longrightarrow> p dvd len \<longrightarrow> factor \<le> p"
  shows "sip_loop factor len \<le> 199 \<longleftrightarrow> (\<forall>p. prime_int p \<longrightarrow> p dvd len \<longrightarrow> p \<le> 199)"
  using assms
proof (induction factor len rule: sip_loop.induct)
  case (1 factor len)
  show ?case
  proof (cases "factor \<le> 199 \<and> factor * factor \<le> len")
    case True
    let ?q = "sip_strip len factor"
    note st = sip_strip_spec [of len factor]
    have small: "p \<le> 199" if "p dvd factor" for p
      using zdvd_imp_le [OF that] True "1.prems" by simp
    have above: "factor + 1 \<le> p" if "prime_int p" "p dvd ?q" for p
    proof -
      have "p dvd len" using that(2) st "1.prems" dvd_trans by auto
      then have "factor \<le> p" using "1.prems"(4) that(1) by blast
      moreover have "p \<noteq> factor" using st "1.prems" that(2) by auto
      ultimately show ?thesis by simp
    qed
    have "sip_loop factor len = sip_loop (factor + 1) ?q" using sip_loop.simps [of factor len] True by simp
    also have "\<dots> \<le> 199 \<longleftrightarrow> (\<forall>p. prime_int p \<longrightarrow> p dvd ?q \<longrightarrow> p \<le> 199)"
      using "1.IH" [OF True] st "1.prems" above True by simp
    also have "\<dots> \<longleftrightarrow> (\<forall>p. prime_int p \<longrightarrow> p dvd len \<longrightarrow> p \<le> 199)"
      using st "1.prems" small by (meson dvd_trans less_le_trans zero_less_one one_less_numeral_iff semiring_norm(76) order_trans)
    finally show ?thesis .
  next
    case False
    then have eq: "sip_loop factor len = len" using sip_loop.simps [of factor len] by (simp only: if_False)
    have "len \<le> 199 \<longleftrightarrow> (\<forall>p. prime_int p \<longrightarrow> p dvd len \<longrightarrow> p \<le> 199)"
    proof (cases "factor \<le> 199 \<and> 1 < len")
      case True
      then have "prime_int len" using no_small_factors_prime [of len factor] "1.prems" False by simp
      then show ?thesis using zdvd_imp_le [of _ len] "1.prems"(1) by (auto intro: order_trans)
    next
      case big: False
      show ?thesis
      proof (cases "1 < len")
        case True
        with prime_factor_exists [of len] obtain p where p: "prime_int p" "p dvd len" by blast
        have "200 \<le> p" using "1.prems" p big True by force
        moreover have "p \<le> len" using p(2) "1.prems"(1) zdvd_imp_le by blast
        ultimately show ?thesis using p by force
      next
        case one: False
        then have "len = 1" using "1.prems"(1) by simp
        then show ?thesis by (auto dest: prime_intD)
      qed
    qed
    with eq show ?thesis by simp
  qed
qed


section \<open>A platform for the examples\<close>

definition example_lib :: "(json_tree, compile_entry) api_lib" where
  "example_lib =
     \<lparr>lib_cfg = example_cfg, lib_json = tree_ops,
      lib_io = \<lparr>io_default_db = '''', io_is_regular_file = (\<lambda>_. False), io_select = (\<lambda>_ _. Inr None)\<rparr>,
      lib_ensure_device = (FLAGFFT_SUCCESS, 0, ''sm_90''), lib_compile = (\<lambda>entry _ _ _. Inr entry),
      lib_graph = (\<lambda>c. c), lib_execute = (\<lambda>_ _ _ _. FLAGFFT_SUCCESS), lib_describe = (\<lambda>_. ''compiled'')\<rparr>"

lemma example_lib_ready: "platform_ready example_lib" "tuned_sound example_lib"
  by (simp_all add: platform_ready_def tuned_sound_def device_ready_def no_overrides_def example_lib_def example_cfg_def
      lookup_tuned_plan_json_def split: option.splits)

lemma example_lib_types: "type_allowed example_lib type \<longleftrightarrow> known_type type"
  by (simp add: type_allowed_def example_lib_def example_cfg_def)

lemma example_plan:
  "\<exists>s p. api_step example_lib api_init s \<and> api_heap s 0 = Some p \<and> d_type (p_desc p) = FLAGFFT_C2C"
proof -
  obtain p s where p: "flagfftPlan1d example_lib True 8 FLAGFFT_C2C 1 api_init = Value ((FLAGFFT_SUCCESS, Some 0), s)"
    "api_heap s 0 = Some p" "d_type (p_desc p) = FLAGFFT_C2C"
    using plan1d_compact [OF example_lib_ready(1), of True 8 FLAGFFT_C2C 1 api_init] example_lib_types
    by (auto simp: plan_result_def known_type_def made_plan_def api_init_def)
  then show ?thesis using step_plan [OF p(1) [unfolded flagfftPlan1d_def]] by blast
qed

section \<open>Properties\<close>

text \<open>
  C7. \<open>flagfftPlan1d\<close> end to end: on a working platform every call with positive length and batch and
  a known type makes a well-formed plan under a fresh handle and leaves the other handles alone.
  A missing handle pointer or a bad batch, a bad length, an unknown type and a double type on an
  NPU are answered, in that order, by their codes, with a null handle and nothing changed.
\<close>

theorem plan1d_answers:
  assumes "platform_ready lib"
  shows "plan_result lib out [nx] type batch s (flagfftPlan1d lib out nx type batch s)"
  by (rule plan1d_compact [OF assms])

theorem plan1d_answers_witness:
  "made_plan example_lib [1009] FLAGFFT_R2C 3 api_init (flagfftPlan1d example_lib True 1009 FLAGFFT_R2C 3 api_init)"
  using plan1d_answers [OF example_lib_ready(1), of True 1009 FLAGFFT_R2C 3 api_init] example_lib_types
  by (simp add: plan_result_def known_type_def)

text \<open>
  C15. \<open>flagfftPlan2d\<close>: the same answers whenever the product of the lengths fits in a C \<open>int\<close>; when
  it does not, the call has undefined behaviour, also for lengths that are individually fine.
\<close>

theorem plan2d_answers:
  assumes "platform_ready lib" and "fits32 nx"
  shows "if fits32 (nx * ny) then plan_result lib out [nx, ny] type 1 s (flagfftPlan2d lib out nx ny type s)
         else flagfftPlan2d lib out nx ny type s = UB"
  by (rule plan2d_compact [OF assms])

theorem plan2d_answers_witness:
  "made_plan example_lib [480, 640] FLAGFFT_C2C 1 api_init (flagfftPlan2d example_lib True 480 640 FLAGFFT_C2C api_init) \<and>
   flagfftPlan2d example_lib True 65536 65536 FLAGFFT_C2C api_init = UB"
  using plan2d_answers [OF example_lib_ready(1), of 480 640 True FLAGFFT_C2C api_init]
    plan2d_answers [OF example_lib_ready(1), of 65536 65536 True FLAGFFT_C2C api_init] example_lib_types
  by (simp add: plan_result_def known_type_def fits32_def)

text \<open>
  C16. \<open>flagfftPlan3d\<close>: the same, with both partial products \<open>nx * ny\<close> and \<open>nx * ny * nz\<close> computed in
  C \<open>int\<close> arithmetic.
\<close>

theorem plan3d_answers:
  assumes "platform_ready lib"
  shows "if fits32 (nx * ny) \<and> fits32 (nx * ny * nz)
         then plan_result lib out [nx, ny, nz] type 1 s (flagfftPlan3d lib out nx ny nz type s)
         else flagfftPlan3d lib out nx ny nz type s = UB"
  by (rule plan3d_compact [OF assms])

theorem plan3d_answers_witness:
  "made_plan example_lib [16, 997, 64] FLAGFFT_D2Z 1 api_init (flagfftPlan3d example_lib True 16 997 64 FLAGFFT_D2Z api_init)"
  using plan3d_answers [OF example_lib_ready(1), of 16 997 64 True FLAGFFT_D2Z api_init] example_lib_types
  by (simp add: plan_result_def known_type_def fits32_def)



text \<open>
  C8. Execution is never undefined on a null or a live handle, in any reachable state: each of the
  six entry points answers the code of the first check that fails, or the result of running a
  compiled executable, which is present, in the asked direction and on the bound stream.
\<close>

theorem execution_answers:
  assumes "api_reachable lib s" and "tuned_sound lib" and "usable s h"
  shows "exec_spec lib FLAGFFT_C2C h idata odata direction s (flagfftExecC2C lib h idata odata direction s) \<and>
    exec_spec lib FLAGFFT_Z2Z h idata odata direction s (flagfftExecZ2Z lib h idata odata direction s) \<and>
    exec_spec lib FLAGFFT_R2C h idata odata FLAGFFT_FORWARD s (flagfftExecR2C lib h idata odata s) \<and>
    exec_spec lib FLAGFFT_D2Z h idata odata FLAGFFT_FORWARD s (flagfftExecD2Z lib h idata odata s) \<and>
    exec_spec lib FLAGFFT_C2R h idata odata FLAGFFT_INVERSE s (flagfftExecC2R lib h idata odata s) \<and>
    exec_spec lib FLAGFFT_Z2D h idata odata FLAGFFT_INVERSE s (flagfftExecZ2D lib h idata odata s)"
  unfolding exec_entry_defs
  by (intro conjI exec_complex_spec exec_forward_spec exec_inverse_spec api_reachable_inv [OF assms(1,2)] assms(3))
    (auto simp: real_forward_def real_inverse_def type_defs)

theorem execution_answers_witness:
  "\<exists>s. api_reachable example_lib s \<and> flagfftExecC2C example_lib (Some 0) (Some 1) (Some 2) FLAGFFT_INVERSE s = Value FLAGFFT_SUCCESS"
proof -
  obtain p s where p: "api_step example_lib api_init s" "api_heap s 0 = Some p" "d_type (p_desc p) = FLAGFFT_C2C"
    using example_plan by blast
  have "api_reachable example_lib s" by (rule api_next_step [OF api_start p(1)])
  with execution_answers [OF this example_lib_ready(2), of "Some 0" "Some 1" "Some 2" FLAGFFT_INVERSE] p show ?thesis
    by (auto simp: usable_def exec_spec_def example_lib_def)
qed



text \<open>
  C37. The factor test of the SiP build accepts exactly the lengths without a prime factor above 199.
\<close>

theorem sip_factor_limit_exact:
  assumes "0 < n"
  shows "sip_factor_limit n \<longleftrightarrow> (\<forall>p. prime_int p \<longrightarrow> p dvd n \<longrightarrow> p \<le> 199)"
  unfolding sip_factor_limit_def by (rule sip_loop_spec) (use assms in \<open>auto dest: prime_intD\<close>)

theorem sip_factor_limit_exact_witness:
  "sip_factor_limit 398 \<and> (\<nexists>p. prime_int p \<and> p dvd 398 \<and> 199 < p)"
proof -
  have "sip_factor_limit 398" by code_simp
  with sip_factor_limit_exact [of 398] show ?thesis by (auto simp: not_less [symmetric])
qed

end
