(* ===== verification/FFT_JitCache.thy ===== *)
theory FFT_JitCache
  imports FFT_Planner FFT_PlanJson
begin

text \<open>
  The cache of generated kernels (\<open>codegen/jit_cache.cpp\<close>, \<open>JitKernel::compile\<close> of
  \<open>codegen/jit_kernel.cpp\<close>): the text that identifies a request, the directory name hashed from it,
  the command line of the code generator, the reader of its answer, and \<open>compile_kernel\<close> itself.
  \<open>jit_world\<close> collects what lies outside: the environment, the adaptor's answers, the file lock, the
  generator process and the loader of the kernel library.
\<close>

section \<open>Requests\<close>

definition fnv_prime :: "64 word" where "fnv_prime = 1099511628211"

fun fnv_stream :: "64 word \<Rightarrow> string \<Rightarrow> 64 word" where
  "fnv_stream h [] = h"
| "fnv_stream h (ch # cs) = fnv_stream ((h XOR of_char ch) * fnv_prime) cs"

definition hex_char :: "nat \<Rightarrow> char" where
  "hex_char d = (if d < 10 then char_of (48 + d) else char_of (87 + d))"

text \<open>The low \<open>k\<close> hexadecimal digits, the highest first.\<close>

fun hex_fixed :: "nat \<Rightarrow> nat \<Rightarrow> string" where
  "hex_fixed 0 n = []"
| "hex_fixed (Suc k) n = hex_fixed k (n div 16) @ [hex_char (n mod 16)]"

definition request_id :: "string \<Rightarrow> string" where
  "request_id request =
     hex_fixed 16 (unat (fnv_stream 14695981039346656037 request)) @
     hex_fixed 16 (unat (fnv_stream 7809847782465536322 request))"

definition reject_legacy_backend_env :: "env \<Rightarrow> exn option" where
  "reject_legacy_backend_env env =
     (let bad = (\<lambda>name. case env name of None \<Rightarrow> False | Some v \<Rightarrow> v \<noteq> '''' \<and> v \<noteq> ''JIT'')
      in map_option (\<lambda>name. StdException (name @ ''='' @ the (env name) @ '' is unsupported; FlagFFT is JIT-only''))
           (find bad [''FLAGFFT_KERNEL_BACKEND'', ''FFT_BACKEND'']))"

section \<open>Reading the generator's answer\<close>

definition str_find :: "string \<Rightarrow> string \<Rightarrow> nat \<Rightarrow> nat option" where
  "str_find text needle pos =
     find (\<lambda>i. take (length needle) (drop i text) = needle) [pos ..< Suc (length text - length needle)]"

definition quoted_name :: "string \<Rightarrow> string" where
  "quoted_name field = [CHR 0x22] @ field @ [CHR 0x22]"

definition missing_field :: "string \<Rightarrow> exn" where
  "missing_field field = StdException (''missing JSON field: '' @ field)"

definition json_string_field :: "string \<Rightarrow> string \<Rightarrow> exn + string" where
  "json_string_field json field =
     (case str_find json (quoted_name field) 0 of
        None \<Rightarrow> Inl (missing_field field)
      | Some key_at \<Rightarrow>
          (case Option.bind (str_find json '':'' key_at) (str_find json [CHR 0x22]) of
             None \<Rightarrow> Inl (StdException (''invalid JSON string field: '' @ field))
           | Some pos \<Rightarrow>
               (case str_find json [CHR 0x22] (pos + 1) of
                  None \<Rightarrow> Inl (StdException (''unterminated JSON string field: '' @ field))
                | Some fin \<Rightarrow> Inr (take (fin - pos - 1) (drop (pos + 1) json)))))"

definition is_space :: "char \<Rightarrow> bool" where
  "is_space ch \<longleftrightarrow> (let c = (of_char ch :: nat) in c = 32 \<or> 9 \<le> c \<and> c \<le> 13)"

text \<open>The text after the colon that follows a field name, blanks skipped.\<close>

definition field_value_text :: "string \<Rightarrow> string \<Rightarrow> string \<Rightarrow> exn + string" where
  "field_value_text what json field =
     (case str_find json (quoted_name field) 0 of
        None \<Rightarrow> Inl (missing_field field)
      | Some key_at \<Rightarrow>
          (case str_find json '':'' key_at of
             None \<Rightarrow> Inl (StdException (''invalid JSON '' @ what @ '' field: '' @ field))
           | Some pos \<Rightarrow> Inr (dropWhile is_space (drop (pos + 1) json))))"

definition json_int_field :: "string \<Rightarrow> string \<Rightarrow> exn + int" where
  "json_int_field json field =
     ebind (field_value_text ''integer'' json field) (\<lambda>rest.
       case stoll (takeWhile (\<lambda>ch. ch = CHR ''-'' \<or> is_digit_char ch) rest) of
         Inl e \<Rightarrow> Inl e
       | Inr (v, used) \<Rightarrow> Inr v)"

definition json_bool_field :: "string \<Rightarrow> string \<Rightarrow> exn + bool" where
  "json_bool_field json field =
     ebind (field_value_text ''boolean'' json field) (\<lambda>rest.
       if take 4 rest = ''true'' then Inr True
       else if take 5 rest = ''false'' then Inr False
       else Inl (StdException (''invalid JSON boolean field: '' @ field)))"

section \<open>Identity of a request\<close>

record triton_compiler =
  tc_maca_1d_single_policy :: bool
  tc_maca_1d_batch_policy :: bool
  tc_maca_2d_single_policy :: bool
  tc_maca_3d_policy :: bool
  tc_maca_3d_c2c32_single_cube_policy :: bool
  tc_ix_ct_single_policy :: bool
  tc_ix_ct_batch_policy :: bool
  tc_ix_real_single_pack :: bool
  tc_ix_ct_single_tle_policy :: int
  tc_maca_tail_policy :: string

record jit_kernel =
  jk_kernel_name :: string
  jk_module_path :: string
  jk_binary_dir :: string
  jk_signature :: string
  jk_num_warps :: int
  jk_warp_size :: int
  jk_profile_id :: string
  jk_num_stages :: int
  jk_batch_per_block :: int
  jk_inner_pack :: int
  jk_rows_per_block :: int
  jk_butterflies_per_block :: int
  jk_grid_x_override :: int
  jk_grid_y_override :: int
  jk_tle_fused_twiddle :: bool
  jk_loaded :: bool

record jit_world =
  jw_env :: env
  jw_backend :: string
  jw_profile :: string
  jw_out_dir :: string
  jw_compile_script :: string
  jw_warp_size :: int
  jw_lock :: "string \<Rightarrow> exn option"
  jw_run :: "string \<Rightarrow> exn + string"
  jw_load :: "jit_kernel \<Rightarrow> exn option"

definition set_to_one :: "env \<Rightarrow> string \<Rightarrow> string" where
  "set_to_one env name = show_bool (env name = Some ''1'')"

definition env_or :: "env \<Rightarrow> string \<Rightarrow> string \<Rightarrow> string" where
  "env_or env name other = (case env name of Some v \<Rightarrow> v | None \<Rightarrow> other)"

definition env_or_env :: "env \<Rightarrow> string \<Rightarrow> string \<Rightarrow> string" where
  "env_or_env env name second = (case env name of Some v \<Rightarrow> v | None \<Rightarrow> env_or env second ''auto'')"

definition execution_policy :: "jit_world \<Rightarrow> string" where
  "execution_policy w =
     env_or (jw_env w) ''FLAGFFT_EXECUTION_POLICY''
       (if jw_backend w = ''ix'' then ''balanced'' else if jw_backend w = ''hcu'' then ''native'' else ''legacy'')"

definition tail_mode :: "triton_compiler \<Rightarrow> kernel_key \<Rightarrow> string" where
  "tail_mode c key =
     maca_tail_kernel_mode (tc_maca_tail_policy c) (kk_kind key) (kk_dtype key) (kk_length key)
       (kk_four_step_n1 key) (kk_four_step_n2 key)"

definition policy_identity :: "triton_compiler \<Rightarrow> string" where
  "policy_identity c =
     '';profile-v1;maca-1d-single='' @ show_bool (tc_maca_1d_single_policy c) @
     '';maca-1d-batch='' @ show_bool (tc_maca_1d_batch_policy c) @
     '';maca-2d-single='' @ show_bool (tc_maca_2d_single_policy c) @
     '';maca-3d='' @ show_bool (tc_maca_3d_policy c) @
     '';maca-3d-c2c32-single-cube='' @ show_bool (tc_maca_3d_c2c32_single_cube_policy c) @
     '';ix-ct-single='' @ show_bool (tc_ix_ct_single_policy c) @
     '';ix-ct-single-tle='' @ show_int (tc_ix_ct_single_tle_policy c) @
     '';ix-ct-batch='' @ show_bool (tc_ix_ct_batch_policy c) @
     '';ix-real-single-pack='' @ show_bool (tc_ix_real_single_pack c)"

definition npu_leaf_kinds :: "kernel_kind list" where
  "npu_leaf_kinds = [KK_Leaf, KK_LeafStrided, KK_LeafPermutedStore, KK_LeafR2C, KK_LeafC2R]"

text \<open>The parts of the identity that depend on the backend, the kind and variables of the environment.\<close>

definition backend_identity :: "jit_world \<Rightarrow> kernel_key \<Rightarrow> string" where
  "backend_identity w key =
     (let env = jw_env w; ix = (jw_backend w = ''ix''); npu = (jw_backend w = ''npu''); kind = kk_kind key
      in (if kind = KK_LeafPermutedStore \<and> ix then
            '';ix-3d-direct-store='' @ set_to_one env ''FLAGFFT_IX_3D_DIRECT_STORE'' @
            '';ix-3d-pair-store='' @ set_to_one env ''FLAGFFT_IX_3D_PAIR_STORE'' @
            '';ix-3d-pack='' @ env_or env ''FLAGFFT_IX_3D_PACK'' ''auto'' else '''') @
         (if kind = KK_LeafPermutedStore \<and> npu then
            '';npu-2d-transpose-store='' @ set_to_one env ''FLAGFFT_NPU_2D_TRANSPOSE_STORE'' @
            '';npu-portable-leaf='' @ set_to_one env ''FLAGFFT_NPU_FOURSTEP_LEAF'' @
            '';npu-2d-transpose-pack='' @ env_or env ''FLAGFFT_NPU_2D_TRANSPOSE_PACK'' ''auto'' else '''') @
         (if npu \<and> kind \<in> set npu_leaf_kinds then
            '';npu-portable-leaf='' @
              show_bool (kk_npu_portable_leaf key \<or> env ''FLAGFFT_NPU_FOURSTEP_LEAF'' = Some ''1'') @
            (if kk_npu_portable_leaf key then
               '';npu-2d-exchange='' @ env_or_env env ''FLAGFFT_NPU_2D_EXCHANGE'' ''FLAGFFT_MACA_EXCHANGE'' @
               '';npu-2d-lane-min='' @ env_or_env env ''FLAGFFT_NPU_2D_LANE_MIN'' ''FLAGFFT_MACA_LANE_MIN'' @
               '';npu-2d-batch-pack='' @ env_or_env env ''FLAGFFT_NPU_2D_BATCH_PACK'' ''FLAGFFT_MACA_BATCH_PACK'' @
               '';npu-2d-split-order='' @ env_or_env env ''FLAGFFT_NPU_2D_SPLIT_ORDER'' ''FLAGFFT_MACA_SPLIT_ORDER''
             else '''') else '''') @
         (if kind = KK_LeafPackedR2C \<and> ix then
            '';ix-3d-packed-r2c='' @ set_to_one env ''FLAGFFT_IX_3D_PACKED_R2C'' else '''') @
         (if kind = KK_Transpose3D \<and> ix then
            '';ix-3d-transpose-tile='' @ env_or env ''FLAGFFT_IX_3D_TRANSPOSE_TILE'' ''16'' @
            '';ix-3d-packed-transpose='' @ set_to_one env ''FLAGFFT_IX_3D_PACKED_TRANSPOSE'' else ''''))"

definition cache_key :: "jit_world \<Rightarrow> triton_compiler \<Rightarrow> kernel_key \<Rightarrow> string" where
  "cache_key w c key =
     kernel_key_repr key @ jw_profile w @ execution_policy w @ policy_identity c @
     (if jw_backend w = ''maca'' then maca_tail_codegen_identity (jw_env w) (tail_mode c key) else '''') @
     backend_identity w key"


section \<open>The command line\<close>

text \<open>The switch of the source names every kernel kind, so its default branch is never taken.\<close>

definition kernel_kind_arg :: "kernel_key \<Rightarrow> string" where
  "kernel_kind_arg key =
     (let name = kernel_kind_name (kk_kind key)
      in if kk_kind key \<in> {KK_LeafBluestein, KK_BluesteinFourStepPrepareRow, KK_BluesteinFourStepFinishCol}
         then (if kk_perm_form key = ''outer'' then name else name @ ''_'' @ kk_perm_form key)
         else name)"

definition four_step_kinds :: "kernel_kind list" where
  "four_step_kinds =
     [KK_FourStepRow, KK_FourStepRowStrided, KK_FourStepRealRow, KK_FourStepHermitianRow, KK_FourStepCol,
      KK_FourStepColStrided, KK_FourStepR2CCol, KK_FourStepC2RCol, KK_BluesteinFourStepPrepareRow,
      KK_BluesteinFourStepPointwiseRow, KK_BluesteinFourStepFinishCol]"

definition leaf_arg_kinds :: "kernel_kind list" where
  "leaf_arg_kinds =
     [KK_Leaf, KK_LeafStrided, KK_LeafPermutedStore, KK_LeafStridedPermutedStore, KK_LeafR2C, KK_LeafR2CPermutedStore,
      KK_LeafPackedR2C, KK_LeafC2R, KK_LeafPackedC2R, KK_LeafBluestein, KK_LeafRaderFull, KK_LeafRaderPrepare,
      KK_LeafRaderFinish, KK_LeafBluesteinPrepare, KK_LeafBluesteinFinish] @ four_step_kinds"

definition direct_dft_kinds :: "kernel_kind list" where
  "direct_dft_kinds =
     [KK_DirectDft, KK_DirectDftStrided, KK_DirectDftCube, KK_DirectDftCubeTransposed, KK_DirectDftCubeStrided,
      KK_DirectDftCube2DRow, KK_DirectDftCube2DCol, KK_DirectDftR2C, KK_DirectDftC2R]"

definition bluestein_kinds :: "kernel_kind list" where
  "bluestein_kinds =
     [KK_LeafBluestein, KK_LeafBluesteinPrepare, KK_LeafBluesteinFinish, KK_BluesteinFourStepPrepareRow,
      KK_BluesteinFourStepPointwiseRow, KK_BluesteinFourStepFinishCol, KK_BluesteinPrepare, KK_BluesteinPointwise,
      KK_BluesteinFinalize]"

definition rader_kinds :: "kernel_kind list" where
  "rader_kinds =
     [KK_LeafRaderFull, KK_LeafRaderPrepare, KK_LeafRaderFinish, KK_RaderPrepare, KK_RaderPointwise, KK_RaderFinalize]"

definition fused_kinds :: "kernel_kind list" where
  "fused_kinds =
     [KK_Fused16Plane, KK_Fused32Plane, KK_Fused16RealPlane, KK_Fused32RealPlane, KK_FusedRectPlane, KK_Fused16Cube,
      KK_Fused16RealCube, KK_Fused32Column, KK_Fused2D]"

definition real_layout_kinds :: "kernel_kind list" where
  "real_layout_kinds =
     [KK_RealToComplex, KK_R2CHalfPack, KK_R2CPackedPostprocess, KK_C2RPackedPreprocess, KK_CompactToHermitianFull,
      KK_ComplexToReal]"

definition opt :: "bool \<Rightarrow> string \<Rightarrow> string" where
  "opt b text = (if b then text else '''')"

definition python_executable :: "env \<Rightarrow> string" where
  "python_executable env =
     (case env ''FLAGFFT_PYTHON'' of Some path \<Rightarrow> if path \<noteq> '''' then path else ''python3'' | None \<Rightarrow> ''python3'')"

definition triton_jit_source_entrypoint :: string where
  "triton_jit_source_entrypoint = ''-m flagfft_codegen.jit_source''"

definition policy_args :: "jit_world \<Rightarrow> triton_compiler \<Rightarrow> kernel_key \<Rightarrow> string" where
  "policy_args w c key =
     opt (tc_ix_ct_single_policy c) '' --ix-ct-single'' @
     opt (tc_ix_ct_batch_policy c) '' --ix-ct-batch'' @
     opt (tc_ix_real_single_pack c) '' --ix-real-single-pack'' @
     opt (tc_ix_ct_single_tle_policy c \<noteq> 0) ('' --ix-ct-single-tle '' @ show_int (tc_ix_ct_single_tle_policy c)) @
     opt (jw_backend w = ''maca'')
       ('' --compile-script '' @ shell_quote (jw_compile_script w) @
        opt (tc_maca_1d_single_policy c) '' --maca-1d-single'' @
        opt (tc_maca_1d_batch_policy c) '' --maca-1d-batch'' @
        '' --maca-tail-mode '' @ shell_quote (tail_mode c key) @
        opt (tc_maca_2d_single_policy c) '' --maca-2d-single'' @
        opt (tc_maca_3d_policy c) '' --maca-3d'' @
        opt (tc_maca_3d_c2c32_single_cube_policy c) '' --maca-3d-c2c32-single-cube'')"

definition key_args :: "kernel_key \<Rightarrow> string" where
  "key_args key =
     (let kind = kk_kind key; is = (\<lambda>ks. kind \<in> set ks);
          len = '' --length '' @ show_int (kk_length key);
          factors = '' --factors '' @ shell_quote (join_ints (kk_factors key));
          direction = '' --direction '' @ shell_quote (kk_direction key)
      in opt (is leaf_arg_kinds)
           (len @ factors @ '' --lanes '' @ show_int (kk_lanes key) @ '' --num-warps '' @ show_int (kk_num_warps key) @
            '' --generic-radices '' @ shell_quote (join_ints (kk_generic_radices key)) @
            '' --smem-size '' @ show_int (kk_smem_size key) @ direction @
            opt (kk_npu_portable_leaf key) '' --npu-portable-leaf'') @
         opt (is [KK_LeafPermutedStore, KK_LeafStridedPermutedStore, KK_LeafR2CPermutedStore])
           ('' --perm-form '' @ shell_quote (kk_perm_form key)) @
         opt (kk_hcu_full_smem key) '' --hcu-3d-full-smem'' @
         opt (is direct_dft_kinds) (len @ direction) @
         opt (kind = KK_StockhamStage) (len @ factors @ direction) @
         opt (is four_step_kinds)
           ('' --four-step-n1 '' @ show_int (kk_four_step_n1 key) @ '' --four-step-n2 '' @ show_int (kk_four_step_n2 key)) @
         opt (is bluestein_kinds)
           ('' --bluestein-n '' @ show_int (kk_bluestein_n key) @ '' --bluestein-m '' @ show_int (kk_bluestein_m key)) @
         opt (is rader_kinds)
           ('' --rader-n '' @ show_int (kk_rader_n key) @ '' --rader-m '' @ show_int (kk_rader_m key)) @
         opt (is [KK_ReshapePack, KK_TwiddleReshapePack, KK_TiledTranspose])
           ('' --reshape-n1 '' @ show_int (kk_reshape_n1 key) @ '' --reshape-n2 '' @ show_int (kk_reshape_n2 key)) @
         opt (kind = KK_Transpose3D)
           ('' --transpose3d-n0 '' @ show_int (kk_transpose3d_n0 key) @ '' --transpose3d-n1 '' @
            show_int (kk_transpose3d_n1 key) @ '' --transpose3d-n2 '' @ show_int (kk_transpose3d_n2 key) @
            '' --transpose3d-order '' @ shell_quote (kk_transpose3d_order key)) @
         opt (is fused_kinds) direction @
         opt (is [KK_Fused16Plane, KK_Fused32RealPlane, KK_Fused16Cube]) len @
         opt (kind = KK_FusedRectPlane)
           ('' --fused-plane-n0 '' @ show_int (kk_fused_plane_n0 key) @ '' --fused-plane-n1 '' @
            show_int (kk_fused_plane_n1 key) @ '' --fused-plane-middle '' @ show_int (kk_fused_plane_middle key)) @
         opt (kind = KK_Fused32Column) len @
         opt (kind = KK_Fused2D) (len @ opt (kk_perm_form key = ''transpose'') '' --fused-2d-transpose'') @
         opt (is real_layout_kinds) len)"

definition jit_command :: "jit_world \<Rightarrow> triton_compiler \<Rightarrow> kernel_key \<Rightarrow> string" where
  "jit_command w c key =
     opt (take 4 (kk_target key) = ''hcu:'')
       (''FLAGFFT_HCU_3D_MIDDLE_BATCH_PACK='' @
        (if 0 < kk_hcu_3d_middle_batch_pack key then show_int (kk_hcu_3d_middle_batch_pack key) else ''auto'') @ '' '') @
     shell_quote (python_executable (jw_env w)) @ '' '' @ triton_jit_source_entrypoint @ '' --kernel '' @ kernel_kind_arg key @
     '' --out-dir '' @ shell_quote (jw_out_dir w @ ''/requests/'' @ request_id (cache_key w c key)) @
     '' --dtype '' @ shell_quote (kk_dtype key) @ '' --target '' @ shell_quote (kk_target key) @
     '' --device-profile '' @ shell_quote (jw_profile w) @ '' --execution-policy '' @ shell_quote (execution_policy w) @
     policy_args w c key @ key_args key"

section \<open>The kernel\<close>

definition read_string :: "string \<Rightarrow> string \<Rightarrow> (string \<Rightarrow> exn + 'a) \<Rightarrow> exn + 'a" where
  "read_string json field = ebind (json_string_field json field)"

definition read_int :: "string \<Rightarrow> string \<Rightarrow> (int \<Rightarrow> exn + 'a) \<Rightarrow> exn + 'a" where
  "read_int json field = ebind (json_int_field json field)"

definition read_when :: "bool \<Rightarrow> int \<Rightarrow> string \<Rightarrow> string \<Rightarrow> (int \<Rightarrow> exn + 'a) \<Rightarrow> exn + 'a" where
  "read_when present dflt json field f = (if present then read_int json field f else f dflt)"

definition kernel_from_artifact :: "jit_world \<Rightarrow> kernel_key \<Rightarrow> string \<Rightarrow> exn + jit_kernel" where
  "kernel_from_artifact w key json =
     (let kind = kk_kind key; four_step = (kind \<in> set four_step_kinds)
      in read_string json ''kernel_name'' (\<lambda>name.
         read_string json ''module_path'' (\<lambda>path.
         (if jw_backend w = ''maca'' then read_string json ''binary_dir'' else (\<lambda>f. f '''')) (\<lambda>dir.
         read_string json ''signature'' (\<lambda>sig.
         read_int json ''num_warps'' (\<lambda>warps.
         read_int json ''warp_size'' (\<lambda>warp_size.
         read_string json ''profile_id'' (\<lambda>profile.
         read_int json ''num_stages'' (\<lambda>stages.
         read_int json ''batch_per_block'' (\<lambda>per_block.
         read_when (kind \<in> {KK_DirectDftCubeTransposed, KK_DirectDftCube2DRow, KK_DirectDftCube2DCol}) 0 json
           ''grid_y_override'' (\<lambda>grid_y.
         read_when (kind = KK_StockhamStage) 128 json ''butterflies_per_block'' (\<lambda>butterflies.
         read_when (kind = KK_Transpose3D) 0 json ''grid_x_override'' (\<lambda>grid_x.
         read_when (kind \<in> set real_layout_kinds) 1 json ''rows_per_block'' (\<lambda>rows.
         read_when four_step 1 json ''inner_pack'' (\<lambda>pack.
         ebind (if four_step then json_bool_field json ''tle_fused_twiddle'' else Inr False) (\<lambda>tle.
           Inr \<lparr>jk_kernel_name = name, jk_module_path = path, jk_binary_dir = dir, jk_signature = sig,
                jk_num_warps = warps, jk_warp_size = warp_size, jk_profile_id = profile, jk_num_stages = stages,
                jk_batch_per_block = per_block, jk_inner_pack = pack, jk_rows_per_block = rows,
                jk_butterflies_per_block = butterflies, jk_grid_x_override = grid_x, jk_grid_y_override = grid_y,
                jk_tle_fused_twiddle = tle, jk_loaded = False\<rparr>))))))))))))))))"

text \<open>\<open>JitKernel::compile\<close>.\<close>

definition jit_compile :: "jit_world \<Rightarrow> jit_kernel \<Rightarrow> exn + jit_kernel" where
  "jit_compile w k =
     (if jk_loaded k then Inr k
      else if jk_warp_size k \<noteq> jw_warp_size w then Inl (StdException ''codegen warp size disagrees with launch backend'')
      else if jw_backend w = ''maca'' \<and> jk_binary_dir k = '''' then Inl (StdException ''MACA JIT binary directory is missing'')
      else case jw_load w k of Some e \<Rightarrow> Inl e | None \<Rightarrow> Inr (k\<lparr>jk_loaded := True\<rparr>))"

definition generate_kernel :: "jit_world \<Rightarrow> triton_compiler \<Rightarrow> kernel_key \<Rightarrow> exn + jit_kernel" where
  "generate_kernel w c key =
     ebind (jw_run w (jit_command w c key)) (\<lambda>artifact.
     ebind (kernel_from_artifact w key artifact) (jit_compile w))"

section \<open>The cache\<close>

record 'k kernel_cache =
  kc_cache :: "string \<Rightarrow> 'k option"
  kc_hits :: int
  kc_misses :: int

text \<open>The three critical sections of \<open>compile_kernel\<close>, each under the cache's mutex.\<close>

definition cache_probe :: "string \<Rightarrow> 'k kernel_cache \<Rightarrow> 'k option \<times> 'k kernel_cache" where
  "cache_probe ck st =
     (case kc_cache st ck of Some k \<Rightarrow> (Some k, st\<lparr>kc_hits := kc_hits st + 1\<rparr>) | None \<Rightarrow> (None, st))"

definition cache_recheck :: "string \<Rightarrow> 'k kernel_cache \<Rightarrow> 'k option \<times> 'k kernel_cache" where
  "cache_recheck ck st =
     (case kc_cache st ck of
        Some k \<Rightarrow> (Some k, st\<lparr>kc_hits := kc_hits st + 1\<rparr>)
      | None \<Rightarrow> (None, st\<lparr>kc_misses := kc_misses st + 1\<rparr>))"

definition cache_publish :: "string \<Rightarrow> 'k \<Rightarrow> 'k kernel_cache \<Rightarrow> 'k \<times> 'k kernel_cache" where
  "cache_publish ck k st =
     (case kc_cache st ck of
        Some old \<Rightarrow> (old, st)
      | None \<Rightarrow> (k, st\<lparr>kc_cache := (kc_cache st)(ck \<mapsto> k)\<rparr>))"

definition compile_kernel ::
  "jit_world \<Rightarrow> triton_compiler \<Rightarrow> kernel_key \<Rightarrow> jit_kernel kernel_cache \<Rightarrow> (exn + jit_kernel) \<times> jit_kernel kernel_cache" where
  "compile_kernel w c key st =
     (case reject_legacy_backend_env (jw_env w) of
        Some e \<Rightarrow> (Inl e, st)
      | None \<Rightarrow>
          let ck = cache_key w c key in
          (case cache_probe ck st of
             (Some k, st) \<Rightarrow> (Inr k, st)
           | (None, st) \<Rightarrow>
               (case jw_lock w (jw_out_dir w @ ''/.locks/'' @ request_id ck @ ''.lock'') of
                  Some e \<Rightarrow> (Inl e, st)
                | None \<Rightarrow>
                    (case cache_recheck ck st of
                       (Some k, st) \<Rightarrow> (Inr k, st)
                     | (None, st) \<Rightarrow>
                         (case generate_kernel w c key of
                            Inl e \<Rightarrow> (Inl e, st)
                          | Inr k \<Rightarrow> (case cache_publish ck k st of (k, st) \<Rightarrow> (Inr k, st)))))))"

definition clear_kernel_cache :: "'k kernel_cache \<Rightarrow> 'k kernel_cache" where
  "clear_kernel_cache st = st\<lparr>kc_cache := (\<lambda>_. None), kc_hits := 0, kc_misses := 0\<rparr>"

definition empty_kernel_cache :: "'k kernel_cache" where
  "empty_kernel_cache = \<lparr>kc_cache = (\<lambda>_. None), kc_hits = 0, kc_misses = 0\<rparr>"

end
