(* ===== verification/FFT_JitThreads.thy ===== *)
theory FFT_JitThreads
  imports FFT_JitFacts
begin

text \<open>
  The kernel cache under concurrency. Threads of a process call \<open>compile_kernel\<close>; each of its critical
  sections is one step, and between them other threads run. The file lock of a request is taken by
  at most one thread at a time. The lists of generated and returned kernels are for the proof only.
\<close>

section \<open>Threads\<close>

datatype phase = Idle | Waiting string | Holding string | Generating string | Leaving string

record 'k threads =
  th_cache :: "'k kernel_cache"
  th_lock :: "string \<Rightarrow> nat option"
  th_phase :: "nat \<Rightarrow> phase"
  th_made :: "(string \<times> 'k) list"
  th_results :: "(string \<times> 'k) list"

definition start :: "'k threads" where
  "start = \<lparr>th_cache = empty_kernel_cache, th_lock = (\<lambda>_. None), th_phase = (\<lambda>_. Idle), th_made = [], th_results = []\<rparr>"

text \<open>
  \<open>clearing\<close> says whether other threads may call \<open>clear_kernel_cache\<close>. Any thread may ask for any
  request; the lock and the generator may fail.
\<close>

inductive thread_step :: "bool \<Rightarrow> 'k threads \<Rightarrow> 'k threads \<Rightarrow> bool" for clearing where
  probe_hit: "th_phase s t = Idle \<Longrightarrow> cache_probe ck (th_cache s) = (Some k, st) \<Longrightarrow>
    thread_step clearing s (s\<lparr>th_cache := st, th_results := (ck, k) # th_results s\<rparr>)"
| probe_miss: "th_phase s t = Idle \<Longrightarrow> cache_probe ck (th_cache s) = (None, st) \<Longrightarrow>
    thread_step clearing s (s\<lparr>th_cache := st, th_phase := (th_phase s)(t := Waiting ck)\<rparr>)"
| lock_fails: "th_phase s t = Waiting ck \<Longrightarrow> thread_step clearing s (s\<lparr>th_phase := (th_phase s)(t := Idle)\<rparr>)"
| take_lock: "th_phase s t = Waiting ck \<Longrightarrow> th_lock s (request_id ck) = None \<Longrightarrow>
    thread_step clearing s (s\<lparr>th_lock := (th_lock s)(request_id ck \<mapsto> t), th_phase := (th_phase s)(t := Holding ck)\<rparr>)"
| recheck_hit: "th_phase s t = Holding ck \<Longrightarrow> cache_recheck ck (th_cache s) = (Some k, st) \<Longrightarrow>
    thread_step clearing s
      (s\<lparr>th_cache := st, th_phase := (th_phase s)(t := Leaving ck), th_results := (ck, k) # th_results s\<rparr>)"
| recheck_miss: "th_phase s t = Holding ck \<Longrightarrow> cache_recheck ck (th_cache s) = (None, st) \<Longrightarrow>
    thread_step clearing s (s\<lparr>th_cache := st, th_phase := (th_phase s)(t := Generating ck)\<rparr>)"
| generation_fails: "th_phase s t = Generating ck \<Longrightarrow>
    thread_step clearing s (s\<lparr>th_phase := (th_phase s)(t := Leaving ck)\<rparr>)"
| publish: "th_phase s t = Generating ck \<Longrightarrow> cache_publish ck k (th_cache s) = (r, st) \<Longrightarrow>
    thread_step clearing s
      (s\<lparr>th_cache := st, th_phase := (th_phase s)(t := Leaving ck), th_made := (ck, k) # th_made s,
         th_results := (ck, r) # th_results s\<rparr>)"
| release: "th_phase s t = Leaving ck \<Longrightarrow>
    thread_step clearing s (s\<lparr>th_lock := (th_lock s)(request_id ck := None), th_phase := (th_phase s)(t := Idle)\<rparr>)"
| clear: "clearing \<Longrightarrow> thread_step clearing s (s\<lparr>th_cache := clear_kernel_cache (th_cache s)\<rparr>)"

inductive threads_reachable :: "bool \<Rightarrow> 'k threads \<Rightarrow> bool" for clearing where
  threads_start: "threads_reachable clearing start"
| threads_next: "threads_reachable clearing s \<Longrightarrow> thread_step clearing s s' \<Longrightarrow> threads_reachable clearing s'"

section \<open>The lock\<close>

fun holds :: "phase \<Rightarrow> string \<Rightarrow> bool" where
  "holds (Holding ck) x \<longleftrightarrow> x = ck"
| "holds (Generating ck) x \<longleftrightarrow> x = ck"
| "holds (Leaving ck) x \<longleftrightarrow> x = ck"
| "holds p x \<longleftrightarrow> False"

definition lock_inv :: "'k threads \<Rightarrow> bool" where
  "lock_inv s \<longleftrightarrow> (\<forall>t i. th_lock s i = Some t \<longleftrightarrow> (\<exists>ck. holds (th_phase s t) ck \<and> request_id ck = i))"

lemma lock_invD: "lock_inv s \<Longrightarrow> holds (th_phase s t) ck \<Longrightarrow> th_lock s (request_id ck) = Some t"
  by (auto simp: lock_inv_def)

lemma lock_inv_step: "thread_step clearing s s' \<Longrightarrow> lock_inv s \<Longrightarrow> lock_inv s'"
proof (induction rule: thread_step.induct)
  case (take_lock s t ck)
  have "\<not> holds (th_phase s u) x" if "request_id x = request_id ck" for u x
    using lock_invD [OF take_lock(3), of u x] that take_lock(2) by auto
  then show ?case using take_lock by (auto simp: lock_inv_def)
next
  case (release s t ck)
  have "u = t" if "holds (th_phase s u) x" "request_id x = request_id ck" for u x
    using lock_invD [OF release(2), of u x] lock_invD [OF release(2), of t ck] that release(1) by auto
  then show ?case using release by (auto simp: lock_inv_def)
qed (auto simp: lock_inv_def)

lemma lock_inv_reachable: "threads_reachable clearing s \<Longrightarrow> lock_inv s"
proof (induction rule: threads_reachable.induct)
  case (threads_next s s')
  show ?case by (rule lock_inv_step) (use threads_next in simp_all)
qed (simp add: start_def lock_inv_def)

section \<open>At most one generation\<close>

definition made_inv :: "'k threads \<Rightarrow> bool" where
  "made_inv s \<longleftrightarrow>
     kc_cache (th_cache s) = map_of (th_made s) \<and> distinct (map fst (th_made s)) \<and> set (th_results s) \<subseteq> set (th_made s) \<and>
     (\<forall>t ck. th_phase s t = Generating ck \<longrightarrow> kc_cache (th_cache s) ck = None)"

lemmas cache_ops = cache_probe_def cache_recheck_def cache_publish_def

lemma made_inv_step:
  assumes "thread_step False s s'" and "lock_inv s" and "made_inv s"
  shows "made_inv s'"
  using assms
proof (induction rule: thread_step.induct)
  case (publish s t ck k r st)
  have fresh: "kc_cache (th_cache s) ck = None" using publish(1,4) unfolding made_inv_def by blast
  then have new: "r = k" "kc_cache st = (kc_cache (th_cache s))(ck \<mapsto> k)" using publish(2) by (auto simp: cache_publish_def)
  have out: "ck \<notin> fst ` set (th_made s)" using fresh publish(4) by (simp add: made_inv_def map_of_eq_None_iff)
  have other: "x \<noteq> ck" if "u \<noteq> t" "th_phase s u = Generating x" for u x
    using that lock_invD [OF publish(3), of u x] lock_invD [OF publish(3), of t ck] publish(1) by auto
  show ?case using publish(4) new out other by (auto simp: made_inv_def)
qed (auto simp: made_inv_def cache_ops split: option.splits dest: map_of_SomeD)

lemma made_inv_reachable: "threads_reachable False s \<Longrightarrow> made_inv s"
proof (induction rule: threads_reachable.induct)
  case (threads_next s s')
  then show ?case using made_inv_step lock_inv_reachable by blast
qed (simp add: made_inv_def start_def empty_kernel_cache_def)


section \<open>One thread\<close>

text \<open>A call of \<open>compile_kernel\<close> that runs alone is a run of these steps.\<close>

lemma compile_kernel_is_run:
  assumes "compile_kernel w c key (th_cache s) = (Inr k, st)" and "th_phase s t = Idle"
    and "th_lock s (request_id (cache_key w c key)) = None"
  shows "\<exists>s'. (thread_step False)\<^sup>*\<^sup>* s s' \<and> th_cache s' = st \<and> th_phase s' = th_phase s \<and> th_lock s' = th_lock s \<and>
    (cache_key w c key, k) \<in> set (th_results s')"
proof (cases "kc_cache (th_cache s) (cache_key w c key)")
  case (Some old)
  let ?s = "s\<lparr>th_cache := st, th_results := (cache_key w c key, k) # th_results s\<rparr>"
  have "thread_step False s ?s"
    by (rule probe_hit [OF assms(2)])
      (use assms(1) Some in \<open>auto simp: compile_kernel_def cache_ops Let_def split: option.splits\<close>)
  then have "(thread_step False)\<^sup>*\<^sup>* s ?s" by (rule r_into_rtranclp)
  then show ?thesis by (intro exI [of _ ?s]) simp
next
  case None
  let ?ck = "cache_key w c key" and ?cache = "th_cache s"
  have st: "st = ?cache\<lparr>kc_misses := kc_misses ?cache + 1, kc_cache := (kc_cache ?cache)(?ck \<mapsto> k)\<rparr>"
    using assms(1) None by (auto simp: compile_kernel_def cache_ops Let_def split: option.splits sum.splits)
  let ?s1 = "s\<lparr>th_cache := ?cache, th_phase := (th_phase s)(t := Waiting ?ck)\<rparr>"
  let ?s2 = "?s1\<lparr>th_lock := (th_lock ?s1)(request_id ?ck \<mapsto> t), th_phase := (th_phase ?s1)(t := Holding ?ck)\<rparr>"
  let ?s3 = "?s2\<lparr>th_cache := ?cache\<lparr>kc_misses := kc_misses ?cache + 1\<rparr>, th_phase := (th_phase ?s2)(t := Generating ?ck)\<rparr>"
  let ?s4 = "?s3\<lparr>th_cache := st, th_phase := (th_phase ?s3)(t := Leaving ?ck), th_made := (?ck, k) # th_made ?s3,
      th_results := (?ck, k) # th_results ?s3\<rparr>"
  let ?s5 = "?s4\<lparr>th_lock := (th_lock ?s4)(request_id ?ck := None), th_phase := (th_phase ?s4)(t := Idle)\<rparr>"
  have "thread_step False s ?s1" by (rule probe_miss) (use assms(2) None in \<open>auto simp: cache_probe_def\<close>)
  moreover have "thread_step False ?s1 ?s2" by (rule take_lock) (use assms(3) in auto)
  moreover have "thread_step False ?s2 ?s3" by (rule recheck_miss) (use None in \<open>auto simp: cache_recheck_def\<close>)
  moreover have "thread_step False ?s3 ?s4" by (rule publish) (use None in \<open>auto simp: cache_publish_def st\<close>)
  moreover have "thread_step False ?s4 ?s5" by (rule release) simp
  ultimately have run: "(thread_step False)\<^sup>*\<^sup>* s ?s5"
    by (meson converse_rtranclp_into_rtranclp rtranclp.rtrancl_refl)
  have "th_phase ?s5 = th_phase s" "th_lock ?s5 = th_lock s" using assms(2,3) by (auto simp: fun_eq_iff)
  with run show ?thesis by (intro exI [of _ ?s5]) simp
qed

section \<open>Properties\<close>


definition example_world :: jit_world where
  "example_world =
     \<lparr>jw_env = (\<lambda>_. None), jw_backend = ''cuda'', jw_profile = [CHR 0x7B, CHR 0x7D], jw_out_dir = ''/tmp'', jw_compile_script = '''',
      jw_warp_size = 32, jw_lock = (\<lambda>_. None), jw_run = (\<lambda>_. Inr ''''), jw_load = (\<lambda>_. None)\<rparr>"

definition example_compiler :: triton_compiler where
  "example_compiler =
     \<lparr>tc_maca_1d_single_policy = False, tc_maca_1d_batch_policy = False, tc_maca_2d_single_policy = False,
      tc_maca_3d_policy = False, tc_maca_3d_c2c32_single_cube_policy = False, tc_ix_ct_single_policy = False,
      tc_ix_ct_batch_policy = False, tc_ix_real_single_pack = False, tc_ix_ct_single_tle_policy = 0,
      tc_maca_tail_policy = ''off''\<rparr>"



definition one_waiting :: "nat threads" where
  "one_waiting = start\<lparr>th_phase := (\<lambda>_. Idle)(7 := Waiting ''k'')\<rparr>"

definition one_holding :: "nat threads" where
  "one_holding = one_waiting\<lparr>th_lock := (th_lock one_waiting)(request_id ''k'' \<mapsto> 7),
     th_phase := (th_phase one_waiting)(7 := Holding ''k'')\<rparr>"

lemma one_holding_reachable: "threads_reachable clearing one_holding"
proof -
  have "thread_step clearing (start :: nat threads) one_waiting"
    using probe_miss [of "start :: nat threads" 7 "''k''" empty_kernel_cache clearing]
    by (simp add: start_def cache_probe_def empty_kernel_cache_def one_waiting_def)
  moreover have "thread_step clearing one_waiting one_holding"
    unfolding one_holding_def by (rule take_lock) (simp_all add: one_waiting_def start_def)
  ultimately show ?thesis by (meson threads_start threads_next)
qed


text \<open>
  C40. Without \<open>clear_kernel_cache\<close>, in every interleaving, at most one kernel is ever published per
  cache key, the cache holds exactly the published kernels, and all calls for a key return the same
  kernel.
\<close>

theorem kernels_made_once:
  assumes "threads_reachable False s"
  shows "distinct (map fst (th_made s)) \<and> kc_cache (th_cache s) = map_of (th_made s) \<and>
    (\<forall>ck k k'. (ck, k) \<in> set (th_results s) \<and> (ck, k') \<in> set (th_results s) \<longrightarrow> k = k')"
proof -
  have inv: "made_inv s" by (rule made_inv_reachable [OF assms])
  then have "k = k'" if "(ck, k) \<in> set (th_results s)" "(ck, k') \<in> set (th_results s)" for ck k k'
    using that by (meson eq_key_imp_eq_value made_inv_def subsetD)
  with inv show ?thesis by (auto simp: made_inv_def)
qed

theorem kernels_made_once_witness: "distinct (map fst (th_made one_holding))"
  using kernels_made_once [OF one_holding_reachable] by simp

text \<open>
  Directory names: a request directory has a name of 32 characters, and two requests whose
  identity texts differ in a single character never share one.
\<close>

theorem request_id_separates:
  "length (request_id r) = 32 \<and> (request_id (p @ x # q) = request_id (p @ y # q)) = (x = y)"
proof -
  have "unat w < 2 ^ LENGTH(64)" for w :: "64 word" by (rule unsigned_less)
  then have "unat w < 16 ^ 16" for w :: "64 word" by simp
  then show ?thesis by (auto simp: request_id_def hex_fixed_inject fnv_one_char word_unat_eq_iff [symmetric])
qed

end
