(* ===== verification/FFT_Dft.thy ===== *)
theory FFT_Dft
  imports Complex_Main
begin

text \<open>
  The discrete Fourier transform over the complex numbers and the identities the execution nodes rest
  on: the convolution theorem with the inverse transform written through conjugation, the four-step
  splitting, Bluestein's chirp and Rader's permutation. The sign is \<open>-1\<close> for forward and \<open>1\<close> for inverse
  transforms; nothing is normalised.
\<close>

section \<open>Roots of unity\<close>

definition unity :: "int \<Rightarrow> nat \<Rightarrow> nat \<Rightarrow> complex" where
  "unity s a n = cis (of_int s * 2 * pi * real a / real n)"

definition dft :: "int \<Rightarrow> nat \<Rightarrow> (nat \<Rightarrow> complex) \<Rightarrow> nat \<Rightarrow> complex" where
  "dft s n x k = (\<Sum>j<n. x j * unity s (j * k) n)"

lemma unity_add: "unity s (a + b) n = unity s a n * unity s b n"
  by (simp add: unity_def cis_mult ring_distribs add_divide_distrib)

lemma unity_0 [simp]: "unity s 0 n = 1"
  by (simp add: unity_def)

lemma unity_period: "0 < n \<Longrightarrow> unity s (n * q) n = 1"
proof -
  assume "0 < n"
  then have "unity s (n * q) n = cis (2 * pi * of_int (s * int q))" by (simp add: unity_def ac_simps)
  also have "\<dots> = 1" by (rule cis_multiple_2pi) simp
  finally show ?thesis .
qed

lemma unity_mod: "0 < n \<Longrightarrow> unity s (a mod n) n = unity s a n"
  using unity_add [of s "n * (a div n)" "a mod n" n] by (simp add: unity_period)

lemma unity_cancel: "0 < c \<Longrightarrow> unity s (c * a) (c * n) = unity s a n"
  by (simp add: unity_def ac_simps)

lemma unity_power: "unity s (a * k) n = unity s a n ^ k"
  by (simp add: unity_def DeMoivre ac_simps)

lemma unity_cnj: "cnj (unity s a n) = unity (- s) a n"
  by (simp add: unity_def cis_cnj)

lemma unity_neg: "0 < n \<Longrightarrow> a \<le> n \<Longrightarrow> unity (- s) a n = unity s (n - a) n"
proof -
  assume n: "0 < n" "a \<le> n"
  have "unity s (n - a) n * unity s a n = 1" using unity_add [of s "n - a" a n] unity_period [OF n(1), of s 1] n by simp
  moreover have "unity (- s) a n * unity s a n = 1" by (simp add: unity_def cis_mult)
  moreover have "unity s a n \<noteq> 0" by (simp add: unity_def)
  ultimately show ?thesis by (metis mult_right_cancel)
qed

lemma unity_eq_1:
  assumes "0 < n" and "abs s = 1" and "unity s a n = 1"
  shows "n dvd a"
proof -
  have "cos (of_int s * 2 * pi * real a / real n) = 1" using assms(3) by (simp add: unity_def complex_eq_iff)
  then obtain i :: int where i: "of_int s * 2 * pi * real a / real n = of_int i * 2 * pi"
    by (auto simp: cos_one_2pi_int)
  have "(of_int (s * int a) :: real) = of_int (i * int n)"
    using i assms(1) by (simp add: field_simps)
  then have "s * int a = i * int n" using of_int_eq_iff by blast
  then have "int n dvd s * int a" by simp
  then have "int n dvd int a" using assms(2) by (cases "0 \<le> s") auto
  then show ?thesis by simp
qed

lemma unity_sum:
  assumes "0 < n" and "abs s = 1"
  shows "(\<Sum>i<n. unity s (i * a) n) = (if n dvd a then of_nat n else 0)"
proof (cases "n dvd a")
  case True
  then have "unity s (i * a) n = 1" for i
    using unity_period [OF assms(1), of s] by (auto simp: dvd_def mult.left_commute [of i])
  with True show ?thesis by simp
next
  case False
  let ?w = "unity s a n"
  have w: "?w \<noteq> 1" using False unity_eq_1 [OF assms] by blast
  have "(\<Sum>i<n. unity s (i * a) n) = (\<Sum>i<n. ?w ^ i)"
    using unity_power [of s a _ n] by (intro sum.cong) (simp_all add: mult.commute)
  also have "\<dots> = (?w ^ n - 1) / (?w - 1)" by (rule geometric_sum [OF w])
  also have "?w ^ n = 1" using unity_power [of s a n n] unity_period [OF assms(1), of s a] by (simp add: mult.commute)
  finally show ?thesis using False by simp
qed


section \<open>Sums over residues\<close>

lemma sum_rotate:
  fixes f :: "nat \<Rightarrow> complex"
  assumes "0 < m"
  shows "(\<Sum>q<m. f ((c + q) mod m)) = (\<Sum>q<m. f q)"
proof (rule sum.reindex_bij_witness [of _ "\<lambda>r. (r + (m - c mod m)) mod m" "\<lambda>q. (c + q) mod m"])
  fix q assume q: "q \<in> {..<m}"
  show "((c + q) mod m + (m - c mod m)) mod m = q"
  proof -
    have "((c + q) mod m + (m - c mod m)) mod m = (c mod m + q + (m - c mod m)) mod m" by (metis mod_add_left_eq)
    also have "c mod m + q + (m - c mod m) = q + m" using mod_less_divisor [OF assms, of c] by linarith
    finally show ?thesis using q by simp
  qed
next
  fix r assume r: "r \<in> {..<m}"
  show "(c + (r + (m - c mod m)) mod m) mod m = r"
  proof -
    have "(c + (r + (m - c mod m)) mod m) mod m = (c mod m + (r + (m - c mod m))) mod m" by (metis mod_add_left_eq mod_add_right_eq)
    also have "c mod m + (r + (m - c mod m)) = r + m" using mod_less_divisor [OF assms, of c] by linarith
    finally show ?thesis using r by simp
  qed
qed (use assms in auto)

lemma sum_reflect:
  fixes f :: "nat \<Rightarrow> complex"
  assumes "0 < m"
  shows "(\<Sum>q<m. f ((m - q) mod m)) = (\<Sum>q<m. f q)"
  by (rule sum.reindex_bij_witness [of _ "\<lambda>r. (m - r) mod m" "\<lambda>q. (m - q) mod m"]) (use assms in \<open>auto simp: mod_if\<close>)

lemma sum_grid: "(\<Sum>j<n2 * n1. f j) = (\<Sum>b<n2. \<Sum>a<n1. f (n2 * a + b))" for f :: "nat \<Rightarrow> complex"
proof -
  have row: "sum f {a * n2..<a * n2 + n2} = (\<Sum>b<n2. f (n2 * a + b))" for a
    by (rule sum.reindex_bij_witness [of _ "\<lambda>b. n2 * a + b" "\<lambda>j. j - n2 * a"]) (auto simp: mult.commute)
  have "(\<Sum>j<n1 * n2. f j) = (\<Sum>a<n1. \<Sum>b<n2. f (n2 * a + b))" by (simp add: sum.nat_group [symmetric] row)
  also have "(\<Sum>a<n1. \<Sum>b<n2. f (n2 * a + b)) = (\<Sum>b<n2. \<Sum>a<n1. f (n2 * a + b))" by (rule sum.swap)
  finally show ?thesis by (simp add: mult.commute)
qed


section \<open>Splitting\<close>

text \<open>The four-step identity: transforms of length \<open>n1\<close> over the columns, a twiddle, transforms of length \<open>n2\<close>.\<close>

lemma four_step_identity:
  assumes "0 < n1" and "0 < n2" and "c < n1"
  shows "dft s (n1 * n2) x (c + n1 * d) =
    (\<Sum>b<n2. (unity s (b * c) (n1 * n2) * dft s n1 (\<lambda>a. x (n2 * a + b)) c) * unity s (b * d) n2)"
proof -
  have split: "unity s ((n2 * a + b) * (c + n1 * d)) (n1 * n2) =
      unity s (a * c) n1 * unity s (b * c) (n1 * n2) * unity s (b * d) n2" for a b
  proof -
    have "(n2 * a + b) * (c + n1 * d) = n2 * (a * c) + n1 * n2 * (a * d) + b * c + n1 * (b * d)" by (simp add: algebra_simps)
    moreover have "unity s (n2 * (a * c)) (n1 * n2) = unity s (a * c) n1"
      using unity_cancel [OF assms(2), of s "a * c" n1] by (simp add: mult.commute)
    moreover have "unity s (n1 * n2 * (a * d)) (n1 * n2) = 1" using assms by (intro unity_period) simp
    moreover have "unity s (n1 * (b * d)) (n1 * n2) = unity s (b * d) n2" by (rule unity_cancel [OF assms(1)])
    ultimately show ?thesis by (simp add: unity_add)
  qed
  have "dft s (n1 * n2) x (c + n1 * d) = (\<Sum>b<n2. \<Sum>a<n1. x (n2 * a + b) * unity s ((n2 * a + b) * (c + n1 * d)) (n1 * n2))"
    unfolding dft_def mult.commute [of n1 n2] by (simp only: sum_grid)
  also have "\<dots> = (\<Sum>b<n2. (unity s (b * c) (n1 * n2) * dft s n1 (\<lambda>a. x (n2 * a + b)) c) * unity s (b * d) n2)"
    unfolding dft_def split by (simp add: sum_distrib_left sum_distrib_right ac_simps)
  finally show ?thesis .
qed

section \<open>Convolution\<close>

text \<open>The circular convolution and how the nodes compute it from forward transforms alone.\<close>

definition circular :: "nat \<Rightarrow> (nat \<Rightarrow> complex) \<Rightarrow> (nat \<Rightarrow> complex) \<Rightarrow> nat \<Rightarrow> complex" where
  "circular m a b k = (\<Sum>j<m. a j * b ((k + (m - j)) mod m))"

lemma conjugate_inverse:
  "cnj (dft s m (\<lambda>i. cnj (p i)) k) = dft (- s) m p k"
  by (simp add: dft_def unity_cnj)

lemma convolution_theorem:
  assumes "0 < m" and "abs s = 1" and "k < m"
  shows "cnj (dft s m (\<lambda>i. cnj (dft s m a i * dft s m b i)) k) = of_nat m * circular m a b k"
proof -
  have dvd_iff: "m dvd j + l + (m - k) \<longleftrightarrow> l = (k + (m - j)) mod m" if "j < m" "l < m" for j l
  proof -
    have two: "m dvd t \<longleftrightarrow> t = m \<or> t = 2 * m" if "0 < t" "t < 3 * m" for t
    proof
      assume "m dvd t"
      then obtain q where q: "t = m * q" by (auto simp: dvd_def)
      with that have "0 < q" "q < 3" by (auto simp: mult.commute)
      then have "q = 1 \<or> q = 2" by auto
      with q show "t = m \<or> t = 2 * m" by auto
    qed auto
    have "(k + (m - j)) mod m = (if j \<le> k then k - j else k + (m - j))"
      using that assms(3) by (auto simp: mod_if)
    moreover have "m dvd j + l + (m - k) \<longleftrightarrow> j + l = k \<or> j + l = k + m"
      using two [of "j + l + (m - k)"] that assms(3) by auto
    ultimately show ?thesis using that assms(3) by auto
  qed
  have inner: "(\<Sum>i<m. unity s (j * i) m * unity s (l * i) m * unity (- s) (i * k) m) =
      (if l = (k + (m - j)) mod m then of_nat m else 0)" if "j < m" "l < m" for j l
  proof -
    have "unity (- s) (i * k) m = unity s (i * (m - k)) m" for i
      using unity_power [of "- s" k i m] unity_power [of s "m - k" i m] unity_neg [of m k s] assms by (simp add: mult.commute)
    then have "(\<Sum>i<m. unity s (j * i) m * unity s (l * i) m * unity (- s) (i * k) m) =
        (\<Sum>i<m. unity s (i * (j + l + (m - k))) m)"
      by (simp add: unity_add ring_distribs mult.commute)
    then show ?thesis using unity_sum [OF assms(1,2), of "j + l + (m - k)"] dvd_iff [OF that] by simp
  qed
  have "cnj (dft s m (\<lambda>i. cnj (dft s m a i * dft s m b i)) k) =
      (\<Sum>i<m. (\<Sum>j<m. a j * unity s (j * i) m) * (\<Sum>l<m. b l * unity s (l * i) m) * unity (- s) (i * k) m)"
    unfolding conjugate_inverse unfolding dft_def by simp
  also have "\<dots> = (\<Sum>i<m. \<Sum>j<m. \<Sum>l<m. a j * b l * (unity s (j * i) m * unity s (l * i) m * unity (- s) (i * k) m))"
    unfolding sum_product sum_distrib_right by (intro sum.cong refl) (simp add: sum_distrib_left sum_distrib_right ac_simps)
  also have "\<dots> = (\<Sum>j<m. \<Sum>l<m. a j * b l * (\<Sum>i<m. unity s (j * i) m * unity s (l * i) m * unity (- s) (i * k) m))"
    by (subst sum.swap, rule sum.cong [OF refl], subst sum.swap) (simp add: sum_distrib_left)
  also have "\<dots> = (\<Sum>j<m. \<Sum>l<m. a j * b l * (if l = (k + (m - j)) mod m then of_nat m else 0))"
    using inner by (intro sum.cong) auto
  also have "\<dots> = of_nat m * circular m a b k"
    using assms(1) by (simp add: circular_def if_distrib sum.delta sum_distrib_left ac_simps cong: if_cong)
  finally show ?thesis .
qed

section \<open>Bluestein's chirp\<close>

definition chirp_at :: "int \<Rightarrow> nat \<Rightarrow> nat \<Rightarrow> complex" where
  "chirp_at s n j = cis (of_int s * pi * real (j * j) / real n)"

lemma chirp_product:
  "chirp_at s n j * chirp_at s n k * chirp_at (- s) n (if j \<le> k then k - j else j - k) = unity s (j * k) n"
proof -
  have "real ((if j \<le> k then k - j else j - k) * (if j \<le> k then k - j else j - k)) =
      real (j * j) + real (k * k) - 2 * real (j * k)"
    by (auto simp: of_nat_diff algebra_simps)
  then show ?thesis
    by (simp add: chirp_at_def unity_def cis_mult add_divide_distrib diff_divide_distrib algebra_simps)
qed

lemma bluestein_identity:
  assumes m: "2 * n \<le> m + 1" and k: "k < n"
    and a: "\<And>j. j < n \<Longrightarrow> a j = x j * chirp_at s n j" "\<And>j. n \<le> j \<Longrightarrow> j < m \<Longrightarrow> a j = 0"
    and b: "\<And>j. j < n \<Longrightarrow> b j = chirp_at (- s) n j" "\<And>j. 0 < j \<Longrightarrow> j < n \<Longrightarrow> b (m - j) = chirp_at (- s) n j"
  shows "circular m a b k * chirp_at s n k = dft s n x k"
proof -
  have nm: "n \<le> m" using m k by linarith
  have shift: "b ((k + (m - j)) mod m) = chirp_at (- s) n (if j \<le> k then k - j else j - k)" if "j < n" for j
  proof (cases "j \<le> k")
    case True
    then have "(k + (m - j)) mod m = k - j" using that k nm by (simp add: mod_if)
    with True k b(1) [of "k - j"] show ?thesis by simp
  next
    case False
    then have "k + (m - j) = m - (j - k)" and "m - (j - k) < m" using that k nm by simp_all
    then have "(k + (m - j)) mod m = m - (j - k)" by simp
    with False that b(2) [of "j - k"] show ?thesis by simp
  qed
  have "circular m a b k = (\<Sum>j<n. a j * b ((k + (m - j)) mod m))"
    unfolding circular_def by (rule sum.mono_neutral_right) (use nm a(2) in auto)
  also have "\<dots> = (\<Sum>j<n. x j * (chirp_at s n j * chirp_at (- s) n (if j \<le> k then k - j else j - k)))"
    by (intro sum.cong refl) (simp add: a(1) shift del: if_split)
  finally have "circular m a b k * chirp_at s n k =
      (\<Sum>j<n. x j * (chirp_at s n j * chirp_at s n k * chirp_at (- s) n (if j \<le> k then k - j else j - k)))"
    by (simp add: sum_distrib_left sum_distrib_right ac_simps del: if_split)
  then show ?thesis unfolding chirp_product by (simp add: dft_def)
qed

section \<open>Rader's permutation\<close>

lemma rader_identity:
  assumes m: "0 < m" and p: "p = Suc m" and s: "s < m"
    and perm: "bij_betw idx {..<m} {1..<p}"
    and mult: "\<And>i j. i < m \<Longrightarrow> j < m \<Longrightarrow> idx ((i + j) mod m) = idx i * idx j mod p"
    and a: "\<And>q. q < m \<Longrightarrow> a q = x (idx (if q = 0 then 0 else m - q))"
    and b: "\<And>r. r < m \<Longrightarrow> b r = unity sg (idx r) p"
  shows "x 0 + circular m a b s = dft sg p x (idx s)"
    and "x 0 + (\<Sum>q<m. a q) = dft sg p x 0"
proof -
  have wrap: "(if q = 0 then 0 else m - q) = (m - q) mod m" if "q < m" for q using that by auto
  have tail: "(\<Sum>q<m. x (idx q) * f (idx q)) = (\<Sum>j\<in>{1..<p}. x j * f j)" for f
    using sum.reindex_bij_betw [OF perm, of "\<lambda>j. x j * f j"] by simp
  have head: "dft sg p x k = x 0 + (\<Sum>j\<in>{1..<p}. x j * unity sg (j * k) p)" for k
  proof -
    have "{..<p} = insert 0 {1..<p}" using p by auto
    then show ?thesis by (simp add: dft_def)
  qed
  have "circular m a b s = (\<Sum>q<m. (\<lambda>r. x (idx r) * unity sg (idx r * idx s) p) ((m - q) mod m))"
  proof (unfold circular_def, intro sum.cong refl)
    fix q assume q: "q \<in> {..<m}"
    have "unity sg (idx ((s + (m - q)) mod m)) p = unity sg (idx ((m - q) mod m) * idx s) p"
      using mult [of "(m - q) mod m" s] s m unity_mod [of p sg "idx ((m - q) mod m) * idx s"] p
      by (simp add: mod_add_right_eq add.commute)
    then show "a q * b ((s + (m - q)) mod m) = x (idx ((m - q) mod m)) * unity sg (idx ((m - q) mod m) * idx s) p"
      using q m by (simp add: a b wrap)
  qed
  also have "\<dots> = (\<Sum>q<m. x (idx q) * unity sg (idx q * idx s) p)" by (rule sum_reflect [OF m])
  finally show "x 0 + circular m a b s = dft sg p x (idx s)"
    using head [of "idx s"] tail [of "\<lambda>j. unity sg (j * idx s) p"] by simp
  have "(\<Sum>q<m. a q) = (\<Sum>q<m. x (idx ((m - q) mod m)))" by (intro sum.cong) (simp_all add: a wrap)
  also have "\<dots> = (\<Sum>q<m. x (idx q))" using sum_reflect [OF m, of "\<lambda>q. x (idx q)"] .
  finally show "x 0 + (\<Sum>q<m. a q) = dft sg p x 0"
    using head [of 0] tail [of "\<lambda>_. 1"] by simp
qed

end
