(* ===== verification/FFT_Device.thy ===== *)
theory FFT_Device
  imports FFT_CApi FFT_Dft
begin

text \<open>
  The device as the execution nodes see it: numbered allocations of complex elements, kernel launches and
  copies in the order of one stream.

  An address is an allocation and an element index; a \<open>DevicePtr\<close> with a byte offset is the allocation and
  the offset in elements (every offset the code computes is a multiple of the element size). A kernel is
  given by its work items: the addresses an item loads, and the values it stores. A launch whose items
  read or write outside an allocation, or where one item stores what another one loads or stores, is
  \<open>Undefined\<close>. Each launch or copy may raise: \<open>mc_fails\<close> gives the exception of the operation that is the
  \<open>t\<close>-th of the run. Floating-point arithmetic on the device is arithmetic of complex numbers.
\<close>

section \<open>Effects\<close>

datatype 'a effect = Return 'a | Raise exn | Undefined

type_synonym addr = "nat \<times> nat"

record dev =
  d_mem :: "addr \<Rightarrow> complex"
  d_size :: "nat \<Rightarrow> nat"
  d_ready :: "nat \<Rightarrow> bool"
  d_next :: nat
  d_ticks :: nat

type_synonym 'a exec = "dev \<Rightarrow> 'a effect \<times> dev"

definition xret :: "'a \<Rightarrow> 'a exec" where
  "xret x = (\<lambda>d. (Return x, d))"

definition xraise :: "exn \<Rightarrow> 'a exec" where
  "xraise e = (\<lambda>d. (Raise e, d))"

definition xundefined :: "'a exec" where
  "xundefined = (\<lambda>d. (Undefined, d))"

definition xbind :: "'a exec \<Rightarrow> ('a \<Rightarrow> 'b exec) \<Rightarrow> 'b exec" where
  "xbind f g = (\<lambda>d. case f d of
     (Return x, d') \<Rightarrow> g x d' | (Raise e, d') \<Rightarrow> (Raise e, d') | (Undefined, d') \<Rightarrow> (Undefined, d'))"

text \<open>\<open>try { f } catch (const std::exception &e) { return x; }\<close>\<close>

definition xcatch :: "'a exec \<Rightarrow> 'a \<Rightarrow> 'a exec" where
  "xcatch f x = (\<lambda>d. case f d of
     (Return y, d') \<Rightarrow> (Return y, d') | (Raise e, d') \<Rightarrow> (Return x, d') | (Undefined, d') \<Rightarrow> (Undefined, d'))"

definition xget :: "dev exec" where
  "xget = (\<lambda>d. (Return d, d))"

definition xmodify :: "(dev \<Rightarrow> dev) \<Rightarrow> unit exec" where
  "xmodify f = (\<lambda>d. (Return (), f d))"

lemmas x_defs = xret_def xraise_def xundefined_def xbind_def xcatch_def xget_def xmodify_def

section \<open>The machine\<close>

text \<open>
  What lies outside: which device operations raise, the backend's limit on blocks per launch, the request
  every node of a plan is executed with, and the arithmetic of the generated kernels of leaves and radix
  codelets, for a sign and a length.
\<close>

record machine =
  mc_fails :: "nat \<Rightarrow> exn option"
  mc_max_launch_blocks :: nat
  mc_request :: fft_request
  mc_leaf :: "int \<Rightarrow> nat \<Rightarrow> complex list \<Rightarrow> complex list"
  mc_codelet :: "int \<Rightarrow> nat \<Rightarrow> complex list \<Rightarrow> complex list"

definition block_limit_per_launch :: "machine \<Rightarrow> nat" where
  "block_limit_per_launch mc = max 1 (mc_max_launch_blocks mc)"

definition faulty :: "machine \<Rightarrow> bool" where
  "faulty mc \<longleftrightarrow> (\<exists>t e. mc_fails mc t = Some e)"

subsection \<open>Kernels\<close>

record item =
  it_defined :: bool
  it_loads :: "addr list"
  it_stores :: "(addr \<times> complex) list"

type_synonym kernel = "(addr \<Rightarrow> complex) \<Rightarrow> item list"

definition in_bounds :: "dev \<Rightarrow> addr \<Rightarrow> bool" where
  "in_bounds d a \<longleftrightarrow> snd a < d_size d (fst a)"

definition item_in_bounds :: "dev \<Rightarrow> item \<Rightarrow> bool" where
  "item_in_bounds d it \<longleftrightarrow> it_defined it \<and> list_all (in_bounds d) (it_loads it) \<and>
     list_all (in_bounds d \<circ> fst) (it_stores it)"

definition race_free :: "item list \<Rightarrow> bool" where
  "race_free items \<longleftrightarrow>
     distinct (concat (map (\<lambda>it. map fst (it_stores it)) items)) \<and>
     (\<forall>i < length items. \<forall>j < length items. i \<noteq> j \<longrightarrow>
        set (it_loads (items ! i)) \<inter> fst ` set (it_stores (items ! j)) = {})"

fun apply_stores :: "(addr \<times> complex) list \<Rightarrow> (addr \<Rightarrow> complex) \<Rightarrow> addr \<Rightarrow> complex" where
  "apply_stores [] mem = mem"
| "apply_stores ((a, v) # ws) mem = apply_stores ws (mem(a := v))"

definition operation :: "machine \<Rightarrow> unit exec \<Rightarrow> unit exec" where
  "operation mc f = (\<lambda>d. case mc_fails mc (d_ticks d) of
     Some e \<Rightarrow> (Raise e, d\<lparr>d_ticks := d_ticks d + 1\<rparr>)
   | None \<Rightarrow> f (d\<lparr>d_ticks := d_ticks d + 1\<rparr>))"

definition launch :: "machine \<Rightarrow> kernel \<Rightarrow> unit exec" where
  "launch mc ker = operation mc (\<lambda>d.
     let items = ker (d_mem d)
     in if list_all (item_in_bounds d) items \<and> race_free items
        then (Return (), d\<lparr>d_mem := apply_stores (concat (map it_stores items)) (d_mem d)\<rparr>)
        else (Undefined, d))"

text \<open>A position in device memory.\<close>

type_synonym ptr = "nat \<times> nat"

definition cell :: "ptr \<Rightarrow> nat \<Rightarrow> addr" where
  "cell p i = (fst p, snd p + i)"

definition advance :: "ptr \<Rightarrow> nat \<Rightarrow> ptr" where
  "advance p n = (fst p, snd p + n)"

text \<open>\<open>copy_device_to_device(dst, src, count elements)\<close>; the regions must not overlap.\<close>

definition copy_device_to_device :: "machine \<Rightarrow> ptr \<Rightarrow> ptr \<Rightarrow> nat \<Rightarrow> unit exec" where
  "copy_device_to_device mc dst src len = launch mc (\<lambda>mem.
     map (\<lambda>i. \<lparr>it_defined = True, it_loads = [cell src i], it_stores = [(cell dst i, mem (cell src i))]\<rparr>) [0..<len])"

subsection \<open>Grids\<close>

definition ceil_div_nat :: "nat \<Rightarrow> nat \<Rightarrow> nat" where
  "ceil_div_nat a b = (a + b - 1) div b"

text \<open>\<open>offsets = program_id(0) * 256 + arange(0, 256)\<close>, over all programs of a row of the grid.\<close>

definition block_offsets :: "nat \<Rightarrow> nat \<Rightarrow> nat list" where
  "block_offsets block grid_x = concat (map (\<lambda>pid. map (\<lambda>lane. pid * block + lane) [0..<block]) [0..<grid_x])"

text \<open>The pairs of batch entry and offset of a kernel with one row of blocks per batch entry and a mask.\<close>

definition grid_points :: "nat \<Rightarrow> nat \<Rightarrow> nat \<Rightarrow> (nat \<times> nat) list" where
  "grid_points grid_x grid_y limit =
     concat (map (\<lambda>pid_batch. map (Pair pid_batch) (filter (\<lambda>off. off < limit) (block_offsets 256 grid_x))) [0..<grid_y])"

text \<open>A kernel that stores one element for each of its pairs of batch entry and offset.\<close>

definition pointwise ::
  "(nat \<times> nat) list \<Rightarrow> (nat \<Rightarrow> nat \<Rightarrow> bool) \<Rightarrow> (nat \<Rightarrow> nat \<Rightarrow> addr list) \<Rightarrow> (nat \<Rightarrow> nat \<Rightarrow> addr) \<Rightarrow>
   ((addr \<Rightarrow> complex) \<Rightarrow> nat \<Rightarrow> nat \<Rightarrow> complex) \<Rightarrow> kernel" where
  "pointwise points ok loads dst val mem =
     map (\<lambda>x. \<lparr>it_defined = ok (fst x) (snd x), it_loads = loads (fst x) (snd x),
               it_stores = [(dst (fst x) (snd x), val mem (fst x) (snd x))]\<rparr>) points"

subsection \<open>Chunks\<close>

text \<open>
  \<open>for (offset = 0; offset < batch; offset += chunk) body(offset, min(chunk, batch - offset))\<close>, where the
  body may end the function early by a result that is not a success. A chunk of zero would not end.
\<close>

function for_chunks :: "nat \<Rightarrow> nat \<Rightarrow> nat \<Rightarrow> (nat \<Rightarrow> nat \<Rightarrow> flagfft_result exec) \<Rightarrow> flagfft_result exec" where
  "for_chunks chunk batch off body =
     (if off < batch then
        (if chunk = 0 then xundefined
         else xbind (body off (min chunk (batch - off))) (\<lambda>r.
           if r \<noteq> FLAGFFT_SUCCESS then xret r else for_chunks chunk batch (off + chunk) body))
      else xret FLAGFFT_SUCCESS)"
  by pat_completeness auto
termination
  by (relation "measure (\<lambda>(chunk, batch, off, body). batch - off)") auto

declare for_chunks.simps [simp del]

section \<open>Running\<close>

text \<open>
  \<open>runs mc K f d Q\<close>: from \<open>d\<close>, \<open>f\<close> returns with \<open>Q\<close>, or an operation of the machine has raised and the state
  satisfies \<open>K\<close>. It is never undefined.
\<close>

definition runs :: "machine \<Rightarrow> (dev \<Rightarrow> bool) \<Rightarrow> 'a exec \<Rightarrow> dev \<Rightarrow> ('a \<Rightarrow> dev \<Rightarrow> bool) \<Rightarrow> bool" where
  "runs mc K f d Q \<longleftrightarrow> (case f d of
     (Return x, d') \<Rightarrow> Q x d' | (Raise e, d') \<Rightarrow> faulty mc \<and> K d' | (Undefined, d') \<Rightarrow> False)"

lemma runs_ret [intro]: "Q x d \<Longrightarrow> runs mc K (xret x) d Q"
  by (simp add: runs_def xret_def)

lemma runs_get [intro]: "Q d d \<Longrightarrow> runs mc K xget d Q"
  by (simp add: runs_def xget_def)

lemma runs_modify [intro]: "Q () (f d) \<Longrightarrow> runs mc K (xmodify f) d Q"
  by (simp add: runs_def xmodify_def)

lemma runs_bind:
  assumes "runs mc K f d R" and "\<And>x d'. R x d' \<Longrightarrow> runs mc K (g x) d' Q"
  shows "runs mc K (xbind f g) d Q"
  using assms by (fastforce simp: runs_def xbind_def split: prod.splits effect.splits)

lemma runs_then: "runs mc K f d (\<lambda>_ d'. runs mc K g d' Q) \<Longrightarrow> runs mc K (xbind f (\<lambda>_. g)) d Q"
  by (rule runs_bind)

lemma runs_post:
  assumes "runs mc K f d R" and "\<And>x d'. R x d' \<Longrightarrow> Q x d'" and "\<And>d'. K d' \<Longrightarrow> K' d'"
  shows "runs mc K' f d Q"
  using assms by (auto simp: runs_def split: prod.splits effect.splits)

lemma runs_if:
  "(b \<Longrightarrow> runs mc K f d Q) \<Longrightarrow> (\<not> b \<Longrightarrow> runs mc K g d Q) \<Longrightarrow> runs mc K (if b then f else g) d Q"
  by simp

lemma runs_catch:
  assumes "runs mc K f d Q" and "\<And>d'. faulty mc \<Longrightarrow> K d' \<Longrightarrow> Q x d'"
  shows "runs mc (\<lambda>_. False) (xcatch f x) d Q"
  using assms by (auto simp: runs_def xcatch_def split: prod.splits effect.splits)

lemma runs_returns:
  assumes "runs mc (\<lambda>_. False) f d Q"
  obtains x d' where "f d = (Return x, d')" and "Q x d'"
  using assms by (auto simp: runs_def split: prod.splits effect.splits)

section \<open>Launches\<close>

lemma apply_stores_other: "a \<notin> fst ` set ws \<Longrightarrow> apply_stores ws mem a = mem a"
  by (induction ws mem rule: apply_stores.induct) auto

lemma apply_stores_at:
  "distinct (map fst ws) \<Longrightarrow> (a, v) \<in> set ws \<Longrightarrow> apply_stores ws mem a = v"
  by (induction ws mem rule: apply_stores.induct) (auto simp: apply_stores_other image_iff)

lemma runs_operation:
  assumes "\<And>d'. d' = d\<lparr>d_ticks := d_ticks d + 1\<rparr> \<Longrightarrow> runs mc K (\<lambda>_. f d') d Q"
    and "K (d\<lparr>d_ticks := d_ticks d + 1\<rparr>)"
  shows "runs mc K (operation mc f) d Q"
  using assms by (auto simp: runs_def operation_def faulty_def split: option.splits)

lemma distinct_concat_map:
  assumes "distinct xs" and "\<forall>x \<in> set xs. distinct (f x)"
    and "\<forall>x \<in> set xs. \<forall>y \<in> set xs. x \<noteq> y \<longrightarrow> set (f x) \<inter> set (f y) = {}"
  shows "distinct (concat (map f xs))"
  using assms
proof (induction xs)
  case (Cons x xs)
  then have "set (f x) \<inter> set (f y) = {}" if "y \<in> set xs" for y using that by (metis distinct.simps(2) list.set_intros)
  with Cons show ?case by (simp add: Int_UN_distrib)
qed simp

text \<open>The memory after a launch: what the items store, and what was there elsewhere.\<close>

lemma runs_launch:
  assumes ker: "\<And>mem. ker mem = map (\<lambda>x. \<lparr>it_defined = ok x, it_loads = loads x, it_stores = stores mem x\<rparr>) xs"
    and dsts: "\<And>mem x. map fst (stores mem x) = dsts x"
    and dist: "distinct xs" "\<And>x. x \<in> set xs \<Longrightarrow> distinct (dsts x)"
    and apart: "\<And>x y. x \<in> set xs \<Longrightarrow> y \<in> set xs \<Longrightarrow> x \<noteq> y \<Longrightarrow> set (dsts x) \<inter> set (dsts y) = {}"
    and bounds: "\<And>x a. x \<in> set xs \<Longrightarrow> ok x \<and> (a \<in> set (loads x) \<union> set (dsts x) \<longrightarrow> in_bounds d a)"
    and race: "\<And>x y. x \<in> set xs \<Longrightarrow> y \<in> set xs \<Longrightarrow> x \<noteq> y \<Longrightarrow> set (loads x) \<inter> set (dsts y) = {}"
    and fail: "\<And>t. K (d\<lparr>d_ticks := t\<rparr>)"
    and post: "\<And>mem t. (\<And>x a v. x \<in> set xs \<Longrightarrow> (a, v) \<in> set (stores (d_mem d) x) \<Longrightarrow> mem a = v) \<Longrightarrow>
        (\<And>a. (\<And>x. x \<in> set xs \<Longrightarrow> a \<notin> set (dsts x)) \<Longrightarrow> mem a = d_mem d a) \<Longrightarrow> Q () (d\<lparr>d_ticks := t, d_mem := mem\<rparr>)"
  shows "runs mc K (launch mc ker) d Q"
  unfolding launch_def
proof (rule runs_operation)
  fix d' assume d': "d' = d\<lparr>d_ticks := d_ticks d + 1\<rparr>"
  let ?items = "ker (d_mem d')"
  let ?ws = "concat (map it_stores ?items)"
  have ws: "?ws = concat (map (stores (d_mem d)) xs)" by (simp add: ker d' comp_def)
  have set_dsts: "set (dsts x) = fst ` set (stores mem x)" for mem x by (simp flip: dsts [of mem])
  have all: "list_all (item_in_bounds d') ?items"
  proof -
    have "item_in_bounds d' \<lparr>it_defined = ok x, it_loads = loads x, it_stores = stores (d_mem d) x\<rparr>" if "x \<in> set xs" for x
      using bounds [OF that] set_dsts [of x "d_mem d"] by (auto simp: list_all_iff item_in_bounds_def in_bounds_def d')
    then show ?thesis by (simp add: ker list_all_iff d')
  qed
  have dist': "distinct (map fst ?ws)"
  proof -
    have "map fst ?ws = concat (map dsts xs)" by (simp add: ws map_concat comp_def dsts)
    moreover have "distinct (concat (map dsts xs))"
      using dist apart by (intro distinct_concat_map) auto
    ultimately show ?thesis by simp
  qed
  have "concat (map (\<lambda>it. map fst (it_stores it)) ?items) = map fst ?ws" by (simp add: ker comp_def map_concat)
  moreover have "set (it_loads (?items ! i)) \<inter> fst ` set (it_stores (?items ! j)) = {}"
    if "i < length ?items" "j < length ?items" "i \<noteq> j" for i j
    using that race [of "xs ! i" "xs ! j"] dist(1) by (simp add: ker nth_eq_iff_index_eq set_dsts [of "xs ! j" "d_mem d'"])
  ultimately have "race_free ?items" using dist' by (simp add: race_free_def)
  moreover have "Q () (d\<lparr>d_ticks := d_ticks d + 1, d_mem := apply_stores ?ws (d_mem d')\<rparr>)"
  proof (rule post)
    fix x a v assume "x \<in> set xs" "(a, v) \<in> set (stores (d_mem d) x)"
    then have "(a, v) \<in> set ?ws" by (auto simp: ws)
    then show "apply_stores ?ws (d_mem d') a = v" by (rule apply_stores_at [OF dist'])
  next
    fix a assume "\<And>x. x \<in> set xs \<Longrightarrow> a \<notin> set (dsts x)"
    then have "a \<notin> fst ` set ?ws" by (auto simp: ws set_dsts [of _ "d_mem d"] image_iff)
    then show "apply_stores ?ws (d_mem d') a = d_mem d a" by (simp add: apply_stores_other d')
  qed
  ultimately show "runs mc K (\<lambda>_. let items = ker (d_mem d')
     in if list_all (item_in_bounds d') items \<and> race_free items
        then (Return (), d'\<lparr>d_mem := apply_stores (concat (map it_stores items)) (d_mem d')\<rparr>)
        else (Undefined, d')) d Q"
    using all by (simp add: runs_def Let_def d')
qed (rule fail)

subsection \<open>Rows\<close>

text \<open>Only the \<open>len\<close> elements from \<open>p\<close> on differ.\<close>

definition cells :: "ptr \<Rightarrow> nat \<Rightarrow> addr set" where
  "cells p len = cell p ` {..<len}"

definition same_but :: "ptr \<Rightarrow> nat \<Rightarrow> dev \<Rightarrow> dev \<Rightarrow> bool" where
  "same_but p len d d' \<longleftrightarrow> d_size d' = d_size d \<and> d_ready d' = d_ready d \<and> d_next d' = d_next d \<and>
     (\<forall>a. a \<notin> cells p len \<longrightarrow> d_mem d' a = d_mem d a)"

lemma cells_iff: "a \<in> cells p len \<longleftrightarrow> fst a = fst p \<and> snd p \<le> snd a \<and> snd a < snd p + len"
proof
  assume "fst a = fst p \<and> snd p \<le> snd a \<and> snd a < snd p + len"
  then have "a = cell p (snd a - snd p)" "snd a - snd p < len" by (auto simp: cell_def prod_eq_iff)
  then show "a \<in> cells p len" unfolding cells_def by blast
qed (auto simp: cells_def cell_def)

lemma cells_fst: "a \<in> cells p len \<Longrightarrow> fst a = fst p"
  by (simp add: cells_iff)

lemma cell_in_cells [simp, intro]: "i < len \<Longrightarrow> cell p i \<in> cells p len"
  by (simp add: cells_def)

lemma fst_cell [simp]: "fst (cell p i) = fst p"
  by (simp add: cell_def)

lemma same_butD: "same_but p len d d' \<Longrightarrow> a \<notin> cells p len \<Longrightarrow> d_mem d' a = d_mem d a"
  unfolding same_but_def by blast

lemma same_but_other: "same_but p len d d' \<Longrightarrow> fst a \<noteq> fst p \<Longrightarrow> d_mem d' a = d_mem d a"
  unfolding same_but_def using cells_fst by blast

lemma same_but_state: "same_but p len d d' \<Longrightarrow> d_size d' = d_size d \<and> d_ready d' = d_ready d \<and> d_next d' = d_next d"
  by (simp add: same_but_def)

definition fits :: "dev \<Rightarrow> ptr \<Rightarrow> nat \<Rightarrow> bool" where
  "fits d p len \<longleftrightarrow> snd p + len \<le> d_size d (fst p)"

lemma in_bounds_cell: "fits d p len \<Longrightarrow> i < len \<Longrightarrow> in_bounds d (cell p i)"
  by (simp add: fits_def in_bounds_def cell_def)

lemma row_less: "b < k \<Longrightarrow> o' < L \<Longrightarrow> b * L + o' < k * (L :: nat)"
proof -
  assume "b < k" "o' < L"
  then have "b * L + o' < (b + 1) * L" by simp
  also have "\<dots> \<le> k * L" using \<open>b < k\<close> by (intro mult_right_mono) simp_all
  finally show ?thesis .
qed

lemma row_inject: "o1 < L \<Longrightarrow> o2 < L \<Longrightarrow> b1 * L + o1 = b2 * L + o2 \<longleftrightarrow> b1 = b2 \<and> o1 = (o2 :: nat)"
proof
  assume *: "o1 < L" "o2 < L" "b1 * L + o1 = b2 * L + o2"
  have "(b1 * L + o1) div L = b1" "(b2 * L + o2) div L = b2" using *(1,2) by simp_all
  with *(3) have "b1 = b2" by simp
  with *(3) show "b1 = b2 \<and> o1 = o2" by simp
qed simp

lemma block_offsets_eq: "block_offsets block grid_x = [0..<grid_x * block]"
proof (induction grid_x)
  case (Suc g)
  have "map (\<lambda>lane. g * block + lane) [0..<block] = [g * block..<Suc g * block]"
    using map_add_upt [of "g * block" block] by (simp add: add.commute)
  with Suc show ?case
    using upt_add_eq_append [of 0 "g * block" block] by (simp add: block_offsets_def add.commute)
qed (simp add: block_offsets_def)

lemma grid_points_set [simp]:
  "set (grid_points gx gy lm) = {..<gy} \<times> {..<min lm (gx * 256)}"
  by (auto simp: grid_points_def block_offsets_eq)

lemma grid_points_distinct [simp]: "distinct (grid_points gx gy lm)"
  unfolding grid_points_def by (induction gy) (auto simp: block_offsets_eq distinct_map inj_on_def)

lemma ceil_div_covers: "0 < b \<Longrightarrow> a \<le> ceil_div_nat a b * b"
proof -
  assume b: "0 < b"
  have "a + b - 1 < (a + b - 1) div b * b + b" using dividend_less_div_times [OF b] by (simp add: add.commute)
  then show ?thesis by (simp add: ceil_div_nat_def)
qed

text \<open>A pointwise kernel whose rows of length \<open>L\<close> start at \<open>out\<close>, reading other allocations only.\<close>

lemma runs_pointwise:
  assumes out: "\<And>b off. dst b off = cell out (b * L + \<pi> off)" and fit: "fits d out (gy * L)"
    and inj: "inj_on \<pi> {..<lm}" "\<And>off. off < lm \<Longrightarrow> \<pi> off < L" and points: "distinct pts" "\<And>x. x \<in> set pts \<longleftrightarrow> fst x < gy \<and> snd x < lm"
    and loads: "\<And>b off a. b < gy \<Longrightarrow> off < lm \<Longrightarrow> ok b off \<and> (a \<in> set (loads b off) \<longrightarrow> in_bounds d a \<and> fst a \<noteq> fst out)"
    and fail: "\<And>t. K (d\<lparr>d_ticks := t\<rparr>)"
    and post: "\<And>d'. same_but out (gy * L) d d' \<Longrightarrow>
        (\<And>b off. b < gy \<Longrightarrow> off < lm \<Longrightarrow> d_mem d' (cell out (b * L + \<pi> off)) = val (d_mem d) b off) \<Longrightarrow>
        (\<And>a. (\<And>b off. b < gy \<Longrightarrow> off < lm \<Longrightarrow> a \<noteq> cell out (b * L + \<pi> off)) \<Longrightarrow> d_mem d' a = d_mem d a) \<Longrightarrow> Q () d'"
  shows "runs mc K (launch mc (pointwise pts ok loads dst val)) d Q"
proof (rule runs_launch [where loads = "\<lambda>x. loads (fst x) (snd x)" and dsts = "\<lambda>x. [dst (fst x) (snd x)]"
      and stores = "\<lambda>mem x. [(dst (fst x) (snd x), val mem (fst x) (snd x))]" and ok = "\<lambda>x. ok (fst x) (snd x)"
      and xs = "pts"])
  show "pointwise pts ok loads dst val mem = map (\<lambda>x. \<lparr>it_defined = ok (fst x) (snd x),
      it_loads = loads (fst x) (snd x), it_stores = [(dst (fst x) (snd x), val mem (fst x) (snd x))]\<rparr>) pts" for mem
    unfolding pointwise_def ..
next
  fix x y assume xy: "x \<in> set pts" "y \<in> set pts" "x \<noteq> y"
  have "snd x \<in> {..<lm}" "snd y \<in> {..<lm}" using xy(1,2) points(2) by simp_all
  then have "\<not> (fst x = fst y \<and> \<pi> (snd x) = \<pi> (snd y))"
    using xy(3) inj_on_eq_iff [OF inj(1)] prod_eqI [of x y] by blast
  moreover have "\<pi> (snd x) < L" "\<pi> (snd y) < L" using xy(1,2) inj(2) points(2) by auto
  ultimately show "set [dst (fst x) (snd x)] \<inter> set [dst (fst y) (snd y)] = {}"
    by (simp add: out cell_def row_inject)
  show "set (loads (fst x) (snd x)) \<inter> set [dst (fst y) (snd y)] = {}"
    using loads [of "fst x" "snd x" "dst (fst y) (snd y)"] xy(1) points by (auto simp: out cell_def)
next
  fix x a assume "x \<in> set pts"
  then show "ok (fst x) (snd x) \<and> (a \<in> set (loads (fst x) (snd x)) \<union> set [dst (fst x) (snd x)] \<longrightarrow> in_bounds d a)"
    using loads [of "fst x" "snd x" a] in_bounds_cell [OF fit, of "fst x * L + \<pi> (snd x)"] row_less [of "fst x" gy] inj(2) [of "snd x"] points
    by (auto simp: out)
next
  fix mem t
  assume st: "\<And>x a v. x \<in> set pts \<Longrightarrow>
      (a, v) \<in> set [(dst (fst x) (snd x), val (d_mem d) (fst x) (snd x))] \<Longrightarrow> mem a = v"
    and other: "\<And>a. (\<And>x. x \<in> set pts \<Longrightarrow> a \<notin> set [dst (fst x) (snd x)]) \<Longrightarrow> mem a = d_mem d a"
  show "Q () (d\<lparr>d_ticks := t, d_mem := mem\<rparr>)"
  proof (rule post)
    have "mem a = d_mem d a" if "a \<notin> cells out (gy * L)" for a
    proof (rule other)
      fix x assume "x \<in> set pts"
      then show "a \<notin> set [dst (fst x) (snd x)]"
        using that row_less [of "fst x" gy "\<pi> (snd x)" L] inj(2) [of "snd x"] points by (auto simp: out)
    qed
    then show "same_but out (gy * L) d (d\<lparr>d_ticks := t, d_mem := mem\<rparr>)" by (simp add: same_but_def)
  next
    fix b off assume "b < gy" "off < lm"
    with st [of "(b, off)"] points show "d_mem (d\<lparr>d_ticks := t, d_mem := mem\<rparr>) (cell out (b * L + \<pi> off)) = val (d_mem d) b off"
      by (auto simp: out)
  next
    fix a assume "\<And>b off. b < gy \<Longrightarrow> off < lm \<Longrightarrow> a \<noteq> cell out (b * L + \<pi> off)"
    then show "d_mem (d\<lparr>d_ticks := t, d_mem := mem\<rparr>) a = d_mem d a"
      using other [of a] points(2) by (auto simp: out)
  qed
qed (use fail points in auto)

lemma grid_points_covers:
  "lm \<le> gx * 256 \<Longrightarrow> x \<in> set (grid_points gx gy lm) \<longleftrightarrow> fst x < gy \<and> snd x < lm"
  by (auto simp: mem_Times_iff)

lemma grid_points_ceil:
  "x \<in> set (grid_points (ceil_div_nat lm 256) gy lm) \<longleftrightarrow> fst x < gy \<and> snd x < lm"
  by (rule grid_points_covers) (rule ceil_div_covers, simp)

lemma runs_copy:
  assumes "fits d dst len" and "fits d src len" and "fst src \<noteq> fst dst" and "\<And>t. K (d\<lparr>d_ticks := t\<rparr>)"
    and "\<And>d'. same_but dst len d d' \<Longrightarrow> (\<And>i. i < len \<Longrightarrow> d_mem d' (cell dst i) = d_mem d (cell src i)) \<Longrightarrow> Q () d'"
  shows "runs mc K (copy_device_to_device mc dst src len) d Q"
  unfolding copy_device_to_device_def
proof (rule runs_launch [where ok = "\<lambda>_. True" and loads = "\<lambda>i. [cell src i]" and dsts = "\<lambda>i. [cell dst i]"
      and stores = "\<lambda>mem i. [(cell dst i, mem (cell src i))]" and xs = "[0..<len]"])
  fix mem t
  assume st: "\<And>x a v. x \<in> set [0..<len] \<Longrightarrow> (a, v) \<in> set [(cell dst x, d_mem d (cell src x))] \<Longrightarrow> mem a = v"
    and other: "\<And>a. (\<And>x. x \<in> set [0..<len] \<Longrightarrow> a \<notin> set [cell dst x]) \<Longrightarrow> mem a = d_mem d a"
  show "Q () (d\<lparr>d_ticks := t, d_mem := mem\<rparr>)"
  proof (rule assms(5))
    show "same_but dst len d (d\<lparr>d_ticks := t, d_mem := mem\<rparr>)"
      using other by (auto simp: same_but_def cells_def)
  qed (use st in auto)
qed (use assms in_bounds_cell in \<open>auto simp: cell_def\<close>)

lemma runs_chunks:
  assumes "Inv off d" and "off \<le> batch" and "0 < chunk"
    and step: "\<And>off c d. Inv off d \<Longrightarrow> off < batch \<Longrightarrow> 0 < c \<Longrightarrow> c \<le> chunk \<Longrightarrow> off + c \<le> batch \<Longrightarrow>
        runs mc K (body off c) d (\<lambda>r d'. r = FLAGFFT_SUCCESS \<and> Inv (off + c) d' \<or> r \<noteq> FLAGFFT_SUCCESS \<and> F r d')"
  shows "runs mc K (for_chunks chunk batch off body) d (\<lambda>r d'. r = FLAGFFT_SUCCESS \<and> Inv batch d' \<or> F r d')"
  using assms(1,2)
proof (induction "batch - off" arbitrary: off d rule: less_induct)
  case less
  show ?case
  proof (cases "off < batch")
    case True
    let ?c = "min chunk (batch - off)"
    have rest: "runs mc K (for_chunks chunk batch (off + chunk) body) d' (\<lambda>r d'. r = FLAGFFT_SUCCESS \<and> Inv batch d' \<or> F r d')"
      if "Inv (off + ?c) d'" for d'
    proof (cases "chunk \<le> batch - off")
      case True
      with that \<open>0 < chunk\<close> \<open>off < batch\<close> show ?thesis by (intro less.hyps) auto
    next
      case False
      with that \<open>off < batch\<close> have "Inv batch d'" "\<not> off + chunk < batch" by auto
      then show ?thesis by (subst for_chunks.simps) auto
    qed
    have "runs mc K (body off ?c) d (\<lambda>r d'. r = FLAGFFT_SUCCESS \<and> Inv (off + ?c) d' \<or> r \<noteq> FLAGFFT_SUCCESS \<and> F r d')"
      using True assms(3) less.prems by (intro step) auto
    then have "runs mc K (xbind (body off ?c) (\<lambda>r.
        if r \<noteq> FLAGFFT_SUCCESS then xret r else for_chunks chunk batch (off + chunk) body)) d
        (\<lambda>r d'. r = FLAGFFT_SUCCESS \<and> Inv batch d' \<or> F r d')"
      by (rule runs_bind) (auto intro: rest)
    with True assms(3) show ?thesis by (subst for_chunks.simps) simp
  next
    case False
    with less.prems have "off = batch" by simp
    with False less.prems show ?thesis by (subst for_chunks.simps) auto
  qed
qed

end
