(* ===== verification/FFT_Exec.thy ===== *)
theory FFT_Exec
  imports FFT_Device
begin

text \<open>
  The bodies of the execution nodes of \<open>src/src/exec/raw_nodes.cpp\<close> that every backend shares, with the
  kernels they launch as \<open>src/python/flagfft_codegen\<close> emits them: direct transforms, Stockham stages,
  leaves, Bluestein and Rader convolutions, and the generic four-step split.

  The allocations a node's kernels write are numbers of device allocations, its read-only tables are kept
  as their contents. The flag \<open>b_fft_ready\<close> of a convolution node is \<open>d_ready\<close> at the allocation of its transformed kernel. The
  arithmetic inside a leaf kernel and inside a radix codelet is the machine's. Not here are captured
  graphs and the kernels of single backends. The generator's metadata of a direct kernel give one row per
  block, so its grid is the batch.
\<close>

section \<open>Kernels\<close>

subsection \<open>Direct transforms\<close>

text \<open>
  \<open>_build_direct_dft_kernel_source\<close>: one program per batch entry, one lane per output. The two dtypes walk
  the matrix in different orders.
\<close>

definition dft_matrix_index :: "fft_request \<Rightarrow> nat \<Rightarrow> nat \<Rightarrow> nat \<Rightarrow> nat" where
  "dft_matrix_index r n k j = (if req_input_dtype r = ''complex128'' then k * n + j else j * n + k)"

definition direct_points :: "nat \<Rightarrow> nat \<Rightarrow> nat \<Rightarrow> nat \<Rightarrow> (nat \<times> nat) list" where
  "direct_points grid_x nbatch block n =
     concat (map (\<lambda>pid_batch. if nbatch \<le> pid_batch then []
       else map (Pair pid_batch) (filter (\<lambda>k. k < n) [0..<block])) [0..<grid_x])"

definition direct_dft_kernel ::
  "machine \<Rightarrow> nat \<Rightarrow> real list \<Rightarrow> real list \<Rightarrow> ptr \<Rightarrow> ptr \<Rightarrow> nat \<Rightarrow> nat \<Rightarrow> kernel" where
  "direct_dft_kernel mc n dft_r dft_i inp out grid_x nbatch =
     (let at_kj = dft_matrix_index (mc_request mc) n
      in pointwise (direct_points grid_x nbatch (nat (lane_block_for (int n))) n)
       (\<lambda>b k. \<forall>j < n. at_kj k j < length dft_r \<and> at_kj k j < length dft_i)
       (\<lambda>b k. map (\<lambda>j. cell inp (b * n + j)) [0..<n])
       (\<lambda>b k. cell out (b * n + k))
       (\<lambda>mem b k. \<Sum>j<n. mem (cell inp (b * n + j)) * Complex (dft_r ! at_kj k j) (dft_i ! at_kj k j)))"

subsection \<open>Leaves\<close>

text \<open>A leaf kernel transforms \<open>batch_per_block\<close> rows per program; it has loaded a row before it stores it.\<close>

definition leaf_kernel :: "machine \<Rightarrow> int \<Rightarrow> nat \<Rightarrow> nat \<Rightarrow> ptr \<Rightarrow> ptr \<Rightarrow> nat \<Rightarrow> nat \<Rightarrow> kernel" where
  "leaf_kernel mc s n batch_per_block inp out grid_x nbatch mem =
     map (\<lambda>b. \<lparr>it_defined = True, it_loads = map (\<lambda>i. cell inp (b * n + i)) [0..<n],
               it_stores = map (\<lambda>i. (cell out (b * n + i),
                 mc_leaf mc s n (map (\<lambda>i. mem (cell inp (b * n + i))) [0..<n]) ! i)) [0..<n]\<rparr>)
       (filter (\<lambda>b. b < nbatch) (block_offsets batch_per_block grid_x))"

subsection \<open>Stockham stages\<close>

text \<open>\<open>build_stockham_stage\<close>, for one radix and stage_span; the first stage has no twiddles.\<close>

definition stockham_inputs :: "nat \<Rightarrow> nat \<Rightarrow> nat \<Rightarrow> complex list \<Rightarrow> ptr \<Rightarrow> nat \<Rightarrow> nat \<Rightarrow> (addr \<Rightarrow> complex) \<Rightarrow> complex list" where
  "stockham_inputs n radix stage_span twiddle inp b k mem =
     map (\<lambda>digit. let x = mem (cell inp (b * n + k + digit * (n div radix)))
        in if digit = 0 \<or> stage_span = 1 then x
           else x * twiddle ! (digit * (k mod stage_span) * (n div (radix * stage_span)))) [0..<radix]"

definition stockham_stage_kernel ::
  "machine \<Rightarrow> int \<Rightarrow> nat \<Rightarrow> nat \<Rightarrow> nat \<Rightarrow> nat \<Rightarrow> complex list \<Rightarrow> ptr \<Rightarrow> ptr \<Rightarrow> nat \<Rightarrow> nat \<Rightarrow> kernel" where
  "stockham_stage_kernel mc s n radix stage_span block twiddle inp out grid_x nbatch mem =
     map (\<lambda>index. let b = index div (n div radix); k = index mod (n div radix); j = k mod stage_span;
             ys = mc_codelet mc s radix (stockham_inputs n radix stage_span twiddle inp b k mem)
        in \<lparr>it_defined = (\<forall>digit < radix. digit = 0 \<or> stage_span = 1 \<or> digit * j * (n div (radix * stage_span)) < length twiddle),
            it_loads = map (\<lambda>digit. cell inp (b * n + k + digit * (n div radix))) [0..<radix],
            it_stores = map (\<lambda>e. (cell out (b * n + radix * k - (radix - 1) * j + e * stage_span), ys ! e)) [0..<radix]\<rparr>)
       (filter (\<lambda>index. index < nbatch * (n div radix)) (block_offsets block grid_x))"

subsection \<open>Bluestein\<close>

definition bluestein_prepare_kernel :: "ptr \<Rightarrow> complex list \<Rightarrow> ptr \<Rightarrow> nat \<Rightarrow> nat \<Rightarrow> nat \<Rightarrow> nat \<Rightarrow> kernel" where
  "bluestein_prepare_kernel inp chirp out n m grid_x grid_y =
     pointwise (grid_points grid_x grid_y m)
       (\<lambda>b off. off < n \<longrightarrow> off < length chirp)
       (\<lambda>b off. if off < n then [cell inp (b * n + off)] else [])
       (\<lambda>b off. cell out (b * m + off))
       (\<lambda>mem b off. if off < n then mem (cell inp (b * n + off)) * chirp ! off else 0)"

definition bluestein_pointwise_kernel :: "ptr \<Rightarrow> ptr \<Rightarrow> ptr \<Rightarrow> nat \<Rightarrow> nat \<Rightarrow> nat \<Rightarrow> kernel" where
  "bluestein_pointwise_kernel a b_fft out m grid_x grid_y =
     pointwise (grid_points grid_x grid_y m)
       (\<lambda>b off. True)
       (\<lambda>b off. [cell a (b * m + off), cell b_fft off])
       (\<lambda>b off. cell out (b * m + off))
       (\<lambda>mem b off. cnj (mem (cell a (b * m + off)) * mem (cell b_fft off)))"

definition bluestein_finalize_kernel :: "ptr \<Rightarrow> complex list \<Rightarrow> ptr \<Rightarrow> nat \<Rightarrow> nat \<Rightarrow> nat \<Rightarrow> nat \<Rightarrow> kernel" where
  "bluestein_finalize_kernel inp chirp out n m grid_x grid_y =
     pointwise (grid_points grid_x grid_y n)
       (\<lambda>b off. off < length chirp)
       (\<lambda>b off. [cell inp (b * m + off)])
       (\<lambda>b off. cell out (b * n + off))
       (\<lambda>mem b off. cnj (mem (cell inp (b * m + off))) / of_nat m * chirp ! off)"

subsection \<open>Rader\<close>

definition table_entry :: "int list \<Rightarrow> nat \<Rightarrow> bool" where
  "table_entry idx i \<longleftrightarrow> i < length idx \<and> 0 \<le> idx ! i"

definition inv_offset :: "nat \<Rightarrow> nat \<Rightarrow> nat" where
  "inv_offset m off = (if off = 0 then 0 else m - off)"

definition rader_prepare_kernel :: "ptr \<Rightarrow> int list \<Rightarrow> ptr \<Rightarrow> nat \<Rightarrow> nat \<Rightarrow> nat \<Rightarrow> nat \<Rightarrow> kernel" where
  "rader_prepare_kernel inp idx out n m grid_x grid_y =
     pointwise (grid_points grid_x grid_y m)
       (\<lambda>b off. table_entry idx (inv_offset m off))
       (\<lambda>b off. [cell inp (b * n + nat (idx ! inv_offset m off))])
       (\<lambda>b off. cell out (b * m + off))
       (\<lambda>mem b off. mem (cell inp (b * n + nat (idx ! inv_offset m off))))"

text \<open>
  The pointwise product; the first program of each batch entry also stores the constant term, from the
  first entry of the transformed input.
\<close>

definition rader_pointwise_kernel :: "ptr \<Rightarrow> ptr \<Rightarrow> ptr \<Rightarrow> ptr \<Rightarrow> ptr \<Rightarrow> nat \<Rightarrow> nat \<Rightarrow> nat \<Rightarrow> nat \<Rightarrow> kernel" where
  "rader_pointwise_kernel a b_fft out input dc n m grid_x grid_y mem =
     map (\<lambda>x. case x of
         Inl (b, off) \<Rightarrow> \<lparr>it_defined = True, it_loads = [cell a (b * m + off), cell b_fft off],
            it_stores = [(cell out (b * m + off), cnj (mem (cell a (b * m + off)) * mem (cell b_fft off)))]\<rparr>
       | Inr b \<Rightarrow> \<lparr>it_defined = True, it_loads = [cell a (b * m), cell input (b * n)],
            it_stores = [(cell dc (b * n), mem (cell a (b * m)) + mem (cell input (b * n)))]\<rparr>)
       (map Inl (grid_points grid_x grid_y m) @ (if 0 < grid_x then map Inr [0..<grid_y] else []))"

definition rader_finalize_kernel :: "ptr \<Rightarrow> ptr \<Rightarrow> int list \<Rightarrow> ptr \<Rightarrow> nat \<Rightarrow> nat \<Rightarrow> nat \<Rightarrow> nat \<Rightarrow> kernel" where
  "rader_finalize_kernel input conv idx out n m grid_x grid_y =
     pointwise (grid_points grid_x grid_y m)
       (\<lambda>b off. table_entry idx off)
       (\<lambda>b off. [cell conv (b * m + off), cell input (b * n)])
       (\<lambda>b off. cell out (b * n + nat (idx ! off)))
       (\<lambda>mem b off. mem (cell input (b * n)) + cnj (mem (cell conv (b * m + off))) / of_nat m)"

subsection \<open>Transpositions\<close>

definition reshape_pack_kernel :: "nat \<Rightarrow> nat \<Rightarrow> ptr \<Rightarrow> ptr \<Rightarrow> nat \<Rightarrow> nat \<Rightarrow> kernel" where
  "reshape_pack_kernel R C inp out grid_x grid_y =
     pointwise (grid_points grid_x grid_y (R * C))
       (\<lambda>b off. True)
       (\<lambda>b off. [cell inp (b * (R * C) + off)])
       (\<lambda>b off. cell out (b * (R * C) + (off mod C * R + off div C)))
       (\<lambda>mem b off. mem (cell inp (b * (R * C) + off)))"

definition twiddle_reshape_pack_kernel :: "nat \<Rightarrow> nat \<Rightarrow> ptr \<Rightarrow> complex list \<Rightarrow> ptr \<Rightarrow> nat \<Rightarrow> nat \<Rightarrow> kernel" where
  "twiddle_reshape_pack_kernel R C inp twiddle out grid_x grid_y =
     pointwise (grid_points grid_x grid_y (R * C))
       (\<lambda>b off. off < length twiddle)
       (\<lambda>b off. [cell inp (b * (R * C) + off)])
       (\<lambda>b off. cell out (b * (R * C) + (off mod C * R + off div C)))
       (\<lambda>mem b off. mem (cell inp (b * (R * C) + off)) * twiddle ! off)"

section \<open>Execution\<close>

text \<open>\<open>if (result != FLAGFFT_SUCCESS) return result;\<close>\<close>

definition unless_failed :: "flagfft_result exec \<Rightarrow> flagfft_result exec \<Rightarrow> flagfft_result exec" where
  "unless_failed f g = xbind f (\<lambda>r. if r \<noteq> FLAGFFT_SUCCESS then xret r else g)"

definition ensure_b_fft :: "string \<Rightarrow> (ptr \<Rightarrow> ptr \<Rightarrow> nat \<Rightarrow> flagfft_result exec) \<Rightarrow> nat \<Rightarrow> nat \<Rightarrow> unit exec" where
  "ensure_b_fft what fft b_time b_fft_buf =
     xbind xget (\<lambda>d.
       if d_ready d b_fft_buf then xret ()
       else xbind (fft (b_time, 0) (b_fft_buf, 0) 1) (\<lambda>r.
         if r \<noteq> FLAGFFT_SUCCESS then xraise (StdException what)
         else xmodify (\<lambda>d. d\<lparr>d_ready := (d_ready d)(b_fft_buf := True)\<rparr>)))"

definition effective_input :: "machine \<Rightarrow> ptr \<Rightarrow> ptr \<Rightarrow> nat \<Rightarrow> ptr exec" where
  "effective_input mc inp out input_copy =
     (if inp = out then
        xbind xget (\<lambda>d. xbind (copy_device_to_device mc (input_copy, 0) inp (d_size d input_copy)) (\<lambda>_. xret (input_copy, 0)))
      else xret inp)"

definition chunked_leaf :: "fft_request \<Rightarrow> bool" where
  "chunked_leaf r \<longleftrightarrow> req_device_type r = ''npu'' \<and> req_origin_rank r = 3 \<and> req_real_transform_kind r = '''' \<and>
     req_input_dtype r = ''complex64'' \<and> req_output_dtype r = ''complex64''"

definition execute_leaf :: "machine \<Rightarrow> nat \<Rightarrow> int \<Rightarrow> nat \<Rightarrow> ptr \<Rightarrow> ptr \<Rightarrow> nat \<Rightarrow> flagfft_result exec" where
  "execute_leaf mc n s batch_per_block inp out batch =
     (let batch_limit = max 1 (batch_per_block * block_limit_per_launch mc)
      in if \<not> chunked_leaf (mc_request mc) \<or> batch \<le> batch_limit then
           xbind (launch mc (leaf_kernel mc s n batch_per_block inp out (ceil_div_nat batch batch_per_block) batch))
             (\<lambda>_. xret FLAGFFT_SUCCESS)
         else for_chunks batch_limit batch 0 (\<lambda>off chunk.
           xbind (launch mc (leaf_kernel mc s n batch_per_block (advance inp (off * n)) (advance out (off * n))
               (ceil_div_nat chunk batch_per_block) chunk))
             (\<lambda>_. xret FLAGFFT_SUCCESS)))"

text \<open>One stage, over all batch chunks, and the loop over the stages with the choice of its destination.\<close>

definition stockham_stage ::
  "machine \<Rightarrow> nat \<Rightarrow> int \<Rightarrow> complex list \<Rightarrow> nat \<Rightarrow> nat \<Rightarrow> nat \<Rightarrow> nat \<Rightarrow> ptr \<Rightarrow> ptr \<Rightarrow> flagfft_result exec" where
  "stockham_stage mc n s twiddle batch factor block stage_span cur dst =
     (let programs_per_batch = (n div factor + block - 1) div block;
          batch_chunk = max 1 (min batch (block_limit_per_launch mc div max 1 programs_per_batch))
      in for_chunks batch_chunk batch 0 (\<lambda>off chunk.
           xbind (launch mc (stockham_stage_kernel mc s n factor stage_span block twiddle (advance cur (off * n)) (advance dst (off * n))
               ((chunk * (n div factor) + block - 1) div block) chunk))
             (\<lambda>_. xret FLAGFFT_SUCCESS)))"

primrec stockham_stages ::
  "machine \<Rightarrow> nat \<Rightarrow> int \<Rightarrow> complex list \<Rightarrow> nat \<Rightarrow> nat \<Rightarrow> ptr \<Rightarrow> nat \<Rightarrow> (nat \<times> nat) list \<Rightarrow> nat \<Rightarrow> nat \<Rightarrow> ptr \<Rightarrow> ptr exec" where
  "stockham_stages mc n s twiddle first_buf second_buf out batch [] stage stage_span cur = xret cur"
| "stockham_stages mc n s twiddle first_buf second_buf out batch (fb # rest) stage stage_span cur =
     (let dst = (if rest = [] \<and> cur \<noteq> out then out else if stage mod 2 = 0 then (first_buf, 0) else (second_buf, 0))
      in xbind (stockham_stage mc n s twiddle batch (fst fb) (snd fb) stage_span cur dst) (\<lambda>_.
           stockham_stages mc n s twiddle first_buf second_buf out batch rest (stage + 1) (stage_span * fst fb) dst))"

definition four_step_chunk :: "machine \<Rightarrow> nat \<Rightarrow> nat \<Rightarrow> nat" where
  "four_step_chunk mc batch grid_x =
     (if req_device_type (mc_request mc) = ''npu'' then max 1 (min batch (block_limit_per_launch mc div max 1 grid_x))
      else batch)"

text \<open>A node as its parent calls it: input, output and batch of the execution context.\<close>

type_synonym runner = "ptr \<Rightarrow> ptr \<Rightarrow> nat \<Rightarrow> flagfft_result exec"

definition execute_direct_dft :: "machine \<Rightarrow> nat \<Rightarrow> real list \<Rightarrow> real list \<Rightarrow> nat \<Rightarrow> runner" where
  "execute_direct_dft mc n dft_r dft_i input_copy inp out batch =
     xbind (effective_input mc inp out input_copy) (\<lambda>src.
     xbind (launch mc (direct_dft_kernel mc n dft_r dft_i src out batch batch)) (\<lambda>_. xret FLAGFFT_SUCCESS))"

definition execute_stockham :: "machine \<Rightarrow> nat \<Rightarrow> (nat \<times> nat) list \<Rightarrow> int \<Rightarrow> complex list \<Rightarrow> nat \<Rightarrow> nat \<Rightarrow> runner" where
  "execute_stockham mc n factors s twiddle first_buf second_buf inp out batch =
     xbind (stockham_stages mc n s twiddle first_buf second_buf out batch factors 0 1 inp) (\<lambda>cur.
       if cur \<noteq> out then xbind (copy_device_to_device mc out cur (batch * n)) (\<lambda>_. xret FLAGFFT_SUCCESS)
       else xret FLAGFFT_SUCCESS)"

definition bluestein_chunk ::
  "machine \<Rightarrow> nat \<Rightarrow> nat \<Rightarrow> runner \<Rightarrow> complex list \<Rightarrow> nat \<Rightarrow> nat \<Rightarrow> nat \<Rightarrow> runner" where
  "bluestein_chunk mc n m fft chirp a_buf work_buf b_fft_buf inp out chunk =
     xbind (launch mc (bluestein_prepare_kernel inp chirp (a_buf, 0) n m (ceil_div_nat m 256) chunk)) (\<lambda>_.
     unless_failed (fft (a_buf, 0) (work_buf, 0) chunk) (
     xbind (launch mc (bluestein_pointwise_kernel (work_buf, 0) (b_fft_buf, 0) (a_buf, 0) m (ceil_div_nat m 256) chunk)) (\<lambda>_.
     unless_failed (fft (a_buf, 0) (work_buf, 0) chunk) (
     xbind (launch mc (bluestein_finalize_kernel (work_buf, 0) chirp out n m (ceil_div_nat n 256) chunk)) (\<lambda>_.
     xret FLAGFFT_SUCCESS)))))"

definition execute_bluestein ::
  "machine \<Rightarrow> nat \<Rightarrow> nat \<Rightarrow> nat \<Rightarrow> runner \<Rightarrow> complex list \<Rightarrow> nat \<Rightarrow> nat \<Rightarrow> nat \<Rightarrow> nat \<Rightarrow> runner" where
  "execute_bluestein mc n m batch_chunk fft chirp b_time a_buf work_buf b_fft_buf inp out batch =
     xbind (ensure_b_fft ''failed to precompute Bluestein convolution FFT'' fft b_time b_fft_buf) (\<lambda>_.
       for_chunks batch_chunk batch 0 (\<lambda>off chunk.
         bluestein_chunk mc n m fft chirp a_buf work_buf b_fft_buf (advance inp (off * n)) (advance out (off * n)) chunk))"

definition rader_convolution :: "machine \<Rightarrow> nat \<Rightarrow> nat \<Rightarrow> runner \<Rightarrow> int list \<Rightarrow> nat \<Rightarrow> nat \<Rightarrow> nat \<Rightarrow> runner" where
  "rader_convolution mc n m fft idx a_buf work_buf b_fft_buf src out batch =
     xbind (launch mc (rader_prepare_kernel src idx (a_buf, 0) n m (ceil_div_nat m 256) batch)) (\<lambda>_.
     unless_failed (fft (a_buf, 0) (work_buf, 0) batch) (
     xbind (launch mc (rader_pointwise_kernel (work_buf, 0) (b_fft_buf, 0) (a_buf, 0) src out n m (ceil_div_nat m 256) batch)) (\<lambda>_.
     unless_failed (fft (a_buf, 0) (work_buf, 0) batch) (
     xbind (launch mc (rader_finalize_kernel src (work_buf, 0) idx out n m (ceil_div_nat m 256) batch)) (\<lambda>_.
     xret FLAGFFT_SUCCESS)))))"

definition execute_rader ::
  "machine \<Rightarrow> nat \<Rightarrow> nat \<Rightarrow> runner \<Rightarrow> int list \<Rightarrow> nat \<Rightarrow> nat \<Rightarrow> nat \<Rightarrow> nat \<Rightarrow> nat \<Rightarrow> runner" where
  "execute_rader mc n m fft idx b_time a_buf work_buf b_fft_buf input_copy inp out batch =
     xbind (ensure_b_fft ''failed to precompute Rader convolution FFT'' fft b_time b_fft_buf) (\<lambda>_.
     xbind (effective_input mc inp out input_copy) (\<lambda>src.
     rader_convolution mc n m fft idx a_buf work_buf b_fft_buf src out batch))"

definition four_step_body ::
  "machine \<Rightarrow> nat \<Rightarrow> nat \<Rightarrow> runner \<Rightarrow> runner \<Rightarrow> complex list \<Rightarrow> nat \<Rightarrow> ptr \<Rightarrow> ptr \<Rightarrow> runner" where
  "four_step_body mc n1 n2 row_child col_child twiddle grid_x stage1 stage2 inp out chunk =
     xbind (launch mc (reshape_pack_kernel n1 n2 inp stage1 grid_x chunk)) (\<lambda>_.
     unless_failed (row_child stage1 stage2 (chunk * n2)) (
     xbind (launch mc (twiddle_reshape_pack_kernel n2 n1 stage2 twiddle stage1 grid_x chunk)) (\<lambda>_.
     unless_failed (col_child stage1 stage2 (chunk * n1)) (
     xbind (launch mc (reshape_pack_kernel n1 n2 stage2 out grid_x chunk)) (\<lambda>_.
     xret FLAGFFT_SUCCESS)))))"

definition execute_four_step_generic ::
  "machine \<Rightarrow> nat \<Rightarrow> nat \<Rightarrow> runner \<Rightarrow> runner \<Rightarrow> complex list \<Rightarrow> nat \<Rightarrow> nat \<Rightarrow> runner" where
  "execute_four_step_generic mc n1 n2 row_child col_child twiddle stage1 stage2 inp out batch =
     (let whole = n1 * n2; grid_x = ceil_div_nat whole 256
      in for_chunks (four_step_chunk mc batch grid_x) batch 0 (\<lambda>off chunk.
         four_step_body mc n1 n2 row_child col_child twiddle grid_x (stage1, off * whole) (stage2, off * whole)
           (advance inp (off * whole)) (advance out (off * whole)) chunk))"

text \<open>\<open>CompiledRawNode::execute\<close>: each node's body inside \<open>try \<dots> catch (const std::exception &)\<close>.\<close>

definition guarded :: "runner \<Rightarrow> runner" where
  "guarded f inp out batch = xcatch (f inp out batch) FLAGFFT_EXEC_FAILED"

end
