(* ===== verification/FFT_ExecNodes.thy ===== *)
theory FFT_ExecNodes
  imports FFT_Exec
begin

text \<open>
  The contract of an execution node and the rules for calling one. \<open>dft_node\<close> is the interface between a
  node and its parent: from a state where the node's invariant holds, executing it on arguments that fit
  is never undefined, keeps the invariant and every element outside its workspace and its output rows,
  and either computes the transform of every row or reports \<open>FLAGFFT_EXEC_FAILED\<close> because a device
  operation has raised. The contract of each kind of node is proved from the contracts of its children.
\<close>

section \<open>Frames\<close>

definition same_on :: "nat set \<Rightarrow> dev \<Rightarrow> dev \<Rightarrow> bool" where
  "same_on W d d' \<longleftrightarrow> d_size d' = d_size d \<and> (\<forall>b \<in> W. d_ready d' b = d_ready d b) \<and>
     (\<forall>a. fst a \<in> W \<longrightarrow> d_mem d' a = d_mem d a)"

definition kept :: "nat set \<Rightarrow> ptr \<Rightarrow> nat \<Rightarrow> dev \<Rightarrow> dev \<Rightarrow> bool" where
  "kept W out len d d' \<longleftrightarrow> d_size d' = d_size d \<and> d_next d' = d_next d \<and> (\<forall>b. b \<notin> W \<longrightarrow> d_ready d' b = d_ready d b) \<and>
     (\<forall>a. fst a \<notin> W \<and> a \<notin> cells out len \<longrightarrow> d_mem d' a = d_mem d a)"

definition args_ok :: "dev \<Rightarrow> nat set \<Rightarrow> nat \<Rightarrow> nat \<Rightarrow> ptr \<Rightarrow> ptr \<Rightarrow> nat \<Rightarrow> bool" where
  "args_ok d W n B inp out k \<longleftrightarrow> k \<le> B \<and> fits d inp (k * n) \<and> fits d out (k * n) \<and>
     fst inp \<notin> W \<and> fst out \<notin> W \<and> (fst inp \<noteq> fst out \<or> inp = out \<and> k = B)"

definition transformed :: "int \<Rightarrow> nat \<Rightarrow> nat \<Rightarrow> ptr \<Rightarrow> ptr \<Rightarrow> dev \<Rightarrow> dev \<Rightarrow> bool" where
  "transformed s n k inp out d d' \<longleftrightarrow>
     (\<forall>j < k. \<forall>q < n. d_mem d' (cell out (j * n + q)) = dft s n (\<lambda>i. d_mem d (cell inp (j * n + i))) q)"

lemma transformedD:
  "transformed s n k inp out d d' \<Longrightarrow> j < k \<Longrightarrow> q < n \<Longrightarrow>
   d_mem d' (cell out (j * n + q)) = dft s n (\<lambda>i. d_mem d (cell inp (j * n + i))) q"
  by (simp add: transformed_def)

lemma kept_refl [simp]: "kept W out len d d"
  by (simp add: kept_def)

lemma kept_trans: "kept W out len d d' \<Longrightarrow> kept W out len d' d'' \<Longrightarrow> kept W out len d d''"
  by (simp add: kept_def)

lemma kept_ticks [simp]: "kept W out len d (d'\<lparr>d_ticks := t\<rparr>) \<longleftrightarrow> kept W out len d d'"
  by (simp add: kept_def)

lemma same_on_ticks [simp]: "same_on W d (d'\<lparr>d_ticks := t\<rparr>) \<longleftrightarrow> same_on W d d'"
  by (simp add: same_on_def)

lemma same_on_refl [simp]: "same_on W d d"
  by (simp add: same_on_def)

lemma kept_launch: "same_but p l d d' \<Longrightarrow> fst p \<in> W \<or> cells p l \<subseteq> cells out len \<Longrightarrow> kept W out len d d'"
  unfolding same_but_def kept_def using cells_fst by (metis subsetD)

lemma kept_child:
  "kept V p l d d' \<Longrightarrow> V \<subseteq> W \<Longrightarrow> fst p \<in> W \<or> cells p l \<subseteq> cells out len \<Longrightarrow> kept W out len d d'"
  unfolding kept_def using cells_fst by (metis subsetD)

lemma same_on_launch: "same_but p l d d' \<Longrightarrow> fst p \<notin> W \<Longrightarrow> same_on W d d'"
  unfolding same_but_def same_on_def using cells_fst by metis

lemma same_on_child: "kept V p l d d' \<Longrightarrow> W \<inter> V = {} \<Longrightarrow> fst p \<notin> W \<Longrightarrow> same_on W d d'"
  unfolding kept_def same_on_def using cells_fst by (metis disjoint_iff)

lemma keptD: "kept W out len d d' \<Longrightarrow> fst a \<notin> W \<Longrightarrow> a \<notin> cells out len \<Longrightarrow> d_mem d' a = d_mem d a"
  unfolding kept_def by blast

lemma kept_other: "kept W out len d d' \<Longrightarrow> fst a \<notin> W \<Longrightarrow> fst a \<noteq> fst out \<Longrightarrow> d_mem d' a = d_mem d a"
  unfolding kept_def using cells_fst by blast

lemma cells_advance: "off + l \<le> len \<Longrightarrow> cells (advance p off) l \<subseteq> cells p len"
  by (auto simp: cells_iff advance_def)

lemma same_on_trans: "same_on W d d' \<Longrightarrow> same_on W d' d'' \<Longrightarrow> same_on W d d''"
  by (auto simp: same_on_def)

lemma fits_same: "d_size d' = d_size d \<Longrightarrow> fits d' p len \<longleftrightarrow> fits d p len"
  by (simp add: fits_def)

lemma fits_ticks [simp]: "fits (d\<lparr>d_ticks := t\<rparr>) p len \<longleftrightarrow> fits d p len"
  by (simp add: fits_def)

lemma same_but_size: "same_but p l d d' \<Longrightarrow> d_size d' = d_size d"
  and same_but_ready: "same_but p l d d' \<Longrightarrow> d_ready d' = d_ready d"
  and same_but_fits: "same_but p l d d' \<Longrightarrow> fits d' q len \<longleftrightarrow> fits d q len"
  and kept_size: "kept W p l d d' \<Longrightarrow> d_size d' = d_size d"
  and kept_fits: "kept W p l d d' \<Longrightarrow> fits d' q len \<longleftrightarrow> fits d q len"
  by (simp_all add: same_but_def kept_def fits_def)

section \<open>Nodes\<close>

definition node_result :: "machine \<Rightarrow> int \<Rightarrow> nat \<Rightarrow> nat set \<Rightarrow> (dev \<Rightarrow> bool) \<Rightarrow> ptr \<Rightarrow> ptr \<Rightarrow> nat \<Rightarrow> dev \<Rightarrow> flagfft_result \<Rightarrow> dev \<Rightarrow> bool" where
  "node_result mc s n W I inp out k d r d' \<longleftrightarrow> I d' \<and> kept W out (k * n) d d' \<and>
     (r = FLAGFFT_SUCCESS \<and> transformed s n k inp out d d' \<or> r = FLAGFFT_EXEC_FAILED \<and> faulty mc)"

locale dft_node =
  fixes mc :: machine and s :: int and n B :: nat and W :: "nat set" and I :: "dev \<Rightarrow> bool" and f :: runner
  assumes runs_node: "I d \<Longrightarrow> args_ok d W n B inp out k \<Longrightarrow> runs mc (\<lambda>_. False) (f inp out k) d (node_result mc s n W I inp out k d)"
    and local: "I d \<Longrightarrow> same_on W d d' \<Longrightarrow> I d'"
begin

lemma call:
  assumes "I d" and "args_ok d W n B inp out k"
    and "\<And>d'. I d' \<Longrightarrow> kept W out (k * n) d d' \<Longrightarrow> transformed s n k inp out d d' \<Longrightarrow> runs mc K g d' Q"
    and "\<And>d'. I d' \<Longrightarrow> kept W out (k * n) d d' \<Longrightarrow> faulty mc \<Longrightarrow> Q FLAGFFT_EXEC_FAILED d'"
  shows "runs mc K (unless_failed (f inp out k) g) d Q"
  unfolding unless_failed_def
proof (rule runs_bind)
  show "runs mc K (f inp out k) d (node_result mc s n W I inp out k d)"
    using runs_node [OF assms(1,2)] by (rule runs_post) auto
qed (use assms(3,4) in \<open>auto simp: node_result_def\<close>)

end

text \<open>
  The body of a node: what it does inside \<open>try\<close>. A raised exception leaves the invariant and the frame.
\<close>

lemma runs_guarded:
  assumes "runs mc (\<lambda>d'. I d' \<and> kept W out (k * n) d d') (f inp out k) d (node_result mc s n W I inp out k d)"
  shows "runs mc (\<lambda>_. False) (guarded f inp out k) d (node_result mc s n W I inp out k d)"
  unfolding guarded_def using assms by (rule runs_catch) (auto simp: node_result_def)

lemma runs_effective_input:
  assumes args: "args_ok d W n B inp out k" and copy: "d_size d input_copy = B * n" "input_copy \<in> W"
    and K: "K d" "\<And>d' t. K d' \<Longrightarrow> K (d'\<lparr>d_ticks := t\<rparr>)"
    and post: "\<And>src d'. same_but (input_copy, 0) (B * n) d d' \<Longrightarrow> fits d' src (k * n) \<Longrightarrow> fst src \<noteq> fst out \<Longrightarrow>
        fst src \<in> {fst inp, input_copy} \<Longrightarrow>
        (\<And>i. i < k * n \<Longrightarrow> d_mem d' (cell src i) = d_mem d (cell inp i)) \<Longrightarrow> Q src d'"
  shows "runs mc K (effective_input mc inp out input_copy) d Q"
proof (cases "inp = out")
  case True
  then have k: "k = B" and fit: "fits d inp (B * n)" and away: "fst inp \<notin> W"
    using args by (auto simp: args_ok_def)
  have "runs mc K (copy_device_to_device mc (input_copy, 0) inp (B * n)) d (\<lambda>_. Q (input_copy, 0))"
  proof (rule runs_copy)
    show "fits d (input_copy, 0) (B * n)" using copy(1) by (simp add: fits_def)
    show "fst inp \<noteq> fst (input_copy, 0)" using away copy(2) by auto
    fix d' assume d': "same_but (input_copy, 0) (B * n) d d'"
      and eq: "\<And>i. i < B * n \<Longrightarrow> d_mem d' (cell (input_copy, 0) i) = d_mem d (cell inp i)"
    from d' have "fits d' (input_copy, 0) (k * n)"
      using copy(1) k by (auto simp: fits_def dest: same_but_state)
    moreover have "fst (input_copy, 0) \<noteq> fst out" using True away copy(2) by auto
    ultimately show "Q (input_copy, 0) d'" using eq by (intro post d') (simp_all add: k)
  qed (use fit K in simp_all)
  then have "runs mc K (xbind (copy_device_to_device mc (input_copy, 0) inp (B * n)) (\<lambda>_. xret (input_copy, 0))) d Q"
    by (rule runs_bind) (rule runs_ret)
  with True copy(1) show ?thesis
    unfolding effective_input_def by (simp add: runs_def xbind_def xget_def)
next
  case False
  then have "Q inp d" using args by (intro post) (auto simp: args_ok_def same_but_def)
  with False show ?thesis by (simp add: effective_input_def runs_ret)
qed

section \<open>Chunks\<close>

lemma dft_cong: "(\<And>i. i < n \<Longrightarrow> x i = y i) \<Longrightarrow> dft s n x = dft s n y"
  by (rule ext) (auto simp: dft_def intro: sum.cong)

lemma cell_advance: "cell (advance p a) i = cell p (a + i)"
  by (simp add: cell_def advance_def)

lemma advance_0 [simp]: "advance p 0 = p"
  by (simp add: advance_def)

lemma fst_advance [simp]: "fst (advance p a) = fst p"
  by (simp add: advance_def)

lemma fits_advance: "fits d p len \<Longrightarrow> a + l \<le> len \<Longrightarrow> fits d (advance p a) l"
  by (simp add: fits_def advance_def)

lemma cell_notin: "len \<le> i \<Longrightarrow> cell p i \<notin> cells p len"
  by (simp add: cells_iff cell_def)

lemma cell_notin_advance: "i < a \<Longrightarrow> cell p i \<notin> cells (advance p a) len"
  by (simp add: cells_iff cell_def advance_def)

lemma chunk_extend:
  assumes k1: "kept W out (off * n) d d1" and t1: "transformed s n off inp out d d1"
    and k2: "kept W (advance out (off * n)) (c * n) d1 d2"
    and t2: "transformed s n c (advance inp (off * n)) (advance out (off * n)) d1 d2"
    and away: "fst inp \<notin> W" "fst out \<notin> W" "fst inp \<noteq> fst out \<or> inp = out"
  shows "kept W out ((off + c) * n) d d2" and "transformed s n (off + c) inp out d d2"
proof -
  have sub: "cells (advance out (off * n)) (c * n) \<subseteq> cells out ((off + c) * n)" "cells out (off * n) \<subseteq> cells out ((off + c) * n)"
    using cells_advance [of 0 "off * n" "(off + c) * n" out] by (auto intro!: cells_advance simp: ring_distribs)
  show "kept W out ((off + c) * n) d d2"
  proof (rule kept_trans)
    show "kept W out ((off + c) * n) d d1" using kept_child [OF k1] sub by blast
    show "kept W out ((off + c) * n) d1 d2" using kept_child [OF k2] sub by blast
  qed
  show "transformed s n (off + c) inp out d d2"
    unfolding transformed_def
  proof (intro allI impI)
    fix j q assume j: "j < off + c" and q: "q < n"
    show "d_mem d2 (cell out (j * n + q)) = dft s n (\<lambda>i. d_mem d (cell inp (j * n + i))) q"
    proof (cases "j < off")
      case True
      then have "j * n + q < off * n" using q by (rule row_less)
      then have "d_mem d2 (cell out (j * n + q)) = d_mem d1 (cell out (j * n + q))"
        using keptD [OF k2] away by (simp add: cell_notin_advance)
      with True q t1 show ?thesis by (simp add: transformed_def)
    next
      case False
      then have split: "j = off + (j - off)" "j - off < c" using j by simp_all
      have row: "off * n + ((j - off) * n + i) = j * n + i" for i
        by (subst (2) split(1)) (simp add: ring_distribs)
      have same: "d_mem d1 (cell inp (j * n + i)) = d_mem d (cell inp (j * n + i))" for i
      proof (rule keptD [OF k1])
        have "off * n \<le> j * n + i" using False by (simp add: trans_le_add1)
        then show "cell inp (j * n + i) \<notin> cells out (off * n)"
          using away(3) cell_notin [of "off * n" "j * n + i" inp] cells_fst [of "cell inp (j * n + i)" out] by auto
      qed (use away in simp)
      show ?thesis
        using t2 split(2) q by (auto simp: transformed_def cell_advance row same)
    qed
  qed
qed

lemma runs_node_chunks:
  assumes I: "I d" and args: "args_ok d W n B inp out k" and "0 < chunk"
    and body: "\<And>d1 off c. I d1 \<Longrightarrow> d_size d1 = d_size d \<Longrightarrow> 0 < c \<Longrightarrow> c \<le> chunk \<Longrightarrow> off + c \<le> k \<Longrightarrow>
        runs mc (\<lambda>d'. I d' \<and> kept W (advance out (off * n)) (c * n) d1 d') (body off c) d1
          (node_result mc s n W I (advance inp (off * n)) (advance out (off * n)) c d1)"
  shows "runs mc (\<lambda>d'. I d' \<and> kept W out (k * n) d d') (for_chunks chunk k 0 body) d (node_result mc s n W I inp out k d)"
proof -
  let ?K = "\<lambda>d'. I d' \<and> kept W out (k * n) d d'"
  let ?Inv = "\<lambda>off d'. I d' \<and> kept W out (off * n) d d' \<and> transformed s n off inp out d d'"
  have away: "fst inp \<notin> W" "fst out \<notin> W" "fst inp \<noteq> fst out \<or> inp = out" using args by (auto simp: args_ok_def)
  have widen: "kept W out (k * n) d d'" if "kept W out (off * n) d d1" "kept W (advance out (off * n)) (c * n) d1 d'" "off + c \<le> k" for off c d1 d'
  proof -
    have "off * n + c * n \<le> k * n" using that(3) by (simp flip: add_mult_distrib)
    then show ?thesis
      using kept_trans [OF kept_child [OF that(1), of W out "k * n"] kept_child [OF that(2), of W out "k * n"]]
        cells_advance [of 0 "off * n" "k * n" out] cells_advance [of "off * n" "c * n" "k * n" out] that(3) by simp
  qed
  have "runs mc ?K (for_chunks chunk k 0 body) d
      (\<lambda>r d'. r = FLAGFFT_SUCCESS \<and> ?Inv k d' \<or> r = FLAGFFT_EXEC_FAILED \<and> faulty mc \<and> ?K d')"
  proof (rule runs_chunks)
    show "?Inv 0 d" using I by (simp add: transformed_def)
    fix off c d1 assume inv: "?Inv off d1" and c: "off < k" "0 < c" "c \<le> chunk" "off + c \<le> k"
    then have "d_size d1 = d_size d" by (simp add: kept_def)
    then have "runs mc (\<lambda>d'. I d' \<and> kept W (advance out (off * n)) (c * n) d1 d') (body off c) d1
          (node_result mc s n W I (advance inp (off * n)) (advance out (off * n)) c d1)"
      using inv c by (intro body) simp_all
    then show "runs mc ?K (body off c) d1 (\<lambda>r d'. r = FLAGFFT_SUCCESS \<and> ?Inv (off + c) d' \<or>
        r \<noteq> FLAGFFT_SUCCESS \<and> r = FLAGFFT_EXEC_FAILED \<and> faulty mc \<and> ?K d')"
    proof (rule runs_post)
      fix r d' assume res: "node_result mc s n W I (advance inp (off * n)) (advance out (off * n)) c d1 r d'"
      then have "r = FLAGFFT_SUCCESS \<Longrightarrow> ?Inv (off + c) d'"
        using chunk_extend [OF _ _ _ _ away, of off n d d1 s c d'] inv by (auto simp: node_result_def)
      with res show "r = FLAGFFT_SUCCESS \<and> ?Inv (off + c) d' \<or> r \<noteq> FLAGFFT_SUCCESS \<and> r = FLAGFFT_EXEC_FAILED \<and> faulty mc \<and> ?K d'"
        using inv widen c(4) by (auto simp: node_result_def)
    qed (use inv widen c(4) in auto)
  qed (use \<open>0 < chunk\<close> in simp_all)
  then show ?thesis by (rule runs_post) (auto simp: node_result_def)
qed

section \<open>Leaves\<close>

definition computes_dft :: "(int \<Rightarrow> nat \<Rightarrow> complex list \<Rightarrow> complex list) \<Rightarrow> int \<Rightarrow> nat \<Rightarrow> bool" where
  "computes_dft f s n \<longleftrightarrow> (\<forall>xs. length xs = n \<longrightarrow> f s n xs = map (dft s n ((!) xs)) [0..<n])"

lemma computes_dft_nth:
  assumes "computes_dft f s n" and "i < n"
  shows "f s n (map x [0..<n]) ! i = dft s n x i"
proof -
  have "f s n (map x [0..<n]) ! i = dft s n ((!) (map x [0..<n])) i" using assms by (simp add: computes_dft_def)
  also have "dft s n ((!) (map x [0..<n])) = dft s n x" by (rule dft_cong) simp
  finally show ?thesis .
qed

lemma block_offsets_cover:
  assumes "0 < block" and "lm \<le> grid_x * block"
  shows "filter (\<lambda>i. i < lm) (block_offsets block grid_x) = [0..<lm]"
proof -
  have "[0..<grid_x * block] = [0..<lm] @ [lm..<grid_x * block]"
    using upt_add_eq_append [of 0 lm "grid_x * block - lm"] assms(2) by simp
  then show ?thesis by (simp add: block_offsets_eq)
qed

lemma runs_leaf_kernel:
  assumes leaf: "computes_dft (mc_leaf mc) s n" and block: "0 < block"
    and fit: "fits d inp (k * n)" "fits d out (k * n)" and io: "fst inp \<noteq> fst out \<or> inp = out"
    and fail: "\<And>t. K (d\<lparr>d_ticks := t\<rparr>)"
    and post: "\<And>d'. same_but out (k * n) d d' \<Longrightarrow> transformed s n k inp out d d' \<Longrightarrow> Q () d'"
  shows "runs mc K (launch mc (leaf_kernel mc s n block inp out (ceil_div_nat k block) k)) d Q"
proof (rule runs_launch [where ok = "\<lambda>_. True" and loads = "\<lambda>b. map (\<lambda>i. cell inp (b * n + i)) [0..<n]"
      and dsts = "\<lambda>b. map (\<lambda>i. cell out (b * n + i)) [0..<n]" and xs = "[0..<k]"
      and stores = "\<lambda>mem b. map (\<lambda>i. (cell out (b * n + i), mc_leaf mc s n (map (\<lambda>i. mem (cell inp (b * n + i))) [0..<n]) ! i)) [0..<n]"])
  show "leaf_kernel mc s n block inp out (ceil_div_nat k block) k mem = map (\<lambda>b. \<lparr>it_defined = True,
      it_loads = map (\<lambda>i. cell inp (b * n + i)) [0..<n],
      it_stores = map (\<lambda>i. (cell out (b * n + i), mc_leaf mc s n (map (\<lambda>i. mem (cell inp (b * n + i))) [0..<n]) ! i)) [0..<n]\<rparr>) [0..<k]" for mem
    unfolding leaf_kernel_def block_offsets_cover [OF block ceil_div_covers [OF block]] ..
next
  fix x y :: nat assume "x \<noteq> y"
  then have rows: "set (map (\<lambda>i. cell p (x * n + i)) [0..<n]) \<inter> set (map (\<lambda>i. cell p (y * n + i)) [0..<n]) = {}" for p
    by (auto simp: row_inject cell_def)
  then show "set (map (\<lambda>i. cell out (x * n + i)) [0..<n]) \<inter> set (map (\<lambda>i. cell out (y * n + i)) [0..<n]) = {}" .
  show "set (map (\<lambda>i. cell inp (x * n + i)) [0..<n]) \<inter> set (map (\<lambda>i. cell out (y * n + i)) [0..<n]) = {}"
    using io rows [of out] by (auto simp: cell_def)
next
  fix mem t
  assume st: "\<And>b a v. b \<in> set [0..<k] \<Longrightarrow> (a, v) \<in> set (map (\<lambda>i. (cell out (b * n + i),
      mc_leaf mc s n (map (\<lambda>i. d_mem d (cell inp (b * n + i))) [0..<n]) ! i)) [0..<n]) \<Longrightarrow> mem a = v"
    and other: "\<And>a. (\<And>b. b \<in> set [0..<k] \<Longrightarrow> a \<notin> set (map (\<lambda>i. cell out (b * n + i)) [0..<n])) \<Longrightarrow> mem a = d_mem d a"
  show "Q () (d\<lparr>d_ticks := t, d_mem := mem\<rparr>)"
  proof (rule post)
    have "mem a = d_mem d a" if "a \<notin> cells out (k * n)" for a
      using that row_less [of _ k _ n] by (intro other) auto
    then show "same_but out (k * n) d (d\<lparr>d_ticks := t, d_mem := mem\<rparr>)" by (simp add: same_but_def)
    show "transformed s n k inp out d (d\<lparr>d_ticks := t, d_mem := mem\<rparr>)"
      unfolding transformed_def
    proof (intro allI impI)
      fix j q assume "j < k" "q < n"
      then have "mem (cell out (j * n + q)) = mc_leaf mc s n (map (\<lambda>i. d_mem d (cell inp (j * n + i))) [0..<n]) ! q"
        by (intro st [of j]) auto
      then show "d_mem (d\<lparr>d_ticks := t, d_mem := mem\<rparr>) (cell out (j * n + q)) = dft s n (\<lambda>i. d_mem d (cell inp (j * n + i))) q"
        using computes_dft_nth [OF leaf \<open>q < n\<close>] by simp
    qed
  qed
next
  fix x a assume "x \<in> set [0..<k]"
  then show "True \<and> (a \<in> set (map (\<lambda>i. cell inp (x * n + i)) [0..<n]) \<union> set (map (\<lambda>i. cell out (x * n + i)) [0..<n]) \<longrightarrow> in_bounds d a)"
    using in_bounds_cell [OF fit(1)] in_bounds_cell [OF fit(2)] row_less [of x k _ n] by auto
qed (use fail in \<open>auto simp: distinct_map inj_on_def cell_def comp_def\<close>)

lemma leaf_node:
  assumes leaf: "computes_dft (mc_leaf mc) s n" and block: "0 < block"
  shows "dft_node mc s n B {} (\<lambda>_. True) (guarded (execute_leaf mc n s block))"
proof
  fix d inp out k assume args: "args_ok d {} n B inp out k"
  then have io: "fst inp \<noteq> fst out \<or> inp = out" and fit: "fits d inp (k * n)" "fits d out (k * n)"
    by (auto simp: args_ok_def)
  let ?K = "\<lambda>out c d d'. True \<and> kept {} out (c * n) d d'"
  have body: "runs mc (?K out c d1) (xbind (launch mc (leaf_kernel mc s n block inp out (ceil_div_nat c block) c))
      (\<lambda>_. xret FLAGFFT_SUCCESS)) d1 (node_result mc s n {} (\<lambda>_. True) inp out c d1)"
    if "fst inp \<noteq> fst out \<or> inp = out" "fits d1 inp (c * n)" "fits d1 out (c * n)" for inp out c d1
  proof (rule runs_bind)
    show "runs mc (?K out c d1) (launch mc (leaf_kernel mc s n block inp out (ceil_div_nat c block) c)) d1
        (\<lambda>_. node_result mc s n {} (\<lambda>_. True) inp out c d1 FLAGFFT_SUCCESS)"
      by (rule runs_leaf_kernel [OF leaf block that(2,3,1)]) (auto simp: node_result_def intro: kept_launch)
  qed auto
  have chunks: "runs mc (?K out k d) (for_chunks c k 0 (\<lambda>off chunk.
      xbind (launch mc (leaf_kernel mc s n block (advance inp (off * n)) (advance out (off * n)) (ceil_div_nat chunk block) chunk))
        (\<lambda>_. xret FLAGFFT_SUCCESS))) d (node_result mc s n {} (\<lambda>_. True) inp out k d)" if "0 < c" for c
  proof (rule runs_node_chunks [OF TrueI args that])
    fix d1 :: dev and off l :: nat assume "d_size d1 = d_size d" "off + l \<le> k"
    then have "off * n + l * n \<le> k * n" by (simp flip: add_mult_distrib)
    then show "runs mc (?K (advance out (off * n)) l d1) (xbind (launch mc (leaf_kernel mc s n block (advance inp (off * n))
        (advance out (off * n)) (ceil_div_nat l block) l)) (\<lambda>_. xret FLAGFFT_SUCCESS)) d1
        (node_result mc s n {} (\<lambda>_. True) (advance inp (off * n)) (advance out (off * n)) l d1)"
      using io fit fits_same [OF \<open>d_size d1 = d_size d\<close>] by (intro body) (auto intro: fits_advance)
  qed
  show "runs mc (\<lambda>_. False) (guarded (execute_leaf mc n s block) inp out k) d (node_result mc s n {} (\<lambda>_. True) inp out k d)"
    by (rule runs_guarded, unfold execute_leaf_def Let_def) (intro runs_if body [OF io fit] chunks, simp)
qed simp

section \<open>Direct transforms\<close>

definition dft_matrix :: "int \<Rightarrow> nat \<Rightarrow> real list \<Rightarrow> real list \<Rightarrow> bool" where
  "dft_matrix s n dft_r dft_i \<longleftrightarrow> length dft_r = n * n \<and> length dft_i = n * n \<and>
     (\<forall>k < n. \<forall>j < n. Complex (dft_r ! (k * n + j)) (dft_i ! (k * n + j)) = unity s (k * j) n)"

lemma dft_matrix_at:
  assumes "dft_matrix s n dft_r dft_i" and "k < n" and "j < n"
  shows "dft_matrix_index r n k j < n * n"
    and "Complex (dft_r ! dft_matrix_index r n k j) (dft_i ! dft_matrix_index r n k j) = unity s (j * k) n"
  using assms row_less [of k n j n] row_less [of j n k n]
  by (auto simp: dft_matrix_index_def dft_matrix_def mult.commute)

lemma direct_points_set: "x \<in> set (direct_points k k block n) \<longleftrightarrow> fst x < k \<and> snd x < min n block"
  by (auto simp: direct_points_def split: if_splits) (metis (no_types, lifting) UN_I atLeastLessThan_iff
      imageI lessThan_iff linorder_not_le prod.collapse zero_le mem_Collect_eq less_eq_nat.simps(1))

lemma direct_points_distinct: "distinct (direct_points k k block n)"
proof -
  have "distinct (concat (map (\<lambda>b. if l \<le> b then [] else map (Pair b) (filter (\<lambda>k. k < n) [0..<block])) [0..<k]))" for l
    by (induction k) (auto simp: distinct_map inj_on_def split: if_splits)
  then show ?thesis by (simp add: direct_points_def)
qed

lemma lane_block_covers: "n \<le> nat (lane_block_for (int n))"
  using ceil_power_of_two_ge [of "int n"] by (simp add: lane_block_for_eq)

definition direct_inv :: "int \<Rightarrow> nat \<Rightarrow> nat \<Rightarrow> real list \<Rightarrow> real list \<Rightarrow> nat \<Rightarrow> dev \<Rightarrow> bool" where
  "direct_inv s n B dft_r dft_i copy d \<longleftrightarrow> dft_matrix s n dft_r dft_i \<and> d_size d copy = B * n"

lemma direct_inv_ticks [simp]: "direct_inv s n B dft_r dft_i copy (d\<lparr>d_ticks := t\<rparr>) \<longleftrightarrow> direct_inv s n B dft_r dft_i copy d"
  by (simp add: direct_inv_def)

lemma direct_node:
  "dft_node mc s n B {copy} (direct_inv s n B dft_r dft_i copy) (guarded (execute_direct_dft mc n dft_r dft_i copy))"
proof
  let ?I = "direct_inv s n B dft_r dft_i copy"
  fix d inp out k assume I: "?I d" and args: "args_ok d {copy} n B inp out k"
  then have mat: "dft_matrix s n dft_r dft_i" and size: "d_size d copy = B * n" by (simp_all add: direct_inv_def)
  let ?K = "\<lambda>d'. ?I d' \<and> kept {copy} out (k * n) d d'"
  have "runs mc ?K (execute_direct_dft mc n dft_r dft_i copy inp out k) d (node_result mc s n {copy} ?I inp out k d)"
    unfolding execute_direct_dft_def
  proof (rule runs_bind, rule runs_effective_input [OF args size])
    fix src d1 assume s1: "same_but (copy, 0) (B * n) d d1" and src: "fits d1 src (k * n)" "fst src \<noteq> fst out"
      and eq: "\<And>i. i < k * n \<Longrightarrow> d_mem d1 (cell src i) = d_mem d (cell inp i)"
    have K1: "?K d1" using s1 I kept_launch [OF s1, of "{copy}" out "k * n"] by (auto simp: direct_inv_def dest: same_but_state)
    show "runs mc ?K (xbind (launch mc (direct_dft_kernel mc n dft_r dft_i src out k k)) (\<lambda>_. xret FLAGFFT_SUCCESS)) d1
        (node_result mc s n {copy} ?I inp out k d)"
    proof (rule runs_bind, unfold direct_dft_kernel_def Let_def, rule runs_pointwise [where \<pi> = "\<lambda>q. q" and L = n and gy = k and lm = n])
      show "fits d1 out (k * n)" using args same_but_fits [OF s1] by (simp add: args_ok_def)
      show "x \<in> set (direct_points k k (nat (lane_block_for (int n))) n) \<longleftrightarrow> fst x < k \<and> snd x < n" for x
        using lane_block_covers [of n] by (simp add: direct_points_set min_absorb1)
      fix b q a assume bq: "b < k" "q < n"
      show "(\<forall>j<n. dft_matrix_index (mc_request mc) n q j < length dft_r \<and> dft_matrix_index (mc_request mc) n q j < length dft_i) \<and>
          (a \<in> set (map (\<lambda>j. cell src (b * n + j)) [0..<n]) \<longrightarrow> in_bounds d1 a \<and> fst a \<noteq> fst out)"
        using dft_matrix_at(1) [OF mat bq(2)] mat in_bounds_cell [OF src(1)] row_less [OF bq(1)] src(2)
        by (auto simp: dft_matrix_def)
    next
      fix d2 assume s2: "same_but out (k * n) d1 d2" and out2: "\<And>b q. b < k \<Longrightarrow> q < n \<Longrightarrow>
        d_mem d2 (cell out (b * n + q)) = (\<Sum>j<n. d_mem d1 (cell src (b * n + j)) * Complex
          (dft_r ! dft_matrix_index (mc_request mc) n q j) (dft_i ! dft_matrix_index (mc_request mc) n q j))"
      have "?I d2" using K1 s2 by (auto simp: direct_inv_def dest: same_but_state)
      moreover have "kept {copy} out (k * n) d d2"
        using K1 kept_launch [OF s2, of "{copy}" out "k * n"] kept_trans by blast
      moreover have "transformed s n k inp out d d2"
        using dft_matrix_at(2) [OF mat] row_less [of _ k _ n]
        by (auto simp: transformed_def out2 eq dft_def intro!: sum.cong)
      ultimately show "runs mc ?K (xret FLAGFFT_SUCCESS) d2 (node_result mc s n {copy} ?I inp out k d)"
        by (auto simp: node_result_def)
    qed (use K1 direct_points_distinct in auto)
  qed (use I in auto)
  then show "runs mc (\<lambda>_. False) (guarded (execute_direct_dft mc n dft_r dft_i copy) inp out k) d (node_result mc s n {copy} ?I inp out k d)"
    by (rule runs_guarded)
qed (auto simp: direct_inv_def same_on_def)

section \<open>Convolutions\<close>

text \<open>
  The workspace of a convolution node: the kernel's time samples, two buffers of rows, and the transformed
  kernel with its flag. A set flag means that the transform is there.
\<close>

definition conv_inv :: "nat \<Rightarrow> nat \<Rightarrow> nat set \<Rightarrow> (dev \<Rightarrow> bool) \<Rightarrow> nat \<Rightarrow> nat \<Rightarrow> nat \<Rightarrow> nat \<Rightarrow> dev \<Rightarrow> bool" where
  "conv_inv m B V J b_time a_buf work_buf b_fft_buf d \<longleftrightarrow> J d \<and> 0 < m \<and> 0 < B \<and>
     distinct [b_time, a_buf, work_buf, b_fft_buf] \<and> {b_time, a_buf, work_buf, b_fft_buf} \<inter> V = {} \<and>
     d_size d b_time = m \<and> d_size d a_buf = B * m \<and> d_size d work_buf = B * m \<and> d_size d b_fft_buf = m \<and>
     (d_ready d b_fft_buf \<longrightarrow> (\<forall>i < m. d_mem d (b_fft_buf, i) = dft (- 1) m (\<lambda>j. d_mem d (b_time, j)) i))"

text \<open>
  The part of it that is the kernel of the convolution: its samples and their transform.
\<close>

definition kernel_inv :: "nat \<Rightarrow> nat set \<Rightarrow> (dev \<Rightarrow> bool) \<Rightarrow> nat \<Rightarrow> nat \<Rightarrow> dev \<Rightarrow> bool" where
  "kernel_inv m V J b_time b_fft_buf d \<longleftrightarrow> J d \<and> 0 < m \<and> b_time \<noteq> b_fft_buf \<and> {b_time, b_fft_buf} \<inter> V = {} \<and>
     d_size d b_time = m \<and> d_size d b_fft_buf = m \<and>
     (d_ready d b_fft_buf \<longrightarrow> (\<forall>i < m. d_mem d (b_fft_buf, i) = dft (- 1) m (\<lambda>j. d_mem d (b_time, j)) i))"

text \<open>The states while a convolution runs: the transformed kernel is there and its samples satisfy \<open>P\<close>.\<close>

definition conv_state ::
  "nat \<Rightarrow> nat \<Rightarrow> nat set \<Rightarrow> (dev \<Rightarrow> bool) \<Rightarrow> nat \<Rightarrow> nat \<Rightarrow> nat \<Rightarrow> nat \<Rightarrow> ((nat \<Rightarrow> complex) \<Rightarrow> bool) \<Rightarrow> dev \<Rightarrow> bool" where
  "conv_state m B V J b_time a_buf work_buf b_fft_buf P d \<longleftrightarrow>
     conv_inv m B V J b_time a_buf work_buf b_fft_buf d \<and> d_ready d b_fft_buf \<and> P (\<lambda>i. d_mem d (b_time, i))"

context dft_node
begin

lemma conv_inv_local:
  assumes "conv_inv n B W I b a w bf d" and "same_on (W \<union> {b, bf}) d d'"
  shows "conv_inv n B W I b a w bf d'"
proof -
  have "same_on W d d'" using assms(2) by (simp add: same_on_def)
  then have "I d'" using assms(1) local by (auto simp: conv_inv_def)
  with assms show ?thesis by (simp add: conv_inv_def same_on_def)
qed

lemma conv_inv_launch:
  assumes "conv_inv n B W I b a w bf d" and "same_but p l d d'" and "fst p \<notin> W \<union> {b, bf}"
  shows "conv_inv n B W I b a w bf d'"
  using conv_inv_local [OF assms(1) same_on_launch [OF assms(2,3)]] .

lemma conv_inv_call:
  assumes inv: "conv_inv n B W I b a w bf d" and "I d'" and kept: "kept W p l d d'" and p: "fst p \<notin> W \<union> {b, bf}"
  shows "conv_inv n B W I b a w bf d'"
proof -
  have "d_mem d' (x, i) = d_mem d (x, i)" if "x = b \<or> x = bf" for x i
    using that inv p by (intro kept_other [OF kept]) (auto simp: conv_inv_def)
  moreover have "d_ready d' bf = d_ready d bf" using inv kept by (auto simp: conv_inv_def kept_def)
  ultimately show ?thesis using inv \<open>I d'\<close> kept_size [OF kept] by (simp add: conv_inv_def)
qed

lemma conv_state_launch:
  assumes "conv_state n B W I b a w bf P d1" and "kept U out len d d1" and s: "same_but p l d1 d2" and p: "fst p \<notin> W \<union> {b, bf}"
    and "fst p \<in> U \<or> cells p l \<subseteq> cells out len"
  shows "conv_state n B W I b a w bf P d2 \<and> kept U out len d d2"
proof -
  have "kept U out len d d2" using assms(2) kept_launch [OF s assms(5)] by (rule kept_trans)
  moreover have "(\<lambda>i. d_mem d2 (b, i)) = (\<lambda>i. d_mem d1 (b, i))" using p by (intro ext same_but_other [OF s]) auto
  ultimately show ?thesis
    using assms(1) conv_inv_launch [OF _ s p] same_but_ready [OF s] by (simp add: conv_state_def)
qed

lemma conv_state_call:
  assumes st: "conv_state n B W I b a w bf P d1" and "kept U out len d d1" and "I d2" and kept: "kept W (w, 0) l d1 d2"
    and "W \<union> {w} \<subseteq> U"
  shows "conv_state n B W I b a w bf P d2 \<and> kept U out len d d2"
proof -
  have w: "fst (w, 0) \<notin> W \<union> {b, bf}" and "b \<notin> W" "bf \<notin> W" using st by (auto simp: conv_state_def conv_inv_def)
  have "kept U out len d1 d2" using assms(5) by (intro kept_child [OF kept]) auto
  with assms(2) have "kept U out len d d2" by (rule kept_trans)
  moreover have "(\<lambda>i. d_mem d2 (b, i)) = (\<lambda>i. d_mem d1 (b, i))"
    using w \<open>b \<notin> W\<close> by (intro ext kept_other [OF kept]) auto
  moreover have "d_ready d2 bf = d_ready d1 bf" using kept \<open>bf \<notin> W\<close> by (simp add: kept_def)
  ultimately show ?thesis
    using st conv_inv_call [OF _ \<open>I d2\<close> kept w] by (simp add: conv_state_def)
qed

lemma conv_state_ticks [simp]:
  assumes "conv_state n B W I b a w bf P d"
  shows "conv_state n B W I b a w bf P (d\<lparr>d_ticks := t\<rparr>)"
  using assms conv_inv_local [of b a w bf d "d\<lparr>d_ticks := t\<rparr>"] by (simp add: conv_state_def)

lemma conv_args:
  assumes "conv_state n B W I b a w bf P d" and "k \<le> B"
  shows "args_ok d W n B (a, 0) (w, 0) k" and "I d"
  using assms by (auto simp: conv_state_def conv_inv_def args_ok_def fits_def)

lemma kernel_inv_local:
  assumes "kernel_inv n W I b bf d" and "same_on (W \<union> {b, bf}) d d'"
  shows "kernel_inv n W I b bf d'"
proof -
  have "same_on W d d'" using assms(2) by (simp add: same_on_def)
  then have "I d'" using assms(1) local by (auto simp: kernel_inv_def)
  with assms show ?thesis by (simp add: kernel_inv_def same_on_def)
qed

lemma runs_ensure_kernel:
  assumes s: "s = - 1" and B: "0 < B" and inv: "kernel_inv n W I b bf d"
    and ok: "\<And>d'. kernel_inv n W I b bf d' \<Longrightarrow> d_ready d' bf \<Longrightarrow> kept (W \<union> {bf}) out 0 d d' \<Longrightarrow> Q () d'"
    and fail: "\<And>d'. kernel_inv n W I b bf d' \<Longrightarrow> kept (W \<union> {bf}) out 0 d d' \<Longrightarrow> K d'"
  shows "runs mc K (ensure_b_fft what f b bf) d Q"
proof -
  have args: "args_ok d W n B (b, 0) (bf, 0) 1" using inv B by (auto simp: kernel_inv_def args_ok_def fits_def)
  have I: "I d" using inv by (simp add: kernel_inv_def)
  have "runs mc K (xbind (f (b, 0) (bf, 0) 1) (\<lambda>r.
         if r \<noteq> FLAGFFT_SUCCESS then xraise (StdException what)
         else xmodify (\<lambda>d. d\<lparr>d_ready := (d_ready d)(bf := True)\<rparr>))) d Q" if "\<not> d_ready d bf"
  proof (rule runs_bind)
    show "runs mc K (f (b, 0) (bf, 0) 1) d (node_result mc s n W I (b, 0) (bf, 0) 1 d)"
      using runs_node [OF I args] by (rule runs_post) auto
    fix r d' assume res: "node_result mc s n W I (b, 0) (bf, 0) 1 d r d'"
    then have kept: "kept W (bf, 0) (1 * n) d d'" and "I d'" by (simp_all add: node_result_def)
    have time: "d_mem d' (b, i) = d_mem d (b, i)" for i
      using inv by (intro kept_other [OF kept]) (auto simp: kernel_inv_def)
    have ready: "d_ready d' bf = d_ready d bf" using inv kept by (auto simp: kernel_inv_def kept_def)
    have frame: "kept (W \<union> {bf}) out 0 d d'" by (rule kept_child [OF kept]) auto
    have inv': "kernel_inv n W I b bf d'"
      using inv \<open>I d'\<close> kept_size [OF kept] ready that by (simp add: kernel_inv_def)
    let ?d = "d'\<lparr>d_ready := (d_ready d')(bf := True)\<rparr>"
    have "kernel_inv n W I b bf ?d" if "r = FLAGFFT_SUCCESS"
    proof -
      have "same_on W d' ?d" using inv by (auto simp: same_on_def kernel_inv_def)
      then have "I ?d" using \<open>I d'\<close> local by blast
      moreover have "d_mem d' (bf, i) = dft (- 1) n (\<lambda>j. d_mem d' (b, j)) i" if "i < n" for i
        using res that \<open>r = FLAGFFT_SUCCESS\<close> time s by (simp add: node_result_def transformed_def cell_def)
      ultimately show ?thesis using inv' by (simp add: kernel_inv_def)
    qed
    moreover have "kept (W \<union> {bf}) out 0 d ?d" using frame by (auto simp: kept_def)
    ultimately show "runs mc K (if r \<noteq> FLAGFFT_SUCCESS then xraise (StdException what)
         else xmodify (\<lambda>d. d\<lparr>d_ready := (d_ready d)(bf := True)\<rparr>)) d' Q"
      using res fail [OF inv' frame] ok [of ?d] by (auto simp: node_result_def runs_def xraise_def xmodify_def)
  qed
  then show ?thesis
    using ok [OF inv] by (auto simp: ensure_b_fft_def runs_def xbind_def xget_def xret_def)
qed

end

end
