(* ===== verification/FFT_ExecStockham.thy ===== *)
theory FFT_ExecStockham
  imports FFT_ExecNodes
begin

text \<open>
  The Stockham node: after the stages of product \<open>P\<close> the element \<open>q P + j\<close> of a row is entry \<open>j\<close> of the
  transform of length \<open>P\<close> of the inputs \<open>q, q + n / P, q + 2 n / P, \<dots>\<close>; a further stage of radix \<open>r\<close> takes
  this from \<open>P\<close> to \<open>r P\<close>. The stages alternate between the two buffers of the node and end in the output.
\<close>

section \<open>One stage\<close>

definition root_table :: "int \<Rightarrow> nat \<Rightarrow> complex list \<Rightarrow> bool" where
  "root_table s n tw \<longleftrightarrow> length tw = n \<and> (\<forall>i < n. tw ! i = unity s i n)"

text \<open>Where a butterfly stores, in the form of the source and by its batch entry, group, output and lane.\<close>

definition stockham_dst :: "nat \<Rightarrow> nat \<Rightarrow> nat \<Rightarrow> nat \<Rightarrow> nat \<Rightarrow> nat" where
  "stockham_dst n r P index e =
     (let b = index div (n div r); k = index mod (n div r) in b * n + r * k - (r - 1) * (k mod P) + e * P)"

lemma stockham_dst_eq:
  assumes n: "n = q * (r * P)" and pos: "0 < r" "g < q" "j < P"
  shows "stockham_dst n r P (b * (q * P) + (g * P + j)) e = b * n + (g * (r * P) + (e * P + j))"
proof -
  have div: "n div r = q * P" using n pos by simp
  have k: "g * P + j < q * P" using pos by (intro row_less)
  have "r * (g * P + j) = g * (r * P) + j + (r - 1) * j"
    using pos(1) by (cases r) (simp_all add: algebra_simps)
  then show ?thesis using k pos by (simp add: stockham_dst_def div Let_def)
qed

lemma stockham_index:
  fixes index :: nat
  assumes "index < c * (q * P)"
  obtains b g j where "index = b * (q * P) + (g * P + j)" and "b < c" and "g < q" and "j < P"
proof
  have pos: "0 < q * P" "0 < P" using assms by (cases "q * P"; cases P; simp)+
  show "index div (q * P) < c" using assms by (simp add: less_mult_imp_div_less)
  show "index mod (q * P) div P < q" using pos by (simp add: less_mult_imp_div_less)
  show "index mod (q * P) mod P < P" using pos by simp
  show "index = index div (q * P) * (q * P) + (index mod (q * P) div P * P + index mod (q * P) mod P)"
    by (metis div_mult_mod_eq)
qed

definition butterflies :: "int \<Rightarrow> nat \<Rightarrow> nat \<Rightarrow> nat \<Rightarrow> nat \<Rightarrow> nat \<Rightarrow> ptr \<Rightarrow> ptr \<Rightarrow> dev \<Rightarrow> dev \<Rightarrow> bool" where
  "butterflies s n q r P c inp out d d' \<longleftrightarrow> (\<forall>b < c. \<forall>g < q. \<forall>j < P. \<forall>e < r.
     d_mem d' (cell out (b * n + (g * (r * P) + (e * P + j)))) =
       dft s r (\<lambda>t. d_mem d (cell inp (b * n + ((g + t * q) * P + j))) * unity s (t * j) (P * r)) e)"

lemma runs_stockham_kernel:
  assumes n: "n = q * (r * P)" and pos: "0 < n" and codelet: "computes_dft (mc_codelet mc) s r" and tw: "root_table s n tw"
    and block: "0 < block" and fit: "fits d inp (c * n)" "fits d out (c * n)" and io: "fst inp \<noteq> fst out"
    and fail: "\<And>t. K (d\<lparr>d_ticks := t\<rparr>)"
    and post: "\<And>d'. same_but out (c * n) d d' \<Longrightarrow> butterflies s n q r P c inp out d d' \<Longrightarrow> Q () d'"
  shows "runs mc K (launch mc (stockham_stage_kernel mc s n r P block tw inp out ((c * (n div r) + block - 1) div block) c)) d Q"
proof -
  have r: "0 < r" and P: "0 < P" and q: "0 < q" using n pos by (cases r; cases P; cases q; simp)+
  have div: "n div r = q * P" "n div (r * P) = q" using n r P by simp_all
  let ?loads = "\<lambda>i. map (\<lambda>t. cell inp (i div (q * P) * n + i mod (q * P) + t * (q * P))) [0..<r]"
  let ?dsts = "\<lambda>i. map (\<lambda>e. cell out (stockham_dst n r P i e)) [0..<r]"
  let ?ys = "\<lambda>mem i. mc_codelet mc s r (stockham_inputs n r P tw inp (i div (q * P)) (i mod (q * P)) mem)"
  let ?stores = "\<lambda>mem i. map (\<lambda>e. (cell out (stockham_dst n r P i e), ?ys mem i ! e)) [0..<r]"
  let ?xs = "[0..<c * (q * P)]"
  let ?ok = "\<lambda>i. \<forall>t < r. t = 0 \<or> P = 1 \<or> t * (i mod (q * P) mod P) * q < length tw"
  have dst_less: "g * (r * P) + (e * P + j) < n" if "g < q" "e < r" "j < P" for g e j
    unfolding n using that by (intro row_less)
  have at_index: "stockham_dst n r P i e = b * n + (g * (r * P) + (e * P + j))" "i div (q * P) = b" "i mod (q * P) = g * P + j"
    if "i = b * (q * P) + (g * P + j)" "g < q" "j < P" for i b g j e
    using that stockham_dst_eq [OF n r] row_less [of g q j P] by simp_all
  have src: "b * n + (g * P + j) + t * (q * P) = b * n + ((g + t * q) * P + j)" for b g j t by (simp add: algebra_simps)
  have src_less: "b * n + ((g + t * q) * P + j) < c * n" if "b < c" "g < q" "j < P" "t < r" for b g j t
  proof -
    have "g + t * q < r * q" using row_less [of t r g q] that by (simp add: add.commute)
    then have "(g + t * q) * P + j < r * q * P" using that by (intro row_less)
    then show ?thesis using that by (intro row_less) (simp_all add: n mult.commute mult.left_commute)
  qed
  have tw_less: "t * j * q < n" if "t < r" "j < P" for t j
  proof -
    have "t * j < r * P" using that by (intro mult_strict_mono) (auto intro: gr_zeroI)
    then show ?thesis using q by (simp add: n mult.commute)
  qed
  show ?thesis
  proof (rule runs_launch [where ok = ?ok and loads = ?loads and dsts = ?dsts and xs = ?xs and stores = ?stores])
    have "filter (\<lambda>i. i < c * (n div r)) (block_offsets block ((c * (n div r) + block - 1) div block)) = ?xs"
      using block_offsets_cover [OF block, of "c * (n div r)"] ceil_div_covers [OF block, of "c * (n div r)"] div(1)
      by (simp add: ceil_div_nat_def)
    then show "stockham_stage_kernel mc s n r P block tw inp out ((c * (n div r) + block - 1) div block) c mem =
        map (\<lambda>i. \<lparr>it_defined = ?ok i, it_loads = ?loads i, it_stores = ?stores mem i\<rparr>) ?xs" for mem
      unfolding stockham_stage_kernel_def Let_def by (simp add: div stockham_dst_def Let_def)
    show "map fst (?stores mem i) = ?dsts i" for mem i by simp
    show "distinct (?dsts i)" if "i \<in> set ?xs" for i
      using that by (auto simp: distinct_map inj_on_def stockham_dst_def Let_def cell_def P)
    show "set (?loads i) \<inter> set (?dsts i') = {}" for i i' using io by (auto simp: cell_def)
    show "set (?dsts i) \<inter> set (?dsts i') = {}" if i: "i \<in> set ?xs" and i': "i' \<in> set ?xs" and neq: "i \<noteq> i'" for i i'
    proof -
      obtain b g j where x: "i = b * (q * P) + (g * P + j)" "b < c" "g < q" "j < P" using i stockham_index [of i c q P] by auto
      obtain b' g' j' where y: "i' = b' * (q * P) + (g' * P + j')" "b' < c" "g' < q" "j' < P" using i' stockham_index [of i' c q P] by auto
      have "stockham_dst n r P i e \<noteq> stockham_dst n r P i' e'" if "e < r" "e' < r" for e e'
      proof
        assume "stockham_dst n r P i e = stockham_dst n r P i' e'"
        then have "b * n + (g * (r * P) + (e * P + j)) = b' * n + (g' * (r * P) + (e' * P + j'))"
          using at_index(1) [OF x(1,3,4)] at_index(1) [OF y(1,3,4)] by simp
        then have "b = b'" and "g * (r * P) + (e * P + j) = g' * (r * P) + (e' * P + j')"
          using dst_less x y that row_inject by (metis (no_types, lifting))+
        then have "g = g'" and "e * P + j = e' * P + j'"
          using row_inject [of "e * P + j" "r * P" "e' * P + j'" g g'] row_less [of _ r _ P] x y that by simp_all
        then have "j = j'" using row_inject [of j P j' e e'] x y by simp
        then show False using neq x(1) y(1) \<open>b = b'\<close> \<open>g = g'\<close> by simp
      qed
      then show ?thesis by (auto simp: cell_def)
    qed
    show "?ok i \<and> (a \<in> set (?loads i) \<union> set (?dsts i) \<longrightarrow> in_bounds d a)" if i: "i \<in> set ?xs" for i a
    proof -
      obtain b g j where x: "i = b * (q * P) + (g * P + j)" "b < c" "g < q" "j < P" using i stockham_index [of i c q P] by auto
      note eqs = at_index [OF x(1,3,4)]
      have "in_bounds d (cell inp (b * n + ((g + t * q) * P + j)))" "in_bounds d (cell out (b * n + (g * (r * P) + (t * P + j))))"
        if "t < r" for t
        using in_bounds_cell [OF fit(1) src_less] in_bounds_cell [OF fit(2) row_less [OF x(2) dst_less]] x that by simp_all
      then have "in_bounds d a" if "a \<in> set (?loads i) \<union> set (?dsts i)" using that by (auto simp: eqs src)
      moreover have "?ok i" using tw_less x(4) tw by (auto simp: eqs root_table_def)
      ultimately show ?thesis by blast
    qed
    fix mem t0
    assume st: "\<And>i a v. i \<in> set ?xs \<Longrightarrow> (a, v) \<in> set (?stores (d_mem d) i) \<Longrightarrow> mem a = v"
      and other: "\<And>a. (\<And>i. i \<in> set ?xs \<Longrightarrow> a \<notin> set (?dsts i)) \<Longrightarrow> mem a = d_mem d a"
    show "Q () (d\<lparr>d_ticks := t0, d_mem := mem\<rparr>)"
    proof (rule post)
      have "mem a = d_mem d a" if "a \<notin> cells out (c * n)" for a
      proof (rule other)
        fix i assume "i \<in> set ?xs"
        then obtain b g j where x: "i = b * (q * P) + (g * P + j)" "b < c" "g < q" "j < P" using stockham_index [of i c q P] by auto
        show "a \<notin> set (?dsts i)" using that row_less [OF x(2) dst_less [OF x(3) _ x(4)]] by (auto simp: at_index(1) [OF x(1,3,4)])
      qed
      then show "same_but out (c * n) d (d\<lparr>d_ticks := t0, d_mem := mem\<rparr>)" by (simp add: same_but_def)
      show "butterflies s n q r P c inp out d (d\<lparr>d_ticks := t0, d_mem := mem\<rparr>)"
        unfolding butterflies_def
      proof (intro allI impI)
      fix b g j e assume x: "b < c" "g < q" "j < P" "e < r"
      let ?i = "b * (q * P) + (g * P + j)"
      have i: "?i \<in> set ?xs" using row_less [OF x(1) row_less [OF x(2,3)]] by simp
      note eqs = at_index [OF refl x(2,3)]
      have "mem (cell out (stockham_dst n r P ?i e)) = ?ys (d_mem d) ?i ! e" using x(4) by (intro st [OF i]) auto
      also have "\<dots> = dft s r (\<lambda>t. d_mem d (cell inp (b * n + ((g + t * q) * P + j))) * unity s (t * j) (P * r)) e"
      proof -
        have root: "tw ! (t * j * q) = unity s (t * j) (P * r)" if "t < r" for t
          using tw tw_less [OF that x(3)] unity_cancel [OF q, of s "t * j" "r * P"] n by (simp add: root_table_def ac_simps)
        have "stockham_inputs n r P tw inp (?i div (q * P)) (?i mod (q * P)) (d_mem d) =
            map (\<lambda>t. d_mem d (cell inp (b * n + ((g + t * q) * P + j))) * unity s (t * j) (P * r)) [0..<r]"
          unfolding stockham_inputs_def eqs div src using x(3) root by (auto simp: Let_def)
        then show ?thesis using computes_dft_nth [OF codelet x(4)] by simp
      qed
      finally show "d_mem (d\<lparr>d_ticks := t0, d_mem := mem\<rparr>) (cell out (b * n + (g * (r * P) + (e * P + j)))) =
          dft s r (\<lambda>t. d_mem d (cell inp (b * n + ((g + t * q) * P + j))) * unity s (t * j) (P * r)) e"
        by (simp add: eqs)
      qed
    qed
  qed (use fail in auto)
qed

lemma runs_stockham_stage:
  assumes n: "n = q * (r * P)" and pos: "0 < n" and codelet: "computes_dft (mc_codelet mc) s r" and tw: "root_table s n tw"
    and block: "0 < block" and fit: "fits d cur (k * n)" "fits d dst (k * n)" and io: "fst cur \<noteq> fst dst"
    and fail: "\<And>d' l t. l \<le> k * n \<Longrightarrow> same_but dst l d d' \<Longrightarrow> K (d'\<lparr>d_ticks := t\<rparr>)"
    and post: "\<And>d'. same_but dst (k * n) d d' \<Longrightarrow> butterflies s n q r P k cur dst d d' \<Longrightarrow> Q FLAGFFT_SUCCESS d'"
  shows "runs mc K (stockham_stage mc n s tw k r block P cur dst) d Q"
proof -
  let ?Inv = "\<lambda>off d'. same_but dst (off * n) d d' \<and> butterflies s n q r P off cur dst d d'"
  have "runs mc K (stockham_stage mc n s tw k r block P cur dst) d (\<lambda>x d'. x = FLAGFFT_SUCCESS \<and> ?Inv k d' \<or> False)"
    unfolding stockham_stage_def Let_def
  proof (rule runs_chunks)
    show "?Inv 0 d" by (simp add: same_but_def butterflies_def)
    fix off c d1 assume inv: "?Inv off d1" and c: "off + c \<le> k"
    have le: "off * n + c * n \<le> k * n" using c by (simp flip: add_mult_distrib)
    have cur1: "d_mem d1 (cell cur i) = d_mem d (cell cur i)" for i using inv io by (intro same_but_other) auto
    show "runs mc K (xbind (launch mc (stockham_stage_kernel mc s n r P block tw (advance cur (off * n)) (advance dst (off * n))
        ((c * (n div r) + block - 1) div block) c)) (\<lambda>_. xret FLAGFFT_SUCCESS)) d1
        (\<lambda>x d'. x = FLAGFFT_SUCCESS \<and> ?Inv (off + c) d' \<or> x \<noteq> FLAGFFT_SUCCESS \<and> False)"
    proof (rule runs_then, rule runs_stockham_kernel [OF n pos codelet tw block])
      show "fits d1 (advance cur (off * n)) (c * n)" "fits d1 (advance dst (off * n)) (c * n)"
        using fit le inv same_but_fits by (blast intro: fits_advance)+
      show "K (d1\<lparr>d_ticks := t\<rparr>)" for t using inv c by (intro fail [of "off * n"]) simp_all
      fix d2 assume s2: "same_but (advance dst (off * n)) (c * n) d1 d2"
        and b2: "butterflies s n q r P c (advance cur (off * n)) (advance dst (off * n)) d1 d2"
      have sub: "cells (advance dst (off * n)) (c * n) \<subseteq> cells dst ((off + c) * n)" "cells dst (off * n) \<subseteq> cells dst ((off + c) * n)"
        using cells_advance [of 0 "off * n" "(off + c) * n" dst] by (auto intro!: cells_advance simp: ring_distribs)
      have "same_but dst ((off + c) * n) d d2"
        using inv s2 sub unfolding same_but_def by (metis subsetD)
      moreover have "butterflies s n q r P (off + c) cur dst d d2"
        unfolding butterflies_def
      proof (intro allI impI)
        fix b g j e assume x: "b < off + c" "g < q" "j < P" "e < r"
        let ?l = "g * (r * P) + (e * P + j)"
        let ?v = "\<lambda>b. dft s r (\<lambda>t. d_mem d (cell cur (b * n + ((g + t * q) * P + j))) * unity s (t * j) (P * r)) e"
        have l: "?l < n" unfolding n using x by (intro row_less)
        show "d_mem d2 (cell dst (b * n + ?l)) = ?v b"
        proof (cases "b < off")
          case True
          then have "b * n + ?l < off * n" using l by (rule row_less)
          then have "d_mem d2 (cell dst (b * n + ?l)) = d_mem d1 (cell dst (b * n + ?l))"
            by (intro same_butD [OF s2] cell_notin_advance)
          with True inv x show ?thesis by (simp add: butterflies_def)
        next
          case False
          then have b: "b - off < c" using x by simp
          have row: "off * n + ((b - off) * n + i) = b * n + i" for i
            using False by (simp flip: add.assoc add_mult_distrib)
          have "d_mem d2 (cell (advance dst (off * n)) ((b - off) * n + ?l)) =
              dft s r (\<lambda>t. d_mem d1 (cell (advance cur (off * n)) ((b - off) * n + ((g + t * q) * P + j))) * unity s (t * j) (P * r)) e"
            using b2 b x by (simp add: butterflies_def)
          then show ?thesis by (simp add: cell_advance row cur1)
        qed
      qed
      ultimately show "runs mc K (xret FLAGFFT_SUCCESS) d2 (\<lambda>x d'. x = FLAGFFT_SUCCESS \<and> ?Inv (off + c) d' \<or> x \<noteq> FLAGFFT_SUCCESS \<and> False)"
        by (intro runs_ret) simp
    qed (use io in simp)
  qed simp_all
  then show ?thesis by (rule runs_post) (use post in auto)
qed

section \<open>All stages\<close>

definition staged :: "int \<Rightarrow> nat \<Rightarrow> nat \<Rightarrow> nat \<Rightarrow> ptr \<Rightarrow> ptr \<Rightarrow> dev \<Rightarrow> dev \<Rightarrow> bool" where
  "staged s n P k inp cur d d' \<longleftrightarrow> (\<forall>b < k. \<forall>g < n div P. \<forall>j < P.
     d_mem d' (cell cur (b * n + (g * P + j))) = dft s P (\<lambda>a. d_mem d (cell inp (b * n + (a * (n div P) + g)))) j)"

lemma staged_start: "staged s n 1 k inp inp d d"
  by (simp add: staged_def dft_def)

lemma staged_end: "0 < n \<Longrightarrow> staged s n n k inp cur d d' \<Longrightarrow> transformed s n k inp cur d d'"
  by (simp add: staged_def transformed_def)

lemma staged_step:
  assumes n: "n = q * (r * P)" and pos: "0 < n" and st: "staged s n P k inp cur d d1" and bf: "butterflies s n q r P k cur dst d1 d2"
  shows "staged s n (P * r) k inp dst d d2"
proof -
  have r: "0 < r" and P: "0 < P" and q: "0 < q" using n pos by (cases r; cases P; cases q; simp)+
  have div: "n div P = q * r" "n div (P * r) = q" using n r P by (simp_all add: mult.left_commute mult.commute)
  show ?thesis
    unfolding staged_def div
  proof (intro allI impI)
    fix b g J assume x: "b < k" "g < q" "J < P * r"
    define e j where "e = J div P" and "j = J mod P"
    have e: "e < r" and j: "j < P" and J: "J = e * P + j" "J = j + P * e"
      using x(3) P by (simp_all add: e_def j_def less_mult_imp_div_less mult.commute)
    let ?x = "\<lambda>a. d_mem d (cell inp (b * n + (a * q + g)))"
    have inner: "d_mem d1 (cell cur (b * n + ((g + t * q) * P + j))) = dft s P (\<lambda>a. ?x (r * a + t)) j" if "t < r" for t
    proof -
      have "g + t * q < q * r" using row_less [of t r g q] that x(2) by (simp add: mult.commute add.commute)
      then have "d_mem d1 (cell cur (b * n + ((g + t * q) * P + j))) =
          dft s P (\<lambda>a. d_mem d (cell inp (b * n + (a * (q * r) + (g + t * q))))) j"
        using st x(1) j by (simp add: staged_def div)
      moreover have "a * (q * r) + (g + t * q) = (r * a + t) * q + g" for a by (simp add: algebra_simps)
      ultimately show ?thesis by simp
    qed
    have "d_mem d2 (cell dst (b * n + (g * (P * r) + J))) =
        (\<Sum>t<r. dft s P (\<lambda>a. ?x (r * a + t)) j * unity s (t * j) (P * r) * unity s (t * e) r)"
      using bf x(1,2) e j inner by (simp add: butterflies_def J(1) dft_def [of s r] mult.commute [of P r])
    also have "\<dots> = dft s (P * r) ?x (j + P * e)"
      unfolding four_step_identity [OF P r j] by (simp add: mult.commute)
    finally show "d_mem d2 (cell dst (b * n + (g * (P * r) + J))) = dft s (P * r) ?x J" by (simp add: J(2))
  qed
qed

definition stages_ok :: "machine \<Rightarrow> int \<Rightarrow> (nat \<times> nat) list \<Rightarrow> bool" where
  "stages_ok mc s fs \<longleftrightarrow> (\<forall>fb \<in> set fs. 0 < snd fb \<and> computes_dft (mc_codelet mc) s (fst fb))"

definition stockham_inv :: "machine \<Rightarrow> int \<Rightarrow> nat \<Rightarrow> nat \<Rightarrow> (nat \<times> nat) list \<Rightarrow> complex list \<Rightarrow> nat \<Rightarrow> nat \<Rightarrow> dev \<Rightarrow> bool" where
  "stockham_inv mc s n B fs tw first_buf second_buf d \<longleftrightarrow> 0 < n \<and> fs \<noteq> [] \<and> prod_list (map fst fs) = n \<and> stages_ok mc s fs \<and>
     root_table s n tw \<and> first_buf \<noteq> second_buf \<and> d_size d first_buf = B * n \<and> d_size d second_buf = B * n"

lemma stockham_inv_ticks [simp]:
  "stockham_inv mc s n B fs tw f1 f2 (d\<lparr>d_ticks := t\<rparr>) \<longleftrightarrow> stockham_inv mc s n B fs tw f1 f2 d"
  by (simp add: stockham_inv_def)

lemma runs_stockham_stages:
  assumes inv: "stockham_inv mc s n B all tw f1 f2 d" and args: "args_ok d {f1, f2} n B inp out k"
    and W: "W = {f1, f2}"
  defines "K \<equiv> \<lambda>d'. stockham_inv mc s n B all tw f1 f2 d' \<and> kept W out (k * n) d d'"
  assumes "stages_ok mc s fs" and "P * prod_list (map fst fs) = n" and "K d1" and "staged s n P k inp cur d d1"
    and "fits d cur (k * n)" and "fs \<noteq> [] \<Longrightarrow> fst cur \<noteq> (if stage mod 2 = 0 then f1 else f2)" and "fst cur \<noteq> fst out \<or> cur = out"
  shows "runs mc K (stockham_stages mc n s tw f1 f2 out k fs stage P cur) d1
    (\<lambda>cur' d'. K d' \<and> staged s n n k inp cur' d d' \<and> (if fs = [] then cur' = cur else cur' \<in> {out, (f1, 0), (f2, 0)}))"
  using assms(5-)
proof (induction fs arbitrary: stage P cur d1)
  case Nil
  then show ?case by (auto simp: runs_ret)
next
  case (Cons fb rest)
  obtain r block where fb: "fb = (r, block)" by (cases fb)
  define q where "q = prod_list (map fst rest)"
  define dst where "dst = (if rest = [] \<and> cur \<noteq> out then out else if stage mod 2 = 0 then (f1, 0) else (f2, 0))"
  have n: "n = q * (r * P)" using Cons.prems(2) by (simp add: fb q_def ac_simps)
  have pos: "0 < n" and tw: "root_table s n tw" and bufs: "f1 \<noteq> f2" "d_size d f1 = B * n" "d_size d f2 = B * n"
    using inv by (simp_all add: stockham_inv_def)
  have codelet: "computes_dft (mc_codelet mc) s r" and block: "0 < block" and ok: "stages_ok mc s rest"
    using Cons.prems(1) by (auto simp: stages_ok_def fb)
  have outW: "fst out \<noteq> f1" "fst out \<noteq> f2" and k: "k \<le> B" and fit_out: "fits d out (k * n)" using args by (auto simp: args_ok_def)
  have fit: "fits d1 p (k * n) \<longleftrightarrow> fits d p (k * n)" for p using Cons.prems(3) by (auto simp: K_def dest: kept_fits)
  have fit_dst: "fits d dst (k * n)" using fit_out bufs k by (auto simp: dst_def fits_def)
  have io: "fst cur \<noteq> fst dst" using Cons.prems(6,7) by (auto simp: dst_def)
  have in_frame: "fst dst \<in> W \<or> dst = out" using W by (auto simp: dst_def)
  have K2: "K d2" if "same_but dst l d1 d2" "l \<le> k * n" for d2 l
  proof -
    have "kept W out (k * n) d1 d2"
      using in_frame cells_advance [of 0 l "k * n" out] that(2) by (intro kept_launch [OF that(1)]) auto
    then show ?thesis
      using Cons.prems(3) kept_trans [of W out "k * n" d d1 d2] same_but_size [OF that(1)] by (auto simp: K_def stockham_inv_def)
  qed
  have "runs mc K (xbind (stockham_stage mc n s tw k r block P cur dst) (\<lambda>_.
      stockham_stages mc n s tw f1 f2 out k rest (stage + 1) (P * r) dst)) d1
      (\<lambda>cur' d'. K d' \<and> staged s n n k inp cur' d d' \<and> cur' \<in> {out, (f1, 0), (f2, 0)})"
  proof (rule runs_then, rule runs_stockham_stage [OF n pos codelet tw block])
    fix d2 assume s2: "same_but dst (k * n) d1 d2" and b2: "butterflies s n q r P k cur dst d1 d2"
    have "runs mc K (stockham_stages mc n s tw f1 f2 out k rest (stage + 1) (P * r) dst) d2
        (\<lambda>cur' d'. K d' \<and> staged s n n k inp cur' d d' \<and> (if rest = [] then cur' = dst else cur' \<in> {out, (f1, 0), (f2, 0)}))"
    proof (rule Cons.IH [OF ok])
      show "P * r * prod_list (map fst rest) = n" using Cons.prems(2) by (simp add: fb ac_simps)
      show "K d2" by (rule K2 [OF s2]) simp
      show "staged s n (P * r) k inp dst d d2" by (rule staged_step [OF n pos Cons.prems(4) b2])
      show "fits d dst (k * n)" by (rule fit_dst)
      show "fst dst \<noteq> (if (stage + 1) mod 2 = 0 then f1 else f2)" if "rest \<noteq> []" using that bufs by (auto simp: dst_def) presburger+
      show "fst dst \<noteq> fst out \<or> dst = out" using outW by (auto simp: dst_def)
    qed
    then show "runs mc K (stockham_stages mc n s tw f1 f2 out k rest (stage + 1) (P * r) dst) d2
        (\<lambda>cur' d'. K d' \<and> staged s n n k inp cur' d d' \<and> cur' \<in> {out, (f1, 0), (f2, 0)})"
      by (rule runs_post) (auto simp: dst_def split: if_splits)
  next
    show "K (d'\<lparr>d_ticks := t\<rparr>)" if "l \<le> k * n" "same_but dst l d1 d'" for d' l t using K2 [OF that(2,1)] by (simp add: K_def)
  qed (use fit fit_dst Cons.prems(5) io in auto)
  then show ?case by (simp add: fb Let_def dst_def)
qed

lemma stockham_node:
  "dft_node mc s n B {f1, f2} (stockham_inv mc s n B fs tw f1 f2) (guarded (execute_stockham mc n fs s tw f1 f2))"
proof
  let ?I = "stockham_inv mc s n B fs tw f1 f2"
  fix d inp out k assume I: "?I d" and args: "args_ok d {f1, f2} n B inp out k"
  let ?K = "\<lambda>d'. ?I d' \<and> kept {f1, f2} out (k * n) d d'"
  have pos: "0 < n" and fs: "fs \<noteq> []" and ok: "stages_ok mc s fs" and n: "1 * prod_list (map fst fs) = n" and bufs: "d_size d f1 = B * n" "d_size d f2 = B * n"
    using I by (simp_all add: stockham_inv_def)
  have away: "fst inp \<notin> {f1, f2}" "fst out \<notin> {f1, f2}" "fits d inp (k * n)" "fits d out (k * n)" "k \<le> B" "fst inp \<noteq> fst out \<or> inp = out"
    using args by (auto simp: args_ok_def)
  have "runs mc ?K (execute_stockham mc n fs s tw f1 f2 inp out k) d (node_result mc s n {f1, f2} ?I inp out k d)"
    unfolding execute_stockham_def
  proof (rule runs_bind, rule runs_stockham_stages [OF I args refl ok n _ staged_start])
    fix cur d1 assume *: "?K d1 \<and> staged s n n k inp cur d d1 \<and> (if fs = [] then cur = inp else cur \<in> {out, (f1, 0), (f2, 0)})"
    then have t: "transformed s n k inp cur d d1" and K1: "?K d1" and cur: "cur \<in> {out, (f1, 0), (f2, 0)}"
      using staged_end [OF pos] fs by auto
    show "runs mc ?K (if cur \<noteq> out then xbind (copy_device_to_device mc out cur (k * n)) (\<lambda>_. xret FLAGFFT_SUCCESS) else xret FLAGFFT_SUCCESS) d1
        (node_result mc s n {f1, f2} ?I inp out k d)"
    proof (rule runs_if)
      assume "cur \<noteq> out"
      show "runs mc ?K (xbind (copy_device_to_device mc out cur (k * n)) (\<lambda>_. xret FLAGFFT_SUCCESS)) d1 (node_result mc s n {f1, f2} ?I inp out k d)"
      proof (rule runs_then, rule runs_copy)
        have fit: "fits d1 p (k * n) \<longleftrightarrow> fits d p (k * n)" for p using K1 kept_fits by blast
        show "fits d1 out (k * n)" "fits d1 cur (k * n)" "fst cur \<noteq> fst out"
          using fit away cur bufs \<open>cur \<noteq> out\<close> by (auto simp: fits_def)
        fix d2 assume s2: "same_but out (k * n) d1 d2" and c2: "\<And>i. i < k * n \<Longrightarrow> d_mem d2 (cell out i) = d_mem d1 (cell cur i)"
        have "?I d2" using K1 same_but_size [OF s2] by (simp add: stockham_inv_def)
        moreover have "kept {f1, f2} out (k * n) d d2" using K1 kept_launch [OF s2, of "{f1, f2}" out "k * n"] kept_trans by blast
        moreover have "transformed s n k inp out d d2" using t by (auto simp: transformed_def c2 row_less)
        ultimately show "runs mc ?K (xret FLAGFFT_SUCCESS) d2 (node_result mc s n {f1, f2} ?I inp out k d)" by (auto simp: node_result_def)
      qed (use K1 in auto)
    next
      assume "\<not> cur \<noteq> out"
      then show "runs mc ?K (xret FLAGFFT_SUCCESS) d1 (node_result mc s n {f1, f2} ?I inp out k d)" using t K1 by (auto simp: node_result_def)
    qed
  qed (use I away in auto)
  then show "runs mc (\<lambda>_. False) (guarded (execute_stockham mc n fs s tw f1 f2) inp out k) d (node_result mc s n {f1, f2} ?I inp out k d)"
    by (rule runs_guarded)
qed (auto simp: stockham_inv_def same_on_def)

end
