(* ===== verification/FFT_ExecConv.thy ===== *)
theory FFT_ExecConv
  imports FFT_ExecNodes
begin

text \<open>
  Bluestein's and Rader's nodes compute the transform: their two calls of the child with a pointwise
  product in between are a circular convolution, whatever the direction of the node.
\<close>

section \<open>The convolution\<close>

lemma convolved:
  assumes "q < m"
  shows "cnj (dft (- 1) m (\<lambda>i. cnj (dft (- 1) m a i * dft (- 1) m b i)) q) / of_nat m = circular m a b q"
  using convolution_theorem [of m "- 1" q a b] assms by simp

section \<open>Bluestein\<close>

definition chirp_samples :: "int \<Rightarrow> nat \<Rightarrow> nat \<Rightarrow> (nat \<Rightarrow> complex) \<Rightarrow> bool" where
  "chirp_samples s n m x \<longleftrightarrow> (\<forall>j < n. x j = chirp_at (- s) n j) \<and> (\<forall>j. 0 < j \<and> j < n \<longrightarrow> x (m - j) = chirp_at (- s) n j)"

definition chirp_table :: "int \<Rightarrow> nat \<Rightarrow> complex list \<Rightarrow> bool" where
  "chirp_table s n chirp \<longleftrightarrow> length chirp = n \<and> (\<forall>j < n. chirp ! j = chirp_at s n j)"

definition bluestein_inv ::
  "int \<Rightarrow> nat \<Rightarrow> nat \<Rightarrow> nat \<Rightarrow> nat set \<Rightarrow> (dev \<Rightarrow> bool) \<Rightarrow> complex list \<Rightarrow> nat \<Rightarrow> nat \<Rightarrow> nat \<Rightarrow> nat \<Rightarrow> dev \<Rightarrow> bool" where
  "bluestein_inv s n m B V J chirp b_time a_buf work_buf b_fft_buf d \<longleftrightarrow>
     conv_inv m B V J b_time a_buf work_buf b_fft_buf d \<and> 2 * n \<le> m + 1 \<and> chirp_table s n chirp \<and>
     chirp_samples s n m (\<lambda>i. d_mem d (b_time, i))"

lemma bluestein_rows:
  assumes m: "2 * n \<le> m + 1" and chirp: "chirp_table s n chirp" and samples: "chirp_samples s n m bt" and q: "q < n"
    and a: "\<And>i. i < m \<Longrightarrow> av i = (if i < n then x i * chirp ! i else 0)"
  shows "circular m av bt q * chirp ! q = dft s n x q"
proof -
  have "circular m av bt q * chirp_at s n q = dft s n x q"
    using m q by (intro bluestein_identity) (use samples chirp a in \<open>auto simp: chirp_samples_def chirp_table_def\<close>)
  then show ?thesis using chirp q by (simp add: chirp_table_def)
qed

lemma runs_bluestein_prepare:
  assumes "fits d inp (c * n)" and "fits d out (c * m)" and "fst inp \<noteq> fst out" and "length chirp = n" and "n \<le> m"
    and "\<And>t. K (d\<lparr>d_ticks := t\<rparr>)"
    and "\<And>d'. same_but out (c * m) d d' \<Longrightarrow> (\<And>j i. j < c \<Longrightarrow> i < m \<Longrightarrow>
        d_mem d' (cell out (j * m + i)) = (if i < n then d_mem d (cell inp (j * n + i)) * chirp ! i else 0)) \<Longrightarrow> Q () d'"
  shows "runs mc K (launch mc (bluestein_prepare_kernel inp chirp out n m (ceil_div_nat m 256) c)) d Q"
  unfolding bluestein_prepare_kernel_def
  by (rule runs_pointwise [where \<pi> = "\<lambda>i. i" and L = m and lm = m and gy = c and out = out])
    (use assms in_bounds_cell [OF assms(1)] row_less [of _ c _ n] in \<open>auto simp: grid_points_ceil simp del: grid_points_set\<close>)

lemma runs_bluestein_pointwise:
  assumes "fits d a (c * m)" and "fits d bf m" and "fits d out (c * m)" and "fst a \<noteq> fst out" and "fst bf \<noteq> fst out"
    and "\<And>t. K (d\<lparr>d_ticks := t\<rparr>)"
    and "\<And>d'. same_but out (c * m) d d' \<Longrightarrow> (\<And>j i. j < c \<Longrightarrow> i < m \<Longrightarrow>
        d_mem d' (cell out (j * m + i)) = cnj (d_mem d (cell a (j * m + i)) * d_mem d (cell bf i))) \<Longrightarrow> Q () d'"
  shows "runs mc K (launch mc (bluestein_pointwise_kernel a bf out m (ceil_div_nat m 256) c)) d Q"
  unfolding bluestein_pointwise_kernel_def
  by (rule runs_pointwise [where \<pi> = "\<lambda>i. i" and L = m and lm = m and gy = c and out = out])
    (use assms in_bounds_cell [OF assms(1)] in_bounds_cell [OF assms(2)] row_less [of _ c _ m] in
      \<open>auto simp: grid_points_ceil simp del: grid_points_set\<close>)

lemma runs_bluestein_finalize:
  assumes "fits d inp (c * m)" and "fits d out (c * n)" and "fst inp \<noteq> fst out" and "length chirp = n" and "n \<le> m"
    and "\<And>t. K (d\<lparr>d_ticks := t\<rparr>)"
    and "\<And>d'. same_but out (c * n) d d' \<Longrightarrow> (\<And>j i. j < c \<Longrightarrow> i < n \<Longrightarrow>
        d_mem d' (cell out (j * n + i)) = cnj (d_mem d (cell inp (j * m + i))) / of_nat m * chirp ! i) \<Longrightarrow> Q () d'"
  shows "runs mc K (launch mc (bluestein_finalize_kernel inp chirp out n m (ceil_div_nat n 256) c)) d Q"
  unfolding bluestein_finalize_kernel_def
  by (rule runs_pointwise [where \<pi> = "\<lambda>i. i" and L = n and lm = n and gy = c and out = out])
    (use assms in_bounds_cell [OF assms(1)] row_less [of _ c _ m] in \<open>auto simp: grid_points_ceil simp del: grid_points_set\<close>)

context dft_node
begin

lemma runs_ensure_samples:
  assumes s: "s = - 1" and B: "0 < B" and inv: "kernel_inv n W I b bf d" and P: "P (\<lambda>i. d_mem d (b, i))" and U: "W \<union> {bf} \<subseteq> U"
    and ok: "\<And>d'. kernel_inv n W I b bf d' \<Longrightarrow> d_ready d' bf \<Longrightarrow> P (\<lambda>i. d_mem d' (b, i)) \<Longrightarrow> kept U out len d d' \<Longrightarrow>
        (\<And>x. fst x \<notin> U \<Longrightarrow> d_mem d' x = d_mem d x) \<Longrightarrow> Q () d'"
    and fail: "\<And>d'. kernel_inv n W I b bf d' \<Longrightarrow> P (\<lambda>i. d_mem d' (b, i)) \<Longrightarrow> kept U out len d d' \<Longrightarrow> K d'"
  shows "runs mc K (ensure_b_fft what f b bf) d Q"
proof (rule runs_ensure_kernel [OF s B inv, of "(b, 0)"])
  fix d' assume d': "kernel_inv n W I b bf d'" "kept (W \<union> {bf}) (b, 0) 0 d d'"
  have "(\<lambda>i. d_mem d' (b, i)) = (\<lambda>i. d_mem d (b, i))"
    using inv by (intro ext keptD [OF d'(2)]) (auto simp: cells_def kernel_inv_def)
  then have P': "P (\<lambda>i. d_mem d' (b, i))" using P by simp
  have frame: "kept U out len d d'" using U by (intro kept_child [OF d'(2)]) (auto simp: cells_def)
  show "K d'" by (rule fail [OF d'(1) P' frame])
  show "Q () d'" if "d_ready d' bf"
  proof (rule ok [OF d'(1) that P' frame])
    show "d_mem d' x = d_mem d x" if "fst x \<notin> U" for x using that U by (intro keptD [OF d'(2)]) (auto simp: cells_def)
  qed
qed

lemma runs_ensure_state:
  assumes s: "s = - 1" and conv: "conv_inv n B W I b a w bf d" and P: "P (\<lambda>i. d_mem d (b, i))" and U: "W \<union> {bf} \<subseteq> U"
    and ok: "\<And>d'. conv_state n B W I b a w bf P d' \<Longrightarrow> kept U out len d d' \<Longrightarrow>
        (\<And>x. fst x \<notin> U \<Longrightarrow> d_mem d' x = d_mem d x) \<Longrightarrow> Q () d'"
    and fail: "\<And>d'. conv_inv n B W I b a w bf d' \<Longrightarrow> P (\<lambda>i. d_mem d' (b, i)) \<Longrightarrow> kept U out len d d' \<Longrightarrow> K d'"
  shows "runs mc K (ensure_b_fft what f b bf) d Q"
proof (rule runs_ensure_samples [where P = P, OF s _ _ P U])
  show "0 < B" "kernel_inv n W I b bf d" using conv by (simp_all add: conv_inv_def kernel_inv_def)
  fix d' assume d': "kernel_inv n W I b bf d'" "P (\<lambda>i. d_mem d' (b, i))" "kept U out len d d'"
  have inv: "conv_inv n B W I b a w bf d'" using conv d'(1,3) by (simp add: conv_inv_def kernel_inv_def kept_size)
  show "K d'" by (rule fail [OF inv d'(2,3)])
  show "Q () d'" if "d_ready d' bf" and "\<And>x. fst x \<notin> U \<Longrightarrow> d_mem d' x = d_mem d x"
    using inv that d' by (intro ok) (simp_all add: conv_state_def)
qed

lemma bluestein_body:
  assumes s: "s = - 1" and m: "2 * len \<le> n + 1" and chirp: "chirp_table sg len chirp"
    and U: "U = W \<union> {b, a, w, bf}" and io: "fst inp \<notin> U" "fst out \<notin> U" and c: "c \<le> B"
  defines "S \<equiv> conv_state n B W I b a w bf (chirp_samples sg len n)"
  assumes S: "S d" and fit: "fits d inp (c * len)" "fits d out (c * len)"
  shows "runs mc (\<lambda>d'. S d' \<and> kept U out (c * len) d d') (bluestein_chunk mc len n f chirp a w bf inp out c) d
    (node_result mc sg len U S inp out c d)" (is "runs mc ?K _ d ?R")
proof -
  define bt where "bt = (\<lambda>i. d_mem d (b, i))"
  define A where "A j i = (if i < len then d_mem d (cell inp (j * len + i)) * chirp ! i else 0)" for j i
  define T where "T d' \<longleftrightarrow> conv_state n B W I b a w bf (\<lambda>x. x = bt) d' \<and> kept U out (c * len) d d'" for d'
  have samples: "chirp_samples sg len n bt" and T: "T d" using S by (simp_all add: S_def conv_state_def bt_def T_def)
  have TK: "?K d'" if "T d'" for d' using that samples by (auto simp: T_def S_def conv_state_def)
  have ticks: "?K (d'\<lparr>d_ticks := t\<rparr>)" if "T d'" for d' t using that TK by (simp add: T_def)
  have inv: "conv_inv n B W I b a w bf d'" "kept U out (c * len) d d'" if "T d'" for d' using that by (simp_all add: T_def conv_state_def)
  have dist: "distinct [b, a, w, bf]" "{b, a, w, bf} \<inter> W = {}" using inv(1) [OF T] by (simp_all add: conv_inv_def)
  have launched: "T d2" if "T d1" "same_but p l d1 d2" "p = (a, 0) \<or> p = out \<and> l = c * len" for d1 d2 p l
    using conv_state_launch [OF _ _ that(2), of b a w bf "\<lambda>x. x = bt" U out "c * len" d] that(1,3) dist io U by (auto simp: T_def)
  have called: "T d2" if "T d1" "I d2" "kept W (w, 0) (c * n) d1 d2" for d1 d2
    using conv_state_call [OF _ _ that(2,3), of b a bf "\<lambda>x. x = bt" U out "c * len" d] that(1) U by (simp add: T_def subset_insertI2)
  have fits: "fits d' (a, 0) (c * n)" "fits d' (w, 0) (c * n)" "fits d' (bf, 0) n" "fits d' inp (c * len)" "fits d' out (c * len)" if "T d'" for d'
    using inv [OF that] c fit kept_fits by (auto simp: conv_inv_def fits_def kept_size)
  have table: "length chirp = len" and "len \<le> n" using chirp m by (auto simp: chirp_table_def)
  have trans: "runs mc ?K (unless_failed (f (a, 0) (w, 0) c) g) d1 ?R"
    if "T d1" and "\<And>d2. T d2 \<Longrightarrow> (\<And>j i. j < c \<Longrightarrow> i < n \<Longrightarrow> d_mem d2 (cell (w, 0) (j * n + i)) =
        dft (- 1) n (\<lambda>l. d_mem d1 (cell (a, 0) (j * n + l))) i) \<Longrightarrow> runs mc ?K g d2 ?R" for g d1
  proof (rule call)
    show "I d1" "args_ok d1 W n B (a, 0) (w, 0) c" using conv_args [of b a w bf _ d1 c] that(1) c by (auto simp: T_def)
  qed (use called [OF that(1)] that(2) TK s in \<open>auto simp: transformed_def node_result_def\<close>)
  have last: "runs mc ?K (xbind (launch mc (bluestein_finalize_kernel (w, 0) chirp out len n (ceil_div_nat len 256) c)) (\<lambda>_.
      xret FLAGFFT_SUCCESS)) d1 ?R"
    if T1: "T d1" and w1: "\<And>j i. j < c \<Longrightarrow> i < n \<Longrightarrow> d_mem d1 (cell (w, 0) (j * n + i)) =
        dft (- 1) n (\<lambda>i. cnj (dft (- 1) n (A j) i * dft (- 1) n bt i)) i" for d1
  proof (rule runs_then, rule runs_bluestein_finalize)
    fix d2 assume s2: "same_but out (c * len) d1 d2" and o2: "\<And>j i. j < c \<Longrightarrow> i < len \<Longrightarrow>
      d_mem d2 (cell out (j * len + i)) = cnj (d_mem d1 (cell (w, 0) (j * n + i))) / of_nat n * chirp ! i"
    have "d_mem d2 (cell out (j * len + i)) = dft sg len (\<lambda>i. d_mem d (cell inp (j * len + i))) i" if "j < c" "i < len" for j i
    proof -
      have "i < n" using that(2) \<open>len \<le> n\<close> by simp
      then have "cnj (d_mem d1 (cell (w, 0) (j * n + i))) / of_nat n = circular n (A j) bt i"
        unfolding w1 [OF that(1) \<open>i < n\<close>] by (rule convolved)
      then show ?thesis unfolding o2 [OF that] by (simp add: bluestein_rows [OF m chirp samples that(2)] A_def)
    qed
    then show "runs mc ?K (xret FLAGFFT_SUCCESS) d2 ?R"
      using TK [OF launched [OF T1 s2]] by (auto simp: node_result_def transformed_def)
  qed (use fits [OF T1] table \<open>len \<le> n\<close> io U ticks [OF T1] in auto)
  have mult: "runs mc ?K (xbind (launch mc (bluestein_pointwise_kernel (w, 0) (bf, 0) (a, 0) n (ceil_div_nat n 256) c)) (\<lambda>_. g)) d1 ?R"
    if T1: "T d1" and w1: "\<And>j i. j < c \<Longrightarrow> i < n \<Longrightarrow> d_mem d1 (cell (w, 0) (j * n + i)) = dft (- 1) n (A j) i"
      and g: "\<And>d2. T d2 \<Longrightarrow> (\<And>j i. j < c \<Longrightarrow> i < n \<Longrightarrow> d_mem d2 (cell (a, 0) (j * n + i)) =
        cnj (dft (- 1) n (A j) i * dft (- 1) n bt i)) \<Longrightarrow> runs mc ?K g d2 ?R" for g d1
  proof (rule runs_then, rule runs_bluestein_pointwise)
    fix d2 assume s2: "same_but (a, 0) (c * n) d1 d2" and o2: "\<And>j i. j < c \<Longrightarrow> i < n \<Longrightarrow>
      d_mem d2 (cell (a, 0) (j * n + i)) = cnj (d_mem d1 (cell (w, 0) (j * n + i)) * d_mem d1 (cell (bf, 0) i))"
    have "d_mem d1 (cell (bf, 0) i) = dft (- 1) n bt i" if "i < n" for i
      using T1 that by (auto simp: T_def conv_state_def conv_inv_def cell_def)
    then show "runs mc ?K g d2 ?R" using o2 w1 by (intro g launched [OF T1 s2]) auto
  qed (use fits [OF T1] dist ticks [OF T1] in auto)
  show ?thesis
    unfolding bluestein_chunk_def
  proof (rule runs_then, rule runs_bluestein_prepare)
    fix d1 assume s1: "same_but (a, 0) (c * n) d d1" and o1: "\<And>j i. j < c \<Longrightarrow> i < n \<Longrightarrow>
      d_mem d1 (cell (a, 0) (j * n + i)) = (if i < len then d_mem d (cell inp (j * len + i)) * chirp ! i else 0)"
    have rows: "dft (- 1) n (\<lambda>i. d_mem d1 (cell (a, 0) (j * n + i))) = dft (- 1) n (A j)" if "j < c" for j
      using that o1 by (intro dft_cong) (simp add: A_def)
    have rows': "dft (- 1) n (\<lambda>i. d_mem d2 (cell (a, 0) (j * n + i))) = dft (- 1) n (\<lambda>i. cnj (dft (- 1) n (A j) i * dft (- 1) n bt i))"
      if "j < c" "\<And>j i. j < c \<Longrightarrow> i < n \<Longrightarrow> d_mem d2 (cell (a, 0) (j * n + i)) = cnj (dft (- 1) n (A j) i * dft (- 1) n bt i)" for d2 j
      using that by (intro dft_cong) simp
    show "runs mc ?K (unless_failed (f (a, 0) (w, 0) c) (
     xbind (launch mc (bluestein_pointwise_kernel (w, 0) (bf, 0) (a, 0) n (ceil_div_nat n 256) c)) (\<lambda>_.
     unless_failed (f (a, 0) (w, 0) c) (
     xbind (launch mc (bluestein_finalize_kernel (w, 0) chirp out len n (ceil_div_nat len 256) c)) (\<lambda>_.
     xret FLAGFFT_SUCCESS))))) d1 ?R"
      using launched [OF T s1] by (intro trans mult last) (auto simp: rows rows')
  qed (use fits [OF T] table \<open>len \<le> n\<close> io U ticks [OF T] in auto)
qed

lemma bluestein_node:
  assumes s: "s = - 1"
  shows "dft_node mc sg len C (W \<union> {b, a, w, bf}) (bluestein_inv sg len n B W I chirp b a w bf)
    (guarded (execute_bluestein mc len n B f chirp b a w bf))"
proof
  let ?U = "W \<union> {b, a, w, bf}" and ?J = "bluestein_inv sg len n B W I chirp b a w bf"
  fix d inp out k assume J: "?J d" and args: "args_ok d ?U len C inp out k"
  define S where "S = conv_state n B W I b a w bf (chirp_samples sg len n)"
  have conv: "conv_inv n B W I b a w bf d" and m: "2 * len \<le> n + 1" and chirp: "chirp_table sg len chirp"
    and samples: "chirp_samples sg len n (\<lambda>i. d_mem d (b, i))" using J by (simp_all add: bluestein_inv_def)
  have SJ: "?J d'" if "S d'" for d' using that m chirp by (simp add: S_def conv_state_def bluestein_inv_def)
  let ?K = "\<lambda>d'. ?J d' \<and> kept ?U out (k * len) d d'"
  have "runs mc ?K (execute_bluestein mc len n B f chirp b a w bf inp out k) d (node_result mc sg len ?U ?J inp out k d)"
    unfolding execute_bluestein_def
  proof (rule runs_then, rule runs_ensure_state [where P = "chirp_samples sg len n", OF s conv samples, of ?U out "k * len"])
    fix d1 assume "conv_state n B W I b a w bf (chirp_samples sg len n) d1" and kept1: "kept ?U out (k * len) d d1"
      and same: "\<And>x. fst x \<notin> ?U \<Longrightarrow> d_mem d1 x = d_mem d x"
    then have S1: "S d1" by (simp add: S_def)
    have args1: "args_ok d1 ?U len C inp out k" using args kept_fits [OF kept1] by (simp add: args_ok_def)
    have "runs mc (\<lambda>d'. S d' \<and> kept ?U out (k * len) d1 d') (for_chunks B k 0 (\<lambda>off chunk.
         bluestein_chunk mc len n f chirp a w bf (advance inp (off * len)) (advance out (off * len)) chunk)) d1
         (node_result mc sg len ?U S inp out k d1)"
    proof (rule runs_node_chunks [where I = S and d = d1, OF S1 args1])
      show "0 < B" using conv by (simp add: conv_inv_def)
      fix d2 :: dev and off c assume "S d2" and size: "d_size d2 = d_size d1" and "c \<le> B" "off + c \<le> k"
      then have "off * len + c * len \<le> k * len" by (simp flip: add_mult_distrib)
      then have "fits d2 (advance inp (off * len)) (c * len)" "fits d2 (advance out (off * len)) (c * len)"
        using args1 fits_same [OF size] by (auto simp: args_ok_def intro: fits_advance)
      with \<open>S d2\<close> \<open>c \<le> B\<close> args1 show "runs mc (\<lambda>d'. S d' \<and> kept ?U (advance out (off * len)) (c * len) d2 d')
          (bluestein_chunk mc len n f chirp a w bf (advance inp (off * len)) (advance out (off * len)) c) d2
          (node_result mc sg len ?U S (advance inp (off * len)) (advance out (off * len)) c d2)"
        unfolding S_def by (intro bluestein_body [OF s m chirp refl]) (simp_all add: args_ok_def)
    qed
    then show "runs mc ?K (for_chunks B k 0 (\<lambda>off chunk.
         bluestein_chunk mc len n f chirp a w bf (advance inp (off * len)) (advance out (off * len)) chunk)) d1
         (node_result mc sg len ?U ?J inp out k d)"
    proof (rule runs_post)
      have "transformed sg len k inp out d d'" if "transformed sg len k inp out d1 d'" for d'
        using that args by (simp add: transformed_def same args_ok_def)
      then show "node_result mc sg len ?U ?J inp out k d r d'" if "node_result mc sg len ?U S inp out k d1 r d'" for r d'
        using that SJ kept_trans [OF kept1] by (auto simp: node_result_def)
    qed (use SJ kept_trans [OF kept1] in auto)
  qed (use m chirp in \<open>auto simp: bluestein_inv_def\<close>)
  then show "runs mc (\<lambda>_. False) (guarded (execute_bluestein mc len n B f chirp b a w bf) inp out k) d
      (node_result mc sg len ?U ?J inp out k d)" by (rule runs_guarded)
next
  fix d d' assume "bluestein_inv sg len n B W I chirp b a w bf d" and same: "same_on (W \<union> {b, a, w, bf}) d d'"
  moreover have "same_on (W \<union> {b, bf}) d d'" using same by (auto simp: same_on_def)
  ultimately show "bluestein_inv sg len n B W I chirp b a w bf d'"
    using conv_inv_local [of b a w bf d d'] same by (auto simp: bluestein_inv_def same_on_def)
qed

end

end
