(* ===== verification/FFT_ExecRader.thy ===== *)
theory FFT_ExecRader
  imports FFT_ExecConv
begin

text \<open>
  Rader's node: the index table permutes the nonzero indices by the powers of a primitive root, which turns
  the transform into a circular convolution; the constant term is the sum of the input.
\<close>

section \<open>Kernels\<close>

definition power_table :: "nat \<Rightarrow> int list \<Rightarrow> bool" where
  "power_table p idx \<longleftrightarrow> 1 < p \<and> length idx = p - 1 \<and> (\<forall>i < p - 1. 0 \<le> idx ! i) \<and>
     bij_betw (\<lambda>i. nat (idx ! i)) {..<p - 1} {1..<p} \<and>
     (\<forall>i < p - 1. \<forall>j < p - 1. nat (idx ! ((i + j) mod (p - 1))) = nat (idx ! i) * nat (idx ! j) mod p)"

lemma power_table_bounds:
  assumes "power_table p idx" and "i < p - 1"
  shows "0 < nat (idx ! i)" and "nat (idx ! i) < p" and "table_entry idx i"
  using assms by (auto simp: power_table_def table_entry_def dest!: bij_betw_apply [where a = i])

lemma inv_offset_less: "i < m \<Longrightarrow> inv_offset m i < m"
  by (simp add: inv_offset_def)

lemma runs_rader_prepare:
  assumes "fits d inp (c * n)" and "fits d out (c * m)" and "fst inp \<noteq> fst out" and tab: "power_table n idx" and m: "m = n - 1"
    and "\<And>t. K (d\<lparr>d_ticks := t\<rparr>)"
    and "\<And>d'. same_but out (c * m) d d' \<Longrightarrow> (\<And>j i. j < c \<Longrightarrow> i < m \<Longrightarrow>
        d_mem d' (cell out (j * m + i)) = d_mem d (cell inp (j * n + nat (idx ! inv_offset m i)))) \<Longrightarrow> Q () d'"
  shows "runs mc K (launch mc (rader_prepare_kernel inp idx out n m (ceil_div_nat m 256) c)) d Q"
proof -
  have bounds: "table_entry idx (inv_offset m i)" "j * n + nat (idx ! inv_offset m i) < c * n" if "i < m" "j < c" for i j
    using power_table_bounds [OF tab, of "inv_offset m i"] inv_offset_less [OF that(1)] that m by (auto intro: row_less)
  show ?thesis
    unfolding rader_prepare_kernel_def
    by (rule runs_pointwise [where \<pi> = "\<lambda>i. i" and L = m and lm = m and gy = c and out = out])
      (use assms in_bounds_cell [OF assms(1)] bounds in \<open>auto simp: grid_points_ceil simp del: grid_points_set\<close>)
qed

lemma runs_rader_finalize:
  assumes "fits d inp (c * n)" and "fits d conv (c * m)" and "fits d out (c * n)" and "fst inp \<noteq> fst out" and "fst conv \<noteq> fst out"
    and tab: "power_table n idx" and m: "m = n - 1" and "\<And>t. K (d\<lparr>d_ticks := t\<rparr>)"
    and post: "\<And>d'. same_but out (c * n) d d' \<Longrightarrow> (\<And>j i. j < c \<Longrightarrow> i < m \<Longrightarrow> d_mem d' (cell out (j * n + nat (idx ! i))) =
          d_mem d (cell inp (j * n)) + cnj (d_mem d (cell conv (j * m + i))) / of_nat m) \<Longrightarrow>
        (\<And>j. j < c \<Longrightarrow> d_mem d' (cell out (j * n)) = d_mem d (cell out (j * n))) \<Longrightarrow> Q () d'"
  shows "runs mc K (launch mc (rader_finalize_kernel inp conv idx out n m (ceil_div_nat m 256) c)) d Q"
  unfolding rader_finalize_kernel_def
proof (rule runs_pointwise [where \<pi> = "\<lambda>i. nat (idx ! i)" and L = n and lm = m and gy = c and out = out])
  have n: "1 < n" using tab by (simp add: power_table_def)
  show "inj_on (\<lambda>i. nat (idx ! i)) {..<m}" using tab m by (simp add: power_table_def bij_betw_def)
  show "nat (idx ! i) < n" if "i < m" for i using power_table_bounds [OF tab, of i] that m by simp
  show "table_entry idx i \<and> (a \<in> set [cell conv (j * m + i), cell inp (j * n)] \<longrightarrow> in_bounds d a \<and> fst a \<noteq> fst out)"
    if "j < c" "i < m" for j i a
    using that power_table_bounds(3) [OF tab, of i] m assms in_bounds_cell [OF assms(1), of "j * n"] in_bounds_cell [OF assms(2), of "j * m + i"]
      row_less [of j c i m] row_less [of j c 0 n] n by auto
  fix d' assume s: "same_but out (c * n) d d'" and at_idx: "\<And>j i. j < c \<Longrightarrow> i < m \<Longrightarrow> d_mem d' (cell out (j * n + nat (idx ! i))) =
      d_mem d (cell inp (j * n)) + cnj (d_mem d (cell conv (j * m + i))) / of_nat m"
    and other: "\<And>a. (\<And>b off. b < c \<Longrightarrow> off < m \<Longrightarrow> a \<noteq> cell out (b * n + nat (idx ! off))) \<Longrightarrow> d_mem d' a = d_mem d a"
  have "d_mem d' (cell out (j * n)) = d_mem d (cell out (j * n))" if "j < c" for j
  proof (rule other)
    fix b off assume "b < c" "off < m"
    then show "cell out (j * n) \<noteq> cell out (b * n + nat (idx ! off))"
      using power_table_bounds [OF tab, of off] row_inject [of 0 n "nat (idx ! off)" j b] m n by (auto simp: cell_def)
  qed
  then show "Q () d'" using at_idx by (intro post [OF s])
qed (use assms in \<open>auto simp: grid_points_ceil simp del: grid_points_set\<close>)

lemma runs_rader_pointwise:
  assumes fit: "fits d a (c * m)" "fits d bf m" "fits d inp (c * n)" "fits d out (c * m)" "fits d dc (c * n)"
    and bufs: "fst a \<noteq> fst out" "fst bf \<noteq> fst out" "fst inp \<noteq> fst out" "fst a \<noteq> fst dc" "fst bf \<noteq> fst dc" "fst inp \<noteq> fst dc" "fst out \<noteq> fst dc"
    and pos: "0 < n" "0 < m" and fail: "\<And>t. K (d\<lparr>d_ticks := t\<rparr>)"
    and post: "\<And>dm d'. same_but out (c * m) d dm \<Longrightarrow> same_but dc (c * n) dm d' \<Longrightarrow> (\<And>j i. j < c \<Longrightarrow> i < m \<Longrightarrow>
          d_mem d' (cell out (j * m + i)) = cnj (d_mem d (cell a (j * m + i)) * d_mem d (cell bf i))) \<Longrightarrow>
        (\<And>j. j < c \<Longrightarrow> d_mem d' (cell dc (j * n)) = d_mem d (cell a (j * m)) + d_mem d (cell inp (j * n))) \<Longrightarrow> Q () d'"
  shows "runs mc K (launch mc (rader_pointwise_kernel a bf out inp dc n m (ceil_div_nat m 256) c)) d Q"
proof -
  let ?loads = "\<lambda>x. case x of Inl (b, off) \<Rightarrow> [cell a (b * m + off), cell bf off] | Inr b \<Rightarrow> [cell a (b * m), cell inp (b * n)]"
  let ?dst = "\<lambda>x. case x of Inl (b, off) \<Rightarrow> cell out (b * m + off) | Inr b \<Rightarrow> cell dc (b * n)"
  let ?val = "\<lambda>mem x. case x of Inl (b, off) \<Rightarrow> cnj (mem (cell a (b * m + off)) * mem (cell bf off))
    | Inr b \<Rightarrow> mem (cell a (b * m)) + mem (cell inp (b * n))"
  let ?xs = "map Inl (grid_points (ceil_div_nat m 256) c m) @ map Inr [0..<c] :: (nat \<times> nat + nat) list"
  have grid: "0 < ceil_div_nat m 256" using ceil_div_covers [of 256 m] pos(2) by (cases "ceil_div_nat m 256") auto
  have mem_xs: "x \<in> set ?xs \<longleftrightarrow> (case x of Inl (b, off) \<Rightarrow> b < c \<and> off < m | Inr b \<Rightarrow> b < c)" for x
    using grid_points_ceil [of _ m c] by (cases x) (auto simp del: grid_points_set)
  show ?thesis
  proof (rule runs_launch [where ok = "\<lambda>_. True" and loads = ?loads and dsts = "\<lambda>x. [?dst x]" and xs = ?xs
        and stores = "\<lambda>mem x. [(?dst x, ?val mem x)]"])
    show "rader_pointwise_kernel a bf out inp dc n m (ceil_div_nat m 256) c mem =
        map (\<lambda>x. \<lparr>it_defined = True, it_loads = ?loads x, it_stores = [(?dst x, ?val mem x)]\<rparr>) ?xs" for mem
      using grid by (auto simp: rader_pointwise_kernel_def split: sum.splits)
    show "distinct ?xs" by (simp add: distinct_map inj_on_def) (auto)
    show "set [?dst x] \<inter> set [?dst y] = {}" if "x \<in> set ?xs" "y \<in> set ?xs" "x \<noteq> y" for x y
      using that bufs pos unfolding mem_xs by (cases x; cases y) (auto simp: cell_def row_inject)
    show "set (?loads x) \<inter> set [?dst y] = {}" for x y
      using bufs by (cases x; cases y) (auto simp: cell_def)
    show "True \<and> (z \<in> set (?loads x) \<union> set [?dst x] \<longrightarrow> in_bounds d z)" if "x \<in> set ?xs" for x z
      using that in_bounds_cell [OF fit(1)] in_bounds_cell [OF fit(2)] in_bounds_cell [OF fit(3)] in_bounds_cell [OF fit(4)]
        in_bounds_cell [OF fit(5)] row_less [of _ c _ m] row_less [of _ c 0 n] row_less [of _ c 0 m] pos
      unfolding mem_xs by (cases x) auto
    fix mem t
    assume st: "\<And>x z v. x \<in> set ?xs \<Longrightarrow> (z, v) \<in> set [(?dst x, ?val (d_mem d) x)] \<Longrightarrow> mem z = v"
      and other: "\<And>z. (\<And>x. x \<in> set ?xs \<Longrightarrow> z \<notin> set [?dst x]) \<Longrightarrow> mem z = d_mem d z"
    let ?dm = "d\<lparr>d_mem := (\<lambda>z. if z \<in> cells out (c * m) then mem z else d_mem d z)\<rparr>"
    show "Q () (d\<lparr>d_ticks := t, d_mem := mem\<rparr>)"
    proof (rule post)
      show "same_but out (c * m) d ?dm" by (simp add: same_but_def)
      have "mem z = d_mem d z" if "z \<notin> cells out (c * m)" "z \<notin> cells dc (c * n)" for z
      proof (rule other)
        fix x assume "x \<in> set ?xs"
        then show "z \<notin> set [?dst x]" using that row_less [of _ c _ m] row_less [of _ c 0 n] pos
          unfolding mem_xs by (cases x) auto
      qed
      then show "same_but dc (c * n) ?dm (d\<lparr>d_ticks := t, d_mem := mem\<rparr>)" by (simp add: same_but_def)
      fix j assume j: "j < c"
      show "d_mem (d\<lparr>d_ticks := t, d_mem := mem\<rparr>) (cell dc (j * n)) = d_mem d (cell a (j * m)) + d_mem d (cell inp (j * n))"
        using st [of "Inr j"] j unfolding mem_xs by simp
      fix i assume "i < m"
      then show "d_mem (d\<lparr>d_ticks := t, d_mem := mem\<rparr>) (cell out (j * m + i)) = cnj (d_mem d (cell a (j * m + i)) * d_mem d (cell bf i))"
        using st [of "Inl (j, i)"] j unfolding mem_xs by simp
    qed
  qed (use fail in auto)
qed

section \<open>The node\<close>

definition rader_samples :: "int \<Rightarrow> nat \<Rightarrow> int list \<Rightarrow> (nat \<Rightarrow> complex) \<Rightarrow> bool" where
  "rader_samples sg p idx x \<longleftrightarrow> (\<forall>i < p - 1. x i = unity sg (nat (idx ! i)) p)"

definition rader_inv ::
  "int \<Rightarrow> nat \<Rightarrow> nat \<Rightarrow> nat \<Rightarrow> nat set \<Rightarrow> (dev \<Rightarrow> bool) \<Rightarrow> int list \<Rightarrow> nat \<Rightarrow> nat \<Rightarrow> nat \<Rightarrow> nat \<Rightarrow> nat \<Rightarrow> dev \<Rightarrow> bool" where
  "rader_inv sg p m B V J idx b_time a_buf work_buf b_fft_buf input_copy d \<longleftrightarrow>
     conv_inv m B V J b_time a_buf work_buf b_fft_buf d \<and> m = p - 1 \<and> power_table p idx \<and>
     input_copy \<notin> V \<union> {b_time, a_buf, work_buf, b_fft_buf} \<and> d_size d input_copy = B * p \<and>
     rader_samples sg p idx (\<lambda>i. d_mem d (b_time, i))"

lemma rader_rows:
  assumes tab: "power_table p idx" and samples: "rader_samples sg p idx bt" and m: "m = p - 1" and q: "q < p"
    and A: "\<And>i. A i = x (nat (idx ! inv_offset m i))"
    and at_idx: "\<And>i. i < m \<Longrightarrow> y (nat (idx ! i)) = x 0 + circular m A bt i"
    and at_0: "y 0 = dft (- 1) m A 0 + x 0"
  shows "y q = dft sg p x q"
proof -
  have p: "p = Suc m" "0 < m" using tab m by (auto simp: power_table_def)
  note rader = rader_identity [of m p _ "\<lambda>i. nat (idx ! i)" A x bt sg, OF p(2,1)]
  have perm: "bij_betw (\<lambda>i. nat (idx ! i)) {..<m} {1..<p}" using tab m by (simp add: power_table_def)
  have mult: "nat (idx ! ((i + j) mod m)) = nat (idx ! i) * nat (idx ! j) mod p" if "i < m" "j < m" for i j
    using tab m that by (simp add: power_table_def)
  have bt: "bt r = unity sg (nat (idx ! r)) p" if "r < m" for r using samples m that by (simp add: rader_samples_def)
  show ?thesis
  proof (cases "q = 0")
    case True
    have "x 0 + (\<Sum>i<m. A i) = dft sg p x 0"
      by (rule rader(2) [OF p(2) perm mult _ bt]) (simp_all add: A inv_offset_def)
    then show ?thesis using True at_0 by (simp add: dft_def [of "- 1" m A 0] add.commute)
  next
    case False
    then have "q \<in> (\<lambda>i. nat (idx ! i)) ` {..<m}" using perm q by (auto simp: bij_betw_def)
    then obtain i where i: "i < m" "q = nat (idx ! i)" by auto
    have "x 0 + circular m A bt i = dft sg p x (nat (idx ! i))"
      by (rule rader(1) [OF i(1) perm mult _ bt]) (simp_all add: A inv_offset_def)
    then show ?thesis using at_idx [OF i(1)] i(2) by simp
  qed
qed

context dft_node
begin

lemma rader_body:
  fixes sg :: int
  assumes s: "s = - 1" and m: "n = p - 1" and tab: "power_table p idx"
    and U: "U = W \<union> {b, a, w, bf, cp}" and src: "fst src \<notin> W \<union> {b, a, w, bf}" "fst src \<noteq> fst out"
    and out: "fst out \<notin> U" and k: "k \<le> B"
  defines "S \<equiv> conv_state n B W I b a w bf (rader_samples sg p idx)"
  assumes S: "S d" and fit: "fits d src (k * p)" "fits d out (k * p)"
  shows "runs mc (\<lambda>d'. S d' \<and> kept U out (k * p) d d') (rader_convolution mc p n f idx a w bf src out k) d
    (node_result mc sg p U S src out k d)" (is "runs mc ?K _ d ?R")
proof -
  define bt where "bt = (\<lambda>i. d_mem d (b, i))"
  define x where "x j i = d_mem d (cell src (j * p + i))" for j i
  define A where "A j i = x j (nat (idx ! inv_offset n i))" for j i
  define T where "T d' \<longleftrightarrow> conv_state n B W I b a w bf (\<lambda>x. x = bt) d' \<and> kept U out (k * p) d d' \<and>
    (\<forall>i < k * p. d_mem d' (cell src i) = d_mem d (cell src i))" for d'
  have samples: "rader_samples sg p idx bt" and T: "T d" using S by (simp_all add: S_def conv_state_def bt_def T_def)
  have TK: "?K d'" if "T d'" for d' using that samples by (auto simp: T_def S_def conv_state_def)
  have ticks: "?K (d'\<lparr>d_ticks := t\<rparr>)" if "T d'" for d' t using TK [OF that] by (simp add: S_def)
  have inv: "conv_inv n B W I b a w bf d'" "kept U out (k * p) d d'" if "T d'" for d' using that by (simp_all add: T_def conv_state_def)
  have dist: "distinct [b, a, w, bf]" "{b, a, w, bf} \<inter> W = {}" and n: "0 < n" using inv(1) [OF T] by (simp_all add: conv_inv_def)
  have p: "0 < p" using tab by (simp add: power_table_def)
  have launched: "T d2" if "T d1" "same_but q l d1 d2" "q = (a, 0) \<or> q = out \<and> l = k * p" for d1 d2 q l
  proof -
    have "d_mem d2 (cell src i) = d_mem d1 (cell src i)" for i using that(3) src by (intro same_but_other [OF that(2)]) auto
    then show ?thesis
      using conv_state_launch [OF _ _ that(2), of b a w bf "\<lambda>x. x = bt" U out "k * p" d] that(1,3) dist out U by (auto simp: T_def)
  qed
  have called: "T d2" if "T d1" "I d2" "kept W (w, 0) (k * n) d1 d2" for d1 d2
  proof -
    have "d_mem d2 (cell src i) = d_mem d1 (cell src i)" for i using src by (intro kept_other [OF that(3)]) auto
    then show ?thesis
      using conv_state_call [OF _ _ that(2,3), of b a bf "\<lambda>x. x = bt" U out "k * p" d] that(1) U by (simp add: T_def subset_insertI2)
  qed
  have fits: "fits d' (a, 0) (k * n)" "fits d' (w, 0) (k * n)" "fits d' (bf, 0) n" "fits d' src (k * p)" "fits d' out (k * p)" if "T d'" for d'
    using inv [OF that] k fit kept_fits by (auto simp: conv_inv_def fits_def kept_size)
  have src_at: "d_mem d' (cell src (j * p)) = x j 0" if "T d'" "j < k" for d' j
    using that row_less [of j k 0 p] p by (simp add: T_def x_def)
  have trans: "runs mc ?K (unless_failed (f (a, 0) (w, 0) k) g) d1 ?R"
    if "T d1" and "\<And>d2. T d2 \<Longrightarrow> kept W (w, 0) (k * n) d1 d2 \<Longrightarrow> (\<And>j i. j < k \<Longrightarrow> i < n \<Longrightarrow> d_mem d2 (cell (w, 0) (j * n + i)) =
        dft (- 1) n (\<lambda>l. d_mem d1 (cell (a, 0) (j * n + l))) i) \<Longrightarrow> runs mc ?K g d2 ?R" for g d1
  proof (rule call)
    show "I d1" "args_ok d1 W n B (a, 0) (w, 0) k" using conv_args [of b a w bf _ d1 k] that(1) k by (auto simp: T_def)
  qed (use called [OF that(1)] that(2) TK s in \<open>auto simp: transformed_def node_result_def\<close>)
  have last: "runs mc ?K (xbind (launch mc (rader_finalize_kernel src (w, 0) idx out p n (ceil_div_nat n 256) k)) (\<lambda>_.
      xret FLAGFFT_SUCCESS)) d1 ?R"
    if T1: "T d1" and w1: "\<And>j i. j < k \<Longrightarrow> i < n \<Longrightarrow> d_mem d1 (cell (w, 0) (j * n + i)) =
        dft (- 1) n (\<lambda>i. cnj (dft (- 1) n (A j) i * dft (- 1) n bt i)) i"
      and dc: "\<And>j. j < k \<Longrightarrow> d_mem d1 (cell out (j * p)) = dft (- 1) n (A j) 0 + x j 0" for d1
  proof (rule runs_then, rule runs_rader_finalize [OF _ _ _ _ _ tab m])
    fix d2 assume s2: "same_but out (k * p) d1 d2" and o2: "\<And>j i. j < k \<Longrightarrow> i < n \<Longrightarrow> d_mem d2 (cell out (j * p + nat (idx ! i))) =
        d_mem d1 (cell src (j * p)) + cnj (d_mem d1 (cell (w, 0) (j * n + i))) / of_nat n"
      and keep: "\<And>j. j < k \<Longrightarrow> d_mem d2 (cell out (j * p)) = d_mem d1 (cell out (j * p))"
    have "d_mem d2 (cell out (j * p + q)) = dft sg p (\<lambda>i. d_mem d (cell src (j * p + i))) q" if "j < k" "q < p" for j q
    proof (rule rader_rows [OF tab samples m that(2), of "A j" "\<lambda>i. d_mem d (cell src (j * p + i))" "\<lambda>q. d_mem d2 (cell out (j * p + q))"])
      show "A j i = d_mem d (cell src (j * p + nat (idx ! inv_offset n i)))" for i by (simp add: A_def x_def)
      show "d_mem d2 (cell out (j * p + 0)) = dft (- 1) n (A j) 0 + d_mem d (cell src (j * p + 0))"
        using keep [OF that(1)] dc [OF that(1)] by (simp add: x_def)
      fix i assume i: "i < n"
      have "cnj (d_mem d1 (cell (w, 0) (j * n + i))) / of_nat n = circular n (A j) bt i"
        unfolding w1 [OF that(1) i] by (rule convolved [OF i])
      then show "d_mem d2 (cell out (j * p + nat (idx ! i))) = d_mem d (cell src (j * p + 0)) + circular n (A j) bt i"
        unfolding o2 [OF that(1) i] by (simp add: src_at [OF T1 that(1)] x_def)
    qed
    then show "runs mc ?K (xret FLAGFFT_SUCCESS) d2 ?R"
      using TK [OF launched [OF T1 s2]] by (auto simp: node_result_def transformed_def)
  qed (use fits [OF T1] src out U ticks [OF T1] in auto)
  have mult: "runs mc ?K (xbind (launch mc (rader_pointwise_kernel (w, 0) (bf, 0) (a, 0) src out p n (ceil_div_nat n 256) k)) (\<lambda>_. g)) d1 ?R"
    if T1: "T d1" and w1: "\<And>j i. j < k \<Longrightarrow> i < n \<Longrightarrow> d_mem d1 (cell (w, 0) (j * n + i)) = dft (- 1) n (A j) i"
      and g: "\<And>d2. T d2 \<Longrightarrow> (\<And>j i. j < k \<Longrightarrow> i < n \<Longrightarrow> d_mem d2 (cell (a, 0) (j * n + i)) =
        cnj (dft (- 1) n (A j) i * dft (- 1) n bt i)) \<Longrightarrow> (\<And>j. j < k \<Longrightarrow> d_mem d2 (cell out (j * p)) = dft (- 1) n (A j) 0 + x j 0) \<Longrightarrow>
        runs mc ?K g d2 ?R" for g d1
  proof (rule runs_then, rule runs_rader_pointwise)
    fix dm d2 assume sm: "same_but (a, 0) (k * n) d1 dm" and s2: "same_but out (k * p) dm d2"
      and o2: "\<And>j i. j < k \<Longrightarrow> i < n \<Longrightarrow> d_mem d2 (cell (a, 0) (j * n + i)) =
        cnj (d_mem d1 (cell (w, 0) (j * n + i)) * d_mem d1 (cell (bf, 0) i))"
      and dc: "\<And>j. j < k \<Longrightarrow> d_mem d2 (cell out (j * p)) = d_mem d1 (cell (w, 0) (j * n)) + d_mem d1 (cell src (j * p))"
    have "d_mem d1 (cell (bf, 0) i) = dft (- 1) n bt i" if "i < n" for i
      using T1 that by (auto simp: T_def conv_state_def conv_inv_def cell_def)
    moreover have "T d2" using launched [OF launched [OF T1 sm] s2] by simp
    ultimately show "runs mc ?K g d2 ?R" using o2 w1 w1 [of _ 0] dc src_at [OF T1] n by (intro g) auto
  qed (use fits [OF T1] dist src out U n p ticks [OF T1] in auto)
  show ?thesis
    unfolding rader_convolution_def
  proof (rule runs_then, rule runs_rader_prepare [OF _ _ _ tab m])
    fix d1 assume s1: "same_but (a, 0) (k * n) d d1" and o1: "\<And>j i. j < k \<Longrightarrow> i < n \<Longrightarrow>
      d_mem d1 (cell (a, 0) (j * n + i)) = d_mem d (cell src (j * p + nat (idx ! inv_offset n i)))"
    have rows: "dft (- 1) n (\<lambda>i. d_mem d1 (cell (a, 0) (j * n + i))) = dft (- 1) n (A j)" if "j < k" for j
      using that o1 by (intro dft_cong) (simp add: A_def x_def)
    have rows': "dft (- 1) n (\<lambda>i. d_mem d2 (cell (a, 0) (j * n + i))) = dft (- 1) n (\<lambda>i. cnj (dft (- 1) n (A j) i * dft (- 1) n bt i))"
      if "j < k" "\<And>j i. j < k \<Longrightarrow> i < n \<Longrightarrow> d_mem d2 (cell (a, 0) (j * n + i)) = cnj (dft (- 1) n (A j) i * dft (- 1) n bt i)" for d2 j
      using that by (intro dft_cong) simp
    have dc: "d_mem d3 (cell out (j * p)) = d_mem d2 (cell out (j * p))" if "kept W (w, 0) (k * n) d2 d3" for d2 d3 j
      using out U by (intro kept_other [OF that]) auto
    show "runs mc ?K (unless_failed (f (a, 0) (w, 0) k) (
     xbind (launch mc (rader_pointwise_kernel (w, 0) (bf, 0) (a, 0) src out p n (ceil_div_nat n 256) k)) (\<lambda>_.
     unless_failed (f (a, 0) (w, 0) k) (
     xbind (launch mc (rader_finalize_kernel src (w, 0) idx out p n (ceil_div_nat n 256) k)) (\<lambda>_.
     xret FLAGFFT_SUCCESS))))) d1 ?R"
      using launched [OF T s1] by (intro trans mult last) (auto simp: rows rows' dc)
  qed (use fits [OF T] src ticks [OF T] in auto)
qed

lemma rader_node:
  assumes s: "s = - 1"
  shows "dft_node mc sg p B (W \<union> {b, a, w, bf, cp}) (rader_inv sg p n B W I idx b a w bf cp)
    (guarded (execute_rader mc p n f idx b a w bf cp))"
proof
  let ?U = "W \<union> {b, a, w, bf, cp}" and ?J = "rader_inv sg p n B W I idx b a w bf cp"
  fix d inp out k assume J: "?J d" and args: "args_ok d ?U p B inp out k"
  define S where "S = conv_state n B W I b a w bf (rader_samples sg p idx)"
  have conv: "conv_inv n B W I b a w bf d" and m: "n = p - 1" and tab: "power_table p idx"
    and cp: "cp \<notin> W \<union> {b, a, w, bf}" "d_size d cp = B * p"
    and samples: "rader_samples sg p idx (\<lambda>i. d_mem d (b, i))" using J unfolding rader_inv_def by blast+
  have SJ: "?J d'" if "S d'" "kept ?U out (k * p) d d'" for d'
    using that m tab cp by (auto simp: S_def conv_state_def rader_inv_def kept_size)
  let ?K = "\<lambda>d'. ?J d' \<and> kept ?U out (k * p) d d'"
  have "runs mc ?K (execute_rader mc p n f idx b a w bf cp inp out k) d (node_result mc sg p ?U ?J inp out k d)"
    unfolding execute_rader_def
  proof (rule runs_then, rule runs_ensure_state [where P = "rader_samples sg p idx", OF s conv samples, of ?U out "k * p"])
    fix d1 assume "conv_state n B W I b a w bf (rader_samples sg p idx) d1" and kept1: "kept ?U out (k * p) d d1"
      and same: "\<And>x. fst x \<notin> ?U \<Longrightarrow> d_mem d1 x = d_mem d x"
    then have S1: "S d1" by (simp add: S_def)
    have args1: "args_ok d1 ?U p B inp out k" using args kept_fits [OF kept1] by (simp add: args_ok_def)
    have size1: "d_size d1 cp = B * p" using cp kept_size [OF kept1] by simp
    have cpU: "cp \<in> ?U" by simp
    show "runs mc ?K (xbind (effective_input mc inp out cp) (\<lambda>src. rader_convolution mc p n f idx a w bf src out k)) d1
        (node_result mc sg p ?U ?J inp out k d)"
    proof (rule runs_bind, rule runs_effective_input [OF args1 size1 cpU])
      have "conv_state n B W I b a w bf (rader_samples sg p idx) (d1\<lparr>d_ticks := t\<rparr>)" for t using S1 by (simp add: S_def)
      then show "?K d1" using SJ S1 kept1 by blast
      show "?K (d'\<lparr>d_ticks := t\<rparr>)" if "?K d'" for d' t
      proof -
        have "conv_inv n B W I b a w bf d'" using that unfolding rader_inv_def by blast
        then have "conv_inv n B W I b a w bf (d'\<lparr>d_ticks := t\<rparr>)" by (rule conv_inv_local) simp
        with that show ?thesis by (auto simp: rader_inv_def)
      qed
    next
      fix src d2 assume s2: "same_but (cp, 0) (B * p) d1 d2" and src: "fits d2 src (k * p)" "fst src \<noteq> fst out" "fst src \<in> {fst inp, cp}"
        and eq: "\<And>i. i < k * p \<Longrightarrow> d_mem d2 (cell src i) = d_mem d1 (cell inp i)"
      have S2: "S d2 \<and> kept ?U out (k * p) d d2"
        unfolding S_def using S1 kept1 cp by (intro conv_state_launch [OF _ _ s2]) (auto simp: S_def)
      have src': "fst src \<notin> W \<union> {b, a, w, bf}" and out: "fst out \<notin> ?U" and "k \<le> B" "fits d2 out (k * p)"
        using src(3) args cp same_but_fits [OF s2] kept_fits [OF kept1] by (auto simp: args_ok_def)
      then have "runs mc (\<lambda>d'. S d' \<and> kept ?U out (k * p) d2 d') (rader_convolution mc p n f idx a w bf src out k) d2
          (node_result mc sg p ?U S src out k d2)"
        unfolding S_def using S2 src by (intro rader_body [OF s m tab refl]) (auto simp: S_def)
      then show "runs mc ?K (rader_convolution mc p n f idx a w bf src out k) d2 (node_result mc sg p ?U ?J inp out k d)"
      proof (rule runs_post)
        have "d_mem d2 (cell src (j * p + i)) = d_mem d (cell inp (j * p + i))" if "j < k" "i < p" for j i
          using eq [OF row_less [OF that]] same [of "cell inp (j * p + i)"] args by (auto simp: args_ok_def)
        then have rows: "dft sg p (\<lambda>i. d_mem d2 (cell src (j * p + i))) = dft sg p (\<lambda>i. d_mem d (cell inp (j * p + i)))" if "j < k" for j
          using that by (intro dft_cong) simp
        show "node_result mc sg p ?U ?J inp out k d r d'" if "node_result mc sg p ?U S src out k d2 r d'" for r d'
          using that SJ S2 kept_trans [of ?U out "k * p" d d2 d'] by (auto simp: node_result_def transformed_def rows)
      qed (use SJ S2 kept_trans [of ?U out "k * p" d d2] in auto)
    qed
  next
    show "?K d'" if "conv_inv n B W I b a w bf d'" "rader_samples sg p idx (\<lambda>i. d_mem d' (b, i))" "kept ?U out (k * p) d d'" for d'
      using that J by (simp add: rader_inv_def kept_size)
  qed auto
  then show "runs mc (\<lambda>_. False) (guarded (execute_rader mc p n f idx b a w bf cp) inp out k) d
      (node_result mc sg p ?U ?J inp out k d)" by (rule runs_guarded)
next
  fix d d' assume "rader_inv sg p n B W I idx b a w bf cp d" and same: "same_on (W \<union> {b, a, w, bf, cp}) d d'"
  moreover have "same_on (W \<union> {b, bf}) d d'" using same by (auto simp: same_on_def)
  ultimately show "rader_inv sg p n B W I idx b a w bf cp d'"
    using conv_inv_local [of b a w bf d d'] same by (auto simp: rader_inv_def same_on_def)
qed

end

end
