(* ===== verification/FFT_ExecFused.thy ===== *)
theory FFT_ExecFused
  imports FFT_Exec
begin

text \<open>
  The nodes whose kernels fold the work around a transform into its loads and stores: the fused four-step
  split (\<open>CompiledRawFourStepFusedNode\<close>) and the fused Bluestein nodes (\<open>CompiledRawBluesteinLeafNode\<close>,
  \<open>CompiledRawBluesteinFullLeafNode\<close>, \<open>CompiledRawBluesteinFourStepNode\<close>), for complex transforms. Their kernels
  are the input and output modes of the leaf generator, \<open>src/python/flagfft_codegen/kernels_leaf.py\<close>.

  \<open>fused_twiddle\<close> is \<open>tle_fused_twiddle\<close> of the row kernel's metadata, the packs are the kernels' \<open>inner_pack\<close>
  and \<open>batch_per_block\<close>. The generator decides by the split whether twiddles are fused, so the kernels of a node agree on it.
\<close>

section \<open>Kernels\<close>

text \<open>A kernel whose work items each store a row of values, where a mask admits them.\<close>

definition rows_kernel ::
  "(nat \<times> nat) list \<Rightarrow> (nat \<Rightarrow> nat \<Rightarrow> bool) \<Rightarrow> (nat \<Rightarrow> nat \<Rightarrow> addr list) \<Rightarrow> nat \<Rightarrow> (nat \<Rightarrow> nat \<Rightarrow> bool) \<Rightarrow>
   (nat \<Rightarrow> nat \<Rightarrow> nat \<Rightarrow> addr) \<Rightarrow> ((addr \<Rightarrow> complex) \<Rightarrow> nat \<Rightarrow> nat \<Rightarrow> nat \<Rightarrow> complex) \<Rightarrow> kernel" where
  "rows_kernel points ok loads len keep dst val mem =
     map (\<lambda>x. \<lparr>it_defined = ok (fst x) (snd x), it_loads = loads (fst x) (snd x),
               it_stores = map (\<lambda>k. (dst (fst x) (snd x) k, val mem (fst x) (snd x) k)) (filter (keep (snd x)) [0..<len])\<rparr>) points"

text \<open>
  The programs of a four-step kernel, \<open>four_step_inner = program_id(0) * inner_pack + inner_slot\<close>, and of a
  leaf kernel with \<open>batch_per_block\<close> rows per program.
\<close>

definition inner_points :: "nat \<Rightarrow> nat \<Rightarrow> nat \<Rightarrow> nat \<Rightarrow> (nat \<times> nat) list" where
  "inner_points inner_pack grid_x grid_y cnt =
     concat (map (\<lambda>b. map (Pair b) (filter (\<lambda>g. g < cnt) (block_offsets inner_pack grid_x))) [0..<grid_y])"

definition batch_points :: "nat \<Rightarrow> nat \<Rightarrow> nat \<Rightarrow> (nat \<times> nat) list" where
  "batch_points batch_per_block grid_x nbatch =
     map (\<lambda>b. (b, 0)) (filter (\<lambda>b. b < nbatch) (block_offsets batch_per_block grid_x))"

definition dtype_is_double :: "fft_request \<Rightarrow> bool" where
  "dtype_is_double r \<longleftrightarrow> req_input_dtype r = ''complex128'' \<or> req_input_dtype r = ''float64''"

text \<open>
  The twiddle of a fused row kernel: from the table for double precision, from \<open>sin\<close> and \<open>cos\<close> of the angle
  for single precision.
\<close>

definition outer_twiddle :: "machine \<Rightarrow> int \<Rightarrow> nat \<Rightarrow> nat \<Rightarrow> complex list \<Rightarrow> nat \<Rightarrow> nat \<Rightarrow> complex" where
  "outer_twiddle mc s n1 n2 twiddle g k =
     (if dtype_is_double (mc_request mc) then twiddle ! (g * n1 + k)
      else cis (of_int s * 2 * pi * of_nat (g * k) / of_nat (n1 * n2)))"

definition row_pass ::
  "machine \<Rightarrow> int \<Rightarrow> nat \<Rightarrow> nat \<Rightarrow> bool \<Rightarrow> nat \<Rightarrow> complex list \<Rightarrow> (nat \<Rightarrow> nat \<Rightarrow> bool) \<Rightarrow> (nat \<Rightarrow> nat \<Rightarrow> addr list) \<Rightarrow>
   ((addr \<Rightarrow> complex) \<Rightarrow> nat \<Rightarrow> nat \<Rightarrow> complex) \<Rightarrow> ptr \<Rightarrow> nat \<Rightarrow> nat \<Rightarrow> kernel" where
  "row_pass mc s n1 n2 fused_twiddle inner_pack twiddle ok loads src out grid_x grid_y =
     rows_kernel (inner_points inner_pack grid_x grid_y n2)
       (\<lambda>b g. (\<forall>j < n1. ok b (j * n2 + g)) \<and>
          (fused_twiddle \<and> dtype_is_double (mc_request mc) \<longrightarrow> (\<forall>k < n1. g * n1 + k < length twiddle)))
       (\<lambda>b g. concat (map (\<lambda>j. loads b (j * n2 + g)) [0..<n1]))
       n1 (\<lambda>g k. True)
       (\<lambda>b g k. cell out (b * (n1 * n2) + (g * n1 + k)))
       (\<lambda>mem b g k. mc_leaf mc s n1 (map (\<lambda>j. src mem b (j * n2 + g)) [0..<n1]) ! k *
          (if fused_twiddle then outer_twiddle mc s n1 n2 twiddle g k else 1))"

definition col_pass ::
  "machine \<Rightarrow> int \<Rightarrow> nat \<Rightarrow> nat \<Rightarrow> bool \<Rightarrow> nat \<Rightarrow> complex list \<Rightarrow> ptr \<Rightarrow> nat \<Rightarrow> (nat \<Rightarrow> bool) \<Rightarrow> (nat \<Rightarrow> complex \<Rightarrow> complex) \<Rightarrow>
   ptr \<Rightarrow> nat \<Rightarrow> nat \<Rightarrow> kernel" where
  "col_pass mc s n1 n2 fused_twiddle inner_pack twiddle inp len ok fin out grid_x grid_y =
     rows_kernel (inner_points inner_pack grid_x grid_y n1)
       (\<lambda>b g. (\<forall>j < n2. fused_twiddle \<or> j * n1 + g < length twiddle) \<and> (\<forall>k < n2. k * n1 + g < len \<longrightarrow> ok (k * n1 + g)))
       (\<lambda>b g. map (\<lambda>j. cell inp (b * (n1 * n2) + (j * n1 + g))) [0..<n2])
       n2 (\<lambda>g k. k * n1 + g < len)
       (\<lambda>b g k. cell out (b * len + (k * n1 + g)))
       (\<lambda>mem b g k. fin (k * n1 + g) (mc_leaf mc s n2 (map (\<lambda>j. mem (cell inp (b * (n1 * n2) + (j * n1 + g))) *
          (if fused_twiddle then 1 else twiddle ! (j * n1 + g))) [0..<n2]) ! k))"

subsection \<open>Four-step\<close>

definition four_step_row_kernel ::
  "machine \<Rightarrow> int \<Rightarrow> nat \<Rightarrow> nat \<Rightarrow> bool \<Rightarrow> nat \<Rightarrow> complex list \<Rightarrow> ptr \<Rightarrow> ptr \<Rightarrow> nat \<Rightarrow> nat \<Rightarrow> kernel" where
  "four_step_row_kernel mc s n1 n2 fused_twiddle inner_pack twiddle inp out =
     row_pass mc s n1 n2 fused_twiddle inner_pack twiddle (\<lambda>b i. True) (\<lambda>b i. [cell inp (b * (n1 * n2) + i)])
       (\<lambda>mem b i. mem (cell inp (b * (n1 * n2) + i))) out"

definition four_step_col_kernel ::
  "machine \<Rightarrow> int \<Rightarrow> nat \<Rightarrow> nat \<Rightarrow> bool \<Rightarrow> nat \<Rightarrow> complex list \<Rightarrow> ptr \<Rightarrow> ptr \<Rightarrow> nat \<Rightarrow> nat \<Rightarrow> kernel" where
  "four_step_col_kernel mc s n1 n2 fused_twiddle inner_pack twiddle inp out =
     col_pass mc s n1 n2 fused_twiddle inner_pack twiddle inp (n1 * n2) (\<lambda>i. True) (\<lambda>i y. y) out"

subsection \<open>Bluestein\<close>

definition bluestein_four_step_prepare_row_kernel ::
  "machine \<Rightarrow> nat \<Rightarrow> nat \<Rightarrow> nat \<Rightarrow> bool \<Rightarrow> nat \<Rightarrow> complex list \<Rightarrow> ptr \<Rightarrow> complex list \<Rightarrow> ptr \<Rightarrow> nat \<Rightarrow> nat \<Rightarrow> kernel" where
  "bluestein_four_step_prepare_row_kernel mc n n1 n2 fused_twiddle inner_pack twiddle inp chirp out =
     row_pass mc (- 1) n1 n2 fused_twiddle inner_pack twiddle (\<lambda>b i. i < n \<longrightarrow> i < length chirp)
       (\<lambda>b i. if i < n then [cell inp (b * n + i)] else [])
       (\<lambda>mem b i. if i < n then mem (cell inp (b * n + i)) * chirp ! i else 0) out"

definition bluestein_four_step_pointwise_row_kernel ::
  "machine \<Rightarrow> nat \<Rightarrow> nat \<Rightarrow> bool \<Rightarrow> nat \<Rightarrow> complex list \<Rightarrow> ptr \<Rightarrow> ptr \<Rightarrow> ptr \<Rightarrow> nat \<Rightarrow> nat \<Rightarrow> kernel" where
  "bluestein_four_step_pointwise_row_kernel mc n1 n2 fused_twiddle inner_pack twiddle inp b_fft out =
     row_pass mc (- 1) n1 n2 fused_twiddle inner_pack twiddle (\<lambda>b i. True)
       (\<lambda>b i. [cell inp (b * (n1 * n2) + i), cell b_fft i])
       (\<lambda>mem b i. cnj (mem (cell inp (b * (n1 * n2) + i)) * mem (cell b_fft i))) out"

definition bluestein_four_step_finish_col_kernel ::
  "machine \<Rightarrow> nat \<Rightarrow> nat \<Rightarrow> nat \<Rightarrow> bool \<Rightarrow> nat \<Rightarrow> complex list \<Rightarrow> ptr \<Rightarrow> complex list \<Rightarrow> ptr \<Rightarrow> nat \<Rightarrow> nat \<Rightarrow> kernel" where
  "bluestein_four_step_finish_col_kernel mc n n1 n2 fused_twiddle inner_pack twiddle inp chirp out =
     col_pass mc (- 1) n1 n2 fused_twiddle inner_pack twiddle inp n (\<lambda>i. i < length chirp)
       (\<lambda>i y. cnj y / of_nat (n1 * n2) * chirp ! i) out"

text \<open>One row of a convolution that is a single leaf, in two kernels or in one.\<close>

definition chirped :: "nat \<Rightarrow> complex list \<Rightarrow> ptr \<Rightarrow> (addr \<Rightarrow> complex) \<Rightarrow> nat \<Rightarrow> nat \<Rightarrow> complex" where
  "chirped n chirp inp mem b i = (if i < n then mem (cell inp (b * n + i)) * chirp ! i else 0)"

definition chirp_loads :: "nat \<Rightarrow> nat \<Rightarrow> ptr \<Rightarrow> nat \<Rightarrow> addr list" where
  "chirp_loads n m inp b = map (\<lambda>i. cell inp (b * n + i)) (filter (\<lambda>i. i < n) [0..<m])"

definition chirp_defined :: "nat \<Rightarrow> nat \<Rightarrow> complex list \<Rightarrow> bool" where
  "chirp_defined n m chirp \<longleftrightarrow> (\<forall>i < m. i < n \<longrightarrow> i < length chirp)"

definition bluestein_prepare_leaf_kernel ::
  "machine \<Rightarrow> nat \<Rightarrow> nat \<Rightarrow> nat \<Rightarrow> ptr \<Rightarrow> complex list \<Rightarrow> ptr \<Rightarrow> nat \<Rightarrow> nat \<Rightarrow> kernel" where
  "bluestein_prepare_leaf_kernel mc n m batch_per_block inp chirp out grid_x nbatch =
     rows_kernel (batch_points batch_per_block grid_x nbatch)
       (\<lambda>b _. chirp_defined n m chirp) (\<lambda>b _. chirp_loads n m inp b)
       m (\<lambda>_ k. True) (\<lambda>b _ k. cell out (b * m + k))
       (\<lambda>mem b _ k. mc_leaf mc (- 1) m (map (chirped n chirp inp mem b) [0..<m]) ! k)"

definition bluestein_finish_leaf_kernel ::
  "machine \<Rightarrow> nat \<Rightarrow> nat \<Rightarrow> nat \<Rightarrow> ptr \<Rightarrow> ptr \<Rightarrow> complex list \<Rightarrow> ptr \<Rightarrow> nat \<Rightarrow> nat \<Rightarrow> kernel" where
  "bluestein_finish_leaf_kernel mc n m batch_per_block inp b_fft chirp out grid_x nbatch =
     rows_kernel (batch_points batch_per_block grid_x nbatch)
       (\<lambda>b _. chirp_defined n m chirp)
       (\<lambda>b _. map (\<lambda>i. cell inp (b * m + i)) [0..<m] @ map (cell b_fft) [0..<m])
       m (\<lambda>_ k. k < n) (\<lambda>b _ k. cell out (b * n + k))
       (\<lambda>mem b _ k. cnj (mc_leaf mc (- 1) m (map (\<lambda>i. cnj (mem (cell inp (b * m + i)) * mem (cell b_fft i))) [0..<m]) ! k) /
          of_nat m * chirp ! k)"

definition bluestein_full_leaf_kernel ::
  "machine \<Rightarrow> nat \<Rightarrow> nat \<Rightarrow> nat \<Rightarrow> ptr \<Rightarrow> ptr \<Rightarrow> complex list \<Rightarrow> ptr \<Rightarrow> nat \<Rightarrow> nat \<Rightarrow> kernel" where
  "bluestein_full_leaf_kernel mc n m batch_per_block inp b_fft chirp out grid_x nbatch =
     rows_kernel (batch_points batch_per_block grid_x nbatch)
       (\<lambda>b _. chirp_defined n m chirp)
       (\<lambda>b _. chirp_loads n m inp b @ map (cell b_fft) [0..<m])
       m (\<lambda>_ k. k < n) (\<lambda>b _ k. cell out (b * n + k))
       (\<lambda>mem b _ k. let first_pass = mc_leaf mc (- 1) m (map (chirped n chirp inp mem b) [0..<m])
          in cnj (mc_leaf mc (- 1) m (map (\<lambda>i. cnj (first_pass ! i * mem (cell b_fft i))) [0..<m]) ! k) / of_nat m * chirp ! k)"

section \<open>Execution\<close>

definition four_step_fused_chunk :: "machine \<Rightarrow> nat \<Rightarrow> nat \<Rightarrow> nat \<Rightarrow> nat \<Rightarrow> nat \<Rightarrow> exn + nat" where
  "four_step_fused_chunk mc n1 n2 row_pack col_pack batch =
     (if req_device_type (mc_request mc) = ''npu'' then
        (let grid_x = max (ceil_div_nat n2 row_pack) (ceil_div_nat n1 col_pack); max_blocks = mc_max_launch_blocks mc
         in if grid_x = 0 \<or> max_blocks = 0 then Inl (StdException ''invalid NPU FourStep launch grid'')
            else Inr (max 1 (max_blocks div grid_x)))
      else Inr batch)"

definition execute_four_step_fused ::
  "machine \<Rightarrow> nat \<Rightarrow> nat \<Rightarrow> int \<Rightarrow> bool \<Rightarrow> nat \<Rightarrow> nat \<Rightarrow> complex list \<Rightarrow> nat \<Rightarrow> runner" where
  "execute_four_step_fused mc n1 n2 s fused_twiddle row_pack col_pack twiddle stage1 inp out batch =
     (case four_step_fused_chunk mc n1 n2 row_pack col_pack batch of Inl e \<Rightarrow> xraise e
      | Inr batch_chunk \<Rightarrow> for_chunks batch_chunk batch 0 (\<lambda>off chunk.
          let whole = n1 * n2; stage1_chunk = (stage1, off * whole)
          in xbind (launch mc (four_step_row_kernel mc s n1 n2 fused_twiddle row_pack twiddle (advance inp (off * whole)) stage1_chunk
                 (ceil_div_nat n2 row_pack) chunk)) (\<lambda>_.
             xbind (launch mc (four_step_col_kernel mc s n1 n2 fused_twiddle col_pack twiddle stage1_chunk (advance out (off * whole))
                 (ceil_div_nat n1 col_pack) chunk)) (\<lambda>_.
             xret FLAGFFT_SUCCESS))))"

definition execute_bluestein_leaf ::
  "machine \<Rightarrow> nat \<Rightarrow> nat \<Rightarrow> runner \<Rightarrow> nat \<Rightarrow> nat \<Rightarrow> complex list \<Rightarrow> nat \<Rightarrow> nat \<Rightarrow> nat \<Rightarrow> runner" where
  "execute_bluestein_leaf mc n m fft prepare_pack finish_pack chirp b_time work_buf b_fft_buf inp out batch =
     xbind (ensure_b_fft ''failed to precompute fused Bluestein convolution FFT'' fft b_time b_fft_buf) (\<lambda>_.
     xbind (launch mc (bluestein_prepare_leaf_kernel mc n m prepare_pack inp chirp (work_buf, 0) (ceil_div_nat batch prepare_pack) batch)) (\<lambda>_.
     xbind (launch mc (bluestein_finish_leaf_kernel mc n m finish_pack (work_buf, 0) (b_fft_buf, 0) chirp out (ceil_div_nat batch finish_pack) batch)) (\<lambda>_.
     xret FLAGFFT_SUCCESS)))"

definition execute_bluestein_full_leaf ::
  "machine \<Rightarrow> nat \<Rightarrow> nat \<Rightarrow> runner \<Rightarrow> nat \<Rightarrow> complex list \<Rightarrow> nat \<Rightarrow> nat \<Rightarrow> runner" where
  "execute_bluestein_full_leaf mc n m fft batch_per_block chirp b_time b_fft_buf inp out batch =
     xbind (ensure_b_fft ''failed to precompute fully fused Bluestein convolution FFT'' fft b_time b_fft_buf) (\<lambda>_.
     xbind (launch mc (bluestein_full_leaf_kernel mc n m batch_per_block inp (b_fft_buf, 0) chirp out (ceil_div_nat batch batch_per_block) batch)) (\<lambda>_.
     xret FLAGFFT_SUCCESS))"

definition execute_bluestein_four_step ::
  "machine \<Rightarrow> nat \<Rightarrow> nat \<Rightarrow> nat \<Rightarrow> runner \<Rightarrow> bool \<Rightarrow> nat \<Rightarrow> nat \<Rightarrow> nat \<Rightarrow> nat \<Rightarrow> complex list \<Rightarrow> complex list \<Rightarrow> nat \<Rightarrow> nat \<Rightarrow> nat \<Rightarrow> nat \<Rightarrow> runner" where
  "execute_bluestein_four_step mc n n1 n2 fft fused_twiddle prepare_pack col_pack pointwise_pack finish_pack twiddle chirp b_time stage1 work_buf b_fft_buf inp out batch =
     xbind (ensure_b_fft ''failed to precompute four-step Bluestein convolution FFT'' fft b_time b_fft_buf) (\<lambda>_.
     xbind (launch mc (bluestein_four_step_prepare_row_kernel mc n n1 n2 fused_twiddle prepare_pack twiddle inp chirp (stage1, 0)
         (ceil_div_nat n2 prepare_pack) batch)) (\<lambda>_.
     xbind (launch mc (four_step_col_kernel mc (- 1) n1 n2 fused_twiddle col_pack twiddle (stage1, 0) (work_buf, 0)
         (ceil_div_nat n1 col_pack) batch)) (\<lambda>_.
     xbind (launch mc (bluestein_four_step_pointwise_row_kernel mc n1 n2 fused_twiddle pointwise_pack twiddle (work_buf, 0) (b_fft_buf, 0) (stage1, 0)
         (ceil_div_nat n2 pointwise_pack) batch)) (\<lambda>_.
     xbind (launch mc (bluestein_four_step_finish_col_kernel mc n n1 n2 fused_twiddle finish_pack twiddle (stage1, 0) chirp out
         (ceil_div_nat n1 finish_pack) batch)) (\<lambda>_.
     xret FLAGFFT_SUCCESS)))))"

end
