(* ===== verification/FFT_ExecSplit.thy ===== *)
theory FFT_ExecSplit
  imports FFT_ExecNodes
begin

text \<open>The generic four-step node: transposition, row transforms, twiddles, column transforms, transposition.\<close>

section \<open>Transpositions\<close>

lemma transpose_index:
  assumes "off < R * C"
  shows "off mod C * R + off div C < R * (C :: nat)"
proof -
  have "0 < C" using assms by (cases C) auto
  have "off div C < R" using assms by (simp add: less_mult_imp_div_less)
  then show ?thesis using row_less [of "off mod C" C "off div C" R] \<open>0 < C\<close> by (simp add: mult.commute)
qed

lemma transpose_inj: "inj_on (\<lambda>off. off mod C * R + off div C) {..<R * (C :: nat)}"
proof (rule inj_onI)
  fix x y assume "x \<in> {..<R * C}" "y \<in> {..<R * C}" and eq: "x mod C * R + x div C = y mod C * R + y div C"
  then have "x div C < R" "y div C < R" by (simp_all add: less_mult_imp_div_less)
  then have "x mod C = y mod C" "x div C = y div C" using eq by (simp_all add: row_inject)
  then show "x = y" by (metis div_mult_mod_eq)
qed

lemma runs_reshape_pack:
  assumes "fits d inp (c * (R * C))" and "fits d out (c * (R * C))" and "fst inp \<noteq> fst out" and K: "\<And>t. K (d\<lparr>d_ticks := t\<rparr>)"
    and post: "\<And>d'. same_but out (c * (R * C)) d d' \<Longrightarrow> (\<And>j r q. j < c \<Longrightarrow> r < R \<Longrightarrow> q < C \<Longrightarrow>
        d_mem d' (cell out (j * (R * C) + (q * R + r))) = d_mem d (cell inp (j * (R * C) + (r * C + q)))) \<Longrightarrow> Q () d'"
  shows "runs mc K (launch mc (reshape_pack_kernel R C inp out (ceil_div_nat (R * C) 256) c)) d Q"
  unfolding reshape_pack_kernel_def
proof (rule runs_pointwise [where \<pi> = "\<lambda>off. off mod C * R + off div C" and L = "R * C" and lm = "R * C" and gy = c and out = out])
  fix d' assume "same_but out (c * (R * C)) d d'"
    and st: "\<And>j off. j < c \<Longrightarrow> off < R * C \<Longrightarrow> d_mem d' (cell out (j * (R * C) + (off mod C * R + off div C))) = d_mem d (cell inp (j * (R * C) + off))"
  then show "Q () d'"
  proof (intro post)
    fix j r q assume "j < c" "r < R" "q < C"
    then show "d_mem d' (cell out (j * (R * C) + (q * R + r))) = d_mem d (cell inp (j * (R * C) + (r * C + q)))"
      using st [of j "r * C + q"] row_less [of r R q C] by simp
  qed
qed (use assms transpose_inj transpose_index in_bounds_cell [OF assms(1)] row_less [of _ c _ "R * C"] in
    \<open>auto simp: grid_points_ceil simp del: grid_points_set\<close>)

lemma runs_twiddle_reshape_pack:
  assumes "fits d inp (c * (R * C))" and "fits d out (c * (R * C))" and "fst inp \<noteq> fst out" and "length tw = R * C"
    and K: "\<And>t. K (d\<lparr>d_ticks := t\<rparr>)"
    and post: "\<And>d'. same_but out (c * (R * C)) d d' \<Longrightarrow> (\<And>j r q. j < c \<Longrightarrow> r < R \<Longrightarrow> q < C \<Longrightarrow>
        d_mem d' (cell out (j * (R * C) + (q * R + r))) = d_mem d (cell inp (j * (R * C) + (r * C + q))) * tw ! (r * C + q)) \<Longrightarrow> Q () d'"
  shows "runs mc K (launch mc (twiddle_reshape_pack_kernel R C inp tw out (ceil_div_nat (R * C) 256) c)) d Q"
  unfolding twiddle_reshape_pack_kernel_def
proof (rule runs_pointwise [where \<pi> = "\<lambda>off. off mod C * R + off div C" and L = "R * C" and lm = "R * C" and gy = c and out = out])
  fix d' assume "same_but out (c * (R * C)) d d'"
    and st: "\<And>j off. j < c \<Longrightarrow> off < R * C \<Longrightarrow> d_mem d' (cell out (j * (R * C) + (off mod C * R + off div C))) =
      d_mem d (cell inp (j * (R * C) + off)) * tw ! off"
  then show "Q () d'"
  proof (intro post)
    fix j r q assume "j < c" "r < R" "q < C"
    then show "d_mem d' (cell out (j * (R * C) + (q * R + r))) = d_mem d (cell inp (j * (R * C) + (r * C + q))) * tw ! (r * C + q)"
      using st [of j "r * C + q"] row_less [of r R q C] by simp
  qed
qed (use assms transpose_inj transpose_index in_bounds_cell [OF assms(1)] row_less [of _ c _ "R * C"] in
    \<open>auto simp: grid_points_ceil simp del: grid_points_set\<close>)

section \<open>The node\<close>

definition twiddle_table :: "int \<Rightarrow> nat \<Rightarrow> nat \<Rightarrow> complex list \<Rightarrow> bool" where
  "twiddle_table s n1 n2 tw \<longleftrightarrow> length tw = n2 * n1 \<and>
     (\<forall>b < n2. \<forall>c < n1. tw ! (b * n1 + c) = unity s (b * c) (n1 * n2))"

definition four_step_inv ::
  "int \<Rightarrow> nat \<Rightarrow> nat \<Rightarrow> nat \<Rightarrow> nat set \<Rightarrow> (dev \<Rightarrow> bool) \<Rightarrow> nat set \<Rightarrow> (dev \<Rightarrow> bool) \<Rightarrow> complex list \<Rightarrow> nat \<Rightarrow> nat \<Rightarrow> dev \<Rightarrow> bool" where
  "four_step_inv s n1 n2 B V1 J1 V2 J2 tw stage1 stage2 d \<longleftrightarrow> J1 d \<and> J2 d \<and> 0 < n1 \<and> 0 < n2 \<and> twiddle_table s n1 n2 tw \<and>
     stage1 \<noteq> stage2 \<and> {stage1, stage2} \<inter> (V1 \<union> V2) = {} \<and> V1 \<inter> V2 = {} \<and>
     d_size d stage1 = B * (n1 * n2) \<and> d_size d stage2 = B * (n1 * n2)"

text \<open>What the five steps leave in an output row, from the four-step identity.\<close>

lemma four_step_rows:
  assumes pos: "0 < n1" "0 < n2" and tw: "twiddle_table s n1 n2 tw" and q: "q < n1 * n2"
    and y: "\<And>c e. c < n1 \<Longrightarrow> e < n2 \<Longrightarrow> y (e * n1 + c) = dft s n2 (\<lambda>b. z b c * tw ! (b * n1 + c)) e"
    and z: "\<And>b c. b < n2 \<Longrightarrow> c < n1 \<Longrightarrow> z b c = dft s n1 (\<lambda>a. x (a * n2 + b)) c"
  shows "y q = dft s (n1 * n2) x q"
proof -
  define c e where "c = q mod n1" and "e = q div n1"
  have c: "c < n1" and e: "e < n2" and q': "q = c + n1 * e" "q = e * n1 + c"
    using pos q by (simp_all add: c_def e_def less_mult_imp_div_less mult.commute)
  have "y q = (\<Sum>b<n2. z b c * tw ! (b * n1 + c) * unity s (b * e) n2)"
    unfolding q'(2) y [OF c e] by (simp add: dft_def)
  also have "\<dots> = (\<Sum>b<n2. (unity s (b * c) (n1 * n2) * dft s n1 (\<lambda>a. x (n2 * a + b)) c) * unity s (b * e) n2)"
    using tw c by (intro sum.cong) (simp_all add: z twiddle_table_def mult.commute)
  also have "\<dots> = dft s (n1 * n2) x q"
    unfolding q'(1) by (rule four_step_identity [OF pos c, symmetric])
  finally show ?thesis .
qed

lemma four_step_split:
  fixes tw :: "complex list"
  assumes row: "dft_node mc s n1 (B * n2) V1 J1 f1" and col: "dft_node mc s n2 (B * n1) V2 J2 f2"
    and W: "W = V1 \<union> V2 \<union> {st1, st2}" and io: "fst inp \<notin> W" "fst out \<notin> W" and offs: "off + c \<le> B"
  defines "N \<equiv> n1 * n2" and "I \<equiv> four_step_inv s n1 n2 B V1 J1 V2 J2 tw st1 st2"
  assumes I: "I d" and fit: "fits d inp (c * N)" "fits d out (c * N)"
  shows "runs mc (\<lambda>d'. I d' \<and> kept W out (c * N) d d')
    (four_step_body mc n1 n2 f1 f2 tw (ceil_div_nat N 256) (st1, off * N) (st2, off * N) inp out c) d
    (node_result mc s N W I inp out c d)" (is "runs mc ?K _ d ?R")
proof -
  let ?s1 = "(st1, off * N)" and ?s2 = "(st2, off * N)"
  define T where "T d' \<longleftrightarrow> I d' \<and> kept W out (c * N) d d'" for d'
  have T: "T d" using I by (simp add: T_def)
  have pos: "0 < n1" "0 < n2" and tw: "twiddle_table s n1 n2 tw" and st: "st1 \<noteq> st2" "{st1, st2} \<inter> (V1 \<union> V2) = {}" "V1 \<inter> V2 = {}"
    using I by (simp_all add: I_def four_step_inv_def)
  have step: "T d2" if "T d1" "J1 d2" "J2 d2" "kept W out (c * N) d1 d2" for d1 d2
    using that kept_trans [of W out "c * N" d d1 d2] by (auto simp: T_def I_def four_step_inv_def kept_size)
  have launched: "T d2" if "T d1" "same_but p l d1 d2" "fst p \<in> {st1, st2} \<or> p = out \<and> l = c * N" for d1 d2 p l
  proof (rule step [OF that(1)])
    have p: "fst p \<notin> V1" "fst p \<notin> V2" using that(3) st io W by auto
    show "J1 d2" "J2 d2" using dft_node.local [OF row _ same_on_launch [OF that(2) p(1)]]
        dft_node.local [OF col _ same_on_launch [OF that(2) p(2)]] that(1) by (simp_all add: T_def I_def four_step_inv_def)
    show "kept W out (c * N) d1 d2" using that(3) W by (intro kept_launch [OF that(2)]) auto
  qed
  have ticks: "?K (d'\<lparr>d_ticks := t\<rparr>)" if "T d'" for d' t
    using launched [OF that, of "?s1" 0 "d'\<lparr>d_ticks := t\<rparr>"] by (simp add: T_def same_but_def)
  have "off * N + c * N \<le> B * N" using offs by (simp flip: add_mult_distrib)
  then have fits: "fits d' ?s1 (c * N)" "fits d' ?s2 (c * N)" "fits d' inp (c * N)" "fits d' out (c * N)" if "T d'" for d'
    using that fit kept_fits [of W out "c * N" d d'] by (auto simp: T_def I_def four_step_inv_def N_def fits_def)
  have sz: "c * n2 * n1 = c * N" "c * n1 * n2 = c * N" by (simp_all add: N_def)
  have row_call: "runs mc ?K (unless_failed (f1 ?s1 ?s2 (c * n2)) g) d1 ?R"
    if T1: "T d1" and g: "\<And>d2. T d2 \<Longrightarrow> transformed s n1 (c * n2) ?s1 ?s2 d1 d2 \<Longrightarrow> runs mc ?K g d2 ?R" for g d1
  proof -
    have J: "T d2" if "J1 d2" "kept V1 ?s2 (c * n2 * n1) d1 d2" for d2
    proof (rule step [OF T1 that(1)])
      show "J2 d2" using dft_node.local [OF col _ same_on_child [OF that(2)]] T1 st by (auto simp: T_def I_def four_step_inv_def)
      show "kept W out (c * N) d1 d2" using W by (intro kept_child [OF that(2)]) auto
    qed
    show ?thesis
    proof (rule dft_node.call [OF row])
      show "J1 d1" using T1 by (simp add: T_def I_def four_step_inv_def)
      show "args_ok d1 V1 n1 (B * n2) ?s1 ?s2 (c * n2)" using fits [OF T1] st offs by (auto simp: args_ok_def sz)
    qed (use J g in \<open>auto simp: T_def node_result_def\<close>)
  qed
  have col_call: "runs mc ?K (unless_failed (f2 ?s1 ?s2 (c * n1)) g) d1 ?R"
    if T1: "T d1" and g: "\<And>d2. T d2 \<Longrightarrow> transformed s n2 (c * n1) ?s1 ?s2 d1 d2 \<Longrightarrow> runs mc ?K g d2 ?R" for g d1
  proof -
    have J: "T d2" if "J2 d2" "kept V2 ?s2 (c * n1 * n2) d1 d2" for d2
    proof (rule step [OF T1 _ that(1)])
      show "J1 d2" using dft_node.local [OF row _ same_on_child [OF that(2)]] T1 st by (auto simp: T_def I_def four_step_inv_def)
      show "kept W out (c * N) d1 d2" using W by (intro kept_child [OF that(2)]) auto
    qed
    show ?thesis
    proof (rule dft_node.call [OF col])
      show "J2 d1" using T1 by (simp add: T_def I_def four_step_inv_def)
      show "args_ok d1 V2 n2 (B * n1) ?s1 ?s2 (c * n1)" using fits [OF T1] st offs by (auto simp: args_ok_def sz)
    qed (use J g in \<open>auto simp: T_def node_result_def\<close>)
  qed
  define x where "x j i = d_mem d (cell inp (j * N + i))" for j i
  define z where "z j b e = dft s n1 (\<lambda>a. x j (a * n2 + b)) e" for j b e
  define u where "u j e l = dft s n2 (\<lambda>b. z j b e * tw ! (b * n1 + e)) l" for j e l
  have N1: "N = n1 * n2" and N2: "N = n2 * n1" by (simp_all add: N_def)
  have index: "(j * n2 + b) * n1 + a = j * N + (b * n1 + a)" "(j * n1 + e) * n2 + b = j * N + (e * n2 + b)" for j a b e
    by (simp_all add: N_def algebra_simps)
  have last: "runs mc ?K (xbind (launch mc (reshape_pack_kernel n1 n2 ?s2 out (ceil_div_nat N 256) c)) (\<lambda>_. xret FLAGFFT_SUCCESS)) d1 ?R"
    if T1: "T d1" and w1: "\<And>j e l. j < c \<Longrightarrow> e < n1 \<Longrightarrow> l < n2 \<Longrightarrow> d_mem d1 (cell ?s2 (j * N + (e * n2 + l))) = u j e l" for d1
  proof (rule runs_then, unfold N1, rule runs_reshape_pack)
    fix d2 assume s2: "same_but out (c * (n1 * n2)) d1 d2" and o2: "\<And>j r q. j < c \<Longrightarrow> r < n1 \<Longrightarrow> q < n2 \<Longrightarrow>
      d_mem d2 (cell out (j * (n1 * n2) + (q * n1 + r))) = d_mem d1 (cell (st2, off * (n1 * n2)) (j * (n1 * n2) + (r * n2 + q)))"
    have "d_mem d2 (cell out (j * N + q)) = dft s N (x j) q" if "j < c" "q < N" for j q
      unfolding N1
    proof (rule four_step_rows [OF pos tw, of q "\<lambda>q. d_mem d2 (cell out (j * (n1 * n2) + q))" "z j" "x j"])
      show "d_mem d2 (cell out (j * (n1 * n2) + (l * n1 + e))) = dft s n2 (\<lambda>b. z j b e * tw ! (b * n1 + e)) l" if "e < n1" "l < n2" for e l
        using o2 [OF \<open>j < c\<close> that] w1 [OF \<open>j < c\<close> that] by (simp add: N1 u_def)
    qed (use that in \<open>simp_all add: N1 z_def\<close>)
    then have "transformed s N c inp out d d2" by (simp add: transformed_def x_def [abs_def])
    moreover have "T d2" using launched [OF T1 s2] by (simp add: N1)
    ultimately show "runs mc (\<lambda>d'. I d' \<and> kept W out (c * (n1 * n2)) d d') (xret FLAGFFT_SUCCESS) d2
        (node_result mc s (n1 * n2) W I inp out c d)" by (auto simp: T_def node_result_def N1)
  qed (use fits [OF T1] io W ticks [OF T1] in \<open>auto simp: N1\<close>)
  have twist: "runs mc ?K (xbind (launch mc (twiddle_reshape_pack_kernel n2 n1 ?s2 tw ?s1 (ceil_div_nat N 256) c)) (\<lambda>_. g)) d1 ?R"
    if T1: "T d1" and w1: "\<And>j b e. j < c \<Longrightarrow> b < n2 \<Longrightarrow> e < n1 \<Longrightarrow> d_mem d1 (cell ?s2 (j * N + (b * n1 + e))) = z j b e"
      and g: "\<And>d2. T d2 \<Longrightarrow> (\<And>j b e. j < c \<Longrightarrow> b < n2 \<Longrightarrow> e < n1 \<Longrightarrow>
        d_mem d2 (cell ?s1 (j * N + (e * n2 + b))) = z j b e * tw ! (b * n1 + e)) \<Longrightarrow> runs mc ?K g d2 ?R" for g d1
  proof (rule runs_then, rule runs_twiddle_reshape_pack [where R = n2 and C = n1, folded N2])
    fix d2 assume s2: "same_but ?s1 (c * N) d1 d2" and o2: "\<And>j r q. j < c \<Longrightarrow> r < n2 \<Longrightarrow> q < n1 \<Longrightarrow>
      d_mem d2 (cell ?s1 (j * N + (q * n2 + r))) = d_mem d1 (cell ?s2 (j * N + (r * n1 + q))) * tw ! (r * n1 + q)"
    show "runs mc ?K g d2 ?R" by (rule g) (use launched [OF T1 s2] in \<open>simp_all add: o2 w1\<close>)
  qed (use fits [OF T1] st ticks [OF T1] tw in \<open>auto simp: twiddle_table_def N2\<close>)
  show ?thesis
    unfolding four_step_body_def
  proof (rule runs_then, unfold N1, rule runs_reshape_pack)
    fix d1 assume s1: "same_but (st1, off * (n1 * n2)) (c * (n1 * n2)) d d1" and o1: "\<And>j r q. j < c \<Longrightarrow> r < n1 \<Longrightarrow> q < n2 \<Longrightarrow>
      d_mem d1 (cell (st1, off * (n1 * n2)) (j * (n1 * n2) + (q * n1 + r))) = d_mem d (cell inp (j * (n1 * n2) + (r * n2 + q)))"
    have T1: "T d1" using launched [OF T s1] by simp
    have z: "d_mem d2 (cell ?s2 (j * N + (b * n1 + e))) = z j b e"
      if t: "transformed s n1 (c * n2) ?s1 ?s2 d1 d2" and "j < c" "b < n2" "e < n1" for d2 j b e
    proof -
      have "j * n2 + b < c * n2" using that by (intro row_less)
      then have "d_mem d2 (cell ?s2 (j * N + (b * n1 + e))) = dft s n1 (\<lambda>a. d_mem d1 (cell ?s1 (j * N + (b * n1 + a)))) e"
        using transformedD [OF t, of "j * n2 + b"] that(4) by (simp only: index(1))
      also have "dft s n1 (\<lambda>a. d_mem d1 (cell ?s1 (j * N + (b * n1 + a)))) = dft s n1 (\<lambda>a. x j (a * n2 + b))"
        using o1 that by (intro dft_cong) (simp add: x_def N1)
      finally show ?thesis by (simp add: z_def)
    qed
    have u: "d_mem d3 (cell ?s2 (j * N + (e * n2 + l))) = u j e l"
      if t: "transformed s n2 (c * n1) ?s1 ?s2 d2 d3" and "j < c" "e < n1" "l < n2"
        and d2: "\<And>j b e. j < c \<Longrightarrow> b < n2 \<Longrightarrow> e < n1 \<Longrightarrow> d_mem d2 (cell ?s1 (j * N + (e * n2 + b))) = z j b e * tw ! (b * n1 + e)" for d2 d3 j e l
    proof -
      have "j * n1 + e < c * n1" using that by (intro row_less)
      then have "d_mem d3 (cell ?s2 (j * N + (e * n2 + l))) = dft s n2 (\<lambda>b. d_mem d2 (cell ?s1 (j * N + (e * n2 + b)))) l"
        using transformedD [OF t, of "j * n1 + e"] that(4) by (simp only: index(2))
      also have "dft s n2 (\<lambda>b. d_mem d2 (cell ?s1 (j * N + (e * n2 + b)))) = dft s n2 (\<lambda>b. z j b e * tw ! (b * n1 + e))"
        using that by (intro dft_cong) (simp add: d2)
      finally show ?thesis by (simp add: u_def)
    qed
    have "runs mc ?K (unless_failed (f1 ?s1 ?s2 (c * n2)) (
     xbind (launch mc (twiddle_reshape_pack_kernel n2 n1 ?s2 tw ?s1 (ceil_div_nat N 256) c)) (\<lambda>_.
     unless_failed (f2 ?s1 ?s2 (c * n1)) (
     xbind (launch mc (reshape_pack_kernel n1 n2 ?s2 out (ceil_div_nat N 256) c)) (\<lambda>_.
     xret FLAGFFT_SUCCESS))))) d1 ?R"
      using T1 by (intro row_call twist col_call last) (auto simp: z u)
    then show "runs mc (\<lambda>d'. I d' \<and> kept W out (c * (n1 * n2)) d d') (unless_failed (f1 (st1, off * (n1 * n2)) (st2, off * (n1 * n2)) (c * n2)) (
     xbind (launch mc (twiddle_reshape_pack_kernel n2 n1 (st2, off * (n1 * n2)) tw (st1, off * (n1 * n2)) (ceil_div_nat (n1 * n2) 256) c)) (\<lambda>_.
     unless_failed (f2 (st1, off * (n1 * n2)) (st2, off * (n1 * n2)) (c * n1)) (
     xbind (launch mc (reshape_pack_kernel n1 n2 (st2, off * (n1 * n2)) out (ceil_div_nat (n1 * n2) 256) c)) (\<lambda>_.
     xret FLAGFFT_SUCCESS))))) d1 (node_result mc s (n1 * n2) W I inp out c d)" by (simp only: N1)
  qed (use fits [OF T] io W ticks [OF T] in \<open>auto simp: N1\<close>)
qed

lemma four_step_node:
  assumes row: "dft_node mc s n1 (B * n2) V1 J1 f1" and col: "dft_node mc s n2 (B * n1) V2 J2 f2"
  shows "dft_node mc s (n1 * n2) B (V1 \<union> V2 \<union> {st1, st2}) (four_step_inv s n1 n2 B V1 J1 V2 J2 tw st1 st2)
    (guarded (execute_four_step_generic mc n1 n2 f1 f2 tw st1 st2))"
proof
  let ?W = "V1 \<union> V2 \<union> {st1, st2}" and ?I = "four_step_inv s n1 n2 B V1 J1 V2 J2 tw st1 st2" and ?N = "n1 * n2"
  fix d inp out k assume I: "?I d" and args: "args_ok d ?W ?N B inp out k"
  let ?chunk = "four_step_chunk mc k (ceil_div_nat ?N 256)"
  have "runs mc (\<lambda>d'. ?I d' \<and> kept ?W out (k * ?N) d d') (execute_four_step_generic mc n1 n2 f1 f2 tw st1 st2 inp out k) d
      (node_result mc s ?N ?W ?I inp out k d)"
  proof (cases "k = 0")
    case True
    then show ?thesis
      using I by (auto simp: execute_four_step_generic_def for_chunks.simps node_result_def transformed_def)
  next
    case False
    then have "0 < ?chunk" by (auto simp: four_step_chunk_def less_max_iff_disj)
    then show ?thesis
      unfolding execute_four_step_generic_def Let_def
    proof (rule runs_node_chunks [where I = ?I and d = d, OF I args])
      fix d2 :: dev and off c assume "?I d2" and size: "d_size d2 = d_size d" and offs: "off + c \<le> k"
      then have "off * ?N + c * ?N \<le> k * ?N" by (simp flip: add_mult_distrib)
      then have "fits d2 (advance inp (off * ?N)) (c * ?N)" "fits d2 (advance out (off * ?N)) (c * ?N)"
        using args fits_same [OF size] by (auto simp: args_ok_def intro: fits_advance)
      with \<open>?I d2\<close> args offs show "runs mc (\<lambda>d'. ?I d' \<and> kept ?W (advance out (off * ?N)) (c * ?N) d2 d')
          (four_step_body mc n1 n2 f1 f2 tw (ceil_div_nat ?N 256) (st1, off * ?N) (st2, off * ?N) (advance inp (off * ?N)) (advance out (off * ?N)) c) d2
          (node_result mc s ?N ?W ?I (advance inp (off * ?N)) (advance out (off * ?N)) c d2)"
        by (intro four_step_split [OF row col refl]) (simp_all add: args_ok_def)
    qed
  qed
  then show "runs mc (\<lambda>_. False) (guarded (execute_four_step_generic mc n1 n2 f1 f2 tw st1 st2) inp out k) d
      (node_result mc s ?N ?W ?I inp out k d)" by (rule runs_guarded)
next
  fix d d' assume I: "four_step_inv s n1 n2 B V1 J1 V2 J2 tw st1 st2 d" and same: "same_on (V1 \<union> V2 \<union> {st1, st2}) d d'"
  have "same_on V1 d d'" "same_on V2 d d'" using same by (auto simp: same_on_def)
  then have "J1 d'" "J2 d'" using dft_node.local [OF row] dft_node.local [OF col] I by (auto simp: four_step_inv_def)
  then show "four_step_inv s n1 n2 B V1 J1 V2 J2 tw st1 st2 d'" using I same by (simp add: four_step_inv_def same_on_def)
qed

end
