(* ===== verification/FFT_ExecFusedFacts.thy ===== *)
theory FFT_ExecFusedFacts
  imports FFT_ExecFused FFT_ExecConv FFT_ExecSplit
begin

text \<open>
  The fused nodes compute the transform. A row pass followed by a column pass is the four-step identity,
  whichever of the two applies the twiddles; the fused Bluestein nodes are the same circular convolution
  as the generic one.
\<close>

section \<open>Kernels with rows of stores\<close>

lemma inner_points_distinct [simp]: "distinct (inner_points pack gx gy cnt)"
  unfolding inner_points_def by (induction gy) (auto simp: block_offsets_eq distinct_map inj_on_def)

lemma inner_points_iff:
  assumes "0 < pack"
  shows "x \<in> set (inner_points pack (ceil_div_nat cnt pack) gy cnt) \<longleftrightarrow> fst x < gy \<and> snd x < cnt"
proof -
  have "filter (\<lambda>g. g < cnt) (block_offsets pack (ceil_div_nat cnt pack)) = [0..<cnt]"
    by (rule block_offsets_cover [OF assms ceil_div_covers [OF assms]])
  then show ?thesis by (cases x) (force simp: inner_points_def)
qed

lemma batch_points_eq: "0 < pack \<Longrightarrow> batch_points pack (ceil_div_nat k pack) k = map (\<lambda>b. (b, 0)) [0..<k]"
  by (simp add: batch_points_def block_offsets_cover [OF _ ceil_div_covers])

lemma batch_points_facts:
  assumes "0 < pack"
  shows "distinct (batch_points pack (ceil_div_nat k pack) k)"
    and "x \<in> set (batch_points pack (ceil_div_nat k pack) k) \<longleftrightarrow> fst x < k \<and> snd x < 1"
proof -
  show "distinct (batch_points pack (ceil_div_nat k pack) k)" by (simp add: batch_points_eq [OF assms] distinct_map inj_on_def)
  show "x \<in> set (batch_points pack (ceil_div_nat k pack) k) \<longleftrightarrow> fst x < k \<and> snd x < 1"
    by (cases x) (auto simp: batch_points_eq [OF assms])
qed

lemma runs_rows:
  assumes out: "\<And>b g k. dst b g k = cell out (b * M + \<pi> g k)" and fit: "fits d out (gy * M)"
    and inj: "\<And>g k g' k'. g < gx \<Longrightarrow> k < len \<Longrightarrow> keep g k \<Longrightarrow> g' < gx \<Longrightarrow> k' < len \<Longrightarrow> keep g' k' \<Longrightarrow>
        \<pi> g k = \<pi> g' k' \<Longrightarrow> g = g' \<and> k = k'"
    and lt: "\<And>g k. g < gx \<Longrightarrow> k < len \<Longrightarrow> keep g k \<Longrightarrow> \<pi> g k < M"
    and points: "distinct pts" "\<And>x. x \<in> set pts \<longleftrightarrow> fst x < gy \<and> snd x < gx"
    and ok: "\<And>b g. b < gy \<Longrightarrow> g < gx \<Longrightarrow> ok b g"
    and loads: "\<And>b g a. b < gy \<Longrightarrow> g < gx \<Longrightarrow> a \<in> set (loads b g) \<Longrightarrow> in_bounds d a"
    and apart: "\<And>b g a. b < gy \<Longrightarrow> g < gx \<Longrightarrow> a \<in> set (loads b g) \<Longrightarrow>
        fst a \<noteq> fst out \<or> gx = 1 \<and> (\<exists>i < M. a = cell out (b * M + i))"
    and fail: "\<And>t. K (d\<lparr>d_ticks := t\<rparr>)"
    and post: "\<And>d'. same_but out (gy * M) d d' \<Longrightarrow>
        (\<And>b g k. b < gy \<Longrightarrow> g < gx \<Longrightarrow> k < len \<Longrightarrow> keep g k \<Longrightarrow> d_mem d' (cell out (b * M + \<pi> g k)) = val (d_mem d) b g k) \<Longrightarrow> Q () d'"
  shows "runs mc K (launch mc (rows_kernel pts ok loads len keep dst val)) d Q"
proof (rule runs_launch [where loads = "\<lambda>x. loads (fst x) (snd x)" and ok = "\<lambda>x. ok (fst x) (snd x)" and xs = pts
      and dsts = "\<lambda>x. map (dst (fst x) (snd x)) (filter (keep (snd x)) [0..<len])"
      and stores = "\<lambda>mem x. map (\<lambda>k. (dst (fst x) (snd x) k, val mem (fst x) (snd x) k)) (filter (keep (snd x)) [0..<len])"])
  let ?dsts = "\<lambda>x. map (dst (fst x) (snd x)) (filter (keep (snd x)) [0..<len])"
  show "rows_kernel pts ok loads len keep dst val mem = map (\<lambda>x. \<lparr>it_defined = ok (fst x) (snd x),
      it_loads = loads (fst x) (snd x), it_stores = map (\<lambda>k. (dst (fst x) (snd x) k, val mem (fst x) (snd x) k))
        (filter (keep (snd x)) [0..<len])\<rparr>) pts" for mem
    unfolding rows_kernel_def ..
  have dst: "\<exists>k < len. keep (snd x) k \<and> a = cell out (fst x * M + \<pi> (snd x) k)" if "a \<in> set (?dsts x)" for a x
    using that by (auto simp: out)
  show "distinct (?dsts x)" if "x \<in> set pts" for x
  proof -
    have "inj_on (dst (fst x) (snd x)) {k. k < len \<and> keep (snd x) k}"
      using inj [of "snd x" _ "snd x"] that points(2) by (auto simp: inj_on_def out cell_def)
    then show ?thesis by (auto simp: distinct_map elim: inj_on_subset)
  qed
  fix x assume x: "x \<in> set pts"
  have rows: "a \<in> cells out (gy * M)" if "a \<in> set (?dsts x)" for a
    using dst [OF that] x points(2) lt [of "snd x"] row_less [of "fst x" gy _ M] by auto
  show "ok (fst x) (snd x) \<and> (a \<in> set (loads (fst x) (snd x)) \<union> set (?dsts x) \<longrightarrow> in_bounds d a)" for a
    using ok [of "fst x" "snd x"] loads [of "fst x" "snd x" a] x points(2) dst [of a x] in_bounds_cell [OF fit] lt [of "snd x"]
      row_less [of "fst x" gy _ M] by auto
  fix y assume y: "y \<in> set pts" "x \<noteq> y"
  have neq: "\<not> (fst x = fst y \<and> snd x = snd y)" using y(2) by (simp add: prod_eq_iff)
  show "set (?dsts x) \<inter> set (?dsts y) = {}"
  proof -
    have False if "a \<in> set (?dsts x)" "a \<in> set (?dsts y)" for a
      using dst [OF that(1)] dst [OF that(2)] x y(1) points(2) lt inj neq
      by (auto simp: cell_def row_inject)
    then show ?thesis by blast
  qed
  show "set (loads (fst x) (snd x)) \<inter> set (?dsts y) = {}"
  proof -
    have False if a: "a \<in> set (loads (fst x) (snd x))" "a \<in> set (?dsts y)" for a
    proof -
      from dst [OF a(2)] obtain k where k: "k < len" "keep (snd y) k" "a = cell out (fst y * M + \<pi> (snd y) k)" by blast
      then obtain i where "gx = 1" "i < M" "a = cell out (fst x * M + i)"
        using apart [of "fst x" "snd x" a] a(1) x points(2) by auto
      with k have "fst x = fst y" using lt [of "snd y" k] y(1) points(2) by (auto simp: cell_def row_inject)
      moreover have "snd x = snd y" using x y(1) points(2) \<open>gx = 1\<close> by auto
      ultimately show False using neq by simp
    qed
    then show ?thesis by blast
  qed
next
  fix mem t
  assume st: "\<And>x a v. x \<in> set pts \<Longrightarrow> (a, v) \<in> set (map (\<lambda>k. (dst (fst x) (snd x) k, val (d_mem d) (fst x) (snd x) k))
      (filter (keep (snd x)) [0..<len])) \<Longrightarrow> mem a = v"
    and other: "\<And>a. (\<And>x. x \<in> set pts \<Longrightarrow> a \<notin> set (map (dst (fst x) (snd x)) (filter (keep (snd x)) [0..<len]))) \<Longrightarrow> mem a = d_mem d a"
  show "Q () (d\<lparr>d_ticks := t, d_mem := mem\<rparr>)"
  proof (rule post)
    have "mem a = d_mem d a" if "a \<notin> cells out (gy * M)" for a
      using that row_less [of _ gy _ M] lt points(2) by (intro other) (auto simp: out)
    then show "same_but out (gy * M) d (d\<lparr>d_ticks := t, d_mem := mem\<rparr>)" by (simp add: same_but_def)
  next
    fix b g k assume "b < gy" "g < gx" "k < len" "keep g k"
    then show "d_mem (d\<lparr>d_ticks := t, d_mem := mem\<rparr>) (cell out (b * M + \<pi> g k)) = val (d_mem d) b g k"
      using st [of "(b, g)" "cell out (b * M + \<pi> g k)"] points(2) by (auto simp: out)
  qed
qed (use fail points in auto)

section \<open>The two passes of a four-step split\<close>

lemma outer_twiddle_eq:
  assumes "twiddle_table s n1 n2 tw" and "g < n2" and "k < n1"
  shows "outer_twiddle mc s n1 n2 tw g k = unity s (g * k) (n1 * n2)"
  using assms by (simp add: outer_twiddle_def twiddle_table_def unity_def)

lemma runs_row_pass:
  assumes leaf: "computes_dft (mc_leaf mc) s n1" and pack: "0 < pack" and tw: "twiddle_table s n1 n2 tw"
    and fit: "fits d out (c * (n1 * n2))" and ok: "\<And>b i. b < c \<Longrightarrow> i < n1 * n2 \<Longrightarrow> ok b i"
    and loads: "\<And>b i a. b < c \<Longrightarrow> i < n1 * n2 \<Longrightarrow> a \<in> set (loads b i) \<Longrightarrow> in_bounds d a \<and> fst a \<noteq> fst out"
    and fail: "\<And>t. K (d\<lparr>d_ticks := t\<rparr>)"
    and post: "\<And>d'. same_but out (c * (n1 * n2)) d d' \<Longrightarrow> (\<And>b g k. b < c \<Longrightarrow> g < n2 \<Longrightarrow> k < n1 \<Longrightarrow>
        d_mem d' (cell out (b * (n1 * n2) + (g * n1 + k))) =
        dft s n1 (\<lambda>j. src (d_mem d) b (j * n2 + g)) k * (if fused then unity s (g * k) (n1 * n2) else 1)) \<Longrightarrow> Q () d'"
  shows "runs mc K (launch mc (row_pass mc s n1 n2 fused pack tw ok loads src out (ceil_div_nat n2 pack) c)) d Q"
  unfolding row_pass_def
proof (rule runs_rows [where \<pi> = "\<lambda>g k. g * n1 + k" and M = "n1 * n2" and out = out and gy = c and gx = n2])
  have index: "j * n2 + g < n1 * n2" if "j < n1" "g < n2" for j g using row_less [OF that] .
  show "g = g' \<and> k = k'" if "k < n1" "k' < n1" "g * n1 + k = g' * n1 + k'" for g k g' k' using that row_inject by blast
  show "g * n1 + k < n1 * n2" if "g < n2" "k < n1" for g k using row_less [OF that] by (simp add: mult.commute)
  then show "(\<forall>j<n1. ok b (j * n2 + g)) \<and> (fused \<and> dtype_is_double (mc_request mc) \<longrightarrow> (\<forall>k<n1. g * n1 + k < length tw))"
    if "b < c" "g < n2" for b g using that ok index tw by (auto simp: twiddle_table_def mult.commute)
  have load: "in_bounds d a \<and> fst a \<noteq> fst out"
    if bg: "b < c" "g < n2" and a: "a \<in> set (concat (map (\<lambda>j. loads b (j * n2 + g)) [0..<n1]))" for b g a
  proof -
    from a obtain j where "j < n1" "a \<in> set (loads b (j * n2 + g))" by auto
    with bg show ?thesis using loads index by blast
  qed
  show "in_bounds d a" if "b < c" "g < n2" "a \<in> set (concat (map (\<lambda>j. loads b (j * n2 + g)) [0..<n1]))" for b g a
    using load that by blast
  show "fst a \<noteq> fst out \<or> n2 = 1 \<and> (\<exists>i<n1 * n2. a = cell out (b * (n1 * n2) + i))"
    if "b < c" "g < n2" "a \<in> set (concat (map (\<lambda>j. loads b (j * n2 + g)) [0..<n1]))" for b g a
    using load that by blast
  fix d' assume same: "same_but out (c * (n1 * n2)) d d'"
    and vals: "\<And>b g k. b < c \<Longrightarrow> g < n2 \<Longrightarrow> k < n1 \<Longrightarrow> True \<Longrightarrow> d_mem d' (cell out (b * (n1 * n2) + (g * n1 + k))) =
      mc_leaf mc s n1 (map (\<lambda>j. src (d_mem d) b (j * n2 + g)) [0..<n1]) ! k * (if fused then outer_twiddle mc s n1 n2 tw g k else 1)"
  show "Q () d'"
    by (rule post [OF same]) (simp add: vals computes_dft_nth [OF leaf] outer_twiddle_eq [OF tw])
qed (use pack fit fail inner_points_iff in auto)

lemma runs_col_pass:
  assumes leaf: "computes_dft (mc_leaf mc) s n2" and pack: "0 < pack" and tw: "twiddle_table s n1 n2 tw"
    and fit: "fits d inp (c * (n1 * n2))" "fits d out (c * len)" and io: "fst inp \<noteq> fst out" and len: "len \<le> n1 * n2"
    and ok: "\<And>i. i < len \<Longrightarrow> ok i" and fail: "\<And>t. K (d\<lparr>d_ticks := t\<rparr>)"
    and stage: "\<And>b g k. b < c \<Longrightarrow> g < n2 \<Longrightarrow> k < n1 \<Longrightarrow> d_mem d (cell inp (b * (n1 * n2) + (g * n1 + k))) =
        dft s n1 (\<lambda>j. x b (j * n2 + g)) k * (if fused then unity s (g * k) (n1 * n2) else 1)"
    and post: "\<And>d'. same_but out (c * len) d d' \<Longrightarrow> (\<And>b i. b < c \<Longrightarrow> i < len \<Longrightarrow>
        d_mem d' (cell out (b * len + i)) = fin i (dft s (n1 * n2) (x b) i)) \<Longrightarrow> Q () d'"
  shows "runs mc K (launch mc (col_pass mc s n1 n2 fused pack tw inp len ok fin out (ceil_div_nat n1 pack) c)) d Q"
  unfolding col_pass_def
proof (rule runs_rows [where \<pi> = "\<lambda>g k. k * n1 + g" and M = len and out = out and gy = c and gx = n1])
  have index: "j * n1 + g < n1 * n2" if "g < n1" "j < n2" for j g using row_less [OF that(2,1)] by (simp add: mult.commute)
  show "g = g' \<and> k = k'" if "g < n1" "g' < n1" "k * n1 + g = k' * n1 + g'" for g k g' k' using that row_inject by blast
  show "(\<forall>j<n2. fused \<or> j * n1 + g < length tw) \<and> (\<forall>k<n2. k * n1 + g < len \<longrightarrow> ok (k * n1 + g))"
    if "g < n1" for g using that ok index tw by (auto simp: twiddle_table_def mult.commute)
  show "in_bounds d a" if "b < c" "g < n1" "a \<in> set (map (\<lambda>j. cell inp (b * (n1 * n2) + (j * n1 + g))) [0..<n2])" for b g a
    using that index row_less [of b c _ "n1 * n2"] in_bounds_cell [OF fit(1)] by auto
  fix d' assume same: "same_but out (c * len) d d'"
    and vals: "\<And>b g k. b < c \<Longrightarrow> g < n1 \<Longrightarrow> k < n2 \<Longrightarrow> k * n1 + g < len \<Longrightarrow> d_mem d' (cell out (b * len + (k * n1 + g))) =
      fin (k * n1 + g) (mc_leaf mc s n2 (map (\<lambda>j. d_mem d (cell inp (b * (n1 * n2) + (j * n1 + g))) *
        (if fused then 1 else tw ! (j * n1 + g))) [0..<n2]) ! k)"
  show "Q () d'"
  proof (rule post [OF same])
    fix b i assume b: "b < c" and i: "i < len"
    then have pos: "0 < n1" "0 < n2" using len by (cases n1; cases n2; simp)+
    define g k where "g = i mod n1" and "k = i div n1"
    have g: "g < n1" and k: "k < n2" and i': "k * n1 + g = i"
      using pos i len by (simp_all add: g_def k_def less_mult_imp_div_less mult.commute)
    let ?y = "\<lambda>q. dft s n2 (\<lambda>j. dft s n1 (\<lambda>a. x b (a * n2 + j)) (q mod n1) * tw ! (j * n1 + q mod n1)) (q div n1)"
    have "(\<lambda>j. d_mem d (cell inp (b * (n1 * n2) + (j * n1 + g))) * (if fused then 1 else tw ! (j * n1 + g))) j =
        dft s n1 (\<lambda>a. x b (a * n2 + j)) g * tw ! (j * n1 + g)" if "j < n2" for j
      using stage [OF b that g] tw that g by (simp add: twiddle_table_def)
    then have "d_mem d' (cell out (b * len + i)) = fin i (?y i)"
      using vals [OF b g k] i by (simp add: i' computes_dft_nth [OF leaf k] g_def [symmetric] k_def [symmetric] cong: dft_cong)
    also have "?y i = dft s (n1 * n2) (x b) i"
      by (rule four_step_rows [OF pos tw, of i ?y "\<lambda>j e. dft s n1 (\<lambda>a. x b (a * n2 + j)) e" "x b"]) (use i len in auto)
    finally show "d_mem d' (cell out (b * len + i)) = fin i (dft s (n1 * n2) (x b) i)" .
  qed
qed (use pack fit fail io inner_points_iff in auto)


section \<open>The fused four-step node\<close>

definition four_step_fused_inv ::
  "machine \<Rightarrow> int \<Rightarrow> nat \<Rightarrow> nat \<Rightarrow> nat \<Rightarrow> nat \<Rightarrow> nat \<Rightarrow> complex list \<Rightarrow> nat \<Rightarrow> dev \<Rightarrow> bool" where
  "four_step_fused_inv mc s n1 n2 B row_pack col_pack tw stage1 d \<longleftrightarrow> 0 < n1 \<and> 0 < n2 \<and> 0 < row_pack \<and> 0 < col_pack \<and>
     (req_device_type (mc_request mc) = ''npu'' \<longrightarrow> 0 < mc_max_launch_blocks mc) \<and>
     computes_dft (mc_leaf mc) s n1 \<and> computes_dft (mc_leaf mc) s n2 \<and> twiddle_table s n1 n2 tw \<and> d_size d stage1 = B * (n1 * n2)"

lemma four_step_fused_inv_ticks [simp]:
  "four_step_fused_inv mc s n1 n2 B rp cp tw st (d\<lparr>d_ticks := t\<rparr>) \<longleftrightarrow> four_step_fused_inv mc s n1 n2 B rp cp tw st d"
  by (simp add: four_step_fused_inv_def)

lemma ceil_div_pos: "0 < a \<Longrightarrow> 0 < b \<Longrightarrow> 0 < ceil_div_nat a b"
  using ceil_div_covers [of b a] by (cases "ceil_div_nat a b") auto

lemma four_step_fused_chunk_eq:
  assumes "four_step_fused_inv mc s n1 n2 B rp cp tw st d"
  obtains chunk where "four_step_fused_chunk mc n1 n2 rp cp k = Inr chunk" and "k = 0 \<or> 0 < chunk"
proof (cases "req_device_type (mc_request mc) = ''npu''")
  case True
  then have "four_step_fused_chunk mc n1 n2 rp cp k =
      Inr (max 1 (mc_max_launch_blocks mc div max (ceil_div_nat n2 rp) (ceil_div_nat n1 cp)))"
    using assms ceil_div_pos [of n2 rp] by (simp add: four_step_fused_inv_def four_step_fused_chunk_def Let_def max_def)
  then show ?thesis by (rule that) (simp add: less_max_iff_disj)
next
  case False
  then have "four_step_fused_chunk mc n1 n2 rp cp k = Inr k" by (simp add: four_step_fused_chunk_def)
  then show ?thesis by (rule that) auto
qed

lemma runs_four_step_fused_chunk:
  fixes mc :: machine and s :: int and n1 n2 B rp cp st :: nat and tw :: "complex list"
  assumes W: "W = {st}" and io: "fst inp \<notin> W" "fst out \<notin> W" and offs: "off + c \<le> B"
  defines "N \<equiv> n1 * n2" and "I \<equiv> four_step_fused_inv mc s n1 n2 B rp cp tw st"
  assumes I: "I d" and fit: "fits d inp (c * N)" "fits d out (c * N)"
  shows "runs mc (\<lambda>d'. I d' \<and> kept W out (c * N) d d')
    (xbind (launch mc (four_step_row_kernel mc s n1 n2 fused rp tw inp (st, off * N) (ceil_div_nat n2 rp) c)) (\<lambda>_.
     xbind (launch mc (four_step_col_kernel mc s n1 n2 fused cp tw (st, off * N) out (ceil_div_nat n1 cp) c)) (\<lambda>_.
     xret FLAGFFT_SUCCESS))) d (node_result mc s N W I inp out c d)" (is "runs mc ?K _ d ?R")
proof -
  let ?s1 = "(st, off * N)"
  have "off * N + c * N \<le> B * N" using offs by (simp flip: add_mult_distrib)
  then have fit1: "fits d ?s1 (c * N)" and leaf: "computes_dft (mc_leaf mc) s n1" "computes_dft (mc_leaf mc) s n2"
    and tw: "twiddle_table s n1 n2 tw" and packs: "0 < rp" "0 < cp"
    using I by (auto simp: I_def four_step_fused_inv_def N_def fits_def)
  have I': "I d'" if "d_size d' = d_size d" for d' using I that by (simp add: I_def four_step_fused_inv_def)
  show ?thesis
    unfolding four_step_row_kernel_def N_def [symmetric]
  proof (rule runs_then, rule runs_row_pass [OF leaf(1) packs(1) tw, folded N_def])
    show "fits d ?s1 (c * N)" by (rule fit1)
    show "in_bounds d a \<and> fst a \<noteq> fst ?s1" if "b < c" "i < N" "a \<in> set [cell inp (b * N + i)]" for b i a
      using that in_bounds_cell [OF fit(1) row_less] io W by auto
    show "?K (d\<lparr>d_ticks := t\<rparr>)" for t using I' by simp
    fix d1 assume s1: "same_but ?s1 (c * N) d d1" and v1: "\<And>b g k. b < c \<Longrightarrow> g < n2 \<Longrightarrow> k < n1 \<Longrightarrow>
        d_mem d1 (cell ?s1 (b * N + (g * n1 + k))) =
        dft s n1 (\<lambda>j. d_mem d (cell inp (b * N + (j * n2 + g)))) k * (if fused then unity s (g * k) N else 1)"
    have k1: "kept W out (c * N) d d1" using W by (intro kept_launch [OF s1]) auto
    show "runs mc ?K (xbind (launch mc (four_step_col_kernel mc s n1 n2 fused cp tw ?s1 out (ceil_div_nat n1 cp) c)) (\<lambda>_.
        xret FLAGFFT_SUCCESS)) d1 ?R"
      unfolding four_step_col_kernel_def N_def [symmetric]
    proof (rule runs_then, rule runs_col_pass [OF leaf(2) packs(2) tw, folded N_def])
      show "fits d1 ?s1 (c * N)" "fits d1 out (c * N)" using fit1 fit(2) same_but_fits [OF s1] by blast+
      show "fst ?s1 \<noteq> fst out" using io W by auto
      show "?K (d1\<lparr>d_ticks := t\<rparr>)" for t using I' k1 same_but_size [OF s1] by simp
      show "d_mem d1 (cell ?s1 (b * N + (g * n1 + k))) =
        dft s n1 (\<lambda>j. (\<lambda>b i. d_mem d (cell inp (b * N + i))) b (j * n2 + g)) k * (if fused then unity s (g * k) N else 1)"
        if "b < c" "g < n2" "k < n1" for b g k using v1 [OF that] .
      fix d2 assume s2: "same_but out (c * N) d1 d2"
        and v2: "\<And>b i. b < c \<Longrightarrow> i < N \<Longrightarrow> d_mem d2 (cell out (b * N + i)) = dft s N ((\<lambda>b i. d_mem d (cell inp (b * N + i))) b) i"
      have "kept W out (c * N) d d2" by (rule kept_trans [OF k1 kept_launch [OF s2]]) simp
      then show "runs mc ?K (xret FLAGFFT_SUCCESS) d2 ?R"
        using v2 I' same_but_size [OF s1] same_but_size [OF s2] by (intro runs_ret) (simp add: node_result_def transformed_def)
    qed simp_all
  qed simp
qed

lemma four_step_fused_node:
  "dft_node mc s (n1 * n2) B {st} (four_step_fused_inv mc s n1 n2 B rp cp tw st)
     (guarded (execute_four_step_fused mc n1 n2 s fused rp cp tw st))"
proof
  let ?W = "{st}" and ?I = "four_step_fused_inv mc s n1 n2 B rp cp tw st" and ?N = "n1 * n2"
  fix d inp out k assume I: "?I d" and args: "args_ok d ?W ?N B inp out k"
  have "runs mc (\<lambda>d'. ?I d' \<and> kept ?W out (k * ?N) d d') (execute_four_step_fused mc n1 n2 s fused rp cp tw st inp out k) d
      (node_result mc s ?N ?W ?I inp out k d)"
  proof -
    obtain chunk where chunk: "four_step_fused_chunk mc n1 n2 rp cp k = Inr chunk" "k = 0 \<or> 0 < chunk"
      using four_step_fused_chunk_eq [OF I] .
    have body: "runs mc (\<lambda>d'. ?I d' \<and> kept ?W (advance out (off * ?N)) (c * ?N) d2 d')
        (xbind (launch mc (four_step_row_kernel mc s n1 n2 fused rp tw (advance inp (off * ?N)) (st, off * ?N) (ceil_div_nat n2 rp) c)) (\<lambda>_.
         xbind (launch mc (four_step_col_kernel mc s n1 n2 fused cp tw (st, off * ?N) (advance out (off * ?N)) (ceil_div_nat n1 cp) c)) (\<lambda>_.
         xret FLAGFFT_SUCCESS))) d2 (node_result mc s ?N ?W ?I (advance inp (off * ?N)) (advance out (off * ?N)) c d2)"
      if "?I d2" and size: "d_size d2 = d_size d" and offs: "off + c \<le> k" for d2 off c
    proof -
      have "off * ?N + c * ?N \<le> k * ?N" using offs by (simp flip: add_mult_distrib)
      then have "fits d2 (advance inp (off * ?N)) (c * ?N)" "fits d2 (advance out (off * ?N)) (c * ?N)"
        using args fits_same [OF size] by (auto simp: args_ok_def intro: fits_advance)
      with that args show ?thesis by (intro runs_four_step_fused_chunk [OF refl]) (simp_all add: args_ok_def)
    qed
    show ?thesis
      unfolding execute_four_step_fused_def chunk(1) sum.case Let_def
    proof (cases "k = 0")
      case False
      then have "0 < chunk" using chunk(2) by simp
      then show "runs mc (\<lambda>d'. ?I d' \<and> kept ?W out (k * ?N) d d') (for_chunks chunk k 0 (\<lambda>off c.
         xbind (launch mc (four_step_row_kernel mc s n1 n2 fused rp tw (advance inp (off * ?N)) (st, off * ?N) (ceil_div_nat n2 rp) c)) (\<lambda>_.
         xbind (launch mc (four_step_col_kernel mc s n1 n2 fused cp tw (st, off * ?N) (advance out (off * ?N)) (ceil_div_nat n1 cp) c)) (\<lambda>_.
         xret FLAGFFT_SUCCESS)))) d (node_result mc s ?N ?W ?I inp out k d)"
        using body by (rule runs_node_chunks [where I = ?I and d = d, OF I args])
    qed (use I in \<open>auto simp: for_chunks.simps node_result_def transformed_def\<close>)
  qed
  then show "runs mc (\<lambda>_. False) (guarded (execute_four_step_fused mc n1 n2 s fused rp cp tw st) inp out k) d
      (node_result mc s ?N ?W ?I inp out k d)" by (rule runs_guarded)
qed (auto simp: four_step_fused_inv_def same_on_def)


end
