(* ===== verification/FFT_ExecFusedConv.thy ===== *)
theory FFT_ExecFusedConv
  imports FFT_ExecFusedFacts
begin

text \<open>The fused Bluestein nodes: one leaf in one kernel or two, and a convolution split in four steps.\<close>

lemma chirped_circular:
  assumes m: "2 * n \<le> m + 1" and chirp: "chirp_table s n chirp" and samples: "chirp_samples s n m bt" and q: "q < n"
  shows "cnj (dft (- 1) m (\<lambda>i. cnj (dft (- 1) m (chirped n chirp inp mem b) i * dft (- 1) m bt i)) q) / of_nat m * chirp ! q =
    dft s n (\<lambda>i. mem (cell inp (b * n + i))) q"
proof -
  have "q < m" using m q by simp
  then show ?thesis
    unfolding convolved [OF \<open>q < m\<close>] by (intro bluestein_rows [OF m chirp samples q]) (simp add: chirped_def)
qed

lemma chirp_defined: "chirp_table s n chirp \<Longrightarrow> chirp_defined n m chirp"
  by (simp add: chirp_table_def chirp_defined_def)

lemma chirp_loads_row: "a \<in> set (chirp_loads n m inp b) \<Longrightarrow> \<exists>i < n. a = cell inp (b * n + i)"
  by (auto simp: chirp_loads_def)

lemma same_on_size: "same_on V d d' \<Longrightarrow> d_size d' = d_size d"
  by (simp add: same_on_def)

definition fused_conv_inv ::
  "int \<Rightarrow> nat \<Rightarrow> nat \<Rightarrow> nat \<Rightarrow> nat set \<Rightarrow> (dev \<Rightarrow> bool) \<Rightarrow> complex list \<Rightarrow> nat \<Rightarrow> nat \<Rightarrow> dev \<Rightarrow> bool" where
  "fused_conv_inv s n m B V J chirp b_time b_fft_buf d \<longleftrightarrow>
     kernel_inv m V J b_time b_fft_buf d \<and> 0 < B \<and> 2 * n \<le> m + 1 \<and> chirp_table s n chirp \<and>
     chirp_samples s n m (\<lambda>i. d_mem d (b_time, i))"

context dft_node
begin

lemma fused_conv_inv_local:
  assumes "fused_conv_inv sg len n B W I chirp b bf d" and "same_on (W \<union> {b, bf}) d d'"
  shows "fused_conv_inv sg len n B W I chirp b bf d'"
  using assms kernel_inv_local [of b bf d d'] by (auto simp: fused_conv_inv_def same_on_def)

lemma runs_fused_ensure:
  assumes s: "s = - 1" and inv: "fused_conv_inv sg len n B W I chirp b bf d" and U: "W \<union> {b, bf} \<subseteq> U"
    and io: "fst inp \<notin> U"
    and ok: "\<And>d'. fused_conv_inv sg len n B W I chirp b bf d' \<Longrightarrow> d_ready d' bf \<Longrightarrow> kept U out l d d' \<Longrightarrow>
        (\<And>i. d_mem d' (cell inp i) = d_mem d (cell inp i)) \<Longrightarrow> runs mc K g d' Q"
    and fail: "\<And>d'. fused_conv_inv sg len n B W I chirp b bf d' \<Longrightarrow> kept U out l d d' \<Longrightarrow> K d'"
  shows "runs mc K (xbind (ensure_b_fft what f b bf) (\<lambda>_. g)) d Q"
proof (rule runs_then, rule runs_ensure_samples [where P = "chirp_samples sg len n", OF s])
  show "0 < B" "kernel_inv n W I b bf d" "chirp_samples sg len n (\<lambda>i. d_mem d (b, i))"
    using inv by (simp_all add: fused_conv_inv_def)
  show "W \<union> {bf} \<subseteq> U" using U by blast
  fix d' assume d': "kernel_inv n W I b bf d'" "chirp_samples sg len n (\<lambda>i. d_mem d' (b, i))" "kept U out l d d'"
  then have inv': "fused_conv_inv sg len n B W I chirp b bf d'" using inv by (simp add: fused_conv_inv_def)
  show "K d'" by (rule fail [OF inv' d'(3)])
  show "runs mc K g d' Q" if "d_ready d' bf" "\<And>x. fst x \<notin> U \<Longrightarrow> d_mem d' x = d_mem d x"
    using that io by (intro ok [OF inv' that(1) d'(3)]) simp
qed

lemma bluestein_full_leaf_node:
  assumes s: "s = - 1" and leaf: "computes_dft (mc_leaf mc) (- 1) n" and pack: "0 < bpb"
  shows "dft_node mc sg len C (W \<union> {b, bf}) (fused_conv_inv sg len n B W I chirp b bf)
    (guarded (execute_bluestein_full_leaf mc len n f bpb chirp b bf))"
proof
  let ?U = "W \<union> {b, bf}" and ?J = "fused_conv_inv sg len n B W I chirp b bf"
  fix d inp out k assume J: "?J d" and args: "args_ok d ?U len C inp out k"
  let ?K = "\<lambda>d'. ?J d' \<and> kept ?U out (k * len) d d'"
  have away: "fst inp \<notin> ?U" "fst out \<notin> ?U" "fst inp \<noteq> fst out \<or> inp = out" and fit: "fits d inp (k * len)" "fits d out (k * len)"
    using args by (auto simp: args_ok_def)
  have "runs mc ?K (execute_bluestein_full_leaf mc len n f bpb chirp b bf inp out k) d (node_result mc sg len ?U ?J inp out k d)"
    unfolding execute_bluestein_full_leaf_def
  proof (rule runs_fused_ensure [OF s J order_refl away(1)])
    fix d1 assume J1: "?J d1" and ready: "d_ready d1 bf" and k1: "kept ?U out (k * len) d d1"
      and same: "\<And>i. d_mem d1 (cell inp i) = d_mem d (cell inp i)"
    define bt where "bt = (\<lambda>i. d_mem d1 (b, i))"
    have m: "2 * len \<le> n + 1" and chirp: "chirp_table sg len chirp" and samples: "chirp_samples sg len n bt"
      and fft: "\<And>i. i < n \<Longrightarrow> d_mem d1 (cell (bf, 0) i) = dft (- 1) n bt i" and fitb: "fits d1 (bf, 0) n"
      using J1 ready by (simp_all add: fused_conv_inv_def kernel_inv_def bt_def cell_def fits_def)
    have fit1: "fits d1 inp (k * len)" "fits d1 out (k * len)" using fit kept_fits [OF k1] by blast+
    have J2: "?J d2" if "same_but out l d1 d2" for d2 l
      using away(2) by (intro fused_conv_inv_local [OF J1] same_on_launch [OF that]) auto
    show "runs mc ?K (xbind (launch mc (bluestein_full_leaf_kernel mc len n bpb inp (bf, 0) chirp out (ceil_div_nat k bpb) k)) (\<lambda>_.
        xret FLAGFFT_SUCCESS)) d1 (node_result mc sg len ?U ?J inp out k d)"
      unfolding bluestein_full_leaf_kernel_def
    proof (rule runs_then, rule runs_rows [where \<pi> = "\<lambda>_ j. j" and M = len and out = out and gy = k and gx = 1])
      show "distinct (batch_points bpb (ceil_div_nat k bpb) k)"
        "x \<in> set (batch_points bpb (ceil_div_nat k bpb) k) \<longleftrightarrow> fst x < k \<and> snd x < 1" for x
        by (rule batch_points_facts [OF pack])+
      show "in_bounds d1 a" if "j < k" "a \<in> set (chirp_loads len n inp j @ map (cell (bf, 0)) [0..<n])" for j a
        using that chirp_loads_row [of a len n inp j] in_bounds_cell [OF fit1(1)] in_bounds_cell [OF fitb] row_less [of j k _ len] by auto
      show "fst a \<noteq> fst out \<or> (1::nat) = 1 \<and> (\<exists>i<len. a = cell out (j * len + i))"
        if "a \<in> set (chirp_loads len n inp j @ map (cell (bf, 0)) [0..<n])" for j a
        using that chirp_loads_row [of a len n inp j] away by auto
      show "?K (d1\<lparr>d_ticks := t\<rparr>)" for t using J2 [of 0 "d1\<lparr>d_ticks := t\<rparr>"] k1 by (simp add: same_but_def)
      fix d2 assume s2: "same_but out (k * len) d1 d2" and v2: "\<And>j (g::nat) q. j < k \<Longrightarrow> g < 1 \<Longrightarrow> q < n \<Longrightarrow> q < len \<Longrightarrow>
        d_mem d2 (cell out (j * len + q)) = (let first_pass = mc_leaf mc (- 1) n (map (chirped len chirp inp (d_mem d1) j) [0..<n])
          in cnj (mc_leaf mc (- 1) n (map (\<lambda>i. cnj (first_pass ! i * d_mem d1 (cell (bf, 0) i))) [0..<n]) ! q) / of_nat n * chirp ! q)"
      have "d_mem d2 (cell out (j * len + q)) = dft sg len (\<lambda>i. d_mem d (cell inp (j * len + i))) q" if "j < k" "q < len" for j q
      proof -
        have q: "q < n" using that(2) m by simp
        have "d_mem d2 (cell out (j * len + q)) = cnj (dft (- 1) n (\<lambda>i. cnj (mc_leaf mc (- 1) n
            (map (chirped len chirp inp (d_mem d1) j) [0..<n]) ! i * d_mem d1 (cell (bf, 0) i))) q) / of_nat n * chirp ! q"
          using v2 [OF that(1) zero_less_one q that(2)] by (simp add: computes_dft_nth [OF leaf q])
        also have "dft (- 1) n (\<lambda>i. cnj (mc_leaf mc (- 1) n (map (chirped len chirp inp (d_mem d1) j) [0..<n]) ! i * d_mem d1 (cell (bf, 0) i))) =
            dft (- 1) n (\<lambda>i. cnj (dft (- 1) n (chirped len chirp inp (d_mem d1) j) i * dft (- 1) n bt i))"
          by (rule dft_cong) (simp add: computes_dft_nth [OF leaf] fft)
        finally show ?thesis unfolding chirped_circular [OF m chirp samples that(2)] same .
      qed
      moreover have "kept ?U out (k * len) d d2" by (rule kept_trans [OF k1 kept_launch [OF s2]]) simp
      ultimately show "runs mc ?K (xret FLAGFFT_SUCCESS) d2 (node_result mc sg len ?U ?J inp out k d)"
        using J2 [OF s2] by (intro runs_ret) (simp add: node_result_def transformed_def)
    qed (use fit1 chirp_defined [OF chirp] in auto)
  qed simp
  then show "runs mc (\<lambda>_. False) (guarded (execute_bluestein_full_leaf mc len n f bpb chirp b bf) inp out k) d
      (node_result mc sg len ?U ?J inp out k d)" by (rule runs_guarded)
next
  fix d d' assume "fused_conv_inv sg len n B W I chirp b bf d" and "same_on (W \<union> {b, bf}) d d'"
  then show "fused_conv_inv sg len n B W I chirp b bf d'" by (rule fused_conv_inv_local)
qed

lemma bluestein_leaf_node:
  assumes s: "s = - 1" and leaf: "computes_dft (mc_leaf mc) (- 1) n" and packs: "0 < pp" "0 < fp" and w: "w \<notin> W \<union> {b, bf}"
  shows "dft_node mc sg len C (W \<union> {b, bf} \<union> {w}) (\<lambda>d. fused_conv_inv sg len n B W I chirp b bf d \<and> d_size d w = C * n)
    (guarded (execute_bluestein_leaf mc len n f pp fp chirp b w bf))"
proof
  let ?U = "W \<union> {b, bf} \<union> {w}" and ?J = "\<lambda>d. fused_conv_inv sg len n B W I chirp b bf d \<and> d_size d w = C * n"
  fix d inp out k assume J: "?J d" and args: "args_ok d ?U len C inp out k"
  let ?K = "\<lambda>d'. ?J d' \<and> kept ?U out (k * len) d d'"
  have away: "fst inp \<notin> ?U" "fst out \<notin> ?U" and fit: "fits d inp (k * len)" "fits d out (k * len)" and "k \<le> C"
    using args by (auto simp: args_ok_def)
  have kC: "k * n \<le> C * n" using \<open>k \<le> C\<close> by simp
  have "runs mc ?K (execute_bluestein_leaf mc len n f pp fp chirp b w bf inp out k) d (node_result mc sg len ?U ?J inp out k d)"
    unfolding execute_bluestein_leaf_def
  proof (rule runs_fused_ensure [OF s conjunct1 [OF J] _ away(1)])
    fix d1 assume J1: "fused_conv_inv sg len n B W I chirp b bf d1" and ready: "d_ready d1 bf" and k1: "kept ?U out (k * len) d d1"
      and same: "\<And>i. d_mem d1 (cell inp i) = d_mem d (cell inp i)"
    define bt where "bt = (\<lambda>i. d_mem d1 (b, i))"
    have m: "2 * len \<le> n + 1" and chirp: "chirp_table sg len chirp" and samples: "chirp_samples sg len n bt"
      and fft: "\<And>i. i < n \<Longrightarrow> d_mem d1 (cell (bf, 0) i) = dft (- 1) n bt i" and fitb: "fits d1 (bf, 0) n"
      using J1 ready by (simp_all add: fused_conv_inv_def kernel_inv_def bt_def cell_def fits_def)
    have fit1: "fits d1 inp (k * len)" "fits d1 out (k * len)" "fits d1 (w, 0) (k * n)"
      using fit kept_fits [OF k1] J kept_size [OF k1] kC by (auto simp: fits_def)
    have J2: "?J d3" if "?J d2" "same_but p l d2 d3" "fst p = w \<or> p = out" for d2 d3 p l
      using that(1) fused_conv_inv_local [OF _ same_on_launch [OF that(2)]] that(3) w away(2) same_but_size [OF that(2)] by auto
    have J1': "?J d1" using J1 J kept_size [OF k1] by simp
    show "runs mc ?K (xbind (launch mc (bluestein_prepare_leaf_kernel mc len n pp inp chirp (w, 0) (ceil_div_nat k pp) k)) (\<lambda>_.
        xbind (launch mc (bluestein_finish_leaf_kernel mc len n fp (w, 0) (bf, 0) chirp out (ceil_div_nat k fp) k)) (\<lambda>_.
        xret FLAGFFT_SUCCESS))) d1 (node_result mc sg len ?U ?J inp out k d)"
      unfolding bluestein_prepare_leaf_kernel_def
    proof (rule runs_then, rule runs_rows [where \<pi> = "\<lambda>_ j. j" and M = n and out = "(w, 0)" and gy = k and gx = 1])
      show "distinct (batch_points pp (ceil_div_nat k pp) k)"
        "x \<in> set (batch_points pp (ceil_div_nat k pp) k) \<longleftrightarrow> fst x < k \<and> snd x < 1" for x
        by (rule batch_points_facts [OF packs(1)])+
      show "in_bounds d1 a" if "j < k" "a \<in> set (chirp_loads len n inp j)" for j a
        using chirp_loads_row [OF that(2)] in_bounds_cell [OF fit1(1)] row_less [of j k _ len] that(1) by auto
      show "fst a \<noteq> fst (w, 0) \<or> (1::nat) = 1 \<and> (\<exists>i<n. a = cell (w, 0) (j * n + i))" if "a \<in> set (chirp_loads len n inp j)" for j a
        using chirp_loads_row [OF that] away(1) by auto
      show "?K (d1\<lparr>d_ticks := t\<rparr>)" for t using J2 [OF J1', of out 0 "d1\<lparr>d_ticks := t\<rparr>"] k1 by (simp add: same_but_def)
      fix d2 assume s2: "same_but (w, 0) (k * n) d1 d2" and v2: "\<And>j (g::nat) q. j < k \<Longrightarrow> g < 1 \<Longrightarrow> q < n \<Longrightarrow> True \<Longrightarrow>
        d_mem d2 (cell (w, 0) (j * n + q)) = mc_leaf mc (- 1) n (map (chirped len chirp inp (d_mem d1) j) [0..<n]) ! q"
      have k2: "kept ?U out (k * len) d d2" by (rule kept_trans [OF k1 kept_launch [OF s2]]) simp
      have v: "d_mem d2 (cell (w, 0) (j * n + q)) = dft (- 1) n (chirped len chirp inp (d_mem d1) j) q" if "j < k" "q < n" for j q
        using v2 [OF that(1) zero_less_one that(2)] by (simp add: computes_dft_nth [OF leaf that(2)])
      have fft2: "d_mem d2 (cell (bf, 0) i) = dft (- 1) n bt i" if "i < n" for i
        using same_but_other [OF s2, of "cell (bf, 0) i"] w fft [OF that] by auto
      have fit2: "fits d2 p l \<longleftrightarrow> fits d1 p l" for p l using same_but_fits [OF s2] .
      have J2': "?J d2" using J2 [OF J1' s2] by simp
      show "runs mc ?K (xbind (launch mc (bluestein_finish_leaf_kernel mc len n fp (w, 0) (bf, 0) chirp out (ceil_div_nat k fp) k)) (\<lambda>_.
          xret FLAGFFT_SUCCESS)) d2 (node_result mc sg len ?U ?J inp out k d)"
        unfolding bluestein_finish_leaf_kernel_def
      proof (rule runs_then, rule runs_rows [where \<pi> = "\<lambda>_ j. j" and M = len and out = out and gy = k and gx = 1])
        show "distinct (batch_points fp (ceil_div_nat k fp) k)"
          "x \<in> set (batch_points fp (ceil_div_nat k fp) k) \<longleftrightarrow> fst x < k \<and> snd x < 1" for x
          by (rule batch_points_facts [OF packs(2)])+
        show "in_bounds d2 a" if "j < k" "a \<in> set (map (\<lambda>i. cell (w, 0) (j * n + i)) [0..<n] @ map (cell (bf, 0)) [0..<n])" for j a
          using that in_bounds_cell [of d2 "(w, 0)" "k * n"] in_bounds_cell [of d2 "(bf, 0)" n] fit2 fit1(3) fitb row_less [of j k _ n] by auto
        show "fst a \<noteq> fst out \<or> (1::nat) = 1 \<and> (\<exists>i<len. a = cell out (j * len + i))"
          if "a \<in> set (map (\<lambda>i. cell (w, 0) (j * n + i)) [0..<n] @ map (cell (bf, 0)) [0..<n])" for j a
          using that away(2) by auto
        show "?K (d2\<lparr>d_ticks := t\<rparr>)" for t using J2 [OF J2', of out 0 "d2\<lparr>d_ticks := t\<rparr>"] k2 by (simp add: same_but_def)
        fix d3 assume s3: "same_but out (k * len) d2 d3" and v3: "\<And>j (g::nat) q. j < k \<Longrightarrow> g < 1 \<Longrightarrow> q < n \<Longrightarrow> q < len \<Longrightarrow>
          d_mem d3 (cell out (j * len + q)) = cnj (mc_leaf mc (- 1) n (map (\<lambda>i. cnj (d_mem d2 (cell (w, 0) (j * n + i)) *
            d_mem d2 (cell (bf, 0) i))) [0..<n]) ! q) / of_nat n * chirp ! q"
        have "d_mem d3 (cell out (j * len + q)) = dft sg len (\<lambda>i. d_mem d (cell inp (j * len + i))) q" if "j < k" "q < len" for j q
        proof -
          have q: "q < n" using that(2) m by simp
          have "d_mem d3 (cell out (j * len + q)) = cnj (dft (- 1) n (\<lambda>i. cnj (d_mem d2 (cell (w, 0) (j * n + i)) *
              d_mem d2 (cell (bf, 0) i))) q) / of_nat n * chirp ! q"
            using v3 [OF that(1) zero_less_one q that(2)] by (simp add: computes_dft_nth [OF leaf q])
          also have "dft (- 1) n (\<lambda>i. cnj (d_mem d2 (cell (w, 0) (j * n + i)) * d_mem d2 (cell (bf, 0) i))) =
              dft (- 1) n (\<lambda>i. cnj (dft (- 1) n (chirped len chirp inp (d_mem d1) j) i * dft (- 1) n bt i))"
            by (rule dft_cong) (simp add: v [OF that(1)] fft2)
          finally show ?thesis unfolding chirped_circular [OF m chirp samples that(2)] same .
        qed
        moreover have "kept ?U out (k * len) d d3" by (rule kept_trans [OF k2 kept_launch [OF s3]]) simp
        ultimately show "runs mc ?K (xret FLAGFFT_SUCCESS) d3 (node_result mc sg len ?U ?J inp out k d)"
          using J2 [OF J2' s3] by (intro runs_ret) (simp add: node_result_def transformed_def)
      qed (use fit1 fit2 chirp_defined [OF chirp] in auto)
    qed (use fit1 chirp_defined [OF chirp] in auto)
  next
    show "?K d'" if "fused_conv_inv sg len n B W I chirp b bf d'" "kept ?U out (k * len) d d'" for d'
      using that J kept_size [OF that(2)] by simp
  qed auto
  then show "runs mc (\<lambda>_. False) (guarded (execute_bluestein_leaf mc len n f pp fp chirp b w bf) inp out k) d
      (node_result mc sg len ?U ?J inp out k d)" by (rule runs_guarded)
next
  fix d d' assume J: "fused_conv_inv sg len n B W I chirp b bf d \<and> d_size d w = C * n" and same: "same_on (W \<union> {b, bf} \<union> {w}) d d'"
  have "same_on (W \<union> {b, bf}) d d'" using same by (auto simp: same_on_def)
  then show "fused_conv_inv sg len n B W I chirp b bf d' \<and> d_size d' w = C * n"
    using fused_conv_inv_local [OF conjunct1 [OF J]] J same_on_size [OF same] by simp
qed

lemma bluestein_four_step_node:
  assumes s: "s = - 1" and n: "n = n1 * n2" and leaf: "computes_dft (mc_leaf mc) (- 1) n1" "computes_dft (mc_leaf mc) (- 1) n2"
    and packs: "0 < rp" "0 < cp" "0 < pp" "0 < fp" and tw: "twiddle_table (- 1) n1 n2 tw"
    and bufs: "a \<noteq> w" "{a, w} \<inter> (W \<union> {b, bf}) = {}"
  shows "dft_node mc sg len C (W \<union> {b, bf} \<union> {a, w})
    (\<lambda>d. fused_conv_inv sg len n B W I chirp b bf d \<and> d_size d a = C * n \<and> d_size d w = C * n)
    (guarded (execute_bluestein_four_step mc len n1 n2 f fused rp cp pp fp tw chirp b a w bf))"
proof
  let ?U = "W \<union> {b, bf} \<union> {a, w}" and ?J = "\<lambda>d. fused_conv_inv sg len n B W I chirp b bf d \<and> d_size d a = C * n \<and> d_size d w = C * n"
  fix d inp out k assume J: "?J d" and args: "args_ok d ?U len C inp out k"
  let ?K = "\<lambda>d'. ?J d' \<and> kept ?U out (k * len) d d'" and ?R = "node_result mc sg len ?U ?J inp out k d"
  have away: "fst inp \<notin> ?U" "fst out \<notin> ?U" and fit: "fits d inp (k * len)" "fits d out (k * len)" and "k \<le> C"
    using args by (auto simp: args_ok_def)
  have kC: "k * n \<le> C * n" using \<open>k \<le> C\<close> by simp
  have launched: "?K d2" if "?K d1" "same_but p l d1 d2" "fst p \<in> {a, w} \<or> p = out \<and> l \<le> k * len" for d1 d2 p l
  proof -
    have "fst p \<notin> W \<union> {b, bf}" using that(3) bufs away(2) by auto
    then have "?J d2" using that(1) fused_conv_inv_local [OF _ same_on_launch [OF that(2)]] same_but_size [OF that(2)] by auto
    moreover have "kept ?U out (k * len) d1 d2"
      using that(3) cells_advance [of 0 l "k * len" out] by (intro kept_launch [OF that(2)]) auto
    ultimately show ?thesis using that(1) kept_trans by blast
  qed
  have ticks: "?K (d1\<lparr>d_ticks := t\<rparr>)" if "?K d1" for d1 t by (rule launched [OF that, of out 0]) (simp_all add: same_but_def)
  have fits: "fits d' (a, 0) (k * n)" "fits d' (w, 0) (k * n)" "fits d' inp (k * len)" "fits d' out (k * len)" "fits d' (bf, 0) n" if "?K d'" for d'
    using that fit kept_fits [of ?U out "k * len" d d'] kC by (auto simp: fits_def fused_conv_inv_def kernel_inv_def)
  have "runs mc ?K (execute_bluestein_four_step mc len n1 n2 f fused rp cp pp fp tw chirp b a w bf inp out k) d ?R"
    unfolding execute_bluestein_four_step_def
  proof (rule runs_fused_ensure [OF s conjunct1 [OF J] _ away(1)])
    fix d1 assume J1: "fused_conv_inv sg len n B W I chirp b bf d1" and ready: "d_ready d1 bf" and k1: "kept ?U out (k * len) d d1"
      and same: "\<And>i. d_mem d1 (cell inp i) = d_mem d (cell inp i)"
    have K1: "?K d1" using J1 J k1 kept_size [OF k1] by simp
    define bt where "bt = (\<lambda>i. d_mem d1 (b, i))"
    define A where "A j = chirped len chirp inp (d_mem d1) j" for j
    have m: "2 * len \<le> n + 1" and chirp: "chirp_table sg len chirp" and samples: "chirp_samples sg len n bt"
      and fft: "\<And>i. i < n \<Longrightarrow> d_mem d1 (cell (bf, 0) i) = dft (- 1) n bt i"
      using J1 ready by (simp_all add: fused_conv_inv_def kernel_inv_def bt_def cell_def)
    have table: "length chirp = len" "len \<le> n" using chirp m by (simp_all add: chirp_table_def)
    let ?fin = "\<lambda>i y. cnj y / complex_of_nat n * chirp ! i"
    have finish: "runs mc ?K (xbind (launch mc (bluestein_four_step_finish_col_kernel mc len n1 n2 fused fp tw (a, 0) chirp out (ceil_div_nat n1 fp) k)) (\<lambda>_.
        xret FLAGFFT_SUCCESS)) d4 ?R"
      if K4: "?K d4" and v4: "\<And>j g q. j < k \<Longrightarrow> g < n2 \<Longrightarrow> q < n1 \<Longrightarrow> d_mem d4 (cell (a, 0) (j * n + (g * n1 + q))) =
        dft (- 1) n1 (\<lambda>l. cnj (dft (- 1) n (A j) (l * n2 + g) * dft (- 1) n bt (l * n2 + g))) q * (if fused then unity (- 1) (g * q) n else 1)" for d4
      unfolding bluestein_four_step_finish_col_kernel_def n [symmetric]
    proof (rule runs_then, rule runs_col_pass [OF leaf(2) packs(4) tw, folded n])
      show "d_mem d4 (cell (a, 0) (j * n + (g * n1 + q))) =
        dft (- 1) n1 (\<lambda>l. (\<lambda>j i. cnj (dft (- 1) n (A j) i * dft (- 1) n bt i)) j (l * n2 + g)) q * (if fused then unity (- 1) (g * q) n else 1)"
        if "j < k" "g < n2" "q < n1" for j g q using v4 [OF that] .
      fix d5 assume s5: "same_but out (k * len) d4 d5" and v5: "\<And>j i. j < k \<Longrightarrow> i < len \<Longrightarrow>
        d_mem d5 (cell out (j * len + i)) = ?fin i (dft (- 1) n ((\<lambda>j i. cnj (dft (- 1) n (A j) i * dft (- 1) n bt i)) j) i)"
      have "d_mem d5 (cell out (j * len + q)) = dft sg len (\<lambda>i. d_mem d (cell inp (j * len + i))) q" if "j < k" "q < len" for j q
        unfolding v5 [OF that] A_def chirped_circular [OF m chirp samples that(2)] same ..
      then show "runs mc ?K (xret FLAGFFT_SUCCESS) d5 ?R"
        using launched [OF K4 s5] by (intro runs_ret) (simp add: node_result_def transformed_def)
    qed (use fits [OF K4] away bufs table ticks [OF K4] in auto)
    have pointwise: "runs mc ?K (xbind (launch mc (bluestein_four_step_pointwise_row_kernel mc n1 n2 fused pp tw (w, 0) (bf, 0) (a, 0) (ceil_div_nat n2 pp) k)) (\<lambda>_.
        xbind (launch mc (bluestein_four_step_finish_col_kernel mc len n1 n2 fused fp tw (a, 0) chirp out (ceil_div_nat n1 fp) k)) (\<lambda>_.
        xret FLAGFFT_SUCCESS))) d3 ?R"
      if K3: "?K d3" and v3: "\<And>j i. j < k \<Longrightarrow> i < n \<Longrightarrow> d_mem d3 (cell (w, 0) (j * n + i)) = dft (- 1) n (A j) i"
        and f3: "\<And>i. i < n \<Longrightarrow> d_mem d3 (cell (bf, 0) i) = dft (- 1) n bt i" for d3
      unfolding bluestein_four_step_pointwise_row_kernel_def n [symmetric]
    proof (rule runs_then, rule runs_row_pass [OF leaf(1) packs(3) tw, folded n])
      show "in_bounds d3 x \<and> fst x \<noteq> fst (a, 0)" if "j < k" "i < n" "x \<in> set [cell (w, 0) (j * n + i), cell (bf, 0) i]" for j i x
        using that in_bounds_cell [OF fits(2) [OF K3] row_less] in_bounds_cell [OF fits(5) [OF K3]] bufs by auto
      fix d4 assume s4: "same_but (a, 0) (k * n) d3 d4" and v4: "\<And>j g q. j < k \<Longrightarrow> g < n2 \<Longrightarrow> q < n1 \<Longrightarrow>
        d_mem d4 (cell (a, 0) (j * n + (g * n1 + q))) =
        dft (- 1) n1 (\<lambda>l. cnj (d_mem d3 (cell (w, 0) (j * n + (l * n2 + g))) * d_mem d3 (cell (bf, 0) (l * n2 + g)))) q *
          (if fused then unity (- 1) (g * q) n else 1)"
      have "dft (- 1) n1 (\<lambda>l. cnj (d_mem d3 (cell (w, 0) (j * n + (l * n2 + g))) * d_mem d3 (cell (bf, 0) (l * n2 + g)))) =
          dft (- 1) n1 (\<lambda>l. cnj (dft (- 1) n (A j) (l * n2 + g) * dft (- 1) n bt (l * n2 + g)))" if "j < k" "g < n2" for j g
      proof (rule dft_cong)
        fix l assume "l < n1"
        then have "l * n2 + g < n" using row_less [of l n1 g n2] that(2) n by simp
        then show "cnj (d_mem d3 (cell (w, 0) (j * n + (l * n2 + g))) * d_mem d3 (cell (bf, 0) (l * n2 + g))) =
            cnj (dft (- 1) n (A j) (l * n2 + g) * dft (- 1) n bt (l * n2 + g))" by (simp only: v3 [OF that(1)] f3)
      qed
      then show "runs mc ?K (xbind (launch mc (bluestein_four_step_finish_col_kernel mc len n1 n2 fused fp tw (a, 0) chirp out (ceil_div_nat n1 fp) k)) (\<lambda>_.
          xret FLAGFFT_SUCCESS)) d4 ?R"
        using v4 launched [OF K3 s4] by (intro finish) auto
    qed (use fits [OF K3] ticks [OF K3] in auto)
    have column: "runs mc ?K (xbind (launch mc (four_step_col_kernel mc (- 1) n1 n2 fused cp tw (a, 0) (w, 0) (ceil_div_nat n1 cp) k)) (\<lambda>_.
        xbind (launch mc (bluestein_four_step_pointwise_row_kernel mc n1 n2 fused pp tw (w, 0) (bf, 0) (a, 0) (ceil_div_nat n2 pp) k)) (\<lambda>_.
        xbind (launch mc (bluestein_four_step_finish_col_kernel mc len n1 n2 fused fp tw (a, 0) chirp out (ceil_div_nat n1 fp) k)) (\<lambda>_.
        xret FLAGFFT_SUCCESS)))) d2 ?R"
      if K2: "?K d2" and v2: "\<And>j g q. j < k \<Longrightarrow> g < n2 \<Longrightarrow> q < n1 \<Longrightarrow> d_mem d2 (cell (a, 0) (j * n + (g * n1 + q))) =
        dft (- 1) n1 (\<lambda>l. A j (l * n2 + g)) q * (if fused then unity (- 1) (g * q) n else 1)"
        and f2: "\<And>i. i < n \<Longrightarrow> d_mem d2 (cell (bf, 0) i) = dft (- 1) n bt i" for d2
      unfolding four_step_col_kernel_def n [symmetric]
    proof (rule runs_then, rule runs_col_pass [OF leaf(2) packs(2) tw, folded n])
      show "d_mem d2 (cell (a, 0) (j * n + (g * n1 + q))) = dft (- 1) n1 (\<lambda>l. A j (l * n2 + g)) q * (if fused then unity (- 1) (g * q) n else 1)"
        if "j < k" "g < n2" "q < n1" for j g q using v2 [OF that] .
      fix d3 assume s3: "same_but (w, 0) (k * n) d2 d3" and v3: "\<And>j i. j < k \<Longrightarrow> i < n \<Longrightarrow> d_mem d3 (cell (w, 0) (j * n + i)) = dft (- 1) n (A j) i"
      have "d_mem d3 (cell (bf, 0) i) = dft (- 1) n bt i" if "i < n" for i
        using same_but_other [OF s3, of "cell (bf, 0) i"] f2 [OF that] bufs by auto
      then show "runs mc ?K (xbind (launch mc (bluestein_four_step_pointwise_row_kernel mc n1 n2 fused pp tw (w, 0) (bf, 0) (a, 0) (ceil_div_nat n2 pp) k)) (\<lambda>_.
        xbind (launch mc (bluestein_four_step_finish_col_kernel mc len n1 n2 fused fp tw (a, 0) chirp out (ceil_div_nat n1 fp) k)) (\<lambda>_.
        xret FLAGFFT_SUCCESS))) d3 ?R"
        using launched [OF K2 s3] v3 by (intro pointwise) auto
    qed (use fits [OF K2] bufs ticks [OF K2] in auto)
    show "runs mc ?K (xbind (launch mc (bluestein_four_step_prepare_row_kernel mc len n1 n2 fused rp tw inp chirp (a, 0) (ceil_div_nat n2 rp) k)) (\<lambda>_.
        xbind (launch mc (four_step_col_kernel mc (- 1) n1 n2 fused cp tw (a, 0) (w, 0) (ceil_div_nat n1 cp) k)) (\<lambda>_.
        xbind (launch mc (bluestein_four_step_pointwise_row_kernel mc n1 n2 fused pp tw (w, 0) (bf, 0) (a, 0) (ceil_div_nat n2 pp) k)) (\<lambda>_.
        xbind (launch mc (bluestein_four_step_finish_col_kernel mc len n1 n2 fused fp tw (a, 0) chirp out (ceil_div_nat n1 fp) k)) (\<lambda>_.
        xret FLAGFFT_SUCCESS))))) d1 ?R"
      unfolding bluestein_four_step_prepare_row_kernel_def
    proof (rule runs_then, rule runs_row_pass [OF leaf(1) packs(1) tw, folded n])
      show "in_bounds d1 x \<and> fst x \<noteq> fst (a, 0)" if "j < k" "x \<in> set (if i < len then [cell inp (j * len + i)] else [])" for j i x
        using that in_bounds_cell [OF fits(3) [OF K1] row_less] away by (auto split: if_splits)
      fix d2 assume s2: "same_but (a, 0) (k * n) d1 d2" and v2: "\<And>j g q. j < k \<Longrightarrow> g < n2 \<Longrightarrow> q < n1 \<Longrightarrow>
        d_mem d2 (cell (a, 0) (j * n + (g * n1 + q))) =
        dft (- 1) n1 (\<lambda>l. if l * n2 + g < len then d_mem d1 (cell inp (j * len + (l * n2 + g))) * chirp ! (l * n2 + g) else 0) q *
          (if fused then unity (- 1) (g * q) n else 1)"
      have "d_mem d2 (cell (bf, 0) i) = dft (- 1) n bt i" if "i < n" for i
        using same_but_other [OF s2, of "cell (bf, 0) i"] fft [OF that] bufs by auto
      then show "runs mc ?K (xbind (launch mc (four_step_col_kernel mc (- 1) n1 n2 fused cp tw (a, 0) (w, 0) (ceil_div_nat n1 cp) k)) (\<lambda>_.
        xbind (launch mc (bluestein_four_step_pointwise_row_kernel mc n1 n2 fused pp tw (w, 0) (bf, 0) (a, 0) (ceil_div_nat n2 pp) k)) (\<lambda>_.
        xbind (launch mc (bluestein_four_step_finish_col_kernel mc len n1 n2 fused fp tw (a, 0) chirp out (ceil_div_nat n1 fp) k)) (\<lambda>_.
        xret FLAGFFT_SUCCESS)))) d2 ?R"
        using launched [OF K1 s2] v2 by (intro column) (auto simp: A_def chirped_def)
    qed (use fits [OF K1] table ticks [OF K1] in auto)
  next
    show "?K d'" if "fused_conv_inv sg len n B W I chirp b bf d'" "kept ?U out (k * len) d d'" for d'
      using that J kept_size [OF that(2)] by simp
  qed auto
  then show "runs mc (\<lambda>_. False) (guarded (execute_bluestein_four_step mc len n1 n2 f fused rp cp pp fp tw chirp b a w bf) inp out k) d ?R"
    by (rule runs_guarded)
next
  fix d d' assume J: "fused_conv_inv sg len n B W I chirp b bf d \<and> d_size d a = C * n \<and> d_size d w = C * n"
    and same: "same_on (W \<union> {b, bf} \<union> {a, w}) d d'"
  have "same_on (W \<union> {b, bf}) d d'" using same by (auto simp: same_on_def)
  then show "fused_conv_inv sg len n B W I chirp b bf d' \<and> d_size d' a = C * n \<and> d_size d' w = C * n"
    using fused_conv_inv_local [OF conjunct1 [OF J]] J same_on_size [OF same] by simp
qed

end

end
