(* ===== verification/FFT_ExecTree.thy ===== *)
theory FFT_ExecTree
  imports FFT_ExecStockham FFT_ExecRader FFT_ExecFusedConv
begin

text \<open>
  Whole trees of execution nodes. \<open>node_ok mc nd s B\<close> is the state a compiled node relies on at every depth:
  the tables hold what the kernels read from them, the workspaces are disjoint and large enough for
  \<open>B\<close> batch entries, a convolution's child transforms forward, and a transformed kernel that is marked
  ready is the transform of its samples. Each node is an instance of the locale \<open>dft_node\<close>; the
  interpretation at the end gives it for \<open>execute\<close> itself.
\<close>

section \<open>Nodes\<close>

text \<open>
  The compiled nodes of \<open>src/src/utils/include/flagfft/codegen.hpp\<close>: lengths, children, tables and the
  allocations they own. \<open>execute\<close> is \<open>CompiledRawNode::execute\<close> of each of them.
\<close>

datatype raw_node =
    RawLeaf nat int nat
  | RawDirectDft nat "real list" "real list" nat
  | RawStockham nat "(nat \<times> nat) list" int "complex list" nat nat
  | RawBluestein nat nat nat raw_node "complex list" nat nat nat nat
  | RawBluesteinLeaf nat nat raw_node nat nat "complex list" nat nat nat
  | RawBluesteinFullLeaf nat nat raw_node nat "complex list" nat nat
  | RawBluesteinFourStep nat nat nat nat raw_node bool nat nat nat nat "complex list" "complex list" nat nat nat nat
  | RawRader nat nat raw_node "int list" nat nat nat nat nat
  | RawFourStepFused nat nat nat int bool nat nat "complex list" nat
  | RawFourStepGeneric nat nat nat raw_node raw_node "complex list" nat nat

primrec execute :: "machine \<Rightarrow> raw_node \<Rightarrow> runner" where
  "execute mc (RawLeaf n s batch_per_block) = guarded (execute_leaf mc n s batch_per_block)"
| "execute mc (RawDirectDft n dft_r dft_i input_copy) = guarded (execute_direct_dft mc n dft_r dft_i input_copy)"
| "execute mc (RawStockham n factors s twiddle first_buf second_buf) =
     guarded (execute_stockham mc n factors s twiddle first_buf second_buf)"
| "execute mc (RawBluestein n m batch_chunk fft chirp b_time a_buf work_buf b_fft_buf) =
     guarded (execute_bluestein mc n m batch_chunk (execute mc fft) chirp b_time a_buf work_buf b_fft_buf)"
| "execute mc (RawBluesteinLeaf n m fft prepare_pack finish_pack chirp b_time work_buf b_fft_buf) =
     guarded (execute_bluestein_leaf mc n m (execute mc fft) prepare_pack finish_pack chirp b_time work_buf b_fft_buf)"
| "execute mc (RawBluesteinFullLeaf n m fft batch_per_block chirp b_time b_fft_buf) =
     guarded (execute_bluestein_full_leaf mc n m (execute mc fft) batch_per_block chirp b_time b_fft_buf)"
| "execute mc (RawBluesteinFourStep n m n1 n2 fft fused_twiddle prepare_pack col_pack pointwise_pack finish_pack twiddle chirp b_time stage1 work_buf b_fft_buf) =
     guarded (execute_bluestein_four_step mc n n1 n2 (execute mc fft) fused_twiddle prepare_pack col_pack pointwise_pack finish_pack twiddle chirp b_time stage1 work_buf b_fft_buf)"
| "execute mc (RawRader n m fft idx b_time a_buf work_buf b_fft_buf input_copy) =
     guarded (execute_rader mc n m (execute mc fft) idx b_time a_buf work_buf b_fft_buf input_copy)"
| "execute mc (RawFourStepFused n n1 n2 s fused_twiddle row_pack col_pack twiddle stage1) =
     guarded (execute_four_step_fused mc n1 n2 s fused_twiddle row_pack col_pack twiddle stage1)"
| "execute mc (RawFourStepGeneric n n1 n2 row_child col_child twiddle stage1 stage2) =
     guarded (execute_four_step_generic mc n1 n2 (execute mc row_child) (execute mc col_child) twiddle stage1 stage2)"

primrec raw_length :: "raw_node \<Rightarrow> nat" where
  "raw_length (RawLeaf n s bpb) = n"
| "raw_length (RawDirectDft n dft_r dft_i input_copy) = n"
| "raw_length (RawStockham n factors s twiddle first_buf second_buf) = n"
| "raw_length (RawBluestein n m batch_chunk fft chirp b_time a_buf work_buf b_fft_buf) = n"
| "raw_length (RawBluesteinLeaf n m fft prepare_pack finish_pack chirp b_time work_buf b_fft_buf) = n"
| "raw_length (RawBluesteinFullLeaf n m fft batch_per_block chirp b_time b_fft_buf) = n"
| "raw_length (RawBluesteinFourStep n m n1 n2 fft fused prepare_pack col_pack pointwise_pack finish_pack twiddle chirp b_time stage1 work_buf b_fft_buf) = n"
| "raw_length (RawRader n m fft idx b_time a_buf work_buf b_fft_buf input_copy) = n"
| "raw_length (RawFourStepFused n n1 n2 s fused row_pack col_pack twiddle stage1) = n"
| "raw_length (RawFourStepGeneric n n1 n2 row_child col_child twiddle stage1 stage2) = n"

primrec workspace :: "raw_node \<Rightarrow> nat set" where
  "workspace (RawLeaf n s bpb) = {}"
| "workspace (RawDirectDft n dft_r dft_i input_copy) = {input_copy}"
| "workspace (RawStockham n factors s twiddle first_buf second_buf) = {first_buf, second_buf}"
| "workspace (RawBluestein n m batch_chunk fft chirp b_time a_buf work_buf b_fft_buf) =
     workspace fft \<union> {b_time, a_buf, work_buf, b_fft_buf}"
| "workspace (RawBluesteinLeaf n m fft prepare_pack finish_pack chirp b_time work_buf b_fft_buf) =
     workspace fft \<union> {b_time, b_fft_buf} \<union> {work_buf}"
| "workspace (RawBluesteinFullLeaf n m fft batch_per_block chirp b_time b_fft_buf) = workspace fft \<union> {b_time, b_fft_buf}"
| "workspace (RawBluesteinFourStep n m n1 n2 fft fused prepare_pack col_pack pointwise_pack finish_pack twiddle chirp b_time stage1 work_buf b_fft_buf) =
     workspace fft \<union> {b_time, b_fft_buf} \<union> {stage1, work_buf}"
| "workspace (RawRader n m fft idx b_time a_buf work_buf b_fft_buf input_copy) =
     workspace fft \<union> {b_time, a_buf, work_buf, b_fft_buf, input_copy}"
| "workspace (RawFourStepFused n n1 n2 s fused row_pack col_pack twiddle stage1) = {stage1}"
| "workspace (RawFourStepGeneric n n1 n2 row_child col_child twiddle stage1 stage2) =
     workspace row_child \<union> workspace col_child \<union> {stage1, stage2}"

section \<open>The state of a compiled node\<close>

text \<open>
  \<open>B\<close> is the batch the node was compiled for. The child of a fused Bluestein node runs for one batch entry
  only, so any positive capacity of it will do.
\<close>

primrec node_ok :: "machine \<Rightarrow> raw_node \<Rightarrow> int \<Rightarrow> nat \<Rightarrow> dev \<Rightarrow> bool" where
  "node_ok mc (RawLeaf n t bpb) s B d \<longleftrightarrow> t = s \<and> computes_dft (mc_leaf mc) s n \<and> 0 < bpb"
| "node_ok mc (RawDirectDft n dft_r dft_i input_copy) s B d \<longleftrightarrow> direct_inv s n B dft_r dft_i input_copy d"
| "node_ok mc (RawStockham n factors t twiddle first_buf second_buf) s B d \<longleftrightarrow>
     t = s \<and> stockham_inv mc s n B factors twiddle first_buf second_buf d"
| "node_ok mc (RawBluestein n m batch_chunk fft chirp b_time a_buf work_buf b_fft_buf) s B d \<longleftrightarrow>
     raw_length fft = m \<and> bluestein_inv s n m batch_chunk (workspace fft) (node_ok mc fft (- 1) batch_chunk)
       chirp b_time a_buf work_buf b_fft_buf d"
| "node_ok mc (RawBluesteinLeaf n m fft prepare_pack finish_pack chirp b_time work_buf b_fft_buf) s B d \<longleftrightarrow>
     (raw_length fft = m \<and> computes_dft (mc_leaf mc) (- 1) m \<and> 0 < prepare_pack \<and> 0 < finish_pack \<and>
      work_buf \<notin> workspace fft \<union> {b_time, b_fft_buf}) \<and>
     (\<exists>c. fused_conv_inv s n m c (workspace fft) (node_ok mc fft (- 1) c) chirp b_time b_fft_buf d \<and> d_size d work_buf = B * m)"
| "node_ok mc (RawBluesteinFullLeaf n m fft batch_per_block chirp b_time b_fft_buf) s B d \<longleftrightarrow>
     (raw_length fft = m \<and> computes_dft (mc_leaf mc) (- 1) m \<and> 0 < batch_per_block) \<and>
     (\<exists>c. fused_conv_inv s n m c (workspace fft) (node_ok mc fft (- 1) c) chirp b_time b_fft_buf d)"
| "node_ok mc (RawBluesteinFourStep n m n1 n2 fft fused prepare_pack col_pack pointwise_pack finish_pack twiddle chirp b_time stage1 work_buf b_fft_buf) s B d \<longleftrightarrow>
     (raw_length fft = m \<and> m = n1 * n2 \<and> computes_dft (mc_leaf mc) (- 1) n1 \<and> computes_dft (mc_leaf mc) (- 1) n2 \<and>
      0 < prepare_pack \<and> 0 < col_pack \<and> 0 < pointwise_pack \<and> 0 < finish_pack \<and> twiddle_table (- 1) n1 n2 twiddle \<and> stage1 \<noteq> work_buf \<and>
      {stage1, work_buf} \<inter> (workspace fft \<union> {b_time, b_fft_buf}) = {}) \<and>
     (\<exists>c. fused_conv_inv s n m c (workspace fft) (node_ok mc fft (- 1) c) chirp b_time b_fft_buf d \<and>
        d_size d stage1 = B * m \<and> d_size d work_buf = B * m)"
| "node_ok mc (RawRader n m fft idx b_time a_buf work_buf b_fft_buf input_copy) s B d \<longleftrightarrow>
     raw_length fft = m \<and> rader_inv s n m B (workspace fft) (node_ok mc fft (- 1) B)
       idx b_time a_buf work_buf b_fft_buf input_copy d"
| "node_ok mc (RawFourStepFused n n1 n2 t fused row_pack col_pack twiddle stage1) s B d \<longleftrightarrow>
     (t = s \<and> n = n1 * n2) \<and> four_step_fused_inv mc s n1 n2 B row_pack col_pack twiddle stage1 d"
| "node_ok mc (RawFourStepGeneric n n1 n2 row_child col_child twiddle stage1 stage2) s B d \<longleftrightarrow>
     (n = n1 * n2 \<and> raw_length row_child = n1 \<and> raw_length col_child = n2) \<and>
     four_step_inv s n1 n2 B (workspace row_child) (node_ok mc row_child s (B * n2))
       (workspace col_child) (node_ok mc col_child s (B * n1)) twiddle stage1 stage2 d"

section \<open>Every node computes the transform\<close>

text \<open>Facts of a node that no device state can change may be assumed when the contract is shown.\<close>

lemma dft_node_static:
  assumes "P \<Longrightarrow> dft_node mc s n B W I f"
  shows "dft_node mc s n B W (\<lambda>d. P \<and> I d) f"
proof
  fix d inp out k assume I: "P \<and> I d" and args: "args_ok d W n B inp out k"
  have node: "dft_node mc s n B W I f" using assms I by blast
  show "runs mc (\<lambda>_. False) (f inp out k) d (node_result mc s n W (\<lambda>d. P \<and> I d) inp out k d)"
    by (rule runs_post [OF dft_node.runs_node [OF node]]) (use I args in \<open>auto simp: node_result_def\<close>)
next
  fix d d' assume I: "P \<and> I d" and "same_on W d d'"
  then show "P \<and> I d'" using dft_node.local [OF assms] by blast
qed

lemma dft_node_some:
  assumes "\<And>c. dft_node mc s n B W (I c) f"
  shows "dft_node mc s n B W (\<lambda>d. \<exists>c. I c d) f"
proof
  fix d inp out k assume I: "\<exists>c. I c d" and args: "args_ok d W n B inp out k"
  then obtain c where "I c d" by blast
  show "runs mc (\<lambda>_. False) (f inp out k) d (node_result mc s n W (\<lambda>d. \<exists>c. I c d) inp out k d)"
    by (rule runs_post [OF dft_node.runs_node [OF assms \<open>I c d\<close> args]]) (auto simp: node_result_def)
next
  fix d d' assume "\<exists>c. I c d" and "same_on W d d'"
  then show "\<exists>c. I c d'" using dft_node.local [OF assms] by blast
qed

theorem execute_node: "dft_node mc s (raw_length nd) B (workspace nd) (node_ok mc nd s B) (execute mc nd)"
proof (induction nd arbitrary: s B)
  case (RawLeaf n t bpb)
  have "dft_node mc s n B {} (\<lambda>d. (t = s \<and> computes_dft (mc_leaf mc) s n \<and> 0 < bpb) \<and> True) (guarded (execute_leaf mc n t bpb))"
    by (rule dft_node_static) (use leaf_node in blast)
  then show ?case by (simp add: node_ok.simps(1) [abs_def])
next
  case (RawDirectDft n dft_r dft_i input_copy)
  show ?case using direct_node by (simp add: node_ok.simps(2) [abs_def])
next
  case (RawStockham n factors t twiddle first_buf second_buf)
  have "dft_node mc s n B {first_buf, second_buf} (\<lambda>d. t = s \<and> stockham_inv mc s n B factors twiddle first_buf second_buf d)
      (guarded (execute_stockham mc n factors t twiddle first_buf second_buf))"
    by (rule dft_node_static) (use stockham_node in blast)
  then show ?case by (simp add: node_ok.simps(3) [abs_def])
next
  case (RawBluestein n m chunk fft chirp b a w bf)
  have "dft_node mc s n B (workspace fft \<union> {b, a, w, bf})
      (\<lambda>d. raw_length fft = m \<and> bluestein_inv s n m chunk (workspace fft) (node_ok mc fft (- 1) chunk) chirp b a w bf d)
      (guarded (execute_bluestein mc n m chunk (execute mc fft) chirp b a w bf))"
    by (rule dft_node_static) (use dft_node.bluestein_node [OF RawBluestein.IH refl] in blast)
  then show ?case by (simp add: node_ok.simps(4) [abs_def])
next
  case (RawBluesteinLeaf n m fft pp fp chirp b w bf)
  have "dft_node mc s n B (workspace fft \<union> {b, bf} \<union> {w}) (\<lambda>d. (raw_length fft = m \<and> computes_dft (mc_leaf mc) (- 1) m \<and>
        0 < pp \<and> 0 < fp \<and> w \<notin> workspace fft \<union> {b, bf}) \<and>
      (\<exists>c. fused_conv_inv s n m c (workspace fft) (node_ok mc fft (- 1) c) chirp b bf d \<and> d_size d w = B * m))
      (guarded (execute_bluestein_leaf mc n m (execute mc fft) pp fp chirp b w bf))"
    by (rule dft_node_static, rule dft_node_some) (use dft_node.bluestein_leaf_node [OF RawBluesteinLeaf.IH refl] in blast)
  then show ?case by (simp only: execute.simps raw_length.simps workspace.simps node_ok.simps(5) [abs_def])
next
  case (RawBluesteinFullLeaf n m fft bpb chirp b bf)
  have "dft_node mc s n B (workspace fft \<union> {b, bf}) (\<lambda>d. (raw_length fft = m \<and> computes_dft (mc_leaf mc) (- 1) m \<and> 0 < bpb) \<and>
      (\<exists>c. fused_conv_inv s n m c (workspace fft) (node_ok mc fft (- 1) c) chirp b bf d))
      (guarded (execute_bluestein_full_leaf mc n m (execute mc fft) bpb chirp b bf))"
    by (rule dft_node_static, rule dft_node_some) (use dft_node.bluestein_full_leaf_node [OF RawBluesteinFullLeaf.IH refl] in blast)
  then show ?case by (simp only: execute.simps raw_length.simps workspace.simps node_ok.simps(6) [abs_def])
next
  case (RawBluesteinFourStep n m n1 n2 fft fused rp cp pp fp tw chirp b st w bf)
  have "dft_node mc s n B (workspace fft \<union> {b, bf} \<union> {st, w}) (\<lambda>d. (raw_length fft = m \<and> m = n1 * n2 \<and>
        computes_dft (mc_leaf mc) (- 1) n1 \<and> computes_dft (mc_leaf mc) (- 1) n2 \<and> 0 < rp \<and> 0 < cp \<and> 0 < pp \<and> 0 < fp \<and> twiddle_table (- 1) n1 n2 tw \<and>
        st \<noteq> w \<and> {st, w} \<inter> (workspace fft \<union> {b, bf}) = {}) \<and>
      (\<exists>c. fused_conv_inv s n m c (workspace fft) (node_ok mc fft (- 1) c) chirp b bf d \<and> d_size d st = B * m \<and> d_size d w = B * m))
      (guarded (execute_bluestein_four_step mc n n1 n2 (execute mc fft) fused rp cp pp fp tw chirp b st w bf))"
  proof (rule dft_node_static, rule dft_node_some)
    fix c assume static: "raw_length fft = m \<and> m = n1 * n2 \<and> computes_dft (mc_leaf mc) (- 1) n1 \<and> computes_dft (mc_leaf mc) (- 1) n2 \<and>
      0 < rp \<and> 0 < cp \<and> 0 < pp \<and> 0 < fp \<and> twiddle_table (- 1) n1 n2 tw \<and> st \<noteq> w \<and> {st, w} \<inter> (workspace fft \<union> {b, bf}) = {}"
    then have child: "dft_node mc (- 1) m c (workspace fft) (node_ok mc fft (- 1) c) (execute mc fft)"
      using RawBluesteinFourStep.IH by metis
    show "dft_node mc s n B (workspace fft \<union> {b, bf} \<union> {st, w})
        (\<lambda>d. fused_conv_inv s n m c (workspace fft) (node_ok mc fft (- 1) c) chirp b bf d \<and> d_size d st = B * m \<and> d_size d w = B * m)
        (guarded (execute_bluestein_four_step mc n n1 n2 (execute mc fft) fused rp cp pp fp tw chirp b st w bf))"
      by (rule dft_node.bluestein_four_step_node [OF child refl]) (use static in blast)+
  qed
  then show ?case by (simp only: execute.simps raw_length.simps workspace.simps node_ok.simps(7) [abs_def])
next
  case (RawRader n m fft idx b a w bf cp)
  have "dft_node mc s n B (workspace fft \<union> {b, a, w, bf, cp})
      (\<lambda>d. raw_length fft = m \<and> rader_inv s n m B (workspace fft) (node_ok mc fft (- 1) B) idx b a w bf cp d)
      (guarded (execute_rader mc n m (execute mc fft) idx b a w bf cp))"
    by (rule dft_node_static) (use dft_node.rader_node [OF RawRader.IH refl] in blast)
  then show ?case by (simp add: node_ok.simps(8) [abs_def])
next
  case (RawFourStepFused n n1 n2 t fused rp cp tw st)
  have "dft_node mc s n B {st} (\<lambda>d. (t = s \<and> n = n1 * n2) \<and> four_step_fused_inv mc s n1 n2 B rp cp tw st d)
      (guarded (execute_four_step_fused mc n1 n2 t fused rp cp tw st))"
    by (rule dft_node_static) (use four_step_fused_node in blast)
  then show ?case by (simp add: node_ok.simps(9) [abs_def])
next
  case (RawFourStepGeneric n n1 n2 row col tw st1 st2)
  have "dft_node mc s n B (workspace row \<union> workspace col \<union> {st1, st2})
      (\<lambda>d. (n = n1 * n2 \<and> raw_length row = n1 \<and> raw_length col = n2) \<and>
        four_step_inv s n1 n2 B (workspace row) (node_ok mc row s (B * n2)) (workspace col) (node_ok mc col s (B * n1)) tw st1 st2 d)
      (guarded (execute_four_step_generic mc n1 n2 (execute mc row) (execute mc col) tw st1 st2))"
    by (rule dft_node_static) (use four_step_node [OF RawFourStepGeneric.IH] in blast)
  then show ?case by (simp add: node_ok.simps(10) [abs_def])
qed

interpretation raw: dft_node mc s "raw_length nd" B "workspace nd" "node_ok mc nd s B" "execute mc nd"
  for mc s nd B
  by (rule execute_node)

section \<open>Properties\<close>


definition exact_machine :: machine where
  "exact_machine = \<lparr>mc_fails = (\<lambda>_. None), mc_max_launch_blocks = 65535,
     mc_request = default_request\<lparr>req_device_type := ''cuda''\<rparr>,
     mc_leaf = (\<lambda>s n xs. map (dft s n ((!) xs)) [0..<n]), mc_codelet = (\<lambda>s n xs. map (dft s n ((!) xs)) [0..<n])\<rparr>"

definition example_node :: raw_node where
  "example_node = RawFourStepGeneric 6 2 3 (RawLeaf 2 1 4) (RawLeaf 3 1 4)
     (map (\<lambda>i. unity 1 (i div 2 * (i mod 2)) 6) [0..<6]) 10 11"

definition example_dev :: dev where
  "example_dev = \<lparr>d_mem = (\<lambda>a. of_nat (snd a)), d_size = (\<lambda>b. if b \<in> {10, 11} then 30 else 100),
     d_ready = (\<lambda>_. False), d_next = 12, d_ticks = 0\<rparr>"



end
