(* ===== verification/FFT_Tables.thy ===== *)
theory FFT_Tables
  imports FFT_ExecTree FFT_BuilderInv
begin

text \<open>
  The twiddle and index tables of \<open>src/src/codegen/tables.cpp\<close>, computed on the host when a plan is compiled:
  stage twiddles and matrices of leaves, four-step twiddles, packed real twiddles, Bluestein's chirp and
  its filter, Rader's index table and its filter.

  \<open>double\<close> and \<open>float\<close> entries are real numbers, \<open>kPi\<close> is \<open>pi\<close>; the templates over the two precisions and
  their copies in the source are then one function. Lengths are natural numbers. A table is filled by
  stores to an array; a store outside it is \<open>Undefined\<close>. A device table of complex entries holds them
  interleaved, \<open>complex_table\<close> reads it back.
\<close>

section \<open>Arrays\<close>

definition tbind :: "'a effect \<Rightarrow> ('a \<Rightarrow> 'b effect) \<Rightarrow> 'b effect" where
  "tbind x f = (case x of Return v \<Rightarrow> f v | Raise e \<Rightarrow> Raise e | Undefined \<Rightarrow> Undefined)"

lemma tbind_simps [simp]:
  "tbind (Return v) f = f v" "tbind (Raise e) f = Raise e" "tbind Undefined f = Undefined"
  by (simp_all add: tbind_def)

definition of_sum :: "exn + 'a \<Rightarrow> 'a effect" where
  "of_sum x = (case x of Inl e \<Rightarrow> Raise e | Inr v \<Rightarrow> Return v)"

lemma of_sum_simps [simp]: "of_sum (Inl e) = Raise e" "of_sum (Inr v) = Return v"
  by (simp_all add: of_sum_def)

primrec emap :: "('x \<Rightarrow> 'a effect) \<Rightarrow> 'x list \<Rightarrow> 'a list effect" where
  "emap f [] = Return []"
| "emap f (x # xs) = tbind (f x) (\<lambda>y. tbind (emap f xs) (\<lambda>ys. Return (y # ys)))"

text \<open>An array of \<open>size\<close> zeros after stores in order.\<close>

primrec store_all :: "real list \<Rightarrow> (nat \<times> real) list \<Rightarrow> real list effect" where
  "store_all xs [] = Return xs"
| "store_all xs (w # ws) = (if fst w < length xs then store_all (xs[fst w := snd w]) ws else Undefined)"

definition fill :: "nat \<Rightarrow> (nat \<times> real) list \<Rightarrow> real list effect" where
  "fill sz ws = store_all (replicate sz 0) ws"

text \<open>\<open>interleaved[2 * i] = cos(angle); interleaved[2 * i + 1] = sin(angle);\<close>\<close>

definition put_angle :: "nat \<Rightarrow> real \<Rightarrow> (nat \<times> real) list" where
  "put_angle i angle = [(2 * i, cos angle), (2 * i + 1, sin angle)]"

definition complex_table :: "real list \<Rightarrow> complex list" where
  "complex_table xs = map (\<lambda>i. Complex (xs ! (2 * i)) (xs ! (2 * i + 1))) [0..<length xs div 2]"

definition direction_sign :: "string \<Rightarrow> int" where
  "direction_sign direction = (if direction = ''inverse'' then 1 else - 1)"

section \<open>Stage twiddles\<close>

text \<open>The digits a codelet number is read apart into, lowest radix first, and what remains.\<close>

primrec decode_digits :: "nat list \<Rightarrow> nat \<Rightarrow> nat list \<times> nat" where
  "decode_digits [] rm = ([], rm)"
| "decode_digits (r # rs) rm = (let (ds, rest) = decode_digits rs (rm div r) in (rm mod r # ds, rest))"

definition decode_stage_codelet :: "nat \<Rightarrow> nat list \<Rightarrow> nat \<Rightarrow> exn + nat list \<times> nat list" where
  "decode_stage_codelet codelet radices stage =
     (let (prev_freq, rm) = decode_digits (take stage radices) codelet;
          (future_rev, rest) = decode_digits (rev (drop (stage + 1) radices)) rm
      in if rest \<noteq> 0 then Inl (StdException ''stage codelet decode overflow'')
         else Inr (prev_freq, replicate (stage + 1) 0 @ rev future_rev))"

fun mixed_radix_loop :: "nat list \<Rightarrow> nat list \<Rightarrow> nat \<Rightarrow> nat \<Rightarrow> nat" where
  "mixed_radix_loop (d # ds) (r # rs) v stride = mixed_radix_loop ds rs (v + d * stride) (stride * r)"
| "mixed_radix_loop ds rs v stride = v"

definition mixed_radix_value :: "nat list \<Rightarrow> nat list \<Rightarrow> nat \<Rightarrow> nat" where
  "mixed_radix_value digits radices limit = mixed_radix_loop (take limit digits) (take limit radices) 0 1"

definition use_cooperative_stage_lanes :: "int \<Rightarrow> int list \<Rightarrow> int \<Rightarrow> fft_request \<Rightarrow> bool" where
  "use_cooperative_stage_lanes n factors lanes r =
     (let fixed_lanes_are_compatible = list_all (\<lambda>radix. (n div radix) mod lanes = 0) factors
      in if n < 128 \<or> 4096 < n \<or> length factors < 2 \<or> (32 < lanes \<and> fixed_lanes_are_compatible) then False
         else if dtype_is_double r \<or> \<not> fixed_lanes_are_compatible then True
         else let stage_lanes = map (\<lambda>radix. largest_divisor (n div radix) (min (n div radix) kMaxLanes)) factors;
                  min_stage_lanes = foldl min kMaxLanes stage_lanes;
                  max_stage_lanes = foldl max 1 stage_lanes
              in max_stage_lanes \<le> min_stage_lanes * 4)"

definition cooperative_stage_lanes :: "int \<Rightarrow> int \<Rightarrow> int" where
  "cooperative_stage_lanes n radix = largest_divisor (n div radix) (min (n div radix) kMaxLanes)"

definition stage_twiddle :: "nat list \<Rightarrow> nat \<Rightarrow> nat \<Rightarrow> string \<Rightarrow> nat \<times> nat \<Rightarrow> (nat \<times> real) effect" where
  "stage_twiddle radices stage lanes direction x =
     (let lane = fst x; elem = snd x;
          group = elem div radices ! stage; digit = elem mod radices ! stage;
          codelet = lane + lanes * group;
          denom = prod_list (take (stage + 1) radices)
      in tbind (of_sum (decode_stage_codelet codelet radices stage)) (\<lambda>decoded.
           let prefix = mixed_radix_value (fst decoded) radices (length (fst decoded));
               angle = of_int (direction_sign direction) * 2 * pi * real (prefix * digit) / real denom
           in Return (lane + lanes * elem, angle)))"

definition build_stage_twiddles :: "nat list \<Rightarrow> nat \<Rightarrow> nat \<Rightarrow> string \<Rightarrow> (real list \<times> real list) effect" where
  "build_stage_twiddles radices stage lanes direction =
     (let n = prod_list radices
      in if lanes = 0 \<or> length radices \<le> stage then Undefined
         else tbind (emap (stage_twiddle radices stage lanes direction)
             (concat (map (\<lambda>lane. map (Pair lane) [0..<n div lanes]) [0..<lanes]))) (\<lambda>ws.
           tbind (fill n (map (\<lambda>w. (fst w, cos (snd w))) ws)) (\<lambda>tw_r.
           tbind (fill n (map (\<lambda>w. (fst w, sin (snd w))) ws)) (\<lambda>tw_i.
           Return (tw_r, tw_i)))))"

section \<open>Matrices\<close>

definition build_dft_matrix :: "nat \<Rightarrow> string \<Rightarrow> (real list \<times> real list) effect" where
  "build_dft_matrix radix direction =
     (let angle = (\<lambda>x. of_int (direction_sign direction) * 2 * pi * real (fst x * snd x) / real radix);
          points = concat (map (\<lambda>k. map (Pair k) [0..<radix]) [0..<radix])
      in tbind (fill (radix * radix) (map (\<lambda>x. (fst x * radix + snd x, cos (angle x))) points)) (\<lambda>dft_r.
         tbind (fill (radix * radix) (map (\<lambda>x. (fst x * radix + snd x, sin (angle x))) points)) (\<lambda>dft_i.
         Return (dft_r, dft_i))))"

definition build_raw_direct_dft_tables :: "nat \<Rightarrow> fft_request \<Rightarrow> (real list \<times> real list) effect" where
  "build_raw_direct_dft_tables n r = build_dft_matrix n (req_direction r)"

definition build_raw_cube_dft_tables :: "nat \<Rightarrow> fft_request \<Rightarrow> (real list \<times> real list) effect" where
  "build_raw_cube_dft_tables n r =
     (if dtype_is_double r then Raise (StdException ''Ascend Cube DFT tables require complex64 input'')
      else tbind (build_dft_matrix n (req_direction r)) (\<lambda>dft.
        let points = concat (map (\<lambda>output. map (Pair output) [0..<n]) [0..<n]);
            turned = (\<lambda>xs :: real list. map (\<lambda>x. (snd x * n + fst x, xs ! (fst x * n + snd x))) points)
        in tbind (fill (n * n) (turned (fst dft))) (\<lambda>re.
           tbind (fill (n * n) (turned (snd dft))) (\<lambda>im. Return (re, im)))))"

section \<open>Interleaved tables\<close>

definition build_raw_four_step_twiddle :: "fft_request \<Rightarrow> nat \<Rightarrow> nat \<Rightarrow> real list effect" where
  "build_raw_four_step_twiddle r n1 n2 =
     fill (n1 * n2 * 2) (concat (map (\<lambda>row. concat (map (\<lambda>col.
       let angle = - 2 * pi * real (row * col) / real (n1 * n2)
       in put_angle (row * n1 + col) (if req_direction r = ''inverse'' then - angle else angle)) [0..<n1])) [0..<n2]))"

definition build_raw_packed_real_twiddle :: "fft_request \<Rightarrow> int \<Rightarrow> real list effect" where
  "build_raw_packed_real_twiddle r n =
     (if n \<le> 0 \<or> n mod 2 \<noteq> 0 then Raise (StdException ''packed real twiddle requires a positive even length'')
      else let half = nat (n div 2 + 1)
           in fill (half * 2) (concat (map (\<lambda>k. put_angle k (- 2 * pi * real k / real_of_int n)) [0..<half])))"

text \<open>\<open>std::fmod\<close>: the remainder of the division rounded towards zero.\<close>

definition fmod :: "real \<Rightarrow> real \<Rightarrow> real" where
  "fmod x y = x - of_int (if 0 \<le> x / y then \<lfloor>x / y\<rfloor> else \<lceil>x / y\<rceil>) * y"

definition chirp_angle :: "real \<Rightarrow> nat \<Rightarrow> nat \<Rightarrow> real" where
  "chirp_angle sign n idx = sign * pi * fmod (real idx * real idx) (real (2 * n)) / real n"

definition build_raw_bluestein_chirp :: "fft_request \<Rightarrow> nat \<Rightarrow> bool \<Rightarrow> real list effect" where
  "build_raw_bluestein_chirp r n inverse_sign =
     fill (n * 2) (concat (map (\<lambda>idx. put_angle idx (chirp_angle (if inverse_sign then 1 else - 1) n idx)) [0..<n]))"

definition build_raw_bluestein_b :: "fft_request \<Rightarrow> nat \<Rightarrow> nat \<Rightarrow> real list effect" where
  "build_raw_bluestein_b r n m =
     (let sign = (if req_direction r = ''inverse'' then - 1 else 1)
      in fill (m * 2) (concat (map (\<lambda>idx. put_angle idx (chirp_angle sign n idx) @
           (if idx \<noteq> 0 then (if idx \<le> m then put_angle (m - idx) (chirp_angle sign n idx) else [(m * 2, 0)]) else [])) [0..<n])))"

section \<open>Rader's tables\<close>

text \<open>\<open>static_cast<int32_t>\<close>\<close>

definition build_raw_rader_idx_table :: "int list \<Rightarrow> int list" where
  "build_raw_rader_idx_table idx = map (signed_take_bit 31) idx"

definition build_raw_rader_conv_kernel :: "fft_request \<Rightarrow> nat \<Rightarrow> int list \<Rightarrow> real list effect" where
  "build_raw_rader_conv_kernel r n idx =
     (if int (length idx) \<noteq> int n - 1 then Raise (StdException ''Rader index table length does not match prime length'')
      else let m = n - 1; sign = of_int (direction_sign (req_direction r))
           in fill (m * 2) (concat (map (\<lambda>off. put_angle off (sign * 2 * pi * of_int (idx ! off) / real n)) [0..<m])))"

section \<open>Leaf tables\<close>

definition portable_ix_leaf :: "plan_cfg \<Rightarrow> fft_request \<Rightarrow> exn + bool" where
  "portable_ix_leaf cfg r =
     (if cfg_backend_name cfg \<noteq> ''ix'' then Inr False
      else case cfg_env cfg ''FLAGFFT_IX_PORTABLE_LEAF'' of
        Some setting \<Rightarrow> Inr (setting = ''1'')
      | None \<Rightarrow> (case ix_ct_single_policy_enabled (cfg_env cfg) r of
          Inl e \<Rightarrow> Inl e
        | Inr b \<Rightarrow> if b then Inr True else ix_ct_batch_policy_enabled (cfg_env cfg) r))"

definition leaf_stage_lanes :: "plan_cfg \<Rightarrow> fft_request \<Rightarrow> bool \<Rightarrow> int \<Rightarrow> int list \<Rightarrow> int \<Rightarrow> nat \<Rightarrow> int" where
  "leaf_stage_lanes cfg r portable_ix n factors lanes stage =
     (if cfg_backend_name cfg = ''maca'' \<or> portable_ix then n div factors ! stage
      else if use_cooperative_stage_lanes n factors lanes r then cooperative_stage_lanes n (factors ! stage)
      else lanes)"

definition build_raw_leaf_tables ::
  "plan_cfg \<Rightarrow> fft_request \<Rightarrow> int \<Rightarrow> int list \<Rightarrow> int \<Rightarrow> int list \<Rightarrow> (real list \<times> real list) list effect" where
  "build_raw_leaf_tables cfg r n factors lanes generic_radices =
     tbind (of_sum (portable_ix_leaf cfg r)) (\<lambda>portable_ix.
     tbind (emap (\<lambda>stage. build_stage_twiddles (map nat factors) stage
         (nat (leaf_stage_lanes cfg r portable_ix n factors lanes stage)) (req_direction r)) [1..<length factors]) (\<lambda>twiddles.
     tbind (emap (\<lambda>radix. build_dft_matrix (nat radix) (req_direction r)) generic_radices) (\<lambda>matrices.
     Return (twiddles @ matrices))))"

end
