(* ===== verification/FFT_TablesFacts.thy ===== *)
theory FFT_TablesFacts
  imports FFT_Tables
begin

text \<open>
  The tables hold what the kernels read from them: every builder returns, without a store outside its
  array, and its entries are the roots of unity that the execution nodes rely on. The stage twiddles of a
  leaf are built without an overflow of the codelet number exactly when the lanes of each stage fit.
\<close>

section \<open>Arrays\<close>

lemma store_all_spec:
  assumes "\<And>w. w \<in> set ws \<Longrightarrow> fst w < length xs \<and> snd w = g (fst w)"
  shows "\<exists>ys. store_all xs ws = Return ys \<and> length ys = length xs \<and>
    (\<forall>i < length xs. ys ! i = (if i \<in> fst ` set ws then g i else xs ! i))"
  using assms
proof (induction ws arbitrary: xs)
  case (Cons w ws)
  have w: "fst w < length xs" "snd w = g (fst w)" using Cons.prems by auto
  obtain ys where "store_all (xs[fst w := snd w]) ws = Return ys" "length ys = length xs"
    "\<forall>i < length xs. ys ! i = (if i \<in> fst ` set ws then g i else xs[fst w := snd w] ! i)"
    using Cons.IH [of "xs[fst w := snd w]"] Cons.prems by auto
  then show ?case using w by (auto simp: nth_list_update)
qed simp

lemma fill_spec:
  assumes "\<And>w. w \<in> set ws \<Longrightarrow> fst w < n \<and> snd w = g (fst w)"
  shows "\<exists>ys. fill n ws = Return ys \<and> length ys = n \<and> (\<forall>i < n. ys ! i = (if i \<in> fst ` set ws then g i else 0))"
proof -
  obtain ys where "store_all (replicate n 0) ws = Return ys" "length ys = n"
    "\<forall>i < n. ys ! i = (if i \<in> fst ` set ws then g i else replicate n 0 ! i)"
    using store_all_spec [of ws "replicate n 0" g] assms by auto
  then show ?thesis by (intro exI [of _ ys]) (simp add: fill_def)
qed

lemma complex_table_length [simp]: "length (complex_table xs) = length xs div 2"
  by (simp add: complex_table_def)

lemma concat_map_concat: "concat (map f (concat xss)) = concat (map (\<lambda>xs. concat (map f xs)) xss)"
  by (induction xss) simp_all

lemma put_angles_spec:
  assumes ps: "\<And>p. p \<in> set ps \<Longrightarrow> fst p < n \<and> cis (snd p) = G (fst p)"
  shows "\<exists>xs. fill (n * 2) (concat (map (\<lambda>p. put_angle (fst p) (snd p)) ps)) = Return xs \<and>
    length (complex_table xs) = n \<and> (\<forall>i < n. complex_table xs ! i = (if i \<in> fst ` set ps then G i else 0))"
proof -
  let ?ws = "concat (map (\<lambda>p. put_angle (fst p) (snd p)) ps)"
  define g where "g k = (if even k then Re (G (k div 2)) else Im (G (k div 2)))" for k :: nat
  have "fst w < n * 2 \<and> snd w = g (fst w)" if "w \<in> set ?ws" for w
  proof -
    from that obtain p where p: "p \<in> set ps" "w \<in> set (put_angle (fst p) (snd p))" by auto
    have "Re (G (fst p)) = cos (snd p)" "Im (G (fst p)) = sin (snd p)" using ps [OF p(1)] by (auto simp flip: cis.simps)
    then show ?thesis using ps [OF p(1)] p(2) by (auto simp: put_angle_def g_def)
  qed
  then obtain xs where xs: "fill (n * 2) ?ws = Return xs" "length xs = n * 2"
    "\<forall>i < n * 2. xs ! i = (if i \<in> fst ` set ?ws then g i else 0)"
    using fill_spec [of ?ws "n * 2" g] by blast
  have slot: "k \<in> fst ` set ?ws \<longleftrightarrow> k div 2 \<in> fst ` set ps" for k
  proof -
    have "k \<in> fst ` set (put_angle (fst p) (snd p)) \<longleftrightarrow> k div 2 = fst p" for p :: "nat \<times> real"
      by (auto simp: put_angle_def)
    then show ?thesis by (force simp: image_iff)
  qed
  have "complex_table xs ! i = (if i \<in> fst ` set ps then G i else 0)" if "i < n" for i
  proof -
    have "complex_table xs ! i = Complex (xs ! (2 * i)) (xs ! (2 * i + 1))" using that by (simp add: complex_table_def xs(2))
    moreover have "xs ! (2 * i) = (if i \<in> fst ` set ps then Re (G i) else 0)"
      "xs ! (2 * i + 1) = (if i \<in> fst ` set ps then Im (G i) else 0)"
      using that xs(3) slot [of "2 * i"] slot [of "2 * i + 1"] by (simp_all only: g_def) simp_all
    ultimately show ?thesis by (simp add: complex_eq_iff)
  qed
  then show ?thesis using xs(1,2) by (intro exI [of _ xs]) simp
qed

section \<open>Interleaved tables\<close>

lemma direction_sign_cases: "direction_sign direction = 1 \<or> direction_sign direction = - 1"
  by (simp add: direction_sign_def)

lemma four_step_twiddle_table:
  obtains xs where "build_raw_four_step_twiddle r n1 n2 = Return xs"
    and "twiddle_table (direction_sign (req_direction r)) n1 n2 (complex_table xs)"
proof -
  let ?s = "direction_sign (req_direction r)"
  let ?angle = "\<lambda>row col. let angle = - 2 * pi * real (row * col) / real (n1 * n2)
       in if req_direction r = ''inverse'' then - angle else angle"
  define ps where "ps = concat (map (\<lambda>row. map (\<lambda>col. (row * n1 + col, ?angle row col)) [0..<n1]) [0..<n2])"
  define G where "G i = unity ?s (i div n1 * (i mod n1)) (n1 * n2)" for i
  have ps: "fst p < n1 * n2 \<and> cis (snd p) = G (fst p)" if "p \<in> set ps" for p
  proof -
    from that obtain row col where p: "row < n2" "col < n1" "p = (row * n1 + col, ?angle row col)" by (auto simp: ps_def)
    have "cis (?angle row col) = unity ?s (row * col) (n1 * n2)" by (simp add: unity_def direction_sign_def Let_def)
    then show ?thesis using p row_less [of row n2 col n1] by (simp add: G_def mult.commute [of n1])
  qed
  have "build_raw_four_step_twiddle r n1 n2 = fill (n1 * n2 * 2) (concat (map (\<lambda>p. put_angle (fst p) (snd p)) ps))"
    by (simp add: build_raw_four_step_twiddle_def ps_def concat_map_concat comp_def Let_def)
  moreover obtain xs where xs: "fill (n1 * n2 * 2) (concat (map (\<lambda>p. put_angle (fst p) (snd p)) ps)) = Return xs"
    "length (complex_table xs) = n1 * n2" "\<forall>i < n1 * n2. complex_table xs ! i = (if i \<in> fst ` set ps then G i else 0)"
    using put_angles_spec [OF ps] by blast
  moreover have "complex_table xs ! (row * n1 + col) = unity ?s (row * col) (n1 * n2)" if "row < n2" "col < n1" for row col
  proof -
    have "row * n1 + col \<in> fst ` set ps" using that by (force simp: ps_def)
    then show ?thesis using xs(3) [rule_format, of "row * n1 + col"] row_less [OF that] that(2) by (simp add: G_def mult.commute [of n1])
  qed
  ultimately show ?thesis using that by (simp add: twiddle_table_def mult.commute)
qed

text \<open>Tables with one entry per index.\<close>

lemma put_indexed_spec:
  assumes "\<And>i. i < n \<Longrightarrow> cis (angle i) = G i"
  shows "\<exists>xs. fill (n * 2) (concat (map (\<lambda>i. put_angle i (angle i)) [0..<n])) = Return xs \<and>
    length (complex_table xs) = n \<and> (\<forall>i < n. complex_table xs ! i = G i)"
proof -
  let ?ps = "map (\<lambda>i. (i, angle i)) [0..<n]"
  have pairs: "fst p < n \<and> cis (snd p) = G (fst p)" if "p \<in> set ?ps" for p using that assms by auto
  obtain xs where xs: "fill (n * 2) (concat (map (\<lambda>p. put_angle (fst p) (snd p)) ?ps)) = Return xs"
    "length (complex_table xs) = n" "\<forall>i < n. complex_table xs ! i = (if i \<in> fst ` set ?ps then G i else 0)"
    using put_angles_spec [of ?ps n G] pairs by blast
  have "i \<in> fst ` set ?ps" if "i < n" for i using that by force
  then show ?thesis using xs by (intro exI [of _ xs]) (simp add: comp_def)
qed

lemma packed_real_twiddle_table:
  assumes "0 < n" and "n mod 2 = 0"
  obtains xs where "build_raw_packed_real_twiddle r n = Return xs" and "length (complex_table xs) = nat (n div 2 + 1)"
    and "\<And>k. k < nat (n div 2 + 1) \<Longrightarrow> complex_table xs ! k = unity (- 1) k (nat n)"
proof -
  have "cis (- 2 * pi * real k / real_of_int n) = unity (- 1) k (nat n)" for k using assms(1) by (simp add: unity_def)
  then obtain xs where "fill (nat (n div 2 + 1) * 2) (concat (map (\<lambda>k. put_angle k (- 2 * pi * real k / real_of_int n)) [0..<nat (n div 2 + 1)])) = Return xs"
    "length (complex_table xs) = nat (n div 2 + 1)" "\<forall>k < nat (n div 2 + 1). complex_table xs ! k = unity (- 1) k (nat n)"
    using put_indexed_spec [of "nat (n div 2 + 1)" "\<lambda>k. - 2 * pi * real k / real_of_int n" "\<lambda>k. unity (- 1) k (nat n)"] by blast
  then show ?thesis using assms by (intro that [of xs]) (simp_all add: build_raw_packed_real_twiddle_def Let_def)
qed

subsection \<open>Bluestein\<close>

lemma real_div_mod: "real a = real k * real (a div k) + real (a mod k)"
  by (metis mult_div_mod_eq of_nat_add of_nat_mult)

lemma fmod_nat: "fmod (real a) (real k) = real (a mod k)"
proof -
  have "fmod (real a) (real k) = real a - real (a div k) * real k" by (simp add: fmod_def floor_divide_of_nat_eq)
  then show ?thesis using real_div_mod [of a k] by (simp add: mult.commute)
qed

lemma chirp_angle_eq:
  assumes "0 < n"
  shows "cis (chirp_angle (of_int s) n j) = chirp_at s n j"
proof -
  let ?q = "j * j div (2 * n)" and ?m = "j * j mod (2 * n)"
  have "of_int s * pi * (real (2 * n) * real ?q + real ?m) / real n = of_int s * pi * real ?m / real n + 2 * pi * of_int (s * int ?q)"
    using assms by (simp add: field_simps)
  then have "of_int s * pi * real (j * j) / real n = of_int s * pi * real ?m / real n + 2 * pi * of_int (s * int ?q)"
    by (simp only: real_div_mod [of "j * j" "2 * n"])
  then have "chirp_at s n j = cis (of_int s * pi * real (j * j mod (2 * n)) / real n) * cis (2 * pi * of_int (s * int ?q))"
    by (simp only: chirp_at_def cis_mult)
  then show ?thesis using assms fmod_nat [of "j * j" "2 * n"] by (simp add: chirp_angle_def)
qed

lemma bluestein_chirp_table:
  assumes "0 < n"
  obtains xs where "build_raw_bluestein_chirp r n (req_direction r = ''inverse'') = Return xs"
    and "chirp_table (direction_sign (req_direction r)) n (complex_table xs)"
proof -
  let ?s = "direction_sign (req_direction r)"
  obtain xs where "fill (n * 2) (concat (map (\<lambda>i. put_angle i (chirp_angle (of_int ?s) n i)) [0..<n])) = Return xs"
    "length (complex_table xs) = n" "\<forall>i < n. complex_table xs ! i = chirp_at ?s n i"
    using put_indexed_spec [of n "chirp_angle (of_int ?s) n" "chirp_at ?s n"] chirp_angle_eq [OF assms] by blast
  moreover have "(if req_direction r = ''inverse'' then 1 else - 1) = real_of_int ?s" by (simp add: direction_sign_def)
  ultimately show ?thesis by (intro that [of xs]) (simp_all add: build_raw_bluestein_chirp_def chirp_table_def)
qed

lemma bluestein_b_table:
  assumes n: "0 < n" "2 * n \<le> m + 1"
  obtains xs where "build_raw_bluestein_b r n m = Return xs" and "length (complex_table xs) = m"
    and "chirp_samples (direction_sign (req_direction r)) n m ((!) (complex_table xs))"
proof -
  let ?s = "direction_sign (req_direction r)"
  let ?e = "chirp_angle (of_int (- ?s)) n"
  define ps where "ps = concat (map (\<lambda>idx. (idx, ?e idx) # (if idx \<noteq> 0 then [(m - idx, ?e idx)] else [])) [0..<n])"
  define G where "G i = chirp_at (- ?s) n (if i < n then i else m - i)" for i
  have sign: "(if req_direction r = ''inverse'' then - 1 else 1) = real_of_int (- ?s)" by (simp add: direction_sign_def)
  have ps: "fst p < m \<and> cis (snd p) = G (fst p)" if "p \<in> set ps" for p
    using that n chirp_angle_eq [OF n(1), of "- ?s"] by (auto simp: ps_def G_def split: if_splits)
  have "build_raw_bluestein_b r n m = fill (m * 2) (concat (map (\<lambda>p. put_angle (fst p) (snd p)) ps))"
  proof -
    have "concat (map (\<lambda>idx. put_angle idx (?e idx) @ (if idx \<noteq> 0 then (if idx \<le> m then put_angle (m - idx) (?e idx) else [(m * 2, 0)]) else [])) [0..<n]) =
        concat (map (\<lambda>p. put_angle (fst p) (snd p)) ps)"
      unfolding ps_def concat_map_concat map_map
      by (rule arg_cong [where f = concat], rule map_cong) (use n in auto)
    then show ?thesis by (simp only: build_raw_bluestein_b_def Let_def sign)
  qed
  moreover obtain xs where xs: "fill (m * 2) (concat (map (\<lambda>p. put_angle (fst p) (snd p)) ps)) = Return xs"
    "length (complex_table xs) = m" "\<forall>i < m. complex_table xs ! i = (if i \<in> fst ` set ps then G i else 0)"
    using put_angles_spec [OF ps] by blast
  moreover have "complex_table xs ! j = chirp_at (- ?s) n j" if "j < n" for j
  proof -
    have "j \<in> fst ` set ps" using that by (force simp: ps_def)
    then show ?thesis using xs(3) [rule_format, of j] that n by (simp add: G_def)
  qed
  moreover have "complex_table xs ! (m - j) = chirp_at (- ?s) n j" if "0 < j" "j < n" for j
  proof -
    have "m - j \<in> fst ` set ps" using that by (force simp: ps_def)
    then show ?thesis using xs(3) [rule_format, of "m - j"] that n by (auto simp: G_def)
  qed
  ultimately show ?thesis using that by (simp add: chirp_samples_def)
qed

subsection \<open>Rader\<close>

lemma rader_power_table:
  assumes p: "prime_int n" and g: "primitive_root n g" and idx: "build_rader_index_table n g = Inr idx"
  shows "power_table (nat n) idx"
proof -
  have n1: "1 < n" using p by (rule prime_intD)
  let ?m = "nat n - 1"
  have m: "nat (n - 1) = ?m" by (simp add: nat_diff_distrib)
  have idx_eq: "idx = map (\<lambda>i. g ^ i mod n) [0..<?m]"
    using idx n1 by (auto simp: build_rader_index_table_def index_table_eq m split: if_splits)
  have table: "distinct idx" "set idx = {1..<n}"
    using rader_table_permutation [OF p g] n1 by (simp_all add: idx_eq index_table_eq m)
  have len: "length idx = ?m" by (simp add: idx_eq)
  have nth: "idx ! i = g ^ i mod n" if "i < ?m" for i using that by (simp add: idx_eq)
  have "bij_betw (\<lambda>i. nat (idx ! i)) {..<?m} {1..<nat n}"
  proof -
    have "bij_betw ((!) idx) {..<?m} {1..<n}" using bij_betw_nth [OF table(1), of "{..<?m}" "set idx"] len table(2) by simp
    moreover have "bij_betw nat {1..<n} {1..<nat n}"
      by (rule bij_betw_byWitness [where f' = int]) auto
    ultimately show ?thesis using bij_betw_trans by (fastforce simp: comp_def)
  qed
  moreover have "nat (idx ! ((i + j) mod ?m)) = nat (idx ! i) * nat (idx ! j) mod nat n" if "i < ?m" "j < ?m" for i j
  proof -
    have one: "g ^ ?m mod n = 1" using g n1 by (simp add: primitive_root_def m)
    have "g ^ (?m * ((i + j) div ?m)) mod n = (g ^ ?m mod n) ^ ((i + j) div ?m) mod n" by (simp add: power_mult power_mod)
    then have "g ^ (?m * ((i + j) div ?m)) mod n = 1" using n1 unfolding one by simp
    moreover have "g ^ (i + j) = g ^ (?m * ((i + j) div ?m)) * g ^ ((i + j) mod ?m)" by (simp flip: power_add)
    ultimately have "g ^ ((i + j) mod ?m) mod n = g ^ (i + j) mod n"
      by (metis mod_mult_left_eq mult_1)
    moreover have "(i + j) mod ?m < ?m" using that by (intro mod_less_divisor) simp
    ultimately have "idx ! ((i + j) mod ?m) = idx ! i * idx ! j mod n"
      using that by (simp add: nth power_add mod_mult_eq)
    moreover have "0 \<le> idx ! i" "0 \<le> idx ! j" using that n1 by (simp_all add: nth)
    ultimately show ?thesis using n1 by (simp add: nat_mod_distrib nat_mult_distrib)
  qed
  moreover have "0 \<le> idx ! i" if "i < ?m" for i using that n1 by (simp add: nth)
  ultimately show ?thesis using n1 len by (simp add: power_table_def)
qed

lemma rader_idx_table_exact:
  assumes "power_table p idx" and "p \<le> 2 ^ 31"
  shows "build_raw_rader_idx_table idx = idx"
proof -
  have "signed_take_bit 31 x = x" if "x \<in> set idx" for x
  proof -
    from that obtain i where i: "i < p - 1" "x = idx ! i" using assms(1) by (auto simp: power_table_def in_set_conv_nth)
    then have "0 < nat x" "nat x < p" using power_table_bounds [OF assms(1) i(1)] by simp_all
    moreover have "int p \<le> int (2 ^ 31)" using assms(2) by (simp only: of_nat_le_iff)
    ultimately have "0 < x" "x < int (2 ^ 31)" by linarith+
    then show ?thesis by (intro signed_take_bit_int_eq_self) simp_all
  qed
  then show ?thesis by (simp add: build_raw_rader_idx_table_def map_idI)
qed

lemma rader_conv_kernel_table:
  assumes tab: "power_table p idx"
  obtains xs where "build_raw_rader_conv_kernel r p idx = Return xs" and "length (complex_table xs) = p - 1"
    and "rader_samples (direction_sign (req_direction r)) p idx ((!) (complex_table xs))"
proof -
  let ?s = "direction_sign (req_direction r)"
  let ?angle = "\<lambda>i. of_int ?s * 2 * pi * of_int (idx ! i) / real p"
  have len: "length idx = p - 1" "1 < p" using tab by (simp_all add: power_table_def)
  have "cis (?angle i) = unity ?s (nat (idx ! i)) p" if "i < p - 1" for i
    using power_table_bounds(1) [OF tab that] by (simp add: unity_def)
  then obtain xs where "fill ((p - 1) * 2) (concat (map (\<lambda>i. put_angle i (?angle i)) [0..<p - 1])) = Return xs"
    "length (complex_table xs) = p - 1" "\<forall>i < p - 1. complex_table xs ! i = unity ?s (nat (idx ! i)) p"
    using put_indexed_spec [of "p - 1" ?angle "\<lambda>i. unity ?s (nat (idx ! i)) p"] by blast
  then show ?thesis using len
    by (intro that [of xs]) (simp_all add: build_raw_rader_conv_kernel_def rader_samples_def Let_def of_nat_diff)
qed

section \<open>Matrices\<close>

lemma square_points: "x \<in> set (concat (map (\<lambda>k. map (Pair k) [0..<n]) [0..<n])) \<longleftrightarrow> fst x < n \<and> snd x < n"
  by (cases x) force

text \<open>Filling a square array from its points, in row order or turned.\<close>

lemma fill_square:
  assumes "\<And>k j. k < n \<Longrightarrow> j < n \<Longrightarrow> pos k j < n * n \<and> g (pos k j) = val k j"
  shows "\<exists>ys. fill (n * n) (map (\<lambda>x. (pos (fst x) (snd x), val (fst x) (snd x))) (concat (map (\<lambda>k. map (Pair k) [0..<n]) [0..<n]))) = Return ys \<and>
    length ys = n * n \<and> (\<forall>k < n. \<forall>j < n. ys ! pos k j = val k j)"
proof -
  let ?ps = "concat (map (\<lambda>k. map (Pair k) [0..<n]) [0..<n])"
  let ?ws = "map (\<lambda>x. (pos (fst x) (snd x), val (fst x) (snd x))) ?ps"
  have "fst w < n * n \<and> snd w = g (fst w)" if "w \<in> set ?ws" for w
  proof -
    from that obtain x where "x \<in> set ?ps" "w = (pos (fst x) (snd x), val (fst x) (snd x))" unfolding set_map by blast
    then show ?thesis using assms square_points [of x n] by simp
  qed
  then obtain ys where ys: "fill (n * n) ?ws = Return ys" "length ys = n * n"
    "\<forall>i < n * n. ys ! i = (if i \<in> fst ` set ?ws then g i else 0)" using fill_spec [of ?ws "n * n" g] by blast
  have "ys ! pos k j = val k j" if "k < n" "j < n" for k j
  proof -
    have "(k, j) \<in> set ?ps" using that square_points [of "(k, j)" n] by simp
    then have "pos k j \<in> fst ` set ?ws" by (force simp del: set_concat)
    then show ?thesis using ys(3) assms [OF that] by simp
  qed
  then show ?thesis using ys(1,2) by blast
qed

lemma dft_matrix_table:
  "\<exists>re im. build_dft_matrix n direction = Return (re, im) \<and> dft_matrix (direction_sign direction) n re im"
proof -
  let ?s = "direction_sign direction"
  let ?angle = "\<lambda>k j. of_int ?s * 2 * pi * real (k * j) / real n"
  have at_pos: "k * n + j < n * n \<and> h ((k * n + j) div n) ((k * n + j) mod n) = h k j" if "k < n" "j < n" for k j and h :: "nat \<Rightarrow> nat \<Rightarrow> real"
    using that row_less [OF that] by simp
  obtain re where re: "fill (n * n) (map (\<lambda>x. (fst x * n + snd x, cos (?angle (fst x) (snd x)))) (concat (map (\<lambda>k. map (Pair k) [0..<n]) [0..<n]))) = Return re"
    "length re = n * n" "\<forall>k < n. \<forall>j < n. re ! (k * n + j) = cos (?angle k j)"
    using fill_square [of n "\<lambda>k j. k * n + j" "\<lambda>i. cos (?angle (i div n) (i mod n))" "\<lambda>k j. cos (?angle k j)"] at_pos [of _ _ "\<lambda>k j. cos (?angle k j)"] by blast
  obtain im where im: "fill (n * n) (map (\<lambda>x. (fst x * n + snd x, sin (?angle (fst x) (snd x)))) (concat (map (\<lambda>k. map (Pair k) [0..<n]) [0..<n]))) = Return im"
    "length im = n * n" "\<forall>k < n. \<forall>j < n. im ! (k * n + j) = sin (?angle k j)"
    using fill_square [of n "\<lambda>k j. k * n + j" "\<lambda>i. sin (?angle (i div n) (i mod n))" "\<lambda>k j. sin (?angle k j)"] at_pos [of _ _ "\<lambda>k j. sin (?angle k j)"] by blast
  have "dft_matrix ?s n re im"
    using re(2,3) im(2,3) by (simp add: dft_matrix_def unity_def complex_eq_iff)
  then show ?thesis using re(1) im(1) by (intro exI [of _ re] exI [of _ im]) (simp add: build_dft_matrix_def Let_def)
qed


lemma cube_matrix_table:
  assumes "\<not> dtype_is_double r"
  shows "\<exists>re im. build_raw_cube_dft_tables n r = Return (re, im) \<and> dft_matrix (direction_sign (req_direction r)) n re im"
proof -
  let ?s = "direction_sign (req_direction r)"
  obtain re im where m: "build_dft_matrix n (req_direction r) = Return (re, im)" "dft_matrix ?s n re im"
    using dft_matrix_table by blast
  have turn: "\<exists>ys. fill (n * n) (map (\<lambda>x. (snd x * n + fst x, xs ! (fst x * n + snd x))) (concat (map (\<lambda>k. map (Pair k) [0..<n]) [0..<n]))) = Return ys \<and>
      length ys = n * n \<and> (\<forall>k < n. \<forall>j < n. ys ! (j * n + k) = xs ! (k * n + j))" for xs :: "real list"
    using fill_square [of n "\<lambda>k j. j * n + k" "\<lambda>i. xs ! (i mod n * n + i div n)" "\<lambda>k j. xs ! (k * n + j)"] row_less by simp
  obtain re' im' where re': "fill (n * n) (map (\<lambda>x. (snd x * n + fst x, re ! (fst x * n + snd x))) (concat (map (\<lambda>k. map (Pair k) [0..<n]) [0..<n]))) = Return re'"
      "length re' = n * n" "\<forall>k < n. \<forall>j < n. re' ! (j * n + k) = re ! (k * n + j)"
    and im': "fill (n * n) (map (\<lambda>x. (snd x * n + fst x, im ! (fst x * n + snd x))) (concat (map (\<lambda>k. map (Pair k) [0..<n]) [0..<n]))) = Return im'"
      "length im' = n * n" "\<forall>k < n. \<forall>j < n. im' ! (j * n + k) = im ! (k * n + j)"
    using turn [of re] turn [of im] by blast
  have "dft_matrix ?s n re' im'"
    using m(2) re'(2,3) im'(2,3) by (simp add: dft_matrix_def mult.commute)
  then show ?thesis
    using assms m(1) re'(1) im'(1) by (intro exI [of _ re'] exI [of _ im']) (simp add: build_raw_cube_dft_tables_def Let_def)
qed

section \<open>Stage twiddles\<close>

lemma decode_digits_spec:
  assumes "decode_digits rs rm = (ds, rest)"
  shows "length ds = length rs \<and> rest = rm div prod_list rs \<and>
    (\<forall>v stride. mixed_radix_loop ds rs v stride = v + stride * (rm mod prod_list rs))"
  using assms
proof (induction rs arbitrary: rm ds rest)
  case (Cons r rs)
  obtain es where es: "decode_digits rs (rm div r) = (es, rest)" "ds = rm mod r # es"
    using Cons.prems by (auto simp: Let_def split: prod.splits)
  have IH: "length es = length rs" "rest = rm div r div prod_list rs"
    "\<And>v stride. mixed_radix_loop es rs v stride = v + stride * (rm div r mod prod_list rs)" using Cons.IH [OF es(1)] by auto
  have "rm mod (r * prod_list rs) = r * (rm div r mod prod_list rs) + rm mod r" by (rule mod_mult2_eq)
  then show ?case using es(2) IH by (simp add: div_mult2_eq algebra_simps)
qed simp

lemma prod_list_split:
  assumes "stage < length (rs :: nat list)"
  shows "prod_list rs = prod_list (take stage rs) * (rs ! stage * prod_list (drop (stage + 1) rs))"
  using id_take_nth_drop [OF assms] by (metis Suc_eq_plus1 prod_list.Cons prod_list.append)

lemma prod_list_rev_nat: "prod_list (rev xs) = prod_list (xs :: nat list)"
  by (induction xs) (simp_all add: mult.commute)

text \<open>
  A codelet number is decoded exactly when it is less than the number of codelets of the stage, and the
  digits of the earlier axes are then its remainder.
\<close>

lemma decode_stage_codelet_spec:
  assumes stage: "stage < length radices" and pos: "\<And>x. x \<in> set radices \<Longrightarrow> 0 < x"
  shows "if codelet < prod_list radices div radices ! stage
     then \<exists>prev_freq future_time. decode_stage_codelet codelet radices stage = Inr (prev_freq, future_time) \<and>
       length prev_freq = stage \<and> length future_time = length radices \<and>
       mixed_radix_value prev_freq radices (length prev_freq) = codelet mod prod_list (take stage radices)
     else decode_stage_codelet codelet radices stage = Inl (StdException ''stage codelet decode overflow'')"
proof -
  let ?P = "prod_list (take stage radices)" and ?F = "prod_list (drop (stage + 1) radices)"
  obtain ds rm where d: "decode_digits (take stage radices) codelet = (ds, rm)" by fastforce
  obtain fs rest where f: "decode_digits (rev (drop (stage + 1) radices)) rm = (fs, rest)" by fastforce
  have r: "0 < radices ! stage" using pos stage by simp
  have PF: "prod_list radices div radices ! stage = ?P * ?F" using r by (simp add: prod_list_split [OF stage] mult.left_commute)
  have "0 \<notin> set (take stage radices)" "0 \<notin> set (drop (stage + 1) radices)" using pos by (auto dest: in_set_takeD in_set_dropD)
  then have "?P \<noteq> 0" "?F \<noteq> 0" unfolding prod_list_zero_iff by blast+
  then have "0 < ?P * ?F" by simp
  moreover have "rest = codelet div (?P * ?F)"
    using decode_digits_spec [OF d] decode_digits_spec [OF f] by (simp add: prod_list_rev_nat div_mult2_eq)
  ultimately have rest: "rest = 0 \<longleftrightarrow> codelet < ?P * ?F" by (simp add: div_eq_0_iff)
  have ds: "length ds = stage" "mixed_radix_value ds radices (length ds) = codelet mod ?P" and fs: "length fs = length radices - (stage + 1)"
    using decode_digits_spec [OF d] decode_digits_spec [OF f] stage by (simp_all add: mixed_radix_value_def)
  show ?thesis using d f ds fs stage unfolding PF rest [symmetric] by (auto simp: decode_stage_codelet_def)
qed

lemma emap_Return: "(\<And>x. x \<in> set xs \<Longrightarrow> f x = Return (h x)) \<Longrightarrow> emap f xs = Return (map h xs)"
  by (induction xs) simp_all

definition stage_table :: "int \<Rightarrow> nat list \<Rightarrow> nat \<Rightarrow> nat \<Rightarrow> real list \<times> real list \<Rightarrow> bool" where
  "stage_table s radices stage lanes t \<longleftrightarrow>
     (let n = prod_list radices; P = prod_list (take stage radices); radix = radices ! stage
      in length (fst t) = n \<and> length (snd t) = n \<and>
         (\<forall>lane < lanes. \<forall>elem < n div lanes.
            Complex (fst t ! (lane + lanes * elem)) (snd t ! (lane + lanes * elem)) =
            unity s ((lane + lanes * (elem div radix)) mod P * (elem mod radix)) (P * radix)))"

lemma stage_twiddles_table:
  assumes stage: "stage < length radices" and pos: "\<And>x. x \<in> set radices \<Longrightarrow> 0 < x"
    and lanes: "0 < lanes" "lanes dvd prod_list radices div radices ! stage"
  shows "\<exists>t. build_stage_twiddles radices stage lanes direction = Return t \<and> stage_table (direction_sign direction) radices stage lanes t"
proof -
  let ?n = "prod_list radices" and ?P = "prod_list (take stage radices)" and ?r = "radices ! stage" and ?s = "direction_sign direction"
  have r: "0 < ?r" using pos stage by simp
  have n: "?n = ?r * (?n div ?r)" using prod_list_split [OF stage] by (simp add: mult.left_commute)
  obtain k where k: "?n div ?r = lanes * k" using lanes(2) by blast
  have elems: "?n div lanes = ?r * k" using n k lanes(1) by (metis mult.left_commute nonzero_mult_div_cancel_left less_not_refl2)
  have denom: "prod_list (take (Suc stage) radices) = ?P * ?r" using stage by (simp add: take_Suc_conv_app_nth)
  let ?code = "\<lambda>lane elem. (lane + lanes * (elem div ?r)) mod ?P * (elem mod ?r)"
  let ?angle = "\<lambda>lane elem. of_int ?s * 2 * pi * real (?code lane elem) / real (?P * ?r)"
  let ?points = "concat (map (\<lambda>lane. map (Pair lane) [0..<?n div lanes]) [0..<lanes])"
  have points: "x \<in> set ?points \<longleftrightarrow> fst x < lanes \<and> snd x < ?n div lanes" for x by (cases x) force
  have entry: "stage_twiddle radices stage lanes direction x = Return (fst x + lanes * snd x, ?angle (fst x) (snd x))" if "x \<in> set ?points" for x
  proof -
    have x: "fst x < lanes" "snd x < ?r * k" using that points elems by simp_all
    have "snd x div ?r < k" using x(2) by (simp add: less_mult_imp_div_less mult.commute)
    then have "fst x + lanes * (snd x div ?r) < ?n div ?r"
      using row_less [of "snd x div ?r" k "fst x" lanes] x(1) k by (simp add: mult.commute add.commute)
    then obtain prev future where dec: "decode_stage_codelet (fst x + lanes * (snd x div ?r)) radices stage = Inr (prev, future)"
      and "mixed_radix_value prev radices (length prev) = (fst x + lanes * (snd x div ?r)) mod ?P"
      using decode_stage_codelet_spec [OF stage pos, of "fst x + lanes * (snd x div ?r)"] by auto
    then show ?thesis by (simp add: stage_twiddle_def Let_def denom)
  qed
  let ?ws = "map (\<lambda>x. (fst x + lanes * snd x, ?angle (fst x) (snd x))) ?points"
  have ws: "emap (stage_twiddle radices stage lanes direction) ?points = Return ?ws" using entry by (rule emap_Return)
  define g where "g h i = h (?angle (i mod lanes) (i div lanes))" for h :: "real \<Rightarrow> real" and i
  have store: "\<exists>ys. fill ?n (map (\<lambda>w. (fst w, h (snd w))) ?ws) = Return ys \<and> length ys = ?n \<and>
      (\<forall>lane < lanes. \<forall>elem < ?n div lanes. ys ! (lane + lanes * elem) = h (?angle lane elem))" for h :: "real \<Rightarrow> real"
  proof -
    let ?vs = "map (\<lambda>w. (fst w, h (snd w))) ?ws"
    have vs: "?vs = map (\<lambda>x. (fst x + lanes * snd x, h (?angle (fst x) (snd x)))) ?points" by simp
    have index: "lane + lanes * elem < ?n" if "lane < lanes" "elem < ?n div lanes" for lane elem
    proof -
      have "elem * lanes + lane < ?n div lanes * lanes" using row_less [OF that(2,1)] .
      also have "\<dots> \<le> ?n" by simp
      finally show ?thesis by (simp add: mult.commute add.commute)
    qed
    have "fst w < ?n \<and> snd w = g h (fst w)" if "w \<in> set ?vs" for w
    proof -
      from that obtain x where x: "x \<in> set ?points" "w = (fst x + lanes * snd x, h (?angle (fst x) (snd x)))"
        unfolding vs set_map by blast
      then show ?thesis using index points [of x] lanes(1) by (simp add: g_def)
    qed
    then obtain ys where ys: "fill ?n ?vs = Return ys" "length ys = ?n" "\<forall>i < ?n. ys ! i = (if i \<in> fst ` set ?vs then g h i else 0)"
      using fill_spec [of ?vs ?n "g h"] by blast
    have "ys ! (lane + lanes * elem) = h (?angle lane elem)" if "lane < lanes" "elem < ?n div lanes" for lane elem
    proof -
      have "(lane, elem) \<in> set ?points" using that points [of "(lane, elem)"] by simp
      then have "(lane + lanes * elem, h (?angle lane elem)) \<in> set ?vs" unfolding vs set_map by (rule rev_image_eqI) simp
      then have "lane + lanes * elem \<in> fst ` set ?vs" by (rule rev_image_eqI) simp
      then show ?thesis using ys(3) index [OF that] that(1) by (simp add: g_def)
    qed
    then show ?thesis using ys(1,2) by blast
  qed
  obtain re where re: "fill ?n (map (\<lambda>w. (fst w, cos (snd w))) ?ws) = Return re" "length re = ?n"
    "\<forall>lane < lanes. \<forall>elem < ?n div lanes. re ! (lane + lanes * elem) = cos (?angle lane elem)" using store [of cos] by blast
  obtain im where im: "fill ?n (map (\<lambda>w. (fst w, sin (snd w))) ?ws) = Return im" "length im = ?n"
    "\<forall>lane < lanes. \<forall>elem < ?n div lanes. im ! (lane + lanes * elem) = sin (?angle lane elem)" using store [of sin] by blast
  have "build_stage_twiddles radices stage lanes direction = Return (re, im)"
    using stage lanes(1) by (simp only: build_stage_twiddles_def Let_def ws re(1) im(1) tbind_simps) simp
  moreover have "stage_table ?s radices stage lanes (re, im)"
    using re(2,3) im(2,3) by (simp add: stage_table_def Let_def unity_def complex_eq_iff)
  ultimately show ?thesis by blast
qed


section \<open>Leaves\<close>

lemma prod_list_map_nat: "(\<And>x. x \<in> set fs \<Longrightarrow> 0 \<le> x) \<Longrightarrow> prod_list (map nat fs) = nat (prod_list fs)"
proof (induction fs)
  case (Cons f fs)
  then have "0 \<le> prod_list fs" by (simp add: prod_list_nonneg)
  with Cons show ?case by (simp add: nat_mult_distrib)
qed simp

lemma leaf_stage_lanes_divide:
  assumes fs: "prod_list fs = n" "\<And>f. f \<in> set fs \<Longrightarrow> 1 < f" and lanes: "1 \<le> lanes" "leaf_lanes_ok n fs lanes"
    and stage: "stage < length fs"
  shows "0 < leaf_stage_lanes cfg r pix n fs lanes stage" and "leaf_stage_lanes cfg r pix n fs lanes stage dvd n div fs ! stage"
proof -
  let ?f = "fs ! stage"
  have f: "1 < ?f" "?f \<in> set fs" using fs(2) stage by simp_all
  have n: "0 < n" using fs by (auto intro!: prod_list_pos simp flip: fs(1)) force
  have dvd: "?f dvd n" using f(2) fs(1) prod_list_dvd by (metis member_dvd_prod_list)
  then have q: "0 < n div ?f" using n f(1) by (auto elim!: dvdE simp: zero_less_mult_iff)
  have coop: "1 \<le> cooperative_stage_lanes n ?f" "cooperative_stage_lanes n ?f dvd n div ?f"
    using largest_divisor_spec [OF q, of "min (n div ?f) kMaxLanes"] q by (simp_all add: cooperative_stage_lanes_def kMaxLanes_def)
  have fixed: "lanes dvd n div ?f" if "\<not> use_cooperative_stage_lanes n fs lanes r"
    using that lanes(2) f(2) by (auto simp: use_cooperative_stage_lanes_def Let_def leaf_lanes_ok_def list_all_iff dvd_eq_mod_eq_0 split: if_splits)
  show "0 < leaf_stage_lanes cfg r pix n fs lanes stage" "leaf_stage_lanes cfg r pix n fs lanes stage dvd n div ?f"
    using q coop lanes(1) fixed by (auto simp: leaf_stage_lanes_def)
qed

lemma leaf_tables:
  assumes fs: "prod_list fs = n" "\<And>f. f \<in> set fs \<Longrightarrow> 1 < f" and lanes: "1 \<le> lanes" "leaf_lanes_ok n fs lanes"
    and pix: "portable_ix_leaf cfg r = Inr pix"
  defines "s \<equiv> direction_sign (req_direction r)"
  shows "\<exists>twiddles matrices. build_raw_leaf_tables cfg r n fs lanes generic = Return (twiddles @ matrices) \<and>
    length twiddles = length fs - 1 \<and> length matrices = length generic \<and>
    (\<forall>stage \<in> {1..<length fs}. stage_table s (map nat fs) stage (nat (leaf_stage_lanes cfg r pix n fs lanes stage)) (twiddles ! (stage - 1))) \<and>
    (\<forall>i < length generic. dft_matrix s (nat (generic ! i)) (fst (matrices ! i)) (snd (matrices ! i)))"
proof -
  let ?rs = "map nat fs" and ?L = "\<lambda>stage. nat (leaf_stage_lanes cfg r pix n fs lanes stage)"
  have "0 \<le> f" if "f \<in> set fs" for f using fs(2) [OF that] by simp
  then have prod: "prod_list ?rs = nat n" unfolding fs(1) [symmetric] by (rule prod_list_map_nat)
  have "\<exists>t. build_stage_twiddles ?rs stage (?L stage) (req_direction r) = Return t \<and> stage_table s ?rs stage (?L stage) t"
    if "stage < length fs" for stage
    unfolding s_def
  proof (rule stage_twiddles_table)
    have f: "1 < fs ! stage" using fs(2) that by simp
    note l = leaf_stage_lanes_divide [OF fs lanes that, of cfg r pix]
    show "0 < ?L stage" using l(1) by simp
    have "int (?L stage) dvd int (nat n div nat (fs ! stage))"
      using l f by (simp add: zdiv_int)
    then have "?L stage dvd nat n div nat (fs ! stage)" by (simp only: of_nat_dvd_iff)
    then show "?L stage dvd prod_list ?rs div ?rs ! stage" using that by (simp add: prod)
  qed (use that fs(2) in force)+
  then obtain tw where tw: "\<And>stage. stage < length fs \<Longrightarrow> build_stage_twiddles ?rs stage (?L stage) (req_direction r) = Return (tw stage) \<and>
      stage_table s ?rs stage (?L stage) (tw stage)" by metis
  have "\<exists>t. build_dft_matrix (nat x) (req_direction r) = Return t \<and> dft_matrix s (nat x) (fst t) (snd t)" for x
    using dft_matrix_table [of "nat x" "req_direction r"] by (auto simp: s_def)
  then obtain mat where mat: "\<And>x. build_dft_matrix (nat x) (req_direction r) = Return (mat x) \<and> dft_matrix s (nat x) (fst (mat x)) (snd (mat x))"
    by metis
  have "emap (\<lambda>stage. build_stage_twiddles ?rs stage (?L stage) (req_direction r)) [1..<length fs] = Return (map tw [1..<length fs])"
    using tw by (intro emap_Return) simp
  moreover have "emap (\<lambda>x. build_dft_matrix (nat x) (req_direction r)) generic = Return (map mat generic)"
    using mat by (intro emap_Return) simp
  ultimately have "build_raw_leaf_tables cfg r n fs lanes generic = Return (map tw [1..<length fs] @ map mat generic)"
    by (simp add: build_raw_leaf_tables_def pix)
  then show ?thesis using tw mat by (intro exI [of _ "map tw [1..<length fs]"] exI [of _ "map mat generic"]) auto
qed


section \<open>Properties\<close>

text \<open>
  C13. The tables of a leaf are exact and always built. For a leaf as the planner makes it (radices above
  one that multiply to the length, lanes that divide every stage or a length that the cooperative lanes
  serve) \<open>build_raw_leaf_tables\<close> never runs into the decoder's overflow exception nor writes out of range. Its
  \<open>stage\<close>-th twiddle table holds, for the lanes the kernel of that device and stage uses, the root of
  unity that the mixed-radix digits of each butterfly element call for, and each matrix is the
  transform matrix of its generic radix. Cosine and sine are the real functions.
\<close>

theorem leaf_tables_exact:
  assumes "prod_list fs = n" and "\<And>f. f \<in> set fs \<Longrightarrow> 1 < f" and "1 \<le> lanes" and "leaf_lanes_ok n fs lanes"
    and "portable_ix_leaf cfg r = Inr pix"
  shows "\<exists>twiddles matrices. build_raw_leaf_tables cfg r n fs lanes generic = Return (twiddles @ matrices) \<and>
    length twiddles = length fs - 1 \<and> length matrices = length generic \<and>
    (\<forall>stage \<in> {1..<length fs}. stage_table (direction_sign (req_direction r)) (map nat fs) stage
       (nat (leaf_stage_lanes cfg r pix n fs lanes stage)) (twiddles ! (stage - 1))) \<and>
    (\<forall>i < length generic. dft_matrix (direction_sign (req_direction r)) (nat (generic ! i)) (fst (matrices ! i)) (snd (matrices ! i)))"
  by (rule leaf_tables [OF assms])

definition ix_cfg :: plan_cfg where
  "ix_cfg = \<lparr>cfg_env = [''FLAGFFT_IX_PORTABLE_LEAF'' \<mapsto> ''1''], cfg_backend_name = ''ix'',
     cfg_max_dynamic_smem_bytes = (\<lambda>_. 65536), cfg_log = (\<lambda>x. x)\<rparr>"

theorem leaf_tables_exact_witness:
  "\<exists>t1 t2 m. build_raw_leaf_tables ix_cfg default_request 42 [2, 3, 7] 1 [7] = Return [t1, t2, m] \<and>
     stage_table (- 1) [2, 3, 7] 1 14 t1 \<and> stage_table (- 1) [2, 3, 7] 2 6 t2 \<and> dft_matrix (- 1) 7 (fst m) (snd m)"
proof -
  have pix: "portable_ix_leaf ix_cfg default_request = Inr True" by (simp add: ix_cfg_def portable_ix_leaf_def)
  have fs: "prod_list [2, 3, 7 :: int] = 42" "\<And>f. f \<in> set [2, 3, 7 :: int] \<Longrightarrow> 1 < f" "(1 :: int) \<le> 1" "leaf_lanes_ok 42 [2, 3, 7] 1"
    by (auto simp: leaf_lanes_ok_def)
  obtain twiddles matrices where t: "build_raw_leaf_tables ix_cfg default_request 42 [2, 3, 7] 1 [7] = Return (twiddles @ matrices)"
      "length twiddles = 2" "length matrices = 1"
    and stages: "\<forall>stage \<in> {1..<length [2, 3, 7 :: int]}. stage_table (direction_sign (req_direction default_request)) (map nat [2, 3, 7]) stage
       (nat (leaf_stage_lanes ix_cfg default_request True 42 [2, 3, 7] 1 stage)) (twiddles ! (stage - 1))"
    and m: "\<forall>i < length [7 :: int]. dft_matrix (direction_sign (req_direction default_request)) (nat ([7] ! i)) (fst (matrices ! i)) (snd (matrices ! i))"
    using leaf_tables_exact [OF fs pix, of "[7]"] by (auto simp: numeral_2_eq_2)
  moreover have "twiddles = [twiddles ! 0, twiddles ! 1]" "matrices = [matrices ! 0]"
    using t(2,3) by (auto simp: list_eq_iff_nth_eq less_Suc_eq numeral_2_eq_2)
  moreover have "direction_sign (req_direction default_request) = - 1" by (simp add: direction_sign_def default_request_def)
  moreover have "nat (leaf_stage_lanes ix_cfg default_request True 42 [2, 3, 7] 1 1) = 14"
    "nat (leaf_stage_lanes ix_cfg default_request True 42 [2, 3, 7] 1 2) = 6" by (simp_all add: leaf_stage_lanes_def)
  ultimately show ?thesis
    using bspec [OF stages, of 1] bspec [OF stages, of 2] spec [OF m, of 0]
    by (intro exI [of _ "twiddles ! 0"] exI [of _ "twiddles ! 1"] exI [of _ "matrices ! 0"]) simp
qed


end
