(* ===== verification/FFT_Compile.thy ===== *)
theory FFT_Compile
  imports FFT_TablesFacts FFT_JitCache
begin

text \<open>
  \<open>TritonCompiler::compile_raw_node\<close> of \<open>src/src/codegen/compiler.cpp\<close>: a plan tree becomes a tree of execution
  nodes. Kernels come from the kernel cache, tables are computed on the host and copied to the device,
  workspaces are allocated for a batch.

  The state is the device, the kernel cache and the compiler's policy members. An allocation or a copy to
  the device may raise. A read-only table is kept in its node as its contents; its allocation and copy
  happen, but it has no cells. Where C++ leaves the order of the arguments of a constructor open, it is the
  order of the text here.

  This is the code of a build for another device than the NPU (whose branches are under \<open>#if\<close>). Three
  branches build nodes of other classes than \<open>raw_node\<close>: two- and three-dimensional plans, the fused real
  layout of the ix device and the fused Rader leaf of the MACA device. They are \<open>Undefined\<close> here, and the
  theorems speak of requests that do not take them.
\<close>

section \<open>The compiler's state\<close>

record compile_env =
  ce_cfg :: plan_cfg
  ce_world :: jit_world
  ce_machine :: machine
  ce_triton_target :: "string \<Rightarrow> string"

record comp =
  cp_dev :: dev
  cp_cache :: "jit_kernel kernel_cache"
  cp_compiler :: triton_compiler

type_synonym 'a compile = "comp \<Rightarrow> 'a effect \<times> comp"

definition cret :: "'a \<Rightarrow> 'a compile" where
  "cret x = (\<lambda>st. (Return x, st))"

definition cbind :: "'a compile \<Rightarrow> ('a \<Rightarrow> 'b compile) \<Rightarrow> 'b compile" where
  "cbind f g = (\<lambda>st. case f st of
     (Return x, st') \<Rightarrow> g x st' | (Raise e, st') \<Rightarrow> (Raise e, st') | (Undefined, st') \<Rightarrow> (Undefined, st'))"

text \<open>A computation on the host that may raise.\<close>

definition host :: "'a effect \<Rightarrow> 'a compile" where
  "host x = (\<lambda>st. (x, st))"

definition on_dev :: "'a exec \<Rightarrow> 'a compile" where
  "on_dev f = (\<lambda>st. case f (cp_dev st) of (x, d) \<Rightarrow> (x, st\<lparr>cp_dev := d\<rparr>))"

definition configure :: "(triton_compiler \<Rightarrow> triton_compiler) \<Rightarrow> unit compile" where
  "configure f = (\<lambda>st. (Return (), st\<lparr>cp_compiler := f (cp_compiler st)\<rparr>))"

definition kernel_for :: "compile_env \<Rightarrow> kernel_key \<Rightarrow> jit_kernel compile" where
  "kernel_for e key = (\<lambda>st. case compile_kernel (ce_world e) (cp_compiler st) key (cp_cache st) of
     (x, cache) \<Rightarrow> (of_sum x, st\<lparr>cp_cache := cache\<rparr>))"

section \<open>Device memory\<close>

text \<open>
  \<open>adaptor::Memory(bytes)\<close>, for a number of complex elements: no call of the runtime for nothing; what the cells
  hold is not determined. An allocation is not given back, so the end of a node's life is not modelled.
\<close>

definition reserve :: "nat \<Rightarrow> nat exec" where
  "reserve len = xbind xget (\<lambda>d.
     xbind (xmodify (\<lambda>d. d\<lparr>d_next := d_next d + 1, d_size := (d_size d)(d_next d := len), d_ready := (d_ready d)(d_next d := False)\<rparr>)) (\<lambda>_.
     xret (d_next d)))"

definition runtime_call :: "machine \<Rightarrow> unit exec" where
  "runtime_call mc = operation mc (\<lambda>d. (Return (), d))"

definition allocate :: "machine \<Rightarrow> nat \<Rightarrow> nat exec" where
  "allocate mc len = xbind (if len = 0 then xret () else runtime_call mc) (\<lambda>_. reserve len)"

text \<open>
  \<open>Memory::from_floats\<close> and \<open>Memory::from_doubles\<close>, for a table of complex entries in cells; and for a table that
  is kept as its contents, which is never empty: an allocation and a copy.
\<close>

definition from_values :: "machine \<Rightarrow> complex list \<Rightarrow> nat exec" where
  "from_values mc xs = xbind (allocate mc (length xs)) (\<lambda>buf.
     if xs = [] then xret buf
     else xbind (operation mc (\<lambda>d. (Return (), d\<lparr>d_mem := (\<lambda>a. if fst a = buf \<and> snd a < length xs then xs ! snd a else d_mem d a)\<rparr>))) (\<lambda>_.
       xret buf))"

definition upload :: "machine \<Rightarrow> 'a \<Rightarrow> 'a exec" where
  "upload mc x = xbind (runtime_call mc) (\<lambda>_. xbind (reserve 0) (\<lambda>_. xbind (runtime_call mc) (\<lambda>_. xret x)))"

definition memory :: "compile_env \<Rightarrow> nat \<Rightarrow> nat compile" where
  "memory e len = on_dev (allocate (ce_machine e) len)"

text \<open>A table of complex entries, interleaved: kept as its contents, or in cells.\<close>

definition device_table :: "compile_env \<Rightarrow> real list effect \<Rightarrow> complex list compile" where
  "device_table e table = cbind (host table) (\<lambda>xs. on_dev (upload (ce_machine e) (complex_table xs)))"

definition device_cells :: "compile_env \<Rightarrow> real list effect \<Rightarrow> nat compile" where
  "device_cells e table = cbind (host table) (\<lambda>xs. on_dev (from_values (ce_machine e) (complex_table xs)))"

text \<open>A list of pairs of real tables.\<close>

primrec upload_pairs :: "compile_env \<Rightarrow> (real list \<times> real list) list \<Rightarrow> unit compile" where
  "upload_pairs e [] = cret ()"
| "upload_pairs e (t # ts) = cbind (on_dev (upload (ce_machine e) (fst t))) (\<lambda>_.
     cbind (on_dev (upload (ce_machine e) (snd t))) (\<lambda>_. upload_pairs e ts))"

section \<open>Requests and policies\<close>

definition forward_child_request :: "fft_request \<Rightarrow> fft_request" where
  "forward_child_request r = r\<lparr>req_direction := ''forward'', req_norm := ''backward''\<rparr>"

definition triton_target_for_request :: "compile_env \<Rightarrow> fft_request \<Rightarrow> string" where
  "triton_target_for_request e r = ce_triton_target e (req_device_arch r)"

definition ce_env :: "compile_env \<Rightarrow> env" where
  "ce_env e = cfg_env (ce_cfg e)"

definition maca_flag_or_default :: "env \<Rightarrow> string \<Rightarrow> bool \<Rightarrow> bool" where
  "maca_flag_or_default env name default_value = (case env name of None \<Rightarrow> default_value | Some v \<Rightarrow> v = ''1'')"

definition ix_real_single_pack :: "fft_request \<Rightarrow> bool" where
  "ix_real_single_pack r \<longleftrightarrow> req_device_type r = ''ix'' \<and> req_device_arch r = ''71'' \<and> req_raw_dim r = 1 \<and>
     req_origin_rank r \<le> 1 \<and> req_batch r = 1 \<and> req_requested_n r = 210 \<and> req_fft_length r = 210 \<and>
     req_input_dtype r = ''complex64'' \<and> req_output_dtype r = ''complex64'' \<and>
     (req_real_transform_kind r = ''r2c'' \<or> req_real_transform_kind r = ''c2r'') \<and> unit_last_stride r"

definition maca_1d_batch_target :: "fft_request \<Rightarrow> bool" where
  "maca_1d_batch_target r \<longleftrightarrow>
     (let n = req_requested_n r; packed_quarter = (req_packed_real_child r \<and> n = 262144); dt = req_input_dtype r
      in req_device_type r = ''maca'' \<and> req_device_arch r = ''102'' \<and> req_raw_dim r = 1 \<and> req_origin_rank r \<le> 1 \<and>
         req_batch r = 64 \<and> req_fft_length r = n \<and>
         (n = 16 \<or> n = 1024 \<or> n = 2048 \<or> ((n = 16384 \<or> n = 524288 \<or> packed_quarter) \<and> dt = ''complex64'') \<or>
          (n = 524287 \<and> (dt = ''complex64'' \<or> dt = ''complex128'')) \<or> ((n = 524288 \<or> packed_quarter) \<and> dt = ''complex128'')) \<and>
         unit_last_stride r)"

text \<open>A policy that a variable may switch: unset, empty or one leaves it, zero ends it.\<close>

definition switched_policy :: "env \<Rightarrow> string \<Rightarrow> bool \<Rightarrow> exn + bool" where
  "switched_policy env name policy =
     (if \<not> policy then Inr False
      else case env name of
        None \<Rightarrow> Inr True
      | Some v \<Rightarrow> if v = '''' \<or> v = ''1'' then Inr True else if v = ''0'' then Inr False
                 else Inl (StdException (name @ '' must be 0 or 1'')))"

definition configure_single_transform_policies :: "compile_env \<Rightarrow> fft_request \<Rightarrow> unit compile" where
  "configure_single_transform_policies e r =
     (let env = ce_env e in
      cbind (configure (\<lambda>c. c\<lparr>tc_maca_3d_policy := (req_device_type r = ''maca'' \<and> req_origin_rank r = 3),
        tc_maca_3d_c2c32_single_cube_policy := (req_device_type r = ''maca'' \<and> req_maca_3d_c2c32_single_cube r)\<rparr>)) (\<lambda>_.
      cbind (host (of_sum (ix_ct_single_policy_enabled env r))) (\<lambda>single.
      cbind (configure (\<lambda>c. c\<lparr>tc_ix_ct_single_policy := single\<rparr>)) (\<lambda>_.
      cbind (host (of_sum (ix_ct_batch_policy_enabled env r))) (\<lambda>batched.
      cbind (configure (\<lambda>c. c\<lparr>tc_ix_ct_batch_policy := batched, tc_ix_real_single_pack := ix_real_single_pack r\<rparr>)) (\<lambda>_.
      cbind (host (of_sum (ix_ct_single_tle_policy env r))) (\<lambda>tle.
      cbind (configure (\<lambda>c. c\<lparr>tc_ix_ct_single_tle_policy := tle\<rparr>)) (\<lambda>_.
      cbind (host (of_sum (maca_tail_codegen_root env r))) (\<lambda>tail.
      cbind (configure (\<lambda>c. c\<lparr>tc_maca_tail_policy := tail, tc_maca_1d_batch_policy := maca_1d_batch_target r\<rparr>)) (\<lambda>_.
      cbind (host (of_sum (switched_policy env ''FLAGFFT_MACA_1D_BATCH'' (maca_1d_batch_target r)))) (\<lambda>batch_policy.
      cbind (configure (\<lambda>c. c\<lparr>tc_maca_1d_batch_policy := batch_policy,
        tc_maca_1d_single_policy := (req_device_type r = ''maca'' \<and> req_raw_dim r = 1 \<and> req_batch r = 1)\<rparr>)) (\<lambda>_.
      cbind (host (of_sum (switched_policy env ''FLAGFFT_MACA_1D_SINGLE''
        (req_device_type r = ''maca'' \<and> req_raw_dim r = 1 \<and> req_batch r = 1)))) (\<lambda>single_policy.
      configure (\<lambda>c. c\<lparr>tc_maca_1d_single_policy := single_policy\<rparr>))))))))))))))"

section \<open>Keys\<close>

definition flag_or_default :: "env \<Rightarrow> string \<Rightarrow> bool \<Rightarrow> bool" where
  "flag_or_default env name default_value = (case env name of None \<Rightarrow> default_value | Some v \<Rightarrow> v = ''1'')"

definition npu_3d_flag_or_default :: "env \<Rightarrow> fft_request \<Rightarrow> string \<Rightarrow> bool" where
  "npu_3d_flag_or_default env r name \<longleftrightarrow> req_device_type r = ''npu'' \<and> req_origin_rank r = 3 \<and> flag_or_default env name True"

definition mark_npu_portable_leaf :: "env \<Rightarrow> kernel_key \<Rightarrow> fft_request \<Rightarrow> kernel_key" where
  "mark_npu_portable_leaf env key r =
     key\<lparr>kk_npu_portable_leaf := (req_device_type r = ''npu'' \<and>
       (req_origin_rank r = 2 \<or> npu_3d_flag_or_default env r ''FLAGFFT_NPU_3D_LEAF''))\<rparr>"

definition use_npu_2d_cube_dft :: "env \<Rightarrow> fft_request \<Rightarrow> int \<Rightarrow> bool" where
  "use_npu_2d_cube_dft env r n \<longleftrightarrow> env ''FLAGFFT_NPU_2D_CUBE_DFT'' = Some ''1'' \<and> req_device_type r = ''npu'' \<and>
     req_origin_rank r = 2 \<and> req_input_dtype r = ''complex64'' \<and> req_output_dtype r = ''complex64'' \<and> 32 \<le> n \<and> n \<le> 64"

text \<open>The kernels of a node; a leaf is given by its plan node, and \<open>with_leaf\<close> hands its members on.\<close>

definition with_leaf :: "plan_node \<Rightarrow> (int \<Rightarrow> int list \<Rightarrow> int \<Rightarrow> int \<Rightarrow> int list \<Rightarrow> int \<Rightarrow> 'a) \<Rightarrow> 'a" where
  "with_leaf leaf f = f (leaf_length leaf) (plan_node.leaf_factors leaf) (leaf_lanes leaf) (leaf_num_warps leaf)
     (leaf_generic_radices leaf) (leaf_smem_size leaf)"

definition compile_leaf_kernel :: "compile_env \<Rightarrow> plan_node \<Rightarrow> fft_request \<Rightarrow> jit_kernel compile" where
  "compile_leaf_kernel e leaf r =
     kernel_for e ((mark_npu_portable_leaf (ce_env e)
       (with_leaf leaf (key_leaf (triton_target_for_request e r) (req_direction r) (req_input_dtype r))) r)
         \<lparr>kk_hcu_3d_middle_batch_pack := req_hcu_3d_middle_batch_pack r\<rparr>)"

definition compile_direct_dft_kernel :: "compile_env \<Rightarrow> fft_request \<Rightarrow> int \<Rightarrow> jit_kernel compile" where
  "compile_direct_dft_kernel e r n =
     (let key = key_direct_dft (triton_target_for_request e r) (req_direction r) (req_input_dtype r) n
      in kernel_for e (if use_npu_2d_cube_dft (ce_env e) r n then key\<lparr>kk_kind := KK_DirectDftCube\<rparr> else key))"

definition compile_four_step_row_kernel :: "compile_env \<Rightarrow> plan_node \<Rightarrow> fft_request \<Rightarrow> int \<Rightarrow> int \<Rightarrow> jit_kernel compile" where
  "compile_four_step_row_kernel e leaf r n1 n2 =
     kernel_for e (with_leaf leaf (key_four_step_row (triton_target_for_request e r) (req_direction r) (req_input_dtype r) n1 n2))"

definition compile_four_step_col_kernel :: "compile_env \<Rightarrow> plan_node \<Rightarrow> fft_request \<Rightarrow> int \<Rightarrow> int \<Rightarrow> jit_kernel compile" where
  "compile_four_step_col_kernel e leaf r n1 n2 =
     kernel_for e (with_leaf leaf (key_four_step_col (triton_target_for_request e r) (req_direction r) (req_input_dtype r) n1 n2))"

definition compile_bluestein_prepare_kernel :: "compile_env \<Rightarrow> fft_request \<Rightarrow> int \<Rightarrow> int \<Rightarrow> jit_kernel compile" where
  "compile_bluestein_prepare_kernel e r n m =
     kernel_for e (key_bluestein_prepare (triton_target_for_request e r) (req_input_dtype r) n m)"

definition compile_bluestein_pointwise_kernel :: "compile_env \<Rightarrow> fft_request \<Rightarrow> int \<Rightarrow> int \<Rightarrow> jit_kernel compile" where
  "compile_bluestein_pointwise_kernel e r n m =
     kernel_for e (key_bluestein_pointwise (triton_target_for_request e r) (req_input_dtype r) n m)"

definition compile_bluestein_finalize_kernel :: "compile_env \<Rightarrow> fft_request \<Rightarrow> int \<Rightarrow> int \<Rightarrow> jit_kernel compile" where
  "compile_bluestein_finalize_kernel e r n m =
     kernel_for e (key_bluestein_finalize (triton_target_for_request e r) (req_input_dtype r) n m)"

definition compile_leaf_bluestein_prepare_kernel :: "compile_env \<Rightarrow> plan_node \<Rightarrow> fft_request \<Rightarrow> int \<Rightarrow> jit_kernel compile" where
  "compile_leaf_bluestein_prepare_kernel e leaf r n =
     kernel_for e (with_leaf leaf (key_leaf_bluestein_prepare (triton_target_for_request e r) (req_direction r) (req_input_dtype r) n))"

definition compile_leaf_bluestein_finish_kernel :: "compile_env \<Rightarrow> plan_node \<Rightarrow> fft_request \<Rightarrow> int \<Rightarrow> jit_kernel compile" where
  "compile_leaf_bluestein_finish_kernel e leaf r n =
     kernel_for e (with_leaf leaf (key_leaf_bluestein_finish (triton_target_for_request e r) (req_direction r) (req_input_dtype r) n))"

definition compile_rader_prepare_kernel :: "compile_env \<Rightarrow> fft_request \<Rightarrow> int \<Rightarrow> int \<Rightarrow> jit_kernel compile" where
  "compile_rader_prepare_kernel e r n m =
     kernel_for e (key_rader_prepare (triton_target_for_request e r) (req_input_dtype r) n m)"

definition compile_rader_pointwise_kernel :: "compile_env \<Rightarrow> fft_request \<Rightarrow> int \<Rightarrow> int \<Rightarrow> jit_kernel compile" where
  "compile_rader_pointwise_kernel e r n m =
     kernel_for e (key_rader_pointwise (triton_target_for_request e r) (req_input_dtype r) n m)"

definition compile_rader_finalize_kernel :: "compile_env \<Rightarrow> fft_request \<Rightarrow> int \<Rightarrow> int \<Rightarrow> jit_kernel compile" where
  "compile_rader_finalize_kernel e r n m =
     kernel_for e (key_rader_finalize (triton_target_for_request e r) (req_input_dtype r) n m)"

definition compile_reshape_pack_kernel :: "compile_env \<Rightarrow> fft_request \<Rightarrow> int \<Rightarrow> int \<Rightarrow> jit_kernel compile" where
  "compile_reshape_pack_kernel e r n1 n2 =
     kernel_for e (key_reshape_pack (triton_target_for_request e r) (req_input_dtype r) n1 n2)"

definition compile_twiddle_reshape_pack_kernel :: "compile_env \<Rightarrow> fft_request \<Rightarrow> int \<Rightarrow> int \<Rightarrow> jit_kernel compile" where
  "compile_twiddle_reshape_pack_kernel e r n1 n2 =
     kernel_for e (key_twiddle_reshape_pack (triton_target_for_request e r) (req_input_dtype r) n1 n2)"

section \<open>Nodes\<close>

definition cundefined :: "'a compile" where
  "cundefined = (\<lambda>st. (Undefined, st))"

definition current_policies :: "triton_compiler compile" where
  "current_policies = (\<lambda>st. (Return (cp_compiler st), st))"

definition is_leaf :: "plan_node \<Rightarrow> bool" where
  "is_leaf nd \<longleftrightarrow> node_kind nd = CtLeaf"

definition upload_leaf_tables :: "compile_env \<Rightarrow> plan_node \<Rightarrow> fft_request \<Rightarrow> unit compile" where
  "upload_leaf_tables e leaf r =
     cbind (host (build_raw_leaf_tables (ce_cfg e) r (leaf_length leaf) (plan_node.leaf_factors leaf) (leaf_lanes leaf) (leaf_generic_radices leaf)))
       (upload_pairs e)"

definition compile_raw_leaf :: "compile_env \<Rightarrow> plan_node \<Rightarrow> fft_request \<Rightarrow> raw_node compile" where
  "compile_raw_leaf e leaf r =
     cbind (compile_leaf_kernel e leaf r) (\<lambda>kn.
     cbind (upload_leaf_tables e leaf r) (\<lambda>_.
     cret (RawLeaf (nat (leaf_length leaf)) (direction_sign (req_direction r)) (nat (jk_batch_per_block kn)))))"

definition compile_raw_direct_dft :: "compile_env \<Rightarrow> int \<Rightarrow> fft_request \<Rightarrow> nat \<Rightarrow> raw_node compile" where
  "compile_raw_direct_dft e n r batch =
     cbind (memory e (batch * nat n)) (\<lambda>input_copy.
     cbind (compile_direct_dft_kernel e r n) (\<lambda>_.
     cbind (host (if use_npu_2d_cube_dft (ce_env e) r n then build_raw_cube_dft_tables (nat n) r else build_raw_direct_dft_tables (nat n) r)) (\<lambda>tables.
     cbind (upload_pairs e [tables]) (\<lambda>_.
     cret (RawDirectDft (nat n) (fst tables) (snd tables) input_copy)))))"

subsection \<open>Stockham\<close>

definition block_override :: "env \<Rightarrow> string \<Rightarrow> int \<Rightarrow> exn + int" where
  "block_override env name fallback =
     (case env name of
        None \<Rightarrow> Inr fallback
      | Some v \<Rightarrow> if v \<notin> {''8'', ''16'', ''32'', ''64'', ''128''} then Inl (StdException (name @ '' must be 8, 16, 32, 64 or 128''))
                 else (case stoll v of Inl e \<Rightarrow> Inl e | Inr (block, _) \<Rightarrow> Inr block))"

definition stockham_butterfly_block :: "int \<Rightarrow> nat \<Rightarrow> int" where
  "stockham_butterfly_block n batch =
     (if n = 1024 \<or> n = 2048 then (if batch = 1 then 8 else if batch = 64 then (if n = 1024 then 32 else 64) else 128) else 128)"

primrec compile_stockham_stages :: "compile_env \<Rightarrow> fft_request \<Rightarrow> int \<Rightarrow> int \<Rightarrow> int \<Rightarrow> int list \<Rightarrow> int \<Rightarrow> (nat \<times> nat) list compile" where
  "compile_stockham_stages e r n butterfly_block prime_block [] stage_span = cret []"
| "compile_stockham_stages e r n butterfly_block prime_block (radix # rest) stage_span =
     (let vector_prime = (radix = 13 \<or> radix = 17 \<or> radix = 19);
          key = (key_direct_dft (triton_target_for_request e r) (req_direction r) (req_input_dtype r) n)\<lparr>kk_kind := KK_StockhamStage,
            kk_factors := [radix, stage_span, if vector_prime then prime_block else butterfly_block]\<rparr>
      in cbind (kernel_for e key) (\<lambda>kn.
         cbind (compile_stockham_stages e r n butterfly_block prime_block rest (stage_span * radix)) (\<lambda>stages.
         cret ((nat radix, nat (jk_butterflies_per_block kn)) # stages))))"

definition build_stockham_twiddle :: "fft_request \<Rightarrow> nat \<Rightarrow> real list effect" where
  "build_stockham_twiddle r n =
     fill (n * 2) (concat (map (\<lambda>i. put_angle i ((if req_direction r = ''inverse'' then 2 else - 2) * pi * real i / real n)) [0..<n]))"

definition compile_stockham :: "compile_env \<Rightarrow> int \<Rightarrow> int list \<Rightarrow> fft_request \<Rightarrow> nat \<Rightarrow> raw_node compile" where
  "compile_stockham e n factors r batch =
     cbind (if n \<le> 2048 then host (of_sum (block_override (ce_env e) ''FLAGFFT_NPU_STOCKHAM_BLOCK'' (stockham_butterfly_block n batch)))
            else cret (stockham_butterfly_block n batch)) (\<lambda>butterfly_block.
     cbind (host (of_sum (block_override (ce_env e) ''FLAGFFT_NPU_PRIME_BLOCK'' 128))) (\<lambda>prime_block.
     cbind (compile_stockham_stages e r n butterfly_block prime_block factors 1) (\<lambda>stages.
     cbind (device_table e (build_stockham_twiddle r (nat n))) (\<lambda>twiddle.
     cbind (memory e (batch * nat n)) (\<lambda>first_buf.
     cbind (memory e (batch * nat n)) (\<lambda>second_buf.
     cret (RawStockham (nat n) stages (direction_sign (req_direction r)) twiddle first_buf second_buf)))))))"

subsection \<open>Four-step\<close>

definition compile_four_step_fused :: "compile_env \<Rightarrow> int \<Rightarrow> int \<Rightarrow> int \<Rightarrow> plan_node \<Rightarrow> plan_node \<Rightarrow> fft_request \<Rightarrow> nat \<Rightarrow> raw_node compile" where
  "compile_four_step_fused e n n1 n2 row_leaf col_leaf r batch =
     cbind (device_table e (build_raw_four_step_twiddle r (nat n1) (nat n2))) (\<lambda>twiddle.
     cbind (memory e (batch * nat n)) (\<lambda>stage1.
     cbind (compile_four_step_row_kernel e row_leaf r n1 n2) (\<lambda>row_kernel.
     cbind (upload_leaf_tables e row_leaf r) (\<lambda>_.
     cbind (compile_four_step_col_kernel e col_leaf r n1 n2) (\<lambda>col_kernel.
     cbind (upload_leaf_tables e col_leaf r) (\<lambda>_.
     cret (RawFourStepFused (nat n) (nat n1) (nat n2) (direction_sign (req_direction r)) (jk_tle_fused_twiddle row_kernel)
       (nat (jk_inner_pack row_kernel)) (nat (jk_inner_pack col_kernel)) twiddle stage1)))))))"

text \<open>The rest of \<open>compile_raw_four_step_generic\<close>, after its two children.\<close>

definition compile_four_step_parent :: "compile_env \<Rightarrow> int \<Rightarrow> int \<Rightarrow> int \<Rightarrow> raw_node \<Rightarrow> raw_node \<Rightarrow> fft_request \<Rightarrow> nat \<Rightarrow> raw_node compile" where
  "compile_four_step_parent e n n1 n2 row_child col_child r batch =
     cbind (device_table e (build_raw_four_step_twiddle r (nat n1) (nat n2))) (\<lambda>twiddle.
     cbind (memory e (batch * nat n)) (\<lambda>stage1.
     cbind (memory e (batch * nat n)) (\<lambda>stage2.
     cbind (compile_reshape_pack_kernel e r n1 n2) (\<lambda>_.
     cbind (compile_twiddle_reshape_pack_kernel e r n2 n1) (\<lambda>_.
     cbind (compile_reshape_pack_kernel e r n1 n2) (\<lambda>_.
     cret (RawFourStepGeneric (nat n) (nat n1) (nat n2) row_child col_child twiddle stage1 stage2)))))))"

subsection \<open>Bluestein\<close>

definition four_step_leaves :: "plan_node \<Rightarrow> (int \<times> int \<times> plan_node \<times> plan_node) option" where
  "four_step_leaves nd = (case nd of
     FourStepPlanNode n n1 n2 row col \<Rightarrow> if is_leaf row \<and> is_leaf col then Some (n1, n2, row, col) else None
   | _ \<Rightarrow> None)"

definition use_ix_prime_real_bluestein :: "env \<Rightarrow> int \<Rightarrow> plan_node \<Rightarrow> fft_request \<Rightarrow> nat \<Rightarrow> exn + bool" where
  "use_ix_prime_real_bluestein env n fft_plan r batch =
     (if req_device_type r \<noteq> ''ix'' \<or> req_device_arch r \<noteq> ''71'' \<or> req_raw_dim r \<noteq> 1 \<or> req_origin_rank r > 1 \<or> batch \<noteq> 64 \<or>
         req_packed_real_child r \<or> req_fft_length r \<noteq> req_requested_n r \<or> req_requested_n r \<noteq> n \<or>
         (n \<noteq> 1009 \<and> n \<noteq> 8191 \<and> n \<noteq> 16381) \<or> req_input_dtype r \<noteq> ''complex64'' \<or> req_output_dtype r \<noteq> ''complex64'' \<or>
         (req_real_transform_kind r \<noteq> ''r2c'' \<and> req_real_transform_kind r \<noteq> ''c2r'') \<or> \<not> unit_last_stride r
      then Inr False
      else let setting = env ''FLAGFFT_IX_PRIME_REAL_FUSION''
           in if setting \<noteq> None \<and> setting \<noteq> Some ''0'' \<and> setting \<noteq> Some ''1''
              then Inl (StdException ''FLAGFFT_IX_PRIME_REAL_FUSION must be 0 or 1'')
              else if setting = Some ''0'' then Inr False
              else Inr (is_leaf fft_plan \<or>
                (case four_step_leaves fft_plan of Some (n1, n2, row, col) \<Rightarrow> leaf_length row < 512 \<and> leaf_length col < 512 | None \<Rightarrow> False)))"

definition bluestein_chunk_batch :: "compile_env \<Rightarrow> int \<Rightarrow> fft_request \<Rightarrow> nat \<Rightarrow> nat" where
  "bluestein_chunk_batch e m r batch =
     (let conv_bytes = m * complex_element_bytes (req_input_dtype r);
          columns = (m + 255) div 256;
          grid_chunk = max 1 (int (mc_max_launch_blocks (ce_machine e)) div max 1 columns)
      in nat (min (int batch) (min (max 1 (256 * 1024 * 1024 div max 1 conv_bytes)) grid_chunk)))"

text \<open>Which of the Bluestein nodes is built.\<close>

definition use_fp64_full_leaf :: "env \<Rightarrow> int \<Rightarrow> fft_request \<Rightarrow> nat \<Rightarrow> bool" where
  "use_fp64_full_leaf env n r batch \<longleftrightarrow> req_input_dtype r = ''complex128'' \<and>
     (req_device_type r = ''cuda'' \<and> req_device_arch r = ''sm_80'' \<and> batch = 1 \<or>
      req_device_type r = ''musa'' \<and> req_device_arch r = ''31'' \<and> batch = 1 \<or>
      req_device_type r = ''musa'' \<and> req_device_arch r = ''31'' \<and> req_origin_rank r = 3 \<and> n = 997 \<and> batch \<le> 4096 \<or>
      req_device_type r = ''hcu'' \<and> req_origin_rank r = 3 \<and> n = 997 \<and> batch \<le> 4096 \<and>
        env ''FLAGFFT_HCU_3D_BLUESTEIN_FULL_LEAF'' \<noteq> Some ''0'')"

definition use_boundary_leaf :: "env \<Rightarrow> triton_compiler \<Rightarrow> int \<Rightarrow> plan_node \<Rightarrow> fft_request \<Rightarrow> nat \<Rightarrow> bool" where
  "use_boundary_leaf env c n fft_plan r batch \<longleftrightarrow> is_leaf fft_plan \<and>
     (req_device_type r = ''maca'' \<and>
        (batch = 1 \<and> maca_flag_or_default env ''FLAGFFT_MACA_BLUESTEIN_LEAF_FUSION'' (tc_maca_1d_single_policy c) \<or>
         req_origin_rank r = 3 \<and> n = 997 \<and> batch \<le> 4096 \<and> maca_flag_or_default env ''FLAGFFT_MACA_3D_PRIME_BOUNDARY'' True) \<or>
      req_device_type r = ''ix'' \<and> req_device_arch r = ''71'' \<and> req_origin_rank r = 3 \<and> req_input_dtype r = ''complex64'' \<and> n = 997 \<and>
        env ''FLAGFFT_IX_3D_BLUESTEIN_BOUNDARY'' = Some ''1'')"

definition use_full_leaf :: "env \<Rightarrow> int \<Rightarrow> plan_node \<Rightarrow> fft_request \<Rightarrow> nat \<Rightarrow> bool" where
  "use_full_leaf env n fft_plan r batch \<longleftrightarrow> req_device_type r \<noteq> ''maca'' \<and>
     (req_input_dtype r = ''complex64'' \<or> use_fp64_full_leaf env n r batch) \<and> is_leaf fft_plan"

definition use_maca_four_step :: "env \<Rightarrow> triton_compiler \<Rightarrow> plan_node \<Rightarrow> plan_node \<Rightarrow> fft_request \<Rightarrow> nat \<Rightarrow> bool" where
  "use_maca_four_step env c row col r batch \<longleftrightarrow> req_device_type r = ''maca'' \<and> batch = 1 \<and>
     leaf_length row \<le> 1024 \<and> leaf_length col \<le> 1024 \<and>
     maca_flag_or_default env ''FLAGFFT_MACA_BLUESTEIN_FOUR_STEP_FUSION'' (tc_maca_1d_single_policy c)"

definition use_default_four_step :: "plan_node \<Rightarrow> plan_node \<Rightarrow> fft_request \<Rightarrow> nat \<Rightarrow> nat \<Rightarrow> bool" where
  "use_default_four_step row col r batch chunk_batch \<longleftrightarrow> req_device_type r \<noteq> ''maca'' \<and>
     (req_input_dtype r = ''complex64'' \<or>
      req_device_type r = ''musa'' \<and> req_device_arch r = ''31'' \<and> req_input_dtype r = ''complex128'' \<and> 16 \<le> batch \<and> batch = chunk_batch) \<and>
     leaf_length row < 512 \<and> leaf_length col < 512"

text \<open>The leaf of the fused kernel: its factors after the first reversed, and the warps an ix variable gives.\<close>

definition fused_warps :: "env \<Rightarrow> int \<Rightarrow> plan_node \<Rightarrow> fft_request \<Rightarrow> int" where
  "fused_warps env n leaf r =
     (if req_device_type r = ''ix'' \<and> req_device_arch r = ''71'' \<and> req_origin_rank r = 3 \<and> n = 997 then
        (case env ''FLAGFFT_IX_3D_BLUESTEIN_WARPS'' of
           Some v \<Rightarrow> if v = ''4'' then 4 else if v = ''8'' then 8 else leaf_num_warps leaf
         | None \<Rightarrow> leaf_num_warps leaf)
      else leaf_num_warps leaf)"

definition fused_factors :: "int list \<Rightarrow> int list" where
  "fused_factors fs = (if 3 \<le> length fs then hd fs # rev (tl fs) else fs)"

definition with_factors :: "plan_node \<Rightarrow> int list \<Rightarrow> int \<Rightarrow> plan_node" where
  "with_factors leaf fs warps = LeafPlanNode (leaf_length leaf) fs (leaf_remainder leaf) (leaf_lanes leaf) warps
     (leaf_generic_radices leaf) (leaf_smem_size leaf)"

definition make_boundary_leaf :: "bool \<Rightarrow> plan_node \<Rightarrow> plan_node" where
  "make_boundary_leaf maca_four_step leaf =
     (let fs = plan_node.leaf_factors leaf
      in with_factors leaf (if \<not> maca_four_step \<and> length fs = 2 \<and> hd fs > last fs then rev fs else fs) (leaf_num_warps leaf))"

definition compile_boundary_kernel :: "compile_env \<Rightarrow> int \<Rightarrow> int \<Rightarrow> int \<Rightarrow> int \<Rightarrow> fft_request \<Rightarrow> plan_node \<Rightarrow> kernel_kind \<Rightarrow> bool \<Rightarrow> jit_kernel compile" where
  "compile_boundary_kernel e n m n1 n2 child_request leaf kind is_row =
     (let target = triton_target_for_request e child_request; dir = req_direction child_request; dt = req_input_dtype child_request;
          key = (if is_row then with_leaf leaf (key_four_step_row target dir dt n1 n2) else with_leaf leaf (key_four_step_col target dir dt n1 n2))
      in kernel_for e (key\<lparr>kk_kind := kind, kk_bluestein_n := n, kk_bluestein_m := m\<rparr>))"

definition compile_bluestein_leaf ::
  "compile_env \<Rightarrow> int \<Rightarrow> int \<Rightarrow> plan_node \<Rightarrow> fft_request \<Rightarrow> nat \<Rightarrow> raw_node \<Rightarrow> complex list \<Rightarrow> nat \<Rightarrow> nat \<Rightarrow> raw_node compile" where
  "compile_bluestein_leaf e n m leaf r batch fft chirp b_time b_fft_buf =
     (let child_request = forward_child_request r in
      cbind (memory e (batch * nat m)) (\<lambda>work_buf.
      cbind (compile_leaf_bluestein_prepare_kernel e leaf child_request n) (\<lambda>prepare_kernel.
      cbind (compile_leaf_bluestein_finish_kernel e leaf child_request n) (\<lambda>finish_kernel.
      cbind (upload_leaf_tables e leaf child_request) (\<lambda>_.
      cret (RawBluesteinLeaf (nat n) (nat m) fft (nat (jk_batch_per_block prepare_kernel)) (nat (jk_batch_per_block finish_kernel))
        chirp b_time work_buf b_fft_buf))))))"

definition compile_bluestein_full_leaf ::
  "compile_env \<Rightarrow> int \<Rightarrow> int \<Rightarrow> plan_node \<Rightarrow> fft_request \<Rightarrow> raw_node \<Rightarrow> complex list \<Rightarrow> nat \<Rightarrow> nat \<Rightarrow> raw_node compile" where
  "compile_bluestein_full_leaf e n m leaf r fft chirp b_time b_fft_buf =
     (let child_request = forward_child_request r;
          fused_leaf = with_factors leaf (fused_factors (plan_node.leaf_factors leaf)) (fused_warps (ce_env e) n leaf r)
      in cbind (kernel_for e (with_leaf fused_leaf (key_leaf_bluestein (triton_target_for_request e child_request)
           (req_direction child_request) (req_input_dtype child_request) n))) (\<lambda>kn.
         cbind (upload_leaf_tables e fused_leaf child_request) (\<lambda>_.
         cret (RawBluesteinFullLeaf (nat n) (nat m) fft (nat (jk_batch_per_block kn)) chirp b_time b_fft_buf))))"

definition compile_bluestein_four_step ::
  "compile_env \<Rightarrow> int \<Rightarrow> int \<Rightarrow> int \<Rightarrow> int \<Rightarrow> plan_node \<Rightarrow> plan_node \<Rightarrow> fft_request \<Rightarrow> nat \<Rightarrow> raw_node \<Rightarrow> complex list \<Rightarrow> nat \<Rightarrow> nat \<Rightarrow> raw_node compile" where
  "compile_bluestein_four_step e n m n1 n2 boundary_row boundary_col r batch fft chirp b_time b_fft_buf =
     (let child_request = forward_child_request r;
          boundary_kernel = compile_boundary_kernel e n m n1 n2 child_request
      in cbind (device_table e (build_raw_four_step_twiddle child_request (nat n1) (nat n2))) (\<lambda>twiddle.
         cbind (memory e (batch * nat m)) (\<lambda>stage1.
         cbind (memory e (batch * nat m)) (\<lambda>work_buf.
         cbind (boundary_kernel boundary_row KK_BluesteinFourStepPrepareRow True) (\<lambda>prepare_row.
         cbind (compile_four_step_col_kernel e boundary_col child_request n1 n2) (\<lambda>first_col.
         cbind (boundary_kernel boundary_row KK_BluesteinFourStepPointwiseRow True) (\<lambda>pointwise_row.
         cbind (boundary_kernel boundary_col KK_BluesteinFourStepFinishCol False) (\<lambda>finish_col.
         cbind (upload_leaf_tables e boundary_row child_request) (\<lambda>_.
         cbind (upload_leaf_tables e boundary_col child_request) (\<lambda>_.
         cret (RawBluesteinFourStep (nat n) (nat m) (nat n1) (nat n2) fft (jk_tle_fused_twiddle prepare_row)
           (nat (jk_inner_pack prepare_row)) (nat (jk_inner_pack first_col)) (nat (jk_inner_pack pointwise_row)) (nat (jk_inner_pack finish_col))
           twiddle chirp b_time stage1 work_buf b_fft_buf)))))))))))"

definition compile_bluestein_generic ::
  "compile_env \<Rightarrow> int \<Rightarrow> int \<Rightarrow> fft_request \<Rightarrow> nat \<Rightarrow> raw_node \<Rightarrow> complex list \<Rightarrow> nat \<Rightarrow> nat \<Rightarrow> raw_node compile" where
  "compile_bluestein_generic e n m r chunk_batch fft chirp b_time b_fft_buf =
     cbind (memory e (chunk_batch * nat m)) (\<lambda>work_buf.
     cbind (memory e (chunk_batch * nat m)) (\<lambda>a_buf.
     cbind (compile_bluestein_prepare_kernel e r n m) (\<lambda>_.
     cbind (compile_bluestein_pointwise_kernel e r n m) (\<lambda>_.
     cbind (compile_bluestein_finalize_kernel e r n m) (\<lambda>_.
     cret (RawBluestein (nat n) (nat m) chunk_batch fft chirp b_time a_buf work_buf b_fft_buf))))))"

text \<open>What follows the compilation of the convolution's transform.\<close>

definition compile_bluestein ::
  "compile_env \<Rightarrow> int \<Rightarrow> int \<Rightarrow> plan_node \<Rightarrow> fft_request \<Rightarrow> nat \<Rightarrow> raw_node \<Rightarrow> raw_node compile" where
  "compile_bluestein e n m fft_plan r batch fft =
     (let env = ce_env e; chunk_batch = bluestein_chunk_batch e m r batch in
      cbind (device_table e (build_raw_bluestein_chirp r (nat n) (req_direction r = ''inverse''))) (\<lambda>chirp.
      cbind (device_cells e (build_raw_bluestein_b r (nat n) (nat m))) (\<lambda>b_time.
      cbind current_policies (\<lambda>c.
      cbind (memory e (nat m)) (\<lambda>b_fft_buf.
      if use_boundary_leaf env c n fft_plan r batch then compile_bluestein_leaf e n m fft_plan r batch fft chirp b_time b_fft_buf
      else if use_full_leaf env n fft_plan r batch then compile_bluestein_full_leaf e n m fft_plan r fft chirp b_time b_fft_buf
      else case four_step_leaves fft_plan of
          Some (n1, n2, row, col) \<Rightarrow>
            (let maca_four_step = use_maca_four_step env c row col r batch
             in if use_default_four_step row col r batch chunk_batch \<or> maca_four_step
                then compile_bluestein_four_step e n m n1 n2 (make_boundary_leaf maca_four_step row) (make_boundary_leaf maca_four_step col)
                       r batch fft chirp b_time b_fft_buf
                else compile_bluestein_generic e n m r chunk_batch fft chirp b_time b_fft_buf)
        | None \<Rightarrow> compile_bluestein_generic e n m r chunk_batch fft chirp b_time b_fft_buf)))))"

subsection \<open>Rader\<close>

definition use_maca_rader_leaf :: "env \<Rightarrow> int \<Rightarrow> plan_node \<Rightarrow> fft_request \<Rightarrow> nat \<Rightarrow> bool" where
  "use_maca_rader_leaf env prime conv_plan r batch \<longleftrightarrow>
     req_device_type r = ''maca'' \<and> req_device_arch r = ''102'' \<and> req_raw_dim r = 1 \<and> req_origin_rank r \<le> 1 \<and> batch = 64 \<and>
     prime = 1009 \<and> req_input_dtype r = ''complex64'' \<and> is_leaf conv_plan \<and>
     (env ''FLAGFFT_MACA_RADER_FULL_LEAF'' = Some ''1'' \<or>
      (case env ''FLAGFFT_MACA_RADER_BOUNDARY_LEAF'' of Some v \<Rightarrow> v = ''1'' | None \<Rightarrow> req_real_transform_kind r = ''c2r''))"

definition compile_rader :: "compile_env \<Rightarrow> int \<Rightarrow> int list \<Rightarrow> fft_request \<Rightarrow> nat \<Rightarrow> raw_node \<Rightarrow> raw_node compile" where
  "compile_rader e prime idx r batch fft =
     (let conv_length = prime - 1 in
      cbind (on_dev (upload (ce_machine e) (build_raw_rader_idx_table idx))) (\<lambda>idx_table.
      cbind (device_cells e (build_raw_rader_conv_kernel r (nat prime) idx)) (\<lambda>b_time.
      cbind (memory e (batch * nat conv_length)) (\<lambda>a_buf.
      cbind (memory e (batch * nat conv_length)) (\<lambda>work_buf.
      cbind (memory e (nat conv_length)) (\<lambda>b_fft_buf.
      cbind (memory e (batch * nat prime)) (\<lambda>input_copy.
      cbind (compile_rader_prepare_kernel e r prime conv_length) (\<lambda>_.
      cbind (compile_rader_pointwise_kernel e r prime conv_length) (\<lambda>_.
      cbind (compile_rader_finalize_kernel e r prime conv_length) (\<lambda>_.
      cret (RawRader (nat prime) (nat conv_length) fft idx_table b_time a_buf work_buf b_fft_buf input_copy)))))))))))"

section \<open>Compilation of a plan\<close>

primrec compile_raw_node :: "compile_env \<Rightarrow> plan_node \<Rightarrow> fft_request \<Rightarrow> nat \<Rightarrow> raw_node compile" where
  "compile_raw_node e (LeafPlanNode n fs rm lanes warps generic smem) r batch =
     cbind (configure_single_transform_policies e r) (\<lambda>_. compile_raw_leaf e (LeafPlanNode n fs rm lanes warps generic smem) r)"
| "compile_raw_node e (DirectDFTPlanNode n) r batch =
     cbind (configure_single_transform_policies e r) (\<lambda>_. compile_raw_direct_dft e n r batch)"
| "compile_raw_node e (StockhamPlanNode n factors) r batch =
     cbind (configure_single_transform_policies e r) (\<lambda>_. compile_stockham e n factors r batch)"
| "compile_raw_node e (FourStepPlanNode n n1 n2 row col) r batch =
     cbind (configure_single_transform_policies e r) (\<lambda>_.
       if is_leaf row \<and> is_leaf col then compile_four_step_fused e n n1 n2 row col r batch
       else cbind (compile_raw_node e row r (batch * nat n2)) (\<lambda>row_child.
            cbind (compile_raw_node e col r (batch * nat n1)) (\<lambda>col_child.
            compile_four_step_parent e n n1 n2 row_child col_child r batch)))"
| "compile_raw_node e (BluesteinPlanNode n m fft_plan) r batch =
     cbind (configure_single_transform_policies e r) (\<lambda>_.
     cbind (host (of_sum (use_ix_prime_real_bluestein (ce_env e) n fft_plan r batch))) (\<lambda>real_layout.
     if real_layout then cundefined
     else cbind (compile_raw_node e fft_plan (forward_child_request r) (bluestein_chunk_batch e m r batch)) (\<lambda>fft.
          compile_bluestein e n m fft_plan r batch fft)))"
| "compile_raw_node e (RaderPlanNode prime g idx conv_plan) r batch =
     cbind (configure_single_transform_policies e r) (\<lambda>_.
     cbind (compile_raw_node e conv_plan (forward_child_request r) batch) (\<lambda>fft.
     if use_maca_rader_leaf (ce_env e) prime conv_plan r batch then cundefined
     else compile_rader e prime idx r batch fft))"
| "compile_raw_node e (TwoDimPlanNode n0 n1 strategy row col) r batch = cundefined"
| "compile_raw_node e (ThreeDimPlanNode n0 n1 n2 strategy n2_plan n1_plan n0_plan) r batch = cundefined"

end
