(* ===== verification/FFT_CompileFacts.thy ===== *)
theory FFT_CompileFacts
  imports FFT_Compile
begin

text \<open>
  A compiled plan is a node whose state is right: its tables are the tables of its transform, its
  workspaces are fresh allocations of the size its batch needs, and its children are right for the
  batches they are called with. With \<open>execute_node\<close> this makes the compiled plan compute the transform.
\<close>

section \<open>What is assumed of the surroundings\<close>

text \<open>
  The generator's metadata have positive packs. An exception of the compiler has one of these causes: a
  device operation or a generator run that fails, or a variable that is set.
\<close>

definition kernel_positive :: "jit_kernel \<Rightarrow> bool" where
  "kernel_positive kn \<longleftrightarrow> 0 < jk_batch_per_block kn \<and> 0 < jk_inner_pack kn \<and> 0 < jk_butterflies_per_block kn"

definition generator_positive :: "jit_world \<Rightarrow> bool" where
  "generator_positive w \<longleftrightarrow> (\<forall>c key kn. generate_kernel w c key = Inr kn \<longrightarrow> kernel_positive kn)"

definition generator_answers :: "jit_world \<Rightarrow> bool" where
  "generator_answers w \<longleftrightarrow> reject_legacy_backend_env (jw_env w) = None \<and> (\<forall>path. jw_lock w path = None) \<and>
     (\<forall>c key. \<exists>kn. generate_kernel w c key = Inr kn)"

definition disturbed :: "compile_env \<Rightarrow> bool" where
  "disturbed e \<longleftrightarrow> faulty (ce_machine e) \<or> \<not> generator_answers (ce_world e) \<or> (\<exists>name. ce_env e name \<noteq> None)"

definition cache_positive :: "comp \<Rightarrow> bool" where
  "cache_positive st \<longleftrightarrow> (\<forall>ck kn. kc_cache (cp_cache st) ck = Some kn \<longrightarrow> kernel_positive kn)"

section \<open>Growing devices\<close>

definition grows :: "dev \<Rightarrow> dev \<Rightarrow> bool" where
  "grows d d' \<longleftrightarrow> d_next d \<le> d_next d' \<and>
     (\<forall>b < d_next d. d_size d' b = d_size d b \<and> d_ready d' b = d_ready d b \<and> (\<forall>i. d_mem d' (b, i) = d_mem d (b, i)))"

lemma grows_refl [simp]: "grows d d"
  by (simp add: grows_def)

lemma grows_trans: "grows d d' \<Longrightarrow> grows d' d'' \<Longrightarrow> grows d d''"
  by (simp add: grows_def)

definition lasting :: "(dev \<Rightarrow> bool) \<Rightarrow> bool" where
  "lasting I \<longleftrightarrow> (\<forall>d d'. I d \<and> grows d d' \<longrightarrow> I d')"

lemma lastingD: "lasting I \<Longrightarrow> I d \<Longrightarrow> grows d d' \<Longrightarrow> I d'"
  by (auto simp: lasting_def)

lemma lasting_const [simp, intro]: "lasting (\<lambda>_. P)"
  by (simp add: lasting_def)

lemma lasting_conj [intro]: "lasting I \<Longrightarrow> lasting J \<Longrightarrow> lasting (\<lambda>d. I d \<and> J d)"
  by (auto simp: lasting_def)

text \<open>Fresh allocations from a point on, with their sizes; and cells that hold a table.\<close>

definition buffers :: "nat \<Rightarrow> (nat \<times> nat) list \<Rightarrow> dev \<Rightarrow> bool" where
  "buffers lo bs d \<longleftrightarrow> lo \<le> d_next d \<and> distinct (map fst bs) \<and>
     (\<forall>(b, len) \<in> set bs. lo \<le> b \<and> b < d_next d \<and> d_size d b = len \<and> \<not> d_ready d b)"

lemma lasting_buffers [intro]: "lasting (buffers lo bs)"
  by (fastforce simp: lasting_def buffers_def grows_def)

definition cells_hold :: "nat \<Rightarrow> complex list \<Rightarrow> dev \<Rightarrow> bool" where
  "cells_hold b xs d \<longleftrightarrow> b < d_next d \<and> (\<forall>i < length xs. d_mem d (b, i) = xs ! i)"

lemma lasting_cells_hold [intro]: "lasting (cells_hold b xs)"
  by (auto simp: lasting_def cells_hold_def grows_def)

section \<open>Triples\<close>

definition made :: "compile_env \<Rightarrow> dev \<Rightarrow> ('a \<Rightarrow> dev \<Rightarrow> bool) \<Rightarrow> 'a effect \<times> comp \<Rightarrow> bool" where
  "made e d Q res \<longleftrightarrow> (case res of
     (Return x, st) \<Rightarrow> cache_positive st \<and> grows d (cp_dev st) \<and> Q x (cp_dev st)
   | (Raise _, _) \<Rightarrow> disturbed e | (Undefined, _) \<Rightarrow> False)"

lemma made_simps [simp]:
  "made e d Q (Return x, st) \<longleftrightarrow> cache_positive st \<and> grows d (cp_dev st) \<and> Q x (cp_dev st)"
  "made e d Q (Raise y, st) \<longleftrightarrow> disturbed e" "\<not> made e d Q (Undefined, st)"
  by (simp_all add: made_def)

definition makes :: "compile_env \<Rightarrow> (dev \<Rightarrow> bool) \<Rightarrow> 'a compile \<Rightarrow> ('a \<Rightarrow> dev \<Rightarrow> bool) \<Rightarrow> bool" where
  "makes e I f Q \<longleftrightarrow> (\<forall>st. cache_positive st \<longrightarrow> I (cp_dev st) \<longrightarrow> made e (cp_dev st) Q (f st))"

lemma makesI: "(\<And>st. cache_positive st \<Longrightarrow> I (cp_dev st) \<Longrightarrow> made e (cp_dev st) Q (f st)) \<Longrightarrow> makes e I f Q"
  by (simp add: makes_def)

lemma makesD: "makes e I f Q \<Longrightarrow> cache_positive st \<Longrightarrow> I (cp_dev st) \<Longrightarrow> made e (cp_dev st) Q (f st)"
  by (simp add: makes_def)

lemma makes_pre: "makes e J f Q \<Longrightarrow> (\<And>d. I d \<Longrightarrow> J d) \<Longrightarrow> makes e I f Q"
  by (simp add: makes_def)

lemma makes_at: "(\<And>lo. makes e (\<lambda>d. d_next d = lo \<and> I d) f Q) \<Longrightarrow> makes e I f Q"
  by (simp add: makes_def)

lemma makes_ret: "(\<And>d. I d \<Longrightarrow> Q x d) \<Longrightarrow> makes e I (cret x) Q"
  by (simp add: makes_def cret_def)

lemma makes_bind:
  assumes "makes e I f R" and "\<And>x. makes e (R x) (g x) Q"
  shows "makes e I (cbind f g) Q"
proof (rule makesI)
  fix st assume "cache_positive st" "I (cp_dev st)"
  then have f: "made e (cp_dev st) R (f st)" by (rule makesD [OF assms(1)])
  show "made e (cp_dev st) Q (cbind f g st)"
  proof (cases "f st")
    case (Pair y st1)
    show ?thesis
    proof (cases y)
      case (Return x)
      then have "made e (cp_dev st1) Q (g x st1)" and "grows (cp_dev st) (cp_dev st1)"
        using f Pair makesD [OF assms(2)] by auto
      moreover have "made e (cp_dev st) Q res" if "made e (cp_dev st1) Q res" "grows (cp_dev st) (cp_dev st1)" for res
        using that by (auto simp: made_def split: prod.splits effect.splits intro: grows_trans)
      ultimately show ?thesis using Pair Return by (simp add: cbind_def)
    qed (use f Pair in \<open>simp_all add: cbind_def\<close>)
  qed
qed

lemma makes_host:
  assumes "x = Return y" and "makes e I (g y) Q"
  shows "makes e I (cbind (host x) g) Q"
  using assms by (simp add: makes_def cbind_def host_def)

text \<open>A host computation that may raise only where a variable is set.\<close>

lemma makes_host_sum:
  assumes "\<And>x. z = Inl x \<Longrightarrow> disturbed e" and "\<And>y. z = Inr y \<Longrightarrow> makes e I (g y) Q"
  shows "makes e I (cbind (host (of_sum z)) g) Q"
  using assms by (cases z) (auto simp: makes_def cbind_def host_def)

lemma makes_configure:
  assumes "makes e I (g ()) Q"
  shows "makes e I (cbind (configure f) g) Q"
proof (rule makesI)
  fix st assume "cache_positive st" "I (cp_dev st)"
  then show "made e (cp_dev st) Q (cbind (configure f) g st)"
    using makesD [OF assms, of "st\<lparr>cp_compiler := f (cp_compiler st)\<rparr>"] by (simp add: cbind_def configure_def cache_positive_def)
qed

lemma makes_policies:
  assumes "\<And>c. makes e I (g c) Q"
  shows "makes e I (cbind current_policies g) Q"
  using assms by (simp add: makes_def cbind_def current_policies_def)

lemma makes_dev:
  assumes "\<And>d. I d \<Longrightarrow> runs (ce_machine e) (\<lambda>_. True) f d (\<lambda>x d'. grows d d' \<and> R x d')" and "\<And>x. makes e (R x) (g x) Q"
  shows "makes e I (cbind (on_dev f) g) Q"
proof (rule makes_bind)
  show "makes e I (on_dev f) R"
  proof (rule makesI)
    fix st assume "cache_positive st" "I (cp_dev st)"
    then show "made e (cp_dev st) R (on_dev f st)"
      using assms(1) [of "cp_dev st"]
      by (auto simp: on_dev_def runs_def cache_positive_def disturbed_def split: prod.splits effect.splits)
  qed
qed (rule assms(2))

subsection \<open>Kernels and policies\<close>

lemma generator_answersD:
  assumes "generator_answers w"
  shows "reject_legacy_backend_env (jw_env w) \<noteq> Some x" and "jw_lock w path \<noteq> Some x" and "generate_kernel w c key \<noteq> Inl x"
proof -
  obtain kn where "generate_kernel w c key = Inr kn" using assms unfolding generator_answers_def by blast
  then show "generate_kernel w c key \<noteq> Inl x" by simp
qed (use assms in \<open>auto simp: generator_answers_def\<close>)

lemma compile_kernel_positive:
  assumes gen: "generator_positive w" and cache: "\<And>ck kn. kc_cache cache ck = Some kn \<Longrightarrow> kernel_positive kn"
    and ck: "compile_kernel w c key cache = (x, cache')"
  shows "(case x of Inr kn \<Rightarrow> kernel_positive kn | Inl _ \<Rightarrow> \<not> generator_answers w) \<and>
    (\<forall>ck kn. kc_cache cache' ck = Some kn \<longrightarrow> kernel_positive kn)"
  using ck gen cache
  by (auto simp: compile_kernel_def Let_def cache_probe_def cache_recheck_def cache_publish_def generator_positive_def
      dest: generator_answersD split: option.splits sum.splits if_splits prod.splits)

lemma makes_kernel:
  assumes gen: "generator_positive (ce_world e)" and g: "\<And>kn. kernel_positive kn \<Longrightarrow> makes e I (g kn) Q"
  shows "makes e I (cbind (kernel_for e key) g) Q"
proof (rule makes_bind [where R = "\<lambda>kn d. kernel_positive kn \<and> I d"])
  show "makes e I (kernel_for e key) (\<lambda>kn d. kernel_positive kn \<and> I d)"
  proof (rule makesI)
    fix st assume st: "cache_positive st" "I (cp_dev st)"
    obtain x cache where ck: "compile_kernel (ce_world e) (cp_compiler st) key (cp_cache st) = (x, cache)"
      by (cases "compile_kernel (ce_world e) (cp_compiler st) key (cp_cache st)")
    show "made e (cp_dev st) (\<lambda>kn d. kernel_positive kn \<and> I d) (kernel_for e key st)"
      using compile_kernel_positive [OF gen _ ck] st
      by (cases x) (auto simp: kernel_for_def ck cache_positive_def disturbed_def)
  qed
  show "makes e (\<lambda>d. kernel_positive kn \<and> I d) (g kn) Q" for kn
    using g [of kn] by (cases "kernel_positive kn") (auto simp: makes_def)
qed

lemma disturbedI: "ce_env e name \<noteq> None \<Longrightarrow> disturbed e"
  by (auto simp: disturbed_def)

lemma quiet_env: "\<not> disturbed e \<Longrightarrow> ce_env e = (\<lambda>_. None)"
  by (auto simp: disturbed_def)

lemma policies_answer:
  assumes "env = (\<lambda>_. None)"
  shows "ix_ct_single_policy_enabled env r \<noteq> Inl x" "ix_ct_batch_policy_enabled env r \<noteq> Inl x"
    "ix_ct_single_tle_policy env r \<noteq> Inl x" "switched_policy env name p \<noteq> Inl x"
  by (simp_all add: assms ix_ct_single_policy_enabled_def ix_ct_batch_policy_enabled_def ix_ct_single_tle_policy_def ix_switch_def
      switched_policy_def Let_def)

lemma tail_policy_answers:
  assumes "env = (\<lambda>_. None)"
  shows "maca_tail_codegen_root env r \<noteq> Inl x"
proof -
  have "\<exists>b. maca_tail_policy_enabled env r = Inr b"
    by (auto simp: assms maca_tail_policy_enabled_def)
  then obtain b where b: "maca_tail_policy_enabled env r = Inr b" ..
  then have "\<exists>b'. maca_tail_real_direct_dft env r = Inr b'" by (auto simp: maca_tail_real_direct_dft_def)
  then obtain b' where b': "maca_tail_real_direct_dft env r = Inr b'" ..
  have "\<exists>plan. maca_tail_automatic_plan env r = Inr plan" using b by (auto simp: maca_tail_automatic_plan_def Let_def)
  then obtain plan where "maca_tail_automatic_plan env r = Inr plan" ..
  then show ?thesis using b' by (cases b') (simp_all add: maca_tail_codegen_root_def Let_def split: option.split)
qed

lemma makes_configured:
  assumes "makes e I (g ()) Q"
  shows "makes e I (cbind (configure_single_transform_policies e r) g) Q"
proof (rule makes_bind [where R = "\<lambda>_. I"])
  have quiet: "disturbed e" if "x = y" "ce_env e = (\<lambda>_. None) \<Longrightarrow> x \<noteq> y" for x y :: "exn + 'z"
    using that quiet_env by blast
  have last: "makes e I (configure f) (\<lambda>_. I)" for f
    by (auto simp: makes_def configure_def cache_positive_def)
  show "makes e I (configure_single_transform_policies e r) (\<lambda>_. I)"
    unfolding configure_single_transform_policies_def Let_def
    by (intro makes_configure makes_host_sum last) (erule quiet, erule policies_answer tail_policy_answers)+
  show "makes e I (g x) Q" for x using assms by simp
qed

subsection \<open>Device memory\<close>

lemma runs_reserve:
  assumes "buffers lo bs d" and "lasting J" and "J d"
  shows "runs mc K (reserve len) d (\<lambda>b d'. b = d_next d \<and> grows d d' \<and> buffers lo ((b, len) # bs) d' \<and> J d')"
proof -
  let ?d = "d\<lparr>d_next := d_next d + 1, d_size := (d_size d)(d_next d := len), d_ready := (d_ready d)(d_next d := False)\<rparr>"
  have grows: "grows d ?d" by (simp add: grows_def)
  then have "buffers lo bs ?d" "J ?d" using lastingD [OF lasting_buffers assms(1)] lastingD [OF assms(2,3)] by blast+
  moreover have "d_next d \<notin> fst ` set bs" "lo \<le> d_next d" using assms(1) by (auto simp: buffers_def)
  ultimately show ?thesis using grows by (auto simp: runs_def reserve_def x_defs buffers_def)
qed

lemma runs_runtime_call:
  assumes "buffers lo bs d" and "lasting J" and "J d"
  shows "runs mc (\<lambda>_. True) (runtime_call mc) d (\<lambda>_ d'. d_next d' = d_next d \<and> grows d d' \<and> buffers lo bs d' \<and> J d')"
proof -
  have grows: "grows d (d\<lparr>d_ticks := t\<rparr>)" for t by (simp add: grows_def)
  then have "buffers lo bs (d\<lparr>d_ticks := t\<rparr>)" "J (d\<lparr>d_ticks := t\<rparr>)" for t
    using lastingD [OF lasting_buffers assms(1)] lastingD [OF assms(2,3)] by blast+
  then show ?thesis using grows by (auto simp: runs_def runtime_call_def operation_def faulty_def split: option.splits)
qed

lemma runs_allocate:
  assumes "buffers lo bs d" and "lasting J" and "J d"
  shows "runs mc (\<lambda>_. True) (allocate mc len) d (\<lambda>b d'. b = d_next d \<and> grows d d' \<and> buffers lo ((b, len) # bs) d' \<and> J d')"
  unfolding allocate_def
proof (rule runs_bind [where R = "\<lambda>_ d'. d_next d' = d_next d \<and> grows d d' \<and> buffers lo bs d' \<and> J d'"])
  show "runs mc (\<lambda>_. True) (if len = 0 then xret () else runtime_call mc) d (\<lambda>_ d'. d_next d' = d_next d \<and> grows d d' \<and> buffers lo bs d' \<and> J d')"
    using runs_runtime_call [OF assms] assms by (auto simp: runs_ret)
  fix d' assume d': "d_next d' = d_next d \<and> grows d d' \<and> buffers lo bs d' \<and> J d'"
  show "runs mc (\<lambda>_. True) (reserve len) d' (\<lambda>b d'. b = d_next d \<and> grows d d' \<and> buffers lo ((b, len) # bs) d' \<and> J d')"
    by (rule runs_post [OF runs_reserve [OF _ assms(2), of lo bs]]) (use d' grows_trans in auto)
qed

lemma makes_memory:
  assumes "lasting J" and "\<And>b. makes e (\<lambda>d. buffers lo ((b, len) # bs) d \<and> J d) (g b) Q"
  shows "makes e (\<lambda>d. buffers lo bs d \<and> J d) (cbind (memory e len) g) Q"
  unfolding memory_def
  by (rule makes_dev [OF runs_post [OF runs_allocate] assms(2)]) (use assms(1) in auto)

lemma runs_upload:
  assumes "buffers lo bs d" and "lasting J" and "J d"
  shows "runs mc (\<lambda>_. True) (upload mc x) d (\<lambda>y d'. grows d d' \<and> y = x \<and> buffers lo bs d' \<and> J d')"
  unfolding upload_def
proof (rule runs_bind [OF runs_runtime_call [OF assms]])
  fix d1 assume d1: "d_next d1 = d_next d \<and> grows d d1 \<and> buffers lo bs d1 \<and> J d1"
  then have 1: "buffers lo bs d1" "J d1" by auto
  show "runs mc (\<lambda>_. True) (xbind (reserve 0) (\<lambda>_. xbind (runtime_call mc) (\<lambda>_. xret x))) d1 (\<lambda>y d'. grows d d' \<and> y = x \<and> buffers lo bs d' \<and> J d')"
  proof (rule runs_bind [OF runs_reserve [OF 1(1) assms(2) 1(2)]])
    fix b d2 assume d2: "b = d_next d1 \<and> grows d1 d2 \<and> buffers lo ((b, 0) # bs) d2 \<and> J d2"
    then have 2: "buffers lo bs d2" "J d2" by (auto simp: buffers_def)
    show "runs mc (\<lambda>_. True) (xbind (runtime_call mc) (\<lambda>_. xret x)) d2 (\<lambda>y d'. grows d d' \<and> y = x \<and> buffers lo bs d' \<and> J d')"
      by (rule runs_bind [OF runs_runtime_call [OF 2(1) assms(2) 2(2)]], rule runs_ret) (use d1 d2 grows_trans in blast)
  qed
qed

lemma makes_upload:
  assumes "lasting J" and "makes e (\<lambda>d. buffers lo bs d \<and> J d) (g x) Q"
  shows "makes e (\<lambda>d. buffers lo bs d \<and> J d) (cbind (on_dev (upload (ce_machine e) x)) g) Q"
proof (rule makes_dev)
  show "runs (ce_machine e) (\<lambda>_. True) (upload (ce_machine e) x) d (\<lambda>y d'. grows d d' \<and> (y = x \<and> buffers lo bs d' \<and> J d'))"
    if "buffers lo bs d \<and> J d" for d
    by (rule runs_post [OF runs_upload]) (use that assms(1) in auto)
  show "makes e (\<lambda>d'. y = x \<and> buffers lo bs d' \<and> J d') (g y) Q" for y
    using assms(2) by (cases "y = x") (auto simp: makes_def)
qed

lemma cbind_assoc: "cbind (cbind f h) g = cbind f (\<lambda>x. cbind (h x) g)"
  by (rule ext) (simp add: cbind_def split: prod.split effect.split)

lemma makes_assoc: "makes e I (cbind f (\<lambda>x. cbind (h x) g)) Q \<Longrightarrow> makes e I (cbind (cbind f h) g) Q"
  by (simp only: cbind_assoc)

lemma makes_table:
  assumes "lasting J" and "table = Return xs" and "makes e (\<lambda>d. buffers lo bs d \<and> J d) (g (complex_table xs)) Q"
  shows "makes e (\<lambda>d. buffers lo bs d \<and> J d) (cbind (device_table e table) g) Q"
  unfolding device_table_def by (intro makes_assoc makes_host [OF assms(2)] makes_upload assms)

lemma makes_cells:
  assumes J: "lasting J" and table: "table = Return xs"
    and g: "\<And>b. makes e (\<lambda>d. buffers lo ((b, length (complex_table xs)) # bs) d \<and> (J d \<and> cells_hold b (complex_table xs) d)) (g b) Q"
  shows "makes e (\<lambda>d. buffers lo bs d \<and> J d) (cbind (device_cells e table) g) Q"
  unfolding device_cells_def
proof (intro makes_assoc makes_host [OF table] makes_dev [OF _ g])
  let ?xs = "complex_table xs" and ?mc = "ce_machine e"
  fix d assume I: "buffers lo bs d \<and> J d"
  show "runs ?mc (\<lambda>_. True) (from_values ?mc ?xs) d
      (\<lambda>b d'. grows d d' \<and> buffers lo ((b, length ?xs) # bs) d' \<and> J d' \<and> cells_hold b ?xs d')"
    unfolding from_values_def
  proof (rule runs_bind [where R = "\<lambda>b d'. b = d_next d \<and> grows d d' \<and> buffers lo ((b, length ?xs) # bs) d' \<and> J d'"])
    show "runs ?mc (\<lambda>_. True) (allocate ?mc (length ?xs)) d (\<lambda>b d'. b = d_next d \<and> grows d d' \<and> buffers lo ((b, length ?xs) # bs) d' \<and> J d')"
      using I by (intro runs_allocate J) auto
    fix b d1 assume d1: "b = d_next d \<and> grows d d1 \<and> buffers lo ((b, length ?xs) # bs) d1 \<and> J d1"
    define d2 where "d2 t = d1\<lparr>d_ticks := t, d_mem := (\<lambda>a. if fst a = b \<and> snd a < length ?xs then ?xs ! snd a else d_mem d1 a)\<rparr>" for t
    have "grows d (d2 t)" for t using d1 by (auto simp: grows_def d2_def)
    moreover from this have "J (d2 t)" for t using lastingD [OF J, of d] I by blast
    moreover have "buffers lo ((b, length ?xs) # bs) (d2 t)" "cells_hold b ?xs (d2 t)" for t
      using d1 by (auto simp: buffers_def cells_hold_def d2_def)
    moreover have "cells_hold b ?xs d1" if "?xs = []" using that d1 by (auto simp: cells_hold_def buffers_def)
    ultimately show "runs ?mc (\<lambda>_. True) (if ?xs = [] then xret b
        else xbind (operation ?mc (\<lambda>d. (Return (), d\<lparr>d_mem := \<lambda>a. if fst a = b \<and> snd a < length ?xs then ?xs ! snd a else d_mem d a\<rparr>)))
          (\<lambda>_. xret b)) d1 (\<lambda>b d'. grows d d' \<and> buffers lo ((b, length ?xs) # bs) d' \<and> J d' \<and> cells_hold b ?xs d')"
      using d1 by (auto simp: runs_def operation_def x_defs faulty_def d2_def split: option.splits cong: if_cong)
  qed
qed

lemma makes_pairs:
  assumes "lasting J" and "makes e (\<lambda>d. buffers lo bs d \<and> J d) (g ()) Q"
  shows "makes e (\<lambda>d. buffers lo bs d \<and> J d) (cbind (upload_pairs e ts) g) Q"
proof (induction ts)
  case Nil
  then show ?case using assms by (simp add: cbind_def cret_def)
next
  case (Cons t ts)
  then show ?case by (simp del: split_paired_All) (intro makes_assoc makes_upload assms)
qed

subsection \<open>Leaf tables\<close>

definition leaf_plan :: "int \<Rightarrow> plan_node \<Rightarrow> bool" where
  "leaf_plan n leaf \<longleftrightarrow> leaf_length leaf = n \<and> prod_list (plan_node.leaf_factors leaf) = n \<and>
     (\<forall>f \<in> set (plan_node.leaf_factors leaf). 1 < f) \<and> 1 \<le> leaf_lanes leaf \<and> leaf_lanes_ok n (plan_node.leaf_factors leaf) (leaf_lanes leaf)"

lemma plan_ok_leaf: "plan_ok n nd \<Longrightarrow> is_leaf nd \<Longrightarrow> leaf_plan n nd"
  by (cases nd) (auto simp: is_leaf_def leaf_plan_def)

lemma leaf_plan_permute:
  assumes "leaf_plan n leaf" and "mset fs = mset (plan_node.leaf_factors leaf)"
  shows "leaf_plan n (with_factors leaf fs warps)"
proof -
  have "set fs = set (plan_node.leaf_factors leaf)" "length fs = length (plan_node.leaf_factors leaf)"
    "prod_list fs = prod_list (plan_node.leaf_factors leaf)"
    using assms(2) mset_eq_setD mset_eq_length prod_mset_prod_list [of fs] prod_mset_prod_list [of "plan_node.leaf_factors leaf"] by auto
  then show ?thesis using assms(1) by (simp add: leaf_plan_def with_factors_def leaf_lanes_ok_def)
qed

lemma fused_factors_mset: "mset (fused_factors fs) = mset fs"
  by (cases fs) (simp_all add: fused_factors_def)

lemma leaf_plan_fused: "leaf_plan n leaf \<Longrightarrow> leaf_plan n (with_factors leaf (fused_factors (plan_node.leaf_factors leaf)) warps)"
  by (rule leaf_plan_permute) (simp_all add: fused_factors_mset)

lemma leaf_plan_boundary: "leaf_plan n leaf \<Longrightarrow> leaf_plan n (make_boundary_leaf maca leaf)"
  unfolding make_boundary_leaf_def Let_def by (rule leaf_plan_permute) simp_all

lemma portable_ix_answers:
  assumes "portable_ix_leaf (ce_cfg e) r = Inl x"
  shows "disturbed e"
proof (rule ccontr)
  assume "\<not> disturbed e"
  then have "cfg_env (ce_cfg e) = (\<lambda>_. None)" using quiet_env by (simp add: ce_env_def)
  then show False using assms policies_answer(1,2) [OF refl, of r]
    by (auto simp: portable_ix_leaf_def split: if_splits sum.splits)
qed

lemma makes_leaf_tables:
  assumes leaf: "leaf_plan n leaf" and J: "lasting J" and g: "makes e (\<lambda>d. buffers lo bs d \<and> J d) (g ()) Q"
  shows "makes e (\<lambda>d. buffers lo bs d \<and> J d) (cbind (upload_leaf_tables e leaf r) g) Q"
proof (cases "portable_ix_leaf (ce_cfg e) r")
  case (Inl x)
  then show ?thesis using portable_ix_answers [OF Inl]
    by (simp add: makes_def upload_leaf_tables_def cbind_def host_def build_raw_leaf_tables_def)
next
  case (Inr pix)
  let ?build = "build_raw_leaf_tables (ce_cfg e) r (leaf_length leaf) (plan_node.leaf_factors leaf) (leaf_lanes leaf) (leaf_generic_radices leaf)"
  have "\<exists>ts. ?build = Return ts"
    using leaf_tables [of "plan_node.leaf_factors leaf" "leaf_length leaf" "leaf_lanes leaf" "ce_cfg e" r pix "leaf_generic_radices leaf"] leaf Inr
    unfolding leaf_plan_def by blast
  then obtain ts where "?build = Return ts" ..
  then show ?thesis unfolding upload_leaf_tables_def by (intro makes_assoc makes_host makes_pairs J g)
qed

section \<open>Nodes that are ready\<close>

definition agree :: "dev \<Rightarrow> dev \<Rightarrow> nat \<Rightarrow> bool" where
  "agree d d' b \<longleftrightarrow> d_size d' b = d_size d b \<and> d_ready d' b = d_ready d b \<and> (\<forall>i. d_mem d' (b, i) = d_mem d (b, i))"

lemma grows_agree: "grows d d' \<Longrightarrow> b < d_next d \<Longrightarrow> agree d d' b"
  by (simp add: grows_def agree_def)

lemma conv_inv_agree:
  assumes "conv_inv m B V J b a w bf d" and "J d \<Longrightarrow> J d'" and "agree d d' b" "agree d d' a" "agree d d' w" "agree d d' bf"
  shows "conv_inv m B V J b a w bf d'"
  using assms by (simp add: conv_inv_def agree_def)

lemma fused_conv_inv_agree:
  assumes "fused_conv_inv s n m B V J chirp b bf d" and "J d \<Longrightarrow> J d'" and "agree d d' b" "agree d d' bf"
  shows "fused_conv_inv s n m B V J chirp b bf d'"
  using assms by (simp add: fused_conv_inv_def kernel_inv_def chirp_samples_def agree_def)

lemma node_ok_grows:
  assumes "node_ok mc nd s B d" and "grows d d'" and "workspace nd \<subseteq> {..<d_next d}"
  shows "node_ok mc nd s B d'"
  using assms(1,3)
proof (induction nd arbitrary: s B)
  case (RawDirectDft n re im cp)
  then show ?case using grows_agree [OF assms(2), of cp] by (simp add: direct_inv_def agree_def)
next
  case (RawStockham n fs t tw f1 f2)
  then show ?case using grows_agree [OF assms(2), of f1] grows_agree [OF assms(2), of f2] by (simp add: stockham_inv_def agree_def)
next
  case (RawBluestein n m chunk fft chirp b a w bf)
  note agrees = grows_agree [OF assms(2)]
  have bufs: "agree d d' b" "agree d d' a" "agree d d' w" "agree d d' bf" using RawBluestein.prems(2) agrees by auto
  then show ?case using RawBluestein conv_inv_agree [where J = "node_ok mc fft (- 1) chunk", OF _ _ bufs]
    by (simp add: bluestein_inv_def chirp_samples_def agree_def)
next
  case (RawBluesteinLeaf n m fft pp fp chirp b w bf)
  have child: "node_ok mc fft (- 1) c d \<Longrightarrow> node_ok mc fft (- 1) c d'" for c using RawBluesteinLeaf by simp
  have bufs: "agree d d' b" "agree d d' bf" and w: "d_size d' w = d_size d w"
    using RawBluesteinLeaf.prems(2) grows_agree [OF assms(2)] by (auto simp: agree_def)
  have conv: "fused_conv_inv s n m c (workspace fft) (node_ok mc fft (- 1) c) chirp b bf d \<Longrightarrow>
      fused_conv_inv s n m c (workspace fft) (node_ok mc fft (- 1) c) chirp b bf d'" for c
    by (rule fused_conv_inv_agree [OF _ _ bufs]) (use child in auto)
  show ?case using RawBluesteinLeaf.prems(1) conv unfolding node_ok.simps w by blast
next
  case (RawBluesteinFullLeaf n m fft bpb chirp b bf)
  have child: "node_ok mc fft (- 1) c d \<Longrightarrow> node_ok mc fft (- 1) c d'" for c using RawBluesteinFullLeaf by simp
  have bufs: "agree d d' b" "agree d d' bf" using RawBluesteinFullLeaf.prems(2) grows_agree [OF assms(2)] by auto
  have conv: "fused_conv_inv s n m c (workspace fft) (node_ok mc fft (- 1) c) chirp b bf d \<Longrightarrow>
      fused_conv_inv s n m c (workspace fft) (node_ok mc fft (- 1) c) chirp b bf d'" for c
    by (rule fused_conv_inv_agree [OF _ _ bufs]) (use child in auto)
  show ?case using RawBluesteinFullLeaf.prems(1) conv unfolding node_ok.simps by blast
next
  case (RawBluesteinFourStep n m n1 n2 fft fused rp cp pp fp tw chirp b st w bf)
  have child: "node_ok mc fft (- 1) c d \<Longrightarrow> node_ok mc fft (- 1) c d'" for c using RawBluesteinFourStep by simp
  have bufs: "agree d d' b" "agree d d' bf" and w: "d_size d' st = d_size d st" "d_size d' w = d_size d w"
    using RawBluesteinFourStep.prems(2) grows_agree [OF assms(2)] by (auto simp: agree_def)
  have conv: "fused_conv_inv s n m c (workspace fft) (node_ok mc fft (- 1) c) chirp b bf d \<Longrightarrow>
      fused_conv_inv s n m c (workspace fft) (node_ok mc fft (- 1) c) chirp b bf d'" for c
    by (rule fused_conv_inv_agree [OF _ _ bufs]) (use child in auto)
  show ?case using RawBluesteinFourStep.prems(1) conv unfolding node_ok.simps w by blast
next
  case (RawRader n m fft idx b a w bf cp)
  have bufs: "agree d d' b" "agree d d' a" "agree d d' w" "agree d d' bf" "agree d d' cp"
    using RawRader.prems(2) grows_agree [OF assms(2)] by auto
  have child: "node_ok mc fft (- 1) B d \<Longrightarrow> node_ok mc fft (- 1) B d'" using RawRader by simp
  show ?case using RawRader.prems(1) bufs conv_inv_agree [where J = "node_ok mc fft (- 1) B", OF _ child bufs(1-4)]
    by (auto simp: rader_inv_def rader_samples_def agree_def)
next
  case (RawFourStepFused n n1 n2 t fused rp cp tw st)
  then show ?case using grows_agree [OF assms(2), of st] by (simp add: four_step_fused_inv_def agree_def)
next
  case (RawFourStepGeneric n n1 n2 row col tw st1 st2)
  then show ?case using grows_agree [OF assms(2), of st1] grows_agree [OF assms(2), of st2] by (simp add: four_step_inv_def agree_def)
qed simp

definition ready_node :: "machine \<Rightarrow> nat \<Rightarrow> nat \<Rightarrow> raw_node \<Rightarrow> nat \<Rightarrow> int \<Rightarrow> nat \<Rightarrow> dev \<Rightarrow> bool" where
  "ready_node mc lo hi nd n s B d \<longleftrightarrow>
     lo \<le> hi \<and> hi \<le> d_next d \<and> raw_length nd = n \<and> workspace nd \<subseteq> {lo..<hi} \<and> node_ok mc nd s B d"

lemma lasting_ready_node [intro]: "lasting (ready_node mc lo hi nd n s B)"
  unfolding lasting_def ready_node_def
proof (intro allI impI, elim conjE, intro conjI)
  fix d d' assume "grows d d'" and ok: "node_ok mc nd s B d" and ws: "workspace nd \<subseteq> {lo..<hi}" and "hi \<le> d_next d"
  then have "workspace nd \<subseteq> {..<d_next d}" by (auto dest!: subsetD [OF ws])
  then show "node_ok mc nd s B d'" by (rule node_ok_grows [OF ok \<open>grows d d'\<close>])
  show "hi \<le> d_next d'" using \<open>grows d d'\<close> \<open>hi \<le> d_next d\<close> by (simp add: grows_def)
qed

lemma makes_if: "(b \<Longrightarrow> makes e I f Q) \<Longrightarrow> (\<not> b \<Longrightarrow> makes e I g Q) \<Longrightarrow> makes e I (if b then f else g) Q"
  by simp

lemma makes_ex: "(\<And>hi. makes e (I hi) f Q) \<Longrightarrow> makes e (\<lambda>d. \<exists>hi. I hi d) f Q"
  by (auto simp: makes_def)

definition exact :: "machine \<Rightarrow> bool" where
  "exact mc \<longleftrightarrow> (\<forall>s n. computes_dft (mc_leaf mc) s n \<and> computes_dft (mc_codelet mc) s n)"

section \<open>Compiled nodes\<close>

text \<open>The result of compiling a node above \<open>lo\<close>, beside what was there.\<close>

abbreviation gives :: "compile_env \<Rightarrow> nat \<Rightarrow> nat \<Rightarrow> int \<Rightarrow> nat \<Rightarrow> (dev \<Rightarrow> bool) \<Rightarrow> raw_node \<Rightarrow> dev \<Rightarrow> bool" where
  "gives e lo n s B J nd d \<equiv> J d \<and> (\<exists>hi. ready_node (ce_machine e) lo hi nd n s B d)"

lemma makes_node:
  assumes "\<And>d. buffers lo bs d \<Longrightarrow> J d \<Longrightarrow> raw_length nd = n \<and> workspace nd \<subseteq> {lo..<d_next d} \<and> node_ok (ce_machine e) nd s B d"
  shows "makes e (\<lambda>d. buffers lo bs d \<and> J d) (cret nd) (gives e lo n s B J)"
proof (rule makes_ret, intro conjI exI)
  fix d assume d: "buffers lo bs d \<and> J d"
  then show "J d" ..
  show "ready_node (ce_machine e) lo (d_next d) nd n s B d"
    using assms [of d] d by (simp add: ready_node_def buffers_def)
qed

text \<open>A child stays ready while its parent's workspaces are allocated above it.\<close>

lemma makes_child:
  assumes "\<And>hi. makes e (\<lambda>d. buffers hi [] d \<and> (J d \<and> ready_node (ce_machine e) lo hi nd n s B d)) f Q"
  shows "makes e (gives e lo n s B J nd) f Q"
proof -
  have "makes e (\<lambda>d. J d \<and> ready_node (ce_machine e) lo hi nd n s B d) f Q" for hi
    by (rule makes_pre [OF assms [of hi]]) (simp add: buffers_def ready_node_def)
  then have "makes e (\<lambda>d. \<exists>hi. J d \<and> ready_node (ce_machine e) lo hi nd n s B d) f Q" by (rule makes_ex)
  then show ?thesis by simp
qed

lemma compile_raw_leaf_makes:
  assumes gen: "generator_positive (ce_world e)" and ex: "exact (ce_machine e)" and leaf: "leaf_plan n leaf" and J: "lasting J"
  shows "makes e (\<lambda>d. buffers lo [] d \<and> J d) (compile_raw_leaf e leaf r) (gives e lo (nat n) (direction_sign (req_direction r)) B J)"
  unfolding compile_raw_leaf_def compile_leaf_kernel_def
  by (intro makes_kernel makes_leaf_tables [OF leaf J] makes_node gen)
    (use ex leaf in \<open>auto simp: exact_def leaf_plan_def kernel_positive_def\<close>)

lemma compile_raw_direct_dft_makes:
  assumes gen: "generator_positive (ce_world e)" and J: "lasting J"
  shows "makes e (\<lambda>d. buffers lo [] d \<and> J d) (compile_raw_direct_dft e n r B) (gives e lo (nat n) (direction_sign (req_direction r)) B J)"
proof -
  let ?tables = "if use_npu_2d_cube_dft (ce_env e) r n then build_raw_cube_dft_tables (nat n) r else build_raw_direct_dft_tables (nat n) r"
  have "\<exists>re im. ?tables = Return (re, im) \<and> dft_matrix (direction_sign (req_direction r)) (nat n) re im"
    using cube_matrix_table [of r "nat n"] dft_matrix_table [of "nat n" "req_direction r"]
    by (auto simp: use_npu_2d_cube_dft_def dtype_is_double_def build_raw_direct_dft_tables_def)
  then obtain re im where tables: "?tables = Return (re, im)" "dft_matrix (direction_sign (req_direction r)) (nat n) re im" by blast
  show ?thesis
    unfolding compile_raw_direct_dft_def compile_direct_dft_kernel_def Let_def
    by (intro makes_memory makes_kernel makes_host [OF tables(1)] makes_pairs makes_node gen J)
      (use tables(2) in \<open>auto simp: direct_inv_def buffers_def\<close>)
qed

lemma stockham_twiddle_table:
  obtains xs where "build_stockham_twiddle r n = Return xs" and "root_table (direction_sign (req_direction r)) n (complex_table xs)"
proof -
  let ?s = "direction_sign (req_direction r)" and ?angle = "\<lambda>i. (if req_direction r = ''inverse'' then 2 else - 2) * pi * real i / real n"
  have "cis (?angle i) = unity ?s i n" for i by (simp add: unity_def direction_sign_def)
  then obtain xs where "fill (n * 2) (concat (map (\<lambda>i. put_angle i (?angle i)) [0..<n])) = Return xs" "length (complex_table xs) = n"
    "\<forall>i < n. complex_table xs ! i = unity ?s i n"
    using put_indexed_spec [of n ?angle "\<lambda>i. unity ?s i n"] by blast
  then show ?thesis using that by (simp add: build_stockham_twiddle_def root_table_def)
qed

lemma makes_stockham_stages:
  assumes gen: "generator_positive (ce_world e)"
    and g: "\<And>stages. map fst stages = map nat factors \<Longrightarrow> (\<forall>fb \<in> set stages. 0 < snd fb) \<Longrightarrow> makes e I (g stages) Q"
  shows "makes e I (cbind (compile_stockham_stages e r n bb pb factors stage_span) g) Q"
  using g
proof (induction factors arbitrary: stage_span g)
  case Nil
  then show ?case by (simp add: cbind_def cret_def)
next
  case (Cons radix rest)
  show ?case
    unfolding compile_stockham_stages.simps Let_def
    by (intro makes_assoc makes_kernel [OF gen] Cons.IH) (auto simp: cbind_def cret_def kernel_positive_def intro!: Cons.prems)
qed

lemma block_override_answers: "block_override (ce_env e) name fallback = Inl x \<Longrightarrow> disturbed e"
  using disturbedI [of e name] by (auto simp: block_override_def split: option.splits)

lemma compile_stockham_makes:
  assumes gen: "generator_positive (ce_world e)" and ex: "exact (ce_machine e)" and J: "lasting J"
    and fs: "fs \<noteq> []" "prod_list fs = n" "\<forall>f \<in> set fs. 1 < f"
  shows "makes e (\<lambda>d. buffers lo [] d \<and> J d) (compile_stockham e n fs r B) (gives e lo (nat n) (direction_sign (req_direction r)) B J)"
proof -
  let ?s = "direction_sign (req_direction r)"
  obtain xs where xs: "build_stockham_twiddle r (nat n) = Return xs" "root_table ?s (nat n) (complex_table xs)"
    by (rule stockham_twiddle_table)
  have n: "0 < n" using fs by (auto intro!: prod_list_pos simp flip: fs(2))
  have product: "prod_list (map nat fs) = nat n" using fs by (subst prod_list_map_nat) auto
  have stages: "makes e (\<lambda>d. buffers lo [] d \<and> J d) (cbind (compile_stockham_stages e r n bb pb fs 1) (\<lambda>stages.
      cbind (device_table e (build_stockham_twiddle r (nat n))) (\<lambda>twiddle. cbind (memory e (B * nat n)) (\<lambda>first_buf.
      cbind (memory e (B * nat n)) (\<lambda>second_buf. cret (RawStockham (nat n) stages ?s twiddle first_buf second_buf))))))
      (gives e lo (nat n) ?s B J)" for bb pb
    by (intro makes_stockham_stages makes_table [OF _ xs(1)] makes_memory makes_node gen J)
      (use xs(2) fs(1) n product ex in \<open>auto simp: stockham_inv_def stages_ok_def exact_def buffers_def\<close>)
  show ?thesis
  proof (cases "n \<le> 2048")
    case True
    show ?thesis unfolding compile_stockham_def if_P [OF True]
      by (intro makes_host_sum stages) (erule block_override_answers)+
  next
    case False
    have ret: "cbind (cret x) h = h x" for x :: int and h :: "int \<Rightarrow> raw_node compile" by (simp add: cbind_def cret_def)
    show ?thesis unfolding compile_stockham_def if_not_P [OF False] ret
      by (intro makes_host_sum stages) (erule block_override_answers)
  qed
qed

lemma compile_four_step_fused_makes:
  assumes gen: "generator_positive (ce_world e)" and ex: "exact (ce_machine e)" and J: "lasting J"
    and n: "n1 * n2 = n" "1 < n1" "1 < n2" and leaves: "leaf_plan n1 row" "leaf_plan n2 col"
    and blocks: "req_device_type (mc_request (ce_machine e)) = ''npu'' \<Longrightarrow> 0 < mc_max_launch_blocks (ce_machine e)"
  shows "makes e (\<lambda>d. buffers lo [] d \<and> J d) (compile_four_step_fused e n n1 n2 row col r B)
    (gives e lo (nat n) (direction_sign (req_direction r)) B J)"
proof -
  obtain xs where xs: "build_raw_four_step_twiddle r (nat n1) (nat n2) = Return xs"
    "twiddle_table (direction_sign (req_direction r)) (nat n1) (nat n2) (complex_table xs)"
    by (rule four_step_twiddle_table)
  have nat_n: "nat n = nat n1 * nat n2" using n by (simp flip: nat_mult_distrib)
  show ?thesis
    unfolding compile_four_step_fused_def compile_four_step_row_kernel_def compile_four_step_col_kernel_def
    by (intro makes_table [OF _ xs(1)] makes_memory makes_kernel makes_leaf_tables [OF leaves(1)] makes_leaf_tables [OF leaves(2)] makes_node gen J)
      (use xs(2) ex n nat_n blocks in \<open>auto simp: four_step_fused_inv_def exact_def buffers_def kernel_positive_def\<close>)
qed

lemma compile_four_step_parent_makes:
  assumes gen: "generator_positive (ce_world e)" and J: "lasting J" and n: "n1 * n2 = n" "1 < n1" "1 < n2"
    and s: "s = direction_sign (req_direction r)"
  shows "makes e (\<lambda>d. buffers hi [] d \<and> ((J d \<and> ready_node (ce_machine e) lo mid row (nat n1) s (B * nat n2) d) \<and>
        ready_node (ce_machine e) mid hi col (nat n2) s (B * nat n1) d))
      (compile_four_step_parent e n n1 n2 row col r B) (gives e lo (nat n) s B J)"
proof -
  let ?mc = "ce_machine e"
  let ?J = "\<lambda>d. (J d \<and> ready_node ?mc lo mid row (nat n1) s (B * nat n2) d) \<and> ready_node ?mc mid hi col (nat n2) s (B * nat n1) d"
  have lasting: "lasting ?J" using J by (intro lasting_conj lasting_ready_node)
  obtain xs where xs: "build_raw_four_step_twiddle r (nat n1) (nat n2) = Return xs" "twiddle_table s (nat n1) (nat n2) (complex_table xs)"
    unfolding s by (rule four_step_twiddle_table)
  have nat_n: "nat n = nat n1 * nat n2" using n by (simp flip: nat_mult_distrib)
  have ready: "gives e lo (nat n) s B J (RawFourStepGeneric (nat n) (nat n1) (nat n2) row col (complex_table xs) st1 st2) d"
    if "buffers hi [(st2, B * nat n), (st1, B * nat n)] d \<and> ?J d" for st1 st2 d
  proof (intro conjI exI)
    show "J d" using that by blast
    have row: "workspace row \<subseteq> {lo..<mid}" "node_ok ?mc row s (B * nat n2) d" "raw_length row = nat n1" "lo \<le> mid"
      and col: "workspace col \<subseteq> {mid..<hi}" "node_ok ?mc col s (B * nat n1) d" "raw_length col = nat n2" "mid \<le> hi"
      using that by (auto simp: ready_node_def)
    have st: "hi \<le> st1" "hi \<le> st2" "st1 < d_next d" "st2 < d_next d" "st2 \<noteq> st1" "d_size d st1 = B * nat n" "d_size d st2 = B * nat n"
      using that by (auto simp: buffers_def)
    have "workspace row \<inter> workspace col = {}" "{st1, st2} \<inter> (workspace row \<union> workspace col) = {}"
      using row(1,4) col(1,4) st(1,2) by force+
    moreover have "workspace row \<union> workspace col \<union> {st1, st2} \<subseteq> {lo..<d_next d}" using row(1,4) col(1,4) st(1-4) by force
    ultimately show "ready_node ?mc lo (d_next d) (RawFourStepGeneric (nat n) (nat n1) (nat n2) row col (complex_table xs) st1 st2) (nat n) s B d"
      using row col st xs(2) n nat_n by (simp add: ready_node_def four_step_inv_def)
  qed
  show ?thesis
    unfolding compile_four_step_parent_def compile_reshape_pack_kernel_def compile_twiddle_reshape_pack_kernel_def
    by (intro makes_table [OF _ xs(1)] makes_memory makes_kernel makes_ret gen lasting ready)
qed

subsection \<open>Bluestein\<close>

lemma chirp_samples_cong:
  assumes "chirp_samples s n m x" and "n \<le> m" and "\<And>i. i < m \<Longrightarrow> y i = x i"
  shows "chirp_samples s n m y"
  using assms by (auto simp: chirp_samples_def)

lemma buffersD:
  assumes "buffers lo bs d" and "(b, len) \<in> set bs"
  shows "lo \<le> b" "b < d_next d" "d_size d b = len" "\<not> d_ready d b"
  using assms by (auto simp: buffers_def)

lemma ready_nodeD:
  assumes "ready_node mc lo hi nd n s B d"
  shows "lo \<le> hi" "hi \<le> d_next d" "raw_length nd = n" "node_ok mc nd s B d" and "hi \<le> b \<Longrightarrow> b \<notin> workspace nd"
    and "S \<subseteq> {hi..<d_next d} \<Longrightarrow> workspace nd \<union> S \<subseteq> {lo..<d_next d}"
  using assms by (auto simp: ready_node_def subset_iff)

text \<open>The kernel of a convolution, in two allocations above its transform.\<close>

definition conv_kernel :: "compile_env \<Rightarrow> nat \<Rightarrow> nat \<Rightarrow> raw_node \<Rightarrow> nat \<Rightarrow> nat \<Rightarrow> complex list \<Rightarrow> nat \<Rightarrow> dev \<Rightarrow> bool" where
  "conv_kernel e lo hi fft m c ys bt d \<longleftrightarrow> ready_node (ce_machine e) lo hi fft m (- 1) c d \<and> cells_hold bt ys d"

lemma lasting_conv_kernel [intro]: "lasting (conv_kernel e lo hi fft m c ys bt)"
  unfolding conv_kernel_def [abs_def] by (intro lasting_conj lasting_ready_node lasting_cells_hold)

definition bluestein_tables :: "int \<Rightarrow> nat \<Rightarrow> nat \<Rightarrow> nat \<Rightarrow> complex list \<Rightarrow> complex list \<Rightarrow> bool" where
  "bluestein_tables s n m c chirp ys \<longleftrightarrow> chirp_table s n chirp \<and> length ys = m \<and> chirp_samples s n m ((!) ys) \<and>
     2 * n \<le> m + 1 \<and> n \<le> m \<and> 0 < m \<and> 0 < c"

lemma conv_kernel_ready:
  assumes bufs: "buffers hi bs d" "(bf, m) \<in> set bs" "(bt, m) \<in> set bs" "bf \<noteq> bt" and ker: "conv_kernel e lo hi fft m c ys bt d"
    and tables: "bluestein_tables s n m c chirp ys"
  shows "fused_conv_inv s n m c (workspace fft) (node_ok (ce_machine e) fft (- 1) c) chirp bt bf d"
proof -
  have ready: "ready_node (ce_machine e) lo hi fft m (- 1) c d" and cells: "cells_hold bt ys d" using ker by (auto simp: conv_kernel_def)
  have "chirp_samples s n m (\<lambda>i. d_mem d (bt, i))"
    by (rule chirp_samples_cong [of s n m "(!) ys"]) (use tables cells in \<open>auto simp: bluestein_tables_def cells_hold_def\<close>)
  moreover have "bf \<notin> workspace fft" "bt \<notin> workspace fft"
    using ready_nodeD(5) [OF ready] buffersD(1) [OF bufs(1,2)] buffersD(1) [OF bufs(1,3)] by auto
  ultimately show ?thesis
    using buffersD [OF bufs(1,2)] buffersD [OF bufs(1,3)] bufs(4) ready_nodeD(4) [OF ready] tables
    by (simp add: fused_conv_inv_def kernel_inv_def bluestein_tables_def)
qed

lemma bluestein_node_ready:
  assumes bufs: "buffers hi bs d" "(bf, m) \<in> set bs" "(bt, m) \<in> set bs" "bf \<noteq> bt" and ker: "J d \<and> conv_kernel e lo hi fft m c ys bt d"
    and tables: "bluestein_tables s n m c chirp ys"
    and node: "raw_length nd = n" "workspace nd = workspace fft \<union> S" "S \<subseteq> fst ` set bs"
    and ok: "fused_conv_inv s n m c (workspace fft) (node_ok (ce_machine e) fft (- 1) c) chirp bt bf d \<Longrightarrow> raw_length fft = m \<Longrightarrow>
      (\<And>b. b \<in> fst ` set bs \<Longrightarrow> b \<notin> workspace fft) \<Longrightarrow> node_ok (ce_machine e) nd s B d"
  shows "gives e lo n s B J nd d"
proof (intro conjI exI)
  show "J d" using ker ..
  have ready: "ready_node (ce_machine e) lo hi fft m (- 1) c d" using ker by (simp add: conv_kernel_def)
  have "hi \<le> b \<and> b < d_next d" if "b \<in> fst ` set bs" for b using bufs(1) that by (auto simp: buffers_def)
  then have "workspace nd \<subseteq> {lo..<d_next d}" and "\<And>b. b \<in> fst ` set bs \<Longrightarrow> b \<notin> workspace fft"
    using ready_nodeD(5) [OF ready] ready_nodeD(6) [OF ready, of S] node(2,3) by (auto simp: subset_iff)
  moreover have "fused_conv_inv s n m c (workspace fft) (node_ok (ce_machine e) fft (- 1) c) chirp bt bf d"
    by (rule conv_kernel_ready [OF bufs _ tables]) (use ker in blast)
  ultimately show "ready_node (ce_machine e) lo (d_next d) nd n s B d"
    using ok ready_nodeD(1-3) [OF ready] node(1) by (simp add: ready_node_def)
qed

lemma compile_bluestein_leaf_makes:
  assumes gen: "generator_positive (ce_world e)" and ex: "exact (ce_machine e)" and J: "lasting J"
    and leaf: "leaf_plan m leaf" and tables: "bluestein_tables s (nat n) (nat m) c chirp ys" and ne: "bf \<noteq> bt"
  shows "makes e (\<lambda>d. buffers hi [(bf, nat m), (bt, nat m)] d \<and> (J d \<and> conv_kernel e lo hi fft (nat m) c ys bt d))
    (compile_bluestein_leaf e n m leaf r B fft chirp bt bf) (gives e lo (nat n) s B J)"
  unfolding compile_bluestein_leaf_def Let_def compile_leaf_bluestein_prepare_kernel_def compile_leaf_bluestein_finish_kernel_def
proof (intro makes_memory makes_kernel makes_leaf_tables [OF leaf] makes_ret gen lasting_conj J lasting_conv_kernel)
  fix w prep finish d assume pos: "kernel_positive prep" "kernel_positive finish"
    and d: "buffers hi [(w, B * nat m), (bf, nat m), (bt, nat m)] d \<and> J d \<and> conv_kernel e lo hi fft (nat m) c ys bt d"
  let ?nd = "RawBluesteinLeaf (nat n) (nat m) fft (nat (jk_batch_per_block prep)) (nat (jk_batch_per_block finish)) chirp bt w bf"
  show "gives e lo (nat n) s B J ?nd d"
  proof (rule bluestein_node_ready [where J = J, OF conjunct1 [OF d] _ _ ne conjunct2 [OF d] tables, where S = "{bt, bf, w}"])
    assume inv: "fused_conv_inv s (nat n) (nat m) c (workspace fft) (node_ok (ce_machine e) fft (- 1) c) chirp bt bf d"
      and "raw_length fft = nat m" and away: "\<And>b. b \<in> fst ` set [(w, B * nat m), (bf, nat m), (bt, nat m)] \<Longrightarrow> b \<notin> workspace fft"
    moreover have "w \<noteq> bf" "w \<noteq> bt" "d_size d w = B * nat m" using d by (auto simp: buffers_def)
    ultimately show "node_ok (ce_machine e) ?nd s B d"
      using pos ex unfolding node_ok.simps exact_def kernel_positive_def by auto
  qed auto
qed

lemma compile_bluestein_full_leaf_makes:
  assumes gen: "generator_positive (ce_world e)" and ex: "exact (ce_machine e)" and J: "lasting J"
    and leaf: "leaf_plan m leaf" and tables: "bluestein_tables s (nat n) (nat m) c chirp ys" and ne: "bf \<noteq> bt"
  shows "makes e (\<lambda>d. buffers hi [(bf, nat m), (bt, nat m)] d \<and> (J d \<and> conv_kernel e lo hi fft (nat m) c ys bt d))
    (compile_bluestein_full_leaf e n m leaf r fft chirp bt bf) (gives e lo (nat n) s B J)"
  unfolding compile_bluestein_full_leaf_def Let_def
proof (intro makes_kernel makes_leaf_tables [OF leaf_plan_fused [OF leaf]] makes_ret gen lasting_conj J lasting_conv_kernel)
  fix kn d assume pos: "kernel_positive kn" and d: "buffers hi [(bf, nat m), (bt, nat m)] d \<and> J d \<and> conv_kernel e lo hi fft (nat m) c ys bt d"
  let ?nd = "RawBluesteinFullLeaf (nat n) (nat m) fft (nat (jk_batch_per_block kn)) chirp bt bf"
  show "gives e lo (nat n) s B J ?nd d"
  proof (rule bluestein_node_ready [where J = J, OF conjunct1 [OF d] _ _ ne conjunct2 [OF d] tables, where S = "{bt, bf}"])
    assume "fused_conv_inv s (nat n) (nat m) c (workspace fft) (node_ok (ce_machine e) fft (- 1) c) chirp bt bf d" "raw_length fft = nat m"
    then show "node_ok (ce_machine e) ?nd s B d" using pos ex unfolding node_ok.simps exact_def kernel_positive_def by auto
  qed auto
qed

lemma compile_bluestein_four_step_makes:
  assumes gen: "generator_positive (ce_world e)" and ex: "exact (ce_machine e)" and J: "lasting J"
    and leaves: "leaf_plan n1 row" "leaf_plan n2 col" and m: "n1 * n2 = m" "1 < n1" "1 < n2"
    and tables: "bluestein_tables s (nat n) (nat m) c chirp ys" and ne: "bf \<noteq> bt"
  shows "makes e (\<lambda>d. buffers hi [(bf, nat m), (bt, nat m)] d \<and> (J d \<and> conv_kernel e lo hi fft (nat m) c ys bt d))
    (compile_bluestein_four_step e n m n1 n2 row col r B fft chirp bt bf) (gives e lo (nat n) s B J)"
proof -
  obtain xs where xs: "build_raw_four_step_twiddle (forward_child_request r) (nat n1) (nat n2) = Return xs"
    "twiddle_table (- 1) (nat n1) (nat n2) (complex_table xs)"
    using four_step_twiddle_table [of "forward_child_request r"] by (auto simp: forward_child_request_def direction_sign_def)
  have nat_m: "nat m = nat n1 * nat n2" using m by (simp flip: nat_mult_distrib)
  have ready: "gives e lo (nat n) s B J (RawBluesteinFourStep (nat n) (nat m) (nat n1) (nat n2) fft fused rp cp pp fp (complex_table xs) chirp bt st w bf) d"
    if pos: "0 < rp" "0 < cp" "0 < pp" "0 < fp"
      and d: "buffers hi [(w, B * nat m), (st, B * nat m), (bf, nat m), (bt, nat m)] d \<and> J d \<and> conv_kernel e lo hi fft (nat m) c ys bt d"
    for fused rp cp pp fp st w d
  proof (rule bluestein_node_ready [where J = J, OF conjunct1 [OF d] _ _ ne conjunct2 [OF d] tables, where S = "{bt, bf, st, w}"])
    assume "fused_conv_inv s (nat n) (nat m) c (workspace fft) (node_ok (ce_machine e) fft (- 1) c) chirp bt bf d"
      and "raw_length fft = nat m"
      and away: "\<And>b. b \<in> fst ` set [(w, B * nat m), (st, B * nat m), (bf, nat m), (bt, nat m)] \<Longrightarrow> b \<notin> workspace fft"
    moreover have "{st, w} \<inter> (workspace fft \<union> {bt, bf}) = {}" "st \<noteq> w" "d_size d st = B * nat m" "d_size d w = B * nat m"
      using d away by (auto simp: buffers_def)
    ultimately show "node_ok (ce_machine e) (RawBluesteinFourStep (nat n) (nat m) (nat n1) (nat n2) fft fused rp cp pp fp (complex_table xs) chirp bt st w bf) s B d"
      using pos ex nat_m xs(2) unfolding node_ok.simps exact_def by blast
  qed auto
  show ?thesis
    unfolding compile_bluestein_four_step_def Let_def compile_boundary_kernel_def compile_four_step_col_kernel_def
    by (intro makes_table [OF _ xs(1)] makes_memory makes_kernel makes_leaf_tables [OF leaves(1)] makes_leaf_tables [OF leaves(2)]
        makes_ret ready gen lasting_conj J lasting_conv_kernel) (simp_all add: kernel_positive_def)
qed

lemma compile_bluestein_generic_makes:
  assumes gen: "generator_positive (ce_world e)" and J: "lasting J"
    and tables: "bluestein_tables s (nat n) (nat m) c chirp ys" and ne: "bf \<noteq> bt"
  shows "makes e (\<lambda>d. buffers hi [(bf, nat m), (bt, nat m)] d \<and> (J d \<and> conv_kernel e lo hi fft (nat m) c ys bt d))
    (compile_bluestein_generic e n m r c fft chirp bt bf) (gives e lo (nat n) s B J)"
  unfolding compile_bluestein_generic_def compile_bluestein_prepare_kernel_def compile_bluestein_pointwise_kernel_def
    compile_bluestein_finalize_kernel_def
proof (intro makes_memory makes_kernel makes_ret gen lasting_conj J lasting_conv_kernel)
  fix w a d assume d: "buffers hi [(a, c * nat m), (w, c * nat m), (bf, nat m), (bt, nat m)] d \<and> J d \<and> conv_kernel e lo hi fft (nat m) c ys bt d"
  show "gives e lo (nat n) s B J (RawBluestein (nat n) (nat m) c fft chirp bt a w bf) d"
  proof (rule bluestein_node_ready [where J = J, OF conjunct1 [OF d] _ _ ne conjunct2 [OF d] tables, where S = "{bt, a, w, bf}"])
    assume inv: "fused_conv_inv s (nat n) (nat m) c (workspace fft) (node_ok (ce_machine e) fft (- 1) c) chirp bt bf d"
      and len: "raw_length fft = nat m"
      and away: "\<And>b. b \<in> fst ` set [(a, c * nat m), (w, c * nat m), (bf, nat m), (bt, nat m)] \<Longrightarrow> b \<notin> workspace fft"
    have "distinct [bt, a, w, bf]" "d_size d a = c * nat m" "d_size d w = c * nat m" using d ne by (auto simp: buffers_def)
    moreover have "{bt, a, w, bf} \<inter> workspace fft = {}" using away by auto
    ultimately show "node_ok (ce_machine e) (RawBluestein (nat n) (nat m) c fft chirp bt a w bf) s B d"
      using inv len unfolding node_ok.simps bluestein_inv_def conv_inv_def fused_conv_inv_def kernel_inv_def by blast
  qed auto
qed

lemma bluestein_chunk_batch_pos: "0 < B \<Longrightarrow> 0 < bluestein_chunk_batch e m r B"
  by (simp add: bluestein_chunk_batch_def Let_def less_max_iff_disj)

lemma four_step_leavesD:
  assumes "four_step_leaves nd = Some (n1, n2, row, col)"
  shows "\<exists>n. nd = FourStepPlanNode n n1 n2 row col" and "is_leaf row" and "is_leaf col"
  using assms by (auto simp: four_step_leaves_def split: plan_node.splits if_splits)

lemma compile_bluestein_makes:
  assumes gen: "generator_positive (ce_world e)" and ex: "exact (ce_machine e)" and J: "lasting J"
    and n: "1 < n" "2 * n - 1 \<le> m" and fft_plan: "plan_ok m fft_plan" and B: "0 < B" and c: "c = bluestein_chunk_batch e m r B"
  shows "makes e (\<lambda>d. buffers hi [] d \<and> (J d \<and> ready_node (ce_machine e) lo hi fft (nat m) (- 1) c d))
    (compile_bluestein e n m fft_plan r B fft) (gives e lo (nat n) (direction_sign (req_direction r)) B J)"
proof -
  let ?s = "direction_sign (req_direction r)"
  have nm: "0 < nat n" "2 * nat n \<le> nat m + 1" using n by auto
  obtain xs where xs: "build_raw_bluestein_chirp r (nat n) (req_direction r = ''inverse'') = Return xs" "chirp_table ?s (nat n) (complex_table xs)"
    by (rule bluestein_chirp_table [OF nm(1)])
  obtain ys where ys: "build_raw_bluestein_b r (nat n) (nat m) = Return ys" "length (complex_table ys) = nat m"
    "chirp_samples ?s (nat n) (nat m) ((!) (complex_table ys))"
    by (rule bluestein_b_table [OF nm])
  have tables: "bluestein_tables ?s (nat n) (nat m) c (complex_table xs) (complex_table ys)"
    using xs(2) ys(2,3) nm n bluestein_chunk_batch_pos [OF B] by (simp add: bluestein_tables_def c)
  let ?I = "\<lambda>bt bf d. buffers hi [(bf, nat m), (bt, nat m)] d \<and> J d \<and> conv_kernel e lo hi fft (nat m) c (complex_table ys) bt d"
  have leaf: "leaf_plan m fft_plan" if "is_leaf fft_plan" by (rule plan_ok_leaf [OF fft_plan that])
  have split: "leaf_plan n1 row" "leaf_plan n2 col" "n1 * n2 = m" "1 < n1" "1 < n2" if "four_step_leaves fft_plan = Some (n1, n2, row, col)" for n1 n2 row col
    using four_step_leavesD [OF that] fft_plan plan_ok_leaf by auto
  note makers = compile_bluestein_leaf_makes [OF gen ex J leaf tables] compile_bluestein_full_leaf_makes [OF gen ex J leaf tables]
    compile_bluestein_four_step_makes [OF gen ex J leaf_plan_boundary leaf_plan_boundary _ _ _ tables] compile_bluestein_generic_makes [OF gen J tables]
  let ?choice = "\<lambda>bt pol bf. if use_boundary_leaf (ce_env e) pol n fft_plan r B then compile_bluestein_leaf e n m fft_plan r B fft (complex_table xs) bt bf
      else if use_full_leaf (ce_env e) n fft_plan r B then compile_bluestein_full_leaf e n m fft_plan r fft (complex_table xs) bt bf
      else case four_step_leaves fft_plan of
          Some (n1, n2, row, col) \<Rightarrow>
            (let maca_four_step = use_maca_four_step (ce_env e) pol row col r B
             in if use_default_four_step row col r B c \<or> maca_four_step
                then compile_bluestein_four_step e n m n1 n2 (make_boundary_leaf maca_four_step row) (make_boundary_leaf maca_four_step col)
                       r B fft (complex_table xs) bt bf
                else compile_bluestein_generic e n m r c fft (complex_table xs) bt bf)
        | None \<Rightarrow> compile_bluestein_generic e n m r c fft (complex_table xs) bt bf"
  have choice: "makes e (?I bt bf) (?choice bt pol bf) (gives e lo (nat n) ?s B J)"
    if "bf \<noteq> bt" for bt bf pol
  proof (rule makes_if, rule makers(1) [OF _ that], simp add: use_boundary_leaf_def, rule makes_if, rule makers(2) [OF _ that], simp add: use_full_leaf_def)
    show "makes e (?I bt bf) (case four_step_leaves fft_plan of
          Some (n1, n2, row, col) \<Rightarrow>
            (let maca_four_step = use_maca_four_step (ce_env e) pol row col r B
             in if use_default_four_step row col r B c \<or> maca_four_step
                then compile_bluestein_four_step e n m n1 n2 (make_boundary_leaf maca_four_step row) (make_boundary_leaf maca_four_step col)
                       r B fft (complex_table xs) bt bf
                else compile_bluestein_generic e n m r c fft (complex_table xs) bt bf)
        | None \<Rightarrow> compile_bluestein_generic e n m r c fft (complex_table xs) bt bf) (gives e lo (nat n) ?s B J)"
    proof (cases "four_step_leaves fft_plan")
      case None
      show ?thesis unfolding None option.case by (rule makers(4) [OF that])
    next
      case (Some q)
      obtain n1 n2 row col where q: "q = (n1, n2, row, col)" by (cases q)
      show ?thesis unfolding Some q option.case prod.case Let_def
        by (rule makes_if, rule makers(3) [OF split [OF Some [unfolded q]] that], rule makers(4) [OF that])
    qed
  qed
  have apart: "makes e (?I bt bf) f Q" if "bf \<noteq> bt \<Longrightarrow> makes e (?I bt bf) f Q" for bt bf f and Q :: "raw_node \<Rightarrow> dev \<Rightarrow> bool"
    using that by (cases "bf = bt") (auto simp: makes_def buffers_def)
  have chosen: "makes e (\<lambda>d. buffers hi [(bf, nat m), (bt, length (complex_table ys))] d \<and>
      (J d \<and> ready_node (ce_machine e) lo hi fft (nat m) (- 1) c d) \<and> cells_hold bt (complex_table ys) d) (?choice bt pol bf) (gives e lo (nat n) ?s B J)" for bt pol bf
    by (rule makes_pre [OF apart [OF choice]]) (use ys(2) in \<open>auto simp: conv_kernel_def\<close>)
  show ?thesis
    unfolding compile_bluestein_def Let_def c [symmetric]
    by (intro makes_table [OF _ xs(1)] makes_cells [OF _ ys(1)] makes_policies makes_memory chosen [unfolded Let_def] lasting_conj J lasting_ready_node lasting_cells_hold)
qed

subsection \<open>Rader\<close>

lemma compile_rader_makes:
  assumes gen: "generator_positive (ce_world e)" and J: "lasting J" and B: "0 < B"
    and p: "prime_int p" "primitive_root p g" "build_rader_index_table p g = Inr idx" "p \<le> 2 ^ 31"
  shows "makes e (\<lambda>d. buffers hi [] d \<and> (J d \<and> ready_node (ce_machine e) lo hi fft (nat (p - 1)) (- 1) B d))
    (compile_rader e p idx r B fft) (gives e lo (nat p) (direction_sign (req_direction r)) B J)"
proof -
  let ?s = "direction_sign (req_direction r)" and ?mc = "ce_machine e" and ?m = "nat (p - 1)"
  have p1: "1 < p" using p(1) by (rule prime_intD)
  have m: "?m = nat p - 1" "0 < ?m" using p1 by (simp_all add: nat_diff_distrib)
  have tab: "power_table (nat p) idx" by (rule rader_power_table [OF p(1-3)])
  have idx: "build_raw_rader_idx_table idx = idx"
    by (rule rader_idx_table_exact [OF tab]) (use p(4) in \<open>simp add: nat_le_iff\<close>)
  obtain ys where ys: "build_raw_rader_conv_kernel r (nat p) idx = Return ys" "length (complex_table ys) = nat p - 1"
    "rader_samples ?s (nat p) idx ((!) (complex_table ys))"
    by (rule rader_conv_kernel_table [OF tab])
  have ready: "gives e lo (nat p) ?s B J (RawRader (nat p) ?m fft idx bt a w bf cp) d"
    if d: "buffers hi [(cp, B * nat p), (bf, ?m), (w, B * ?m), (a, B * ?m), (bt, length (complex_table ys))] d \<and>
      (J d \<and> ready_node ?mc lo hi fft ?m (- 1) B d) \<and> cells_hold bt (complex_table ys) d" for bt a w bf cp d
  proof (intro conjI exI)
    show "J d" using d by blast
    have child: "ready_node ?mc lo hi fft ?m (- 1) B d" using d by blast
    have "x \<notin> workspace fft" if "x \<in> {bt, a, w, bf, cp}" for x
      using d that by (intro ready_nodeD(5) [OF child]) (auto simp: buffers_def)
    then have away: "{bt, a, w, bf} \<inter> workspace fft = {}" "cp \<notin> workspace fft" by auto
    have sizes: "distinct [bt, a, w, bf]" "cp \<notin> {bt, a, w, bf}" "d_size d bt = ?m" "d_size d a = B * ?m" "d_size d w = B * ?m"
      "d_size d bf = ?m" "d_size d cp = B * nat p" "\<not> d_ready d bf"
      using d ys(2) m(1) by (auto simp: buffers_def)
    have "rader_samples ?s (nat p) idx (\<lambda>i. d_mem d (bt, i))"
      using d ys(2,3) by (auto simp: rader_samples_def cells_hold_def)
    then have "node_ok ?mc (RawRader (nat p) ?m fft idx bt a w bf cp) ?s B d"
      using ready_nodeD(3,4) [OF child] away sizes m tab B unfolding node_ok.simps rader_inv_def conv_inv_def by blast
    moreover have "workspace fft \<union> {bt, a, w, bf, cp} \<subseteq> {lo..<d_next d}"
      by (rule ready_nodeD(6) [OF child]) (use d in \<open>auto simp: buffers_def\<close>)
    ultimately show "ready_node ?mc lo (d_next d) (RawRader (nat p) ?m fft idx bt a w bf cp) (nat p) ?s B d"
      using ready_nodeD(1,2) [OF child] by (simp add: ready_node_def)
  qed
  show ?thesis
    unfolding compile_rader_def Let_def idx compile_rader_prepare_kernel_def compile_rader_pointwise_kernel_def compile_rader_finalize_kernel_def
    by (intro makes_upload makes_cells [OF _ ys(1)] makes_memory makes_kernel makes_ret ready gen lasting_conj J lasting_ready_node lasting_cells_hold)
qed

section \<open>Plans\<close>

text \<open>
  The plans and requests this is about: one-dimensional trees whose Rader primes fit the 32-bit entries of the
  index table, and complex transforms on another device than the NPU that do not switch on the fused Rader leaf.
\<close>

primrec executable_plan :: "plan_node \<Rightarrow> bool" where
  "executable_plan (LeafPlanNode n fs rm lanes warps generic smem) = True"
| "executable_plan (DirectDFTPlanNode n) = True"
| "executable_plan (StockhamPlanNode n fs) = True"
| "executable_plan (FourStepPlanNode n n1 n2 row col) \<longleftrightarrow> executable_plan row \<and> executable_plan col"
| "executable_plan (BluesteinPlanNode n m fft_plan) \<longleftrightarrow> executable_plan fft_plan"
| "executable_plan (RaderPlanNode prime g idx conv_plan) \<longleftrightarrow> prime \<le> 2 ^ 31 \<and> executable_plan conv_plan"
| "executable_plan (TwoDimPlanNode n0 n1 strategy row col) = False"
| "executable_plan (ThreeDimPlanNode n0 n1 n2 strategy p2 p1 p0) = False"

definition covered :: "compile_env \<Rightarrow> fft_request \<Rightarrow> bool" where
  "covered e r \<longleftrightarrow> req_device_type (mc_request (ce_machine e)) \<noteq> ''npu'' \<and> req_real_transform_kind r = '''' \<and>
     ce_env e ''FLAGFFT_MACA_RADER_FULL_LEAF'' \<noteq> Some ''1'' \<and> ce_env e ''FLAGFFT_MACA_RADER_BOUNDARY_LEAF'' \<noteq> Some ''1''"

lemma covered_child [simp]: "covered e (forward_child_request r) \<longleftrightarrow> covered e r"
  by (simp add: covered_def forward_child_request_def)

lemma forward_child_direction [simp]: "direction_sign (req_direction (forward_child_request r)) = - 1"
  by (simp add: forward_child_request_def direction_sign_def)

lemma covered_branches:
  assumes "covered e r"
  shows "use_ix_prime_real_bluestein (ce_env e) n fft_plan r B = Inr False" and "\<not> use_maca_rader_leaf (ce_env e) p conv_plan r B"
  using assms by (auto simp: covered_def use_ix_prime_real_bluestein_def use_maca_rader_leaf_def split: option.splits)

lemma compile_raw_node_makes:
  assumes gen: "generator_positive (ce_world e)" and ex: "exact (ce_machine e)"
    and plan: "plan_ok n plan" "executable_plan plan" and r: "covered e r" and B: "0 < B" and J: "lasting J"
  shows "makes e (\<lambda>d. buffers lo [] d \<and> J d) (compile_raw_node e plan r B) (gives e lo (nat n) (direction_sign (req_direction r)) B J)"
  using plan r B J
proof (induction plan arbitrary: n r B lo J)
  case (LeafPlanNode m fs rm lanes warps generic smem)
  then have "leaf_plan n (LeafPlanNode m fs rm lanes warps generic smem)" by (intro plan_ok_leaf) (simp_all add: is_leaf_def)
  then show ?case unfolding compile_raw_node.simps
    by (intro makes_configured compile_raw_leaf_makes [OF gen ex]) (use LeafPlanNode.prems in auto)
next
  case (DirectDFTPlanNode m)
  then show ?case by (auto intro!: makes_configured compile_raw_direct_dft_makes [OF gen])
next
  case (StockhamPlanNode m fs)
  then show ?case by (auto intro!: makes_configured compile_stockham_makes [OF gen ex])
next
  case (FourStepPlanNode m n1 n2 row col)
  then have n: "m = n" "n1 * n2 = n" "1 < n1" "1 < n2" and plans: "plan_ok n1 row" "plan_ok n2 col" by auto
  have blocks: "req_device_type (mc_request (ce_machine e)) = ''npu'' \<Longrightarrow> 0 < mc_max_launch_blocks (ce_machine e)"
    using FourStepPlanNode.prems(3) by (simp add: covered_def)
  show ?case
    unfolding compile_raw_node.simps n(1)
  proof (intro makes_configured makes_if)
    assume "is_leaf row \<and> is_leaf col"
    then show "makes e (\<lambda>d. buffers lo [] d \<and> J d) (compile_four_step_fused e n n1 n2 row col r B) (gives e lo (nat n) (direction_sign (req_direction r)) B J)"
      using plans plan_ok_leaf n FourStepPlanNode.prems(5) blocks by (intro compile_four_step_fused_makes [OF gen ex]) auto
  next
    show "makes e (\<lambda>d. buffers lo [] d \<and> J d) (cbind (compile_raw_node e row r (B * nat n2)) (\<lambda>row_child.
        cbind (compile_raw_node e col r (B * nat n1)) (\<lambda>col_child. compile_four_step_parent e n n1 n2 row_child col_child r B)))
        (gives e lo (nat n) (direction_sign (req_direction r)) B J)"
    proof (rule makes_bind [OF FourStepPlanNode.IH(1) [OF plans(1)] makes_child])
      fix row_child mid
      let ?J = "\<lambda>d. J d \<and> ready_node (ce_machine e) lo mid row_child (nat n1) (direction_sign (req_direction r)) (B * nat n2) d"
      show "makes e (\<lambda>d. buffers mid [] d \<and> ?J d) (cbind (compile_raw_node e col r (B * nat n1)) (\<lambda>col_child.
          compile_four_step_parent e n n1 n2 row_child col_child r B)) (gives e lo (nat n) (direction_sign (req_direction r)) B J)"
      proof (rule makes_bind [OF FourStepPlanNode.IH(2) [OF plans(2)] makes_child])
        show "makes e (\<lambda>d. buffers hi [] d \<and> (?J d \<and> ready_node (ce_machine e) mid hi col_child (nat n2) (direction_sign (req_direction r)) (B * nat n1) d))
            (compile_four_step_parent e n n1 n2 row_child col_child r B) (gives e lo (nat n) (direction_sign (req_direction r)) B J)" for col_child hi
          by (rule compile_four_step_parent_makes [OF gen FourStepPlanNode.prems(5) n(2-4) refl])
      qed (use FourStepPlanNode.prems n in \<open>auto intro!: lasting_conj lasting_ready_node\<close>)
    qed (use FourStepPlanNode.prems n in auto)
  qed
next
  case (BluesteinPlanNode k m fft_plan)
  then have n: "k = n" "1 < n" "2 * n - 1 \<le> m" "plan_ok m fft_plan" by auto
  show ?case
    unfolding compile_raw_node.simps n(1) covered_branches(1) [OF BluesteinPlanNode.prems(3)]
  proof (rule makes_configured, rule makes_host [where y = False], simp, simp only: if_False)
    let ?c = "bluestein_chunk_batch e m r B"
    show "makes e (\<lambda>d. buffers lo [] d \<and> J d) (cbind (compile_raw_node e fft_plan (forward_child_request r) ?c)
        (\<lambda>fft. compile_bluestein e n m fft_plan r B fft)) (gives e lo (nat n) (direction_sign (req_direction r)) B J)"
    proof (rule makes_bind [OF BluesteinPlanNode.IH [OF n(4)] makes_child])
      fix fft hi
      show "makes e (\<lambda>d. buffers hi [] d \<and> (J d \<and> ready_node (ce_machine e) lo hi fft (nat m) (direction_sign (req_direction (forward_child_request r))) ?c d))
          (compile_bluestein e n m fft_plan r B fft) (gives e lo (nat n) (direction_sign (req_direction r)) B J)"
        unfolding forward_child_direction using BluesteinPlanNode.prems n by (intro compile_bluestein_makes [OF gen ex]) auto
    qed (use BluesteinPlanNode.prems bluestein_chunk_batch_pos in auto)
  qed
next
  case (RaderPlanNode p g idx conv_plan)
  then have p: "p = n" "prime_int n" "primitive_root n g" "build_rader_index_table n g = Inr idx" "plan_ok (n - 1) conv_plan" "n \<le> 2 ^ 31" by auto
  show ?case
    unfolding compile_raw_node.simps p(1)
  proof (intro makes_configured, simp only: covered_branches(2) [OF RaderPlanNode.prems(3)] if_False)
    show "makes e (\<lambda>d. buffers lo [] d \<and> J d) (cbind (compile_raw_node e conv_plan (forward_child_request r) B)
        (\<lambda>fft. compile_rader e n idx r B fft)) (gives e lo (nat n) (direction_sign (req_direction r)) B J)"
    proof (rule makes_bind [OF RaderPlanNode.IH [OF p(5)] makes_child])
      fix fft hi
      show "makes e (\<lambda>d. buffers hi [] d \<and> (J d \<and> ready_node (ce_machine e) lo hi fft (nat (n - 1)) (direction_sign (req_direction (forward_child_request r))) B d))
          (compile_rader e n idx r B fft) (gives e lo (nat n) (direction_sign (req_direction r)) B J)"
        unfolding forward_child_direction using RaderPlanNode.prems p by (intro compile_rader_makes [OF gen]) auto
    qed (use RaderPlanNode.prems in auto)
  qed
qed simp_all

text \<open>The same from one state: fresh workspaces between the old and the new end of the allocations.\<close>

lemma compile_raw_node_ready:
  assumes "generator_positive (ce_world e)" and "exact (ce_machine e)" and "plan_ok n plan" and "executable_plan plan"
    and "covered e r" and "0 < B" and "cache_positive st"
  shows "made e (cp_dev st) (\<lambda>nd d. ready_node (ce_machine e) (d_next (cp_dev st)) (d_next d) nd (nat n)
     (direction_sign (req_direction r)) B d) (compile_raw_node e plan r B st)"
proof -
  have "made e (cp_dev st) (gives e (d_next (cp_dev st)) (nat n) (direction_sign (req_direction r)) B (\<lambda>_. True))
      (compile_raw_node e plan r B st)"
    by (rule makesD [OF compile_raw_node_makes [OF assms(1-6)] assms(7)]) (simp_all add: buffers_def)
  then show ?thesis
    by (fastforce simp: made_def ready_node_def split: prod.splits effect.splits)
qed

section \<open>Properties\<close>

text \<open>Searching a text, computed along the text.\<close>

fun starts :: "string \<Rightarrow> string \<Rightarrow> bool" where
  "starts [] s = True"
| "starts (a # as) [] = False"
| "starts (a # as) (b # bs) \<longleftrightarrow> a = b \<and> starts as bs"

lemma starts_take: "starts needle s \<longleftrightarrow> take (length needle) s = needle"
  by (induction needle s rule: starts.induct) auto

fun scan :: "string \<Rightarrow> string \<Rightarrow> nat \<Rightarrow> nat option" where
  "scan needle [] i = None"
| "scan needle (c # cs) i = (if starts needle (c # cs) then Some i else scan needle cs (Suc i))"

lemma scan_short: "length cs < length needle \<Longrightarrow> scan needle cs i = None"
  by (induction needle cs i rule: scan.induct) (auto simp: starts_take dest: arg_cong [where f = length])

lemma scan_find:
  assumes "needle \<noteq> []" and "hi = Suc (length s - length needle)" and "pos + length cs = length s" and "drop pos s = cs"
  shows "find (\<lambda>i. take (length needle) (drop i s) = needle) [pos ..< hi] = scan needle cs pos"
  using assms(3,4)
proof (induction cs arbitrary: pos)
  case Nil
  then show ?case using assms(1) by (cases "pos < hi") (auto simp: upt_conv_Cons assms(2))
next
  case (Cons c cs)
  then have "drop (Suc pos) s = cs" by (metis drop_Suc tl_drop list.sel(3))
  with Cons have IH: "find (\<lambda>i. take (length needle) (drop i s) = needle) [Suc pos ..< hi] = scan needle cs (Suc pos)" by simp
  show ?case
  proof (cases "pos < hi")
    case True
    then show ?thesis using Cons.prems(2) IH by (simp add: upt_conv_Cons starts_take)
  next
    case False
    then have "length (c # cs) < length needle" using assms(1,2) Cons.prems(1) by (cases needle) auto
    then show ?thesis using False scan_short [of "c # cs" needle pos] by simp
  qed
qed

lemma str_find_code [code]:
  "str_find s needle pos = (if needle = [] then if pos \<le> length s then Some pos else None else scan needle (drop pos s) pos)"
proof (cases "needle = [] \<or> length s < pos")
  case True
  then show ?thesis by (cases "pos < Suc (length s)") (auto simp: str_find_def upt_conv_Cons simp del: upt_Suc)
next
  case False
  then show ?thesis using scan_find [of needle _ s pos "drop pos s"] by (simp add: str_find_def del: upt_Suc)
qed

text \<open>A generator that answers every request, on a device that works, with no variable set.\<close>

definition artifact_text :: string where
  "artifact_text = concat (map (\<lambda>(field, v). quoted_name field @ '':'' @ v @ '','')
     [(''kernel_name'', quoted_name ''k''), (''module_path'', quoted_name ''m''), (''signature'', quoted_name ''s''),
      (''num_warps'', ''4''), (''warp_size'', ''32''), (''profile_id'', quoted_name ''p''), (''num_stages'', ''1''),
      (''batch_per_block'', ''1''), (''grid_x_override'', ''0''), (''grid_y_override'', ''0''), (''butterflies_per_block'', ''64''),
      (''rows_per_block'', ''1''), (''inner_pack'', ''2''), (''tle_fused_twiddle'', ''false'')])"

definition quiet_world :: jit_world where
  "quiet_world = \<lparr>jw_env = (\<lambda>_. None), jw_backend = ''cuda'', jw_profile = '''', jw_out_dir = ''/tmp'', jw_compile_script = '''',
     jw_warp_size = 32, jw_lock = (\<lambda>_. None), jw_run = (\<lambda>_. Inr artifact_text), jw_load = (\<lambda>_. None)\<rparr>"

definition quiet_env :: compile_env where
  "quiet_env = \<lparr>ce_cfg = \<lparr>cfg_env = (\<lambda>_. None), cfg_backend_name = ''cuda'', cfg_max_dynamic_smem_bytes = (\<lambda>_. 98304), cfg_log = (\<lambda>x. x)\<rparr>,
     ce_world = quiet_world, ce_machine = exact_machine, ce_triton_target = (\<lambda>arch. ''cuda:80'')\<rparr>"

definition new_comp :: comp where
  "new_comp = \<lparr>cp_dev = \<lparr>d_mem = (\<lambda>_. 0), d_size = (\<lambda>b. if b < 2 then 100 else 0), d_ready = (\<lambda>_. False), d_next = 2, d_ticks = 0\<rparr>,
     cp_cache = empty_kernel_cache,
     cp_compiler = \<lparr>tc_maca_1d_single_policy = False, tc_maca_1d_batch_policy = False, tc_maca_2d_single_policy = False,
       tc_maca_3d_policy = False, tc_maca_3d_c2c32_single_cube_policy = False, tc_ix_ct_single_policy = False,
       tc_ix_ct_batch_policy = False, tc_ix_real_single_pack = False, tc_ix_ct_single_tle_policy = 0, tc_maca_tail_policy = ''off''\<rparr>\<rparr>"

lemma artifact_strings:
  "json_string_field artifact_text ''kernel_name'' = Inr ''k''" "json_string_field artifact_text ''module_path'' = Inr ''m''"
  "json_string_field artifact_text ''signature'' = Inr ''s''" "json_string_field artifact_text ''profile_id'' = Inr ''p''"
  by code_simp+

lemma artifact_shape:
  "json_int_field artifact_text ''num_warps'' = Inr 4" "json_int_field artifact_text ''warp_size'' = Inr 32"
  "json_int_field artifact_text ''num_stages'' = Inr 1" "json_int_field artifact_text ''batch_per_block'' = Inr 1"
  by code_simp+

lemma artifact_packs:
  "json_int_field artifact_text ''grid_x_override'' = Inr 0" "json_int_field artifact_text ''grid_y_override'' = Inr 0"
  "json_int_field artifact_text ''butterflies_per_block'' = Inr 64" "json_int_field artifact_text ''rows_per_block'' = Inr 1"
  "json_int_field artifact_text ''inner_pack'' = Inr 2" "json_bool_field artifact_text ''tle_fused_twiddle'' = Inr False"
  by code_simp+

lemmas artifact_fields = artifact_strings artifact_shape artifact_packs

lemma quiet_generator: "\<exists>kn. generate_kernel quiet_world c key = Inr kn \<and> kernel_positive kn"
  by (simp add: generate_kernel_def quiet_world_def kernel_from_artifact_def Let_def read_string_def read_int_def read_when_def
      artifact_fields jit_compile_def kernel_positive_def)

lemma quiet_generator_ok: "generator_positive quiet_world" "generator_answers quiet_world"
proof -
  show "generator_positive quiet_world"
    unfolding generator_positive_def
  proof (intro allI impI)
    fix c key kn assume "generate_kernel quiet_world c key = Inr kn"
    then show "kernel_positive kn" using quiet_generator [of c key] by auto
  qed
  have "reject_legacy_backend_env (jw_env quiet_world) = None" "jw_lock quiet_world path = None" for path
    by (simp_all add: quiet_world_def reject_legacy_backend_env_def)
  then show "generator_answers quiet_world"
    unfolding generator_answers_def using quiet_generator by blast
qed

lemma quiet_env_ok:
  "generator_positive (ce_world quiet_env)" "exact (ce_machine quiet_env)" "\<not> disturbed quiet_env" "cache_positive new_comp"
  "\<not> faulty (ce_machine quiet_env)" "ce_machine quiet_env = exact_machine"
  using quiet_generator_ok
  by (simp_all add: quiet_env_def exact_def exact_machine_def computes_dft_def disturbed_def faulty_def ce_env_def cache_positive_def
      new_comp_def empty_kernel_cache_def)

lemma quiet_env_covered: "req_real_transform_kind r = '''' \<Longrightarrow> covered quiet_env r"
  by (simp add: covered_def quiet_env_def exact_machine_def ce_env_def default_request_def)


definition example_plan :: plan_node where
  "example_plan = BluesteinPlanNode 7 16 (FourStepPlanNode 16 4 4 (LeafPlanNode 4 [2, 2] 1 2 1 [] 4) (StockhamPlanNode 4 [2, 2]))"



end
