(* ===== verification/FFT_EndToEnd.thy ===== *)
theory FFT_EndToEnd
  imports FFT_CompileFacts FFT_PlannerKnot
begin

text \<open>From a request to the transformed data: the planner, the compiler and the execution nodes together.\<close>

lemma compiled_node_executes:
  assumes ready: "ready_node mc lo hi nd n s B (cp_dev st)" and same: "same_on (workspace nd) (cp_dev st) d"
    and args: "args_ok d (workspace nd) n B inp out k"
  shows "\<exists>res d'. execute mc nd inp out k d = (Return res, d') \<and>
     (res = FLAGFFT_SUCCESS \<and> transformed s n k inp out d d' \<or> res = FLAGFFT_EXEC_FAILED \<and> faulty mc)"
proof -
  have n: "raw_length nd = n" and ok: "node_ok mc nd s B (cp_dev st)" using ready by (auto simp: ready_node_def)
  show ?thesis
    by (rule runs_returns [OF raw.runs_node [OF raw.local [OF ok same]], of inp out k])
      (use args n in \<open>auto simp: node_result_def\<close>)
qed


text \<open>A length the planner leaves to the direct transform, with input and output in the first two allocations.\<close>

definition cuda_request :: fft_request where
  "cuda_request = default_request\<lparr>req_device_type := ''cuda''\<rparr>"

lemma cuda_plan: "fst (build example_cfg 2 cuda_request new_builder) = Inr (DirectDFTPlanNode 2)"
  by code_simp


end
