(* ===== verification/FFT_Exec2D.thy ===== *)
theory FFT_Exec2D
  imports FFT_ExecTree
begin

text \<open>
  Two-dimensional complex nodes of \<open>src/src/exec/raw_nodes.cpp\<close>: row transforms, tiled transposition, column
  transforms and transposition back; or row transforms and column transforms that read and write with a
  stride. Both kinds keep a graph of their launches for the pointers of the first call and replay it later.
\<close>

section \<open>Kernels\<close>

text \<open>The elements of the tiles of a transposition: batch entry, tile row and column, and position in the tile.\<close>

definition tile_points :: "nat \<Rightarrow> nat \<Rightarrow> nat \<Rightarrow> nat \<Rightarrow> nat \<Rightarrow> (nat \<times> nat) list" where
  "tile_points n0 n1 grid_x grid_y grid_z =
     map (\<lambda>(b, tile_row, tile_col, lr, lc). (b, (tile_row * 32 + lr) * n1 + (tile_col * 32 + lc)))
       (filter (\<lambda>(b, tile_row, tile_col, lr, lc). tile_row * 32 + lr < n0 \<and> tile_col * 32 + lc < n1)
         (List.product [0..<grid_z] (List.product [0..<grid_y] (List.product [0..<grid_x] (List.product [0..<32] [0..<32])))))"

definition tiled_transpose_kernel :: "nat \<Rightarrow> nat \<Rightarrow> ptr \<Rightarrow> ptr \<Rightarrow> nat \<Rightarrow> nat \<Rightarrow> nat \<Rightarrow> kernel" where
  "tiled_transpose_kernel n0 n1 inp out grid_x grid_y grid_z =
     pointwise (tile_points n0 n1 grid_x grid_y grid_z)
       (\<lambda>b off. True)
       (\<lambda>b off. [cell inp (b * (n0 * n1) + off)])
       (\<lambda>b off. cell out (b * (n0 * n1) + (off mod n1 * n0 + off div n1)))
       (\<lambda>mem b off. mem (cell inp (b * (n0 * n1) + off)))"

text \<open>The first element of a column: the matrices follow each other, their columns are \<open>outer_stride\<close> many.\<close>

definition strided_base :: "nat \<Rightarrow> nat \<Rightarrow> nat \<Rightarrow> nat" where
  "strided_base n outer_stride current_batch =
     (let batch_index = current_batch div outer_stride
      in batch_index * (n * outer_stride) + (current_batch - batch_index * outer_stride))"

definition strided_leaf_kernel :: "machine \<Rightarrow> int \<Rightarrow> nat \<Rightarrow> nat \<Rightarrow> nat \<Rightarrow> ptr \<Rightarrow> ptr \<Rightarrow> nat \<Rightarrow> nat \<Rightarrow> kernel" where
  "strided_leaf_kernel mc s n outer_stride batch_per_block inp out grid_x nbatch mem =
     map (\<lambda>b. \<lparr>it_defined = True, it_loads = map (\<lambda>i. cell inp (strided_base n outer_stride b + i * outer_stride)) [0..<n],
               it_stores = map (\<lambda>i. (cell out (strided_base n outer_stride b + i * outer_stride),
                 mc_leaf mc s n (map (\<lambda>i. mem (cell inp (strided_base n outer_stride b + i * outer_stride))) [0..<n]) ! i)) [0..<n]\<rparr>)
       (filter (\<lambda>b. b < nbatch) (block_offsets batch_per_block grid_x))"

definition strided_direct_dft_kernel ::
  "machine \<Rightarrow> nat \<Rightarrow> nat \<Rightarrow> real list \<Rightarrow> real list \<Rightarrow> ptr \<Rightarrow> ptr \<Rightarrow> nat \<Rightarrow> nat \<Rightarrow> kernel" where
  "strided_direct_dft_kernel mc n outer_stride dft_r dft_i inp out grid_x nbatch =
     (let at_kj = dft_matrix_index (mc_request mc) n
      in pointwise (direct_points grid_x nbatch (nat (lane_block_for (int n))) n)
       (\<lambda>b k. \<forall>j < n. at_kj k j < length dft_r \<and> at_kj k j < length dft_i)
       (\<lambda>b k. map (\<lambda>j. cell inp (strided_base n outer_stride b + j * outer_stride)) [0..<n])
       (\<lambda>b k. cell out (strided_base n outer_stride b + k * outer_stride))
       (\<lambda>mem b k. \<Sum>j<n. mem (cell inp (strided_base n outer_stride b + j * outer_stride)) *
          Complex (dft_r ! at_kj k j) (dft_i ! at_kj k j)))"

section \<open>Execution\<close>

definition execute_strided_leaf :: "machine \<Rightarrow> nat \<Rightarrow> int \<Rightarrow> nat \<Rightarrow> nat \<Rightarrow> runner" where
  "execute_strided_leaf mc n s outer_stride batch_per_block inp out batch =
     xbind (launch mc (strided_leaf_kernel mc s n outer_stride batch_per_block inp out (ceil_div_nat batch batch_per_block) batch))
       (\<lambda>_. xret FLAGFFT_SUCCESS)"

definition execute_strided_direct_dft :: "machine \<Rightarrow> nat \<Rightarrow> nat \<Rightarrow> real list \<Rightarrow> real list \<Rightarrow> runner" where
  "execute_strided_direct_dft mc n outer_stride dft_r dft_i inp out batch =
     xbind (launch mc (strided_direct_dft_kernel mc n outer_stride dft_r dft_i inp out batch batch)) (\<lambda>_. xret FLAGFFT_SUCCESS)"

text \<open>\<open>run_sequence\<close> of the two nodes.\<close>

definition sequence_2d :: "nat \<Rightarrow> nat \<Rightarrow> (machine \<Rightarrow> runner) \<Rightarrow> (machine \<Rightarrow> runner) \<Rightarrow> nat \<Rightarrow> nat \<Rightarrow> machine \<Rightarrow> runner" where
  "sequence_2d n0 n1 row_fft col_fft temp1 temp2 mc inp out batch =
     unless_failed (row_fft mc inp (temp1, 0) (batch * n0)) (
     xbind (launch mc (tiled_transpose_kernel n0 n1 (temp1, 0) (temp2, 0) (ceil_div_nat n1 32) (ceil_div_nat n0 32) batch)) (\<lambda>_.
     unless_failed (col_fft mc (temp2, 0) (temp1, 0) (batch * n1)) (
     xbind (launch mc (tiled_transpose_kernel n1 n0 (temp1, 0) out (ceil_div_nat n0 32) (ceil_div_nat n1 32) batch)) (\<lambda>_.
     xret FLAGFFT_SUCCESS))))"

definition sequence_2d_rc :: "nat \<Rightarrow> nat \<Rightarrow> (machine \<Rightarrow> runner) \<Rightarrow> (machine \<Rightarrow> runner) \<Rightarrow> nat \<Rightarrow> machine \<Rightarrow> runner" where
  "sequence_2d_rc n0 n1 row_fft col_fft temp1 mc inp out batch =
     unless_failed (row_fft mc inp (temp1, 0) (batch * n0)) (col_fft mc (temp1, 0) out (batch * n1))"

text \<open>
  The graph of a node: the pointers and the batch it was captured with, and whether a capture has failed.
  Capturing only records, and either records every launch or fails as a whole; launching the graph performs
  the recorded launches as one operation of the device. Whether the stream can be captured is a fact of the
  platform: a CUDA stream other than the legacy default stream can, an Ascend stream cannot.
\<close>

record graph_state =
  gr_graph :: "(ptr \<times> ptr \<times> nat) option"
  gr_failed :: bool

definition replay :: "machine \<Rightarrow> (machine \<Rightarrow> runner) \<Rightarrow> ptr \<Rightarrow> ptr \<Rightarrow> nat \<Rightarrow> unit exec" where
  "replay mc f inp out batch = operation mc (xbind (f (mc\<lparr>mc_fails := (\<lambda>_. None)\<rparr>) inp out batch) (\<lambda>_. xret ()))"

definition execute_graphed ::
  "machine \<Rightarrow> bool \<Rightarrow> bool \<Rightarrow> (machine \<Rightarrow> runner) \<Rightarrow> graph_state \<Rightarrow> ptr \<Rightarrow> ptr \<Rightarrow> nat \<Rightarrow> (flagfft_result \<times> graph_state) exec" where
  "execute_graphed mc enabled capturable f g inp out batch =
     (case gr_graph g of
        Some (graph_in, graph_out, recorded) \<Rightarrow>
          if graph_in = inp \<and> graph_out = out
          then xcatch (xbind (replay mc f inp out recorded) (\<lambda>_. xret (FLAGFFT_SUCCESS, g))) (FLAGFFT_EXEC_FAILED, g)
          else xcatch (xbind (f mc inp out batch) (\<lambda>r. xret (r, g))) (FLAGFFT_EXEC_FAILED, g)
      | None \<Rightarrow>
          xcatch (xbind (f mc inp out batch) (\<lambda>r.
            if r \<noteq> FLAGFFT_SUCCESS then xret (r, g)
            else if enabled \<and> \<not> gr_failed g then
              (if capturable
               then xcatch (xbind (replay mc f inp out batch) (\<lambda>_. xret (FLAGFFT_SUCCESS, g\<lparr>gr_graph := Some (inp, out, batch)\<rparr>)))
                 (FLAGFFT_SUCCESS, g\<lparr>gr_failed := True\<rparr>)
               else xret (FLAGFFT_SUCCESS, g\<lparr>gr_failed := True\<rparr>))
            else xret (FLAGFFT_SUCCESS, g))) (FLAGFFT_EXEC_FAILED, g))"

section \<open>Nodes\<close>

datatype raw_column =
    RawStridedLeaf nat int nat nat
  | RawStridedDirectDft nat nat "real list" "real list"

primrec execute_column :: "machine \<Rightarrow> raw_column \<Rightarrow> runner" where
  "execute_column mc (RawStridedLeaf n s outer_stride batch_per_block) = guarded (execute_strided_leaf mc n s outer_stride batch_per_block)"
| "execute_column mc (RawStridedDirectDft n outer_stride dft_r dft_i) = guarded (execute_strided_direct_dft mc n outer_stride dft_r dft_i)"

datatype raw_2d =
    Raw2D nat nat raw_node raw_node nat nat bool
  | Raw2DRC nat nat raw_node raw_column nat bool
  | Raw1DAs2D raw_node nat

text \<open>\<open>execute\<close> of the two-dimensional nodes, with the graph a node keeps.\<close>

primrec execute_2d ::
  "machine \<Rightarrow> bool \<Rightarrow> raw_2d \<Rightarrow> graph_state \<Rightarrow> ptr \<Rightarrow> ptr \<Rightarrow> nat \<Rightarrow> (flagfft_result \<times> graph_state) exec" where
  "execute_2d mc capturable (Raw2D n0 n1 row_fft col_fft temp1 temp2 enable_graph) g inp out batch =
     execute_graphed mc enable_graph capturable
       (sequence_2d n0 n1 (\<lambda>mc. execute mc row_fft) (\<lambda>mc. execute mc col_fft) temp1 temp2) g inp out batch"
| "execute_2d mc capturable (Raw2DRC n0 n1 row_fft col_fft temp1 enable_graph) g inp out batch =
     execute_graphed mc enable_graph capturable
       (sequence_2d_rc n0 n1 (\<lambda>mc. execute mc row_fft) (\<lambda>mc. execute_column mc col_fft) temp1) g inp out batch"
| "execute_2d mc capturable (Raw1DAs2D fft node_batch) g inp out batch =
     xbind (execute mc fft inp out node_batch) (\<lambda>r. xret (r, g))"


end
