(* ===== verification/FFT_Exec2DFacts.thy ===== *)
theory FFT_Exec2DFacts
  imports FFT_Exec2D
begin

text \<open>
  Two-dimensional nodes compute the two-dimensional transform. \<open>captured\<close> is the interface between a sequence of
  launches and the graph that replays it.
\<close>

section \<open>Transpositions\<close>

lemma tile_points_distinct: "distinct (tile_points n0 n1 gx gy gz)"
proof -
  let ?g = "\<lambda>(b, tr, tc, lr, lc). (b, (tr * 32 + lr) * n1 + (tc * 32 + lc))"
  let ?xs = "filter (\<lambda>(b, tr, tc, lr, lc). tr * 32 + lr < n0 \<and> tc * 32 + lc < n1)
    (List.product [0..<gz] (List.product [0..<gy] (List.product [0..<gx] (List.product [0..<32] [0..<32]))))"
  have "distinct ?xs" by (intro distinct_filter distinct_product distinct_upt)
  moreover have "inj_on ?g (set ?xs)"
    by (rule inj_onI) (auto simp: row_inject)
  ultimately show ?thesis unfolding tile_points_def by (simp add: distinct_map)
qed

lemma tile_points_set:
  assumes "n0 \<le> gy * 32" and "n1 \<le> gx * 32"
  shows "x \<in> set (tile_points n0 n1 gx gy gz) \<longleftrightarrow> fst x < gz \<and> snd x < n0 * n1"
proof
  assume "x \<in> set (tile_points n0 n1 gx gy gz)"
  then show "fst x < gz \<and> snd x < n0 * n1" by (auto simp: tile_points_def intro: row_less)
next
  assume x: "fst x < gz \<and> snd x < n0 * n1"
  define r c where "r = snd x div n1" and "c = snd x mod n1"
  have "0 < n1" using x by (cases n1) auto
  then have rc: "r < n0" "c < n1" "snd x = r * n1 + c" using x by (simp_all add: r_def c_def less_mult_imp_div_less)
  have "r div 32 < gy" "c div 32 < gx" using rc assms by (auto simp: less_mult_imp_div_less)
  then have "(fst x, r div 32, c div 32, r mod 32, c mod 32) \<in> set (filter (\<lambda>(b, tr, tc, lr, lc). tr * 32 + lr < n0 \<and> tc * 32 + lc < n1)
      (List.product [0..<gz] (List.product [0..<gy] (List.product [0..<gx] (List.product [0..<32] [0..<32])))))"
    using x rc by simp
  moreover have "x = (\<lambda>(b, tr, tc, lr, lc). (b, (tr * 32 + lr) * n1 + (tc * 32 + lc))) (fst x, r div 32, c div 32, r mod 32, c mod 32)"
    using rc(3) by (simp add: prod_eq_iff)
  ultimately show "x \<in> set (tile_points n0 n1 gx gy gz)" unfolding tile_points_def set_map by blast
qed

lemma runs_tiled_transpose:
  assumes "fits d inp (c * (R * C))" and "fits d out (c * (R * C))" and "fst inp \<noteq> fst out" and K: "\<And>t. K (d\<lparr>d_ticks := t\<rparr>)"
    and post: "\<And>d'. same_but out (c * (R * C)) d d' \<Longrightarrow> (\<And>j r q. j < c \<Longrightarrow> r < R \<Longrightarrow> q < C \<Longrightarrow>
        d_mem d' (cell out (j * (R * C) + (q * R + r))) = d_mem d (cell inp (j * (R * C) + (r * C + q)))) \<Longrightarrow> Q () d'"
  shows "runs mc K (launch mc (tiled_transpose_kernel R C inp out (ceil_div_nat C 32) (ceil_div_nat R 32) c)) d Q"
  unfolding tiled_transpose_kernel_def
proof (rule runs_pointwise [where \<pi> = "\<lambda>off. off mod C * R + off div C" and L = "R * C" and lm = "R * C" and gy = c and out = out])
  fix d' assume "same_but out (c * (R * C)) d d'"
    and st: "\<And>j off. j < c \<Longrightarrow> off < R * C \<Longrightarrow> d_mem d' (cell out (j * (R * C) + (off mod C * R + off div C))) = d_mem d (cell inp (j * (R * C) + off))"
  then show "Q () d'"
  proof (intro post)
    fix j r q assume "j < c" "r < R" "q < C"
    then show "d_mem d' (cell out (j * (R * C) + (q * R + r))) = d_mem d (cell inp (j * (R * C) + (r * C + q)))"
      using st [of j "r * C + q"] row_less [of r R q C] by simp
  qed
next
  show "x \<in> set (tile_points R C (ceil_div_nat C 32) (ceil_div_nat R 32) c) \<longleftrightarrow> fst x < c \<and> snd x < R * C" for x
    by (rule tile_points_set) (simp_all add: ceil_div_covers)
qed (use assms transpose_inj transpose_index in_bounds_cell [OF assms(1)] row_less [of _ c _ "R * C"] tile_points_distinct in auto)

section \<open>Columns\<close>

definition columns :: "int \<Rightarrow> nat \<Rightarrow> nat \<Rightarrow> nat \<Rightarrow> ptr \<Rightarrow> ptr \<Rightarrow> dev \<Rightarrow> dev \<Rightarrow> bool" where
  "columns s n0 n1 k inp out d d' \<longleftrightarrow> (\<forall>j < k. \<forall>q < n0. \<forall>c < n1.
     d_mem d' (cell out (j * (n0 * n1) + (q * n1 + c))) = dft s n0 (\<lambda>i. d_mem d (cell inp (j * (n0 * n1) + (i * n1 + c)))) q)"

definition column_index :: "nat \<Rightarrow> nat \<Rightarrow> nat \<Rightarrow> nat \<Rightarrow> nat" where
  "column_index n0 n1 r i = r div n1 * (n0 * n1) + (i * n1 + r mod n1)"

lemma strided_base_index: "strided_base n0 n1 r + i * n1 = column_index n0 n1 r i"
  by (simp add: strided_base_def column_index_def Let_def minus_div_mult_eq_mod)

lemma column_index_less: "r < k * n1 \<Longrightarrow> i < n0 \<Longrightarrow> column_index n0 n1 r i < k * (n0 * n1)"
  unfolding column_index_def
proof (rule row_less)
  assume "r < k * n1" "i < n0"
  then show "r div n1 < k" by (simp add: less_mult_imp_div_less)
  have "0 < n1" using \<open>r < k * n1\<close> by (cases n1) auto
  then show "i * n1 + r mod n1 < n0 * n1" using \<open>i < n0\<close> by (intro row_less) simp_all
qed

lemma column_index_inject:
  assumes "0 < n1" and "i < n0" and "i' < n0"
  shows "column_index n0 n1 r i = column_index n0 n1 r' i' \<longleftrightarrow> r = r' \<and> i = i'"
proof -
  have *: "i * n1 + r mod n1 < n0 * n1" "i' * n1 + r' mod n1 < n0 * n1" using assms by (auto intro: row_less)
  have "column_index n0 n1 r i = column_index n0 n1 r' i' \<longleftrightarrow> r div n1 = r' div n1 \<and> i = i' \<and> r mod n1 = r' mod n1"
    unfolding column_index_def row_inject [OF *] using assms(1) by (simp add: row_inject)
  then show ?thesis by (metis div_mult_mod_eq)
qed

lemma column_index_eq: "c < n1 \<Longrightarrow> column_index n0 n1 (j * n1 + c) i = j * (n0 * n1) + (i * n1 + c)"
  by (simp add: column_index_def)

text \<open>The memory after a kernel that stores the transform of each column.\<close>

lemma columnsI:
  assumes "\<And>r q. r < k * n1 \<Longrightarrow> q < n0 \<Longrightarrow> d_mem d' (cell out (column_index n0 n1 r q)) =
      dft s n0 (\<lambda>i. d_mem d (cell inp (column_index n0 n1 r i))) q"
  shows "columns s n0 n1 k inp out d d'"
  unfolding columns_def
proof (intro allI impI)
  fix j q c assume "j < k" "q < n0" "c < n1"
  then show "d_mem d' (cell out (j * (n0 * n1) + (q * n1 + c))) = dft s n0 (\<lambda>i. d_mem d (cell inp (j * (n0 * n1) + (i * n1 + c)))) q"
    using assms [of "j * n1 + c" q] row_less [of j k c n1] by (simp add: column_index_eq)
qed

lemma runs_strided_leaf_kernel:
  assumes leaf: "computes_dft (mc_leaf mc) s n0" and block: "0 < block" and n1: "0 < n1"
    and fit: "fits d inp (k * (n0 * n1))" "fits d out (k * (n0 * n1))" and io: "fst inp \<noteq> fst out"
    and fail: "\<And>t. K (d\<lparr>d_ticks := t\<rparr>)"
    and post: "\<And>d'. same_but out (k * (n0 * n1)) d d' \<Longrightarrow> columns s n0 n1 k inp out d d' \<Longrightarrow> Q () d'"
  shows "runs mc K (launch mc (strided_leaf_kernel mc s n0 n1 block inp out (ceil_div_nat (k * n1) block) (k * n1))) d Q"
proof (rule runs_launch [where ok = "\<lambda>_. True" and loads = "\<lambda>b. map (\<lambda>i. cell inp (column_index n0 n1 b i)) [0..<n0]"
      and dsts = "\<lambda>b. map (\<lambda>i. cell out (column_index n0 n1 b i)) [0..<n0]" and xs = "[0..<k * n1]"
      and stores = "\<lambda>mem b. map (\<lambda>i. (cell out (column_index n0 n1 b i),
        mc_leaf mc s n0 (map (\<lambda>i. mem (cell inp (column_index n0 n1 b i))) [0..<n0]) ! i)) [0..<n0]"])
  show "strided_leaf_kernel mc s n0 n1 block inp out (ceil_div_nat (k * n1) block) (k * n1) mem = map (\<lambda>b. \<lparr>it_defined = True,
      it_loads = map (\<lambda>i. cell inp (column_index n0 n1 b i)) [0..<n0], it_stores = map (\<lambda>i. (cell out (column_index n0 n1 b i),
        mc_leaf mc s n0 (map (\<lambda>i. mem (cell inp (column_index n0 n1 b i))) [0..<n0]) ! i)) [0..<n0]\<rparr>) [0..<k * n1]" for mem
    unfolding strided_leaf_kernel_def block_offsets_cover [OF block ceil_div_covers [OF block]] strided_base_index ..
next
  fix x y :: nat assume "x \<noteq> y"
  then show "set (map (\<lambda>i. cell out (column_index n0 n1 x i)) [0..<n0]) \<inter> set (map (\<lambda>i. cell out (column_index n0 n1 y i)) [0..<n0]) = {}"
    using column_index_inject [OF n1] by (auto simp: cell_def)
next
  fix mem t
  assume st: "\<And>b a v. b \<in> set [0..<k * n1] \<Longrightarrow> (a, v) \<in> set (map (\<lambda>i. (cell out (column_index n0 n1 b i),
      mc_leaf mc s n0 (map (\<lambda>i. d_mem d (cell inp (column_index n0 n1 b i))) [0..<n0]) ! i)) [0..<n0]) \<Longrightarrow> mem a = v"
    and other: "\<And>a. (\<And>b. b \<in> set [0..<k * n1] \<Longrightarrow> a \<notin> set (map (\<lambda>i. cell out (column_index n0 n1 b i)) [0..<n0])) \<Longrightarrow> mem a = d_mem d a"
  show "Q () (d\<lparr>d_ticks := t, d_mem := mem\<rparr>)"
  proof (rule post, goal_cases)
    case 1
    have "mem a = d_mem d a" if "a \<notin> cells out (k * (n0 * n1))" for a
      using that column_index_less [of _ k n1 _ n0] by (intro other) auto
    then show ?case by (simp add: same_but_def)
  next
    case 2
    show ?case
    proof (rule columnsI)
      fix r q assume "r < k * n1" "q < n0"
      then have "mem (cell out (column_index n0 n1 r q)) = mc_leaf mc s n0 (map (\<lambda>i. d_mem d (cell inp (column_index n0 n1 r i))) [0..<n0]) ! q"
        by (intro st [of r]) auto
      then show "d_mem (d\<lparr>d_ticks := t, d_mem := mem\<rparr>) (cell out (column_index n0 n1 r q)) =
          dft s n0 (\<lambda>i. d_mem d (cell inp (column_index n0 n1 r i))) q"
        using computes_dft_nth [OF leaf \<open>q < n0\<close>] by simp
    qed
  qed
qed (use fail io in_bounds_cell [OF fit(1)] in_bounds_cell [OF fit(2)] column_index_less [of _ k n1 _ n0] column_index_inject [OF n1, of _ n0] in
    \<open>auto simp: distinct_map inj_on_def cell_def comp_def\<close>)

lemma runs_strided_direct_kernel:
  assumes mat: "dft_matrix s n0 dft_r dft_i" and n1: "0 < n1"
    and fit: "fits d inp (k * (n0 * n1))" "fits d out (k * (n0 * n1))" and io: "fst inp \<noteq> fst out"
    and fail: "\<And>t. K (d\<lparr>d_ticks := t\<rparr>)"
    and post: "\<And>d'. same_but out (k * (n0 * n1)) d d' \<Longrightarrow> columns s n0 n1 k inp out d d' \<Longrightarrow> Q () d'"
  shows "runs mc K (launch mc (strided_direct_dft_kernel mc n0 n1 dft_r dft_i inp out (k * n1) (k * n1))) d Q"
proof -
  let ?at = "dft_matrix_index (mc_request mc) n0" and ?pts = "direct_points (k * n1) (k * n1) (nat (lane_block_for (int n0))) n0"
  let ?val = "\<lambda>mem x. \<Sum>j<n0. mem (cell inp (column_index n0 n1 (fst x) j)) * Complex (dft_r ! ?at (snd x) j) (dft_i ! ?at (snd x) j)"
  have pts: "x \<in> set ?pts \<longleftrightarrow> fst x < k * n1 \<and> snd x < n0" for x
    using lane_block_covers [of n0] by (simp add: direct_points_set min_absorb1)
  have sum: "?val (d_mem d) x = dft s n0 (\<lambda>i. d_mem d (cell inp (column_index n0 n1 (fst x) i))) (snd x)" if "snd x < n0" for x
    using dft_matrix_at(2) [OF mat that] by (simp add: dft_def)
  show ?thesis
  proof (rule runs_launch [where ok = "\<lambda>x. \<forall>j<n0. ?at (snd x) j < length dft_r \<and> ?at (snd x) j < length dft_i" and xs = ?pts
        and loads = "\<lambda>x. map (\<lambda>j. cell inp (column_index n0 n1 (fst x) j)) [0..<n0]"
        and dsts = "\<lambda>x. [cell out (column_index n0 n1 (fst x) (snd x))]"
        and stores = "\<lambda>mem x. [(cell out (column_index n0 n1 (fst x) (snd x)), ?val mem x)]"])
    show "strided_direct_dft_kernel mc n0 n1 dft_r dft_i inp out (k * n1) (k * n1) mem = map (\<lambda>x.
        \<lparr>it_defined = \<forall>j<n0. ?at (snd x) j < length dft_r \<and> ?at (snd x) j < length dft_i,
         it_loads = map (\<lambda>j. cell inp (column_index n0 n1 (fst x) j)) [0..<n0],
         it_stores = [(cell out (column_index n0 n1 (fst x) (snd x)), ?val mem x)]\<rparr>) ?pts" for mem
      by (simp add: strided_direct_dft_kernel_def Let_def pointwise_def strided_base_index)
  next
    fix x y assume "x \<in> set ?pts" "y \<in> set ?pts" "x \<noteq> y"
    then show "set [cell out (column_index n0 n1 (fst x) (snd x))] \<inter> set [cell out (column_index n0 n1 (fst y) (snd y))] = {}"
      using column_index_inject [OF n1] pts by (auto simp: cell_def prod_eq_iff)
  next
    fix x a assume "x \<in> set ?pts"
    then show "(\<forall>j<n0. ?at (snd x) j < length dft_r \<and> ?at (snd x) j < length dft_i) \<and>
        (a \<in> set (map (\<lambda>j. cell inp (column_index n0 n1 (fst x) j)) [0..<n0]) \<union> set [cell out (column_index n0 n1 (fst x) (snd x))] \<longrightarrow> in_bounds d a)"
      using dft_matrix_at(1) [OF mat] mat in_bounds_cell [OF fit(1)] in_bounds_cell [OF fit(2)] column_index_less [of _ k n1 _ n0] pts
      by (auto simp: dft_matrix_def)
  next
    fix mem t
    assume st: "\<And>x a v. x \<in> set ?pts \<Longrightarrow> (a, v) \<in> set [(cell out (column_index n0 n1 (fst x) (snd x)), ?val (d_mem d) x)] \<Longrightarrow> mem a = v"
      and other: "\<And>a. (\<And>x. x \<in> set ?pts \<Longrightarrow> a \<notin> set [cell out (column_index n0 n1 (fst x) (snd x))]) \<Longrightarrow> mem a = d_mem d a"
    show "Q () (d\<lparr>d_ticks := t, d_mem := mem\<rparr>)"
    proof (rule post)
      have "mem a = d_mem d a" if "a \<notin> cells out (k * (n0 * n1))" for a
        using that column_index_less [of _ k n1 _ n0] pts by (intro other) auto
      then show "same_but out (k * (n0 * n1)) d (d\<lparr>d_ticks := t, d_mem := mem\<rparr>)" by (simp add: same_but_def)
      show "columns s n0 n1 k inp out d (d\<lparr>d_ticks := t, d_mem := mem\<rparr>)"
      proof (rule columnsI)
        fix r q assume rq: "r < k * n1" "q < n0"
        then show "d_mem (d\<lparr>d_ticks := t, d_mem := mem\<rparr>) (cell out (column_index n0 n1 r q)) =
            dft s n0 (\<lambda>i. d_mem d (cell inp (column_index n0 n1 r i))) q"
          using st [of "(r, q)"] pts sum [of "(r, q)"] by simp
      qed
    qed
  qed (use fail io direct_points_distinct in \<open>auto simp: cell_def\<close>)
qed

text \<open>A node for the columns of matrices: no workspace and no state.\<close>

definition column_result :: "machine \<Rightarrow> int \<Rightarrow> nat \<Rightarrow> nat \<Rightarrow> ptr \<Rightarrow> ptr \<Rightarrow> nat \<Rightarrow> dev \<Rightarrow> flagfft_result \<Rightarrow> dev \<Rightarrow> bool" where
  "column_result mc s n0 n1 inp out k d r d' \<longleftrightarrow> kept {} out (k * (n0 * n1)) d d' \<and>
     (r = FLAGFFT_SUCCESS \<and> columns s n0 n1 k inp out d d' \<or> r = FLAGFFT_EXEC_FAILED \<and> faulty mc)"

primrec column_ok :: "machine \<Rightarrow> raw_column \<Rightarrow> int \<Rightarrow> nat \<Rightarrow> nat \<Rightarrow> bool" where
  "column_ok mc (RawStridedLeaf n t outer_stride batch_per_block) s n0 n1 \<longleftrightarrow>
     t = s \<and> n = n0 \<and> outer_stride = n1 \<and> 0 < n1 \<and> 0 < batch_per_block \<and> computes_dft (mc_leaf mc) s n0"
| "column_ok mc (RawStridedDirectDft n outer_stride dft_r dft_i) s n0 n1 \<longleftrightarrow>
     n = n0 \<and> outer_stride = n1 \<and> 0 < n1 \<and> dft_matrix s n0 dft_r dft_i"

lemma runs_column_launch:
  assumes "\<And>K Q. (\<And>t. K (d\<lparr>d_ticks := t\<rparr>)) \<Longrightarrow> (\<And>d'. same_but out (k * (n0 * n1)) d d' \<Longrightarrow> columns s n0 n1 k inp out d d' \<Longrightarrow> Q () d') \<Longrightarrow>
      runs mc K (launch mc ker) d Q"
  shows "runs mc (\<lambda>_. False) (xcatch (xbind (launch mc ker) (\<lambda>_. xret FLAGFFT_SUCCESS)) FLAGFFT_EXEC_FAILED) d
    (column_result mc s n0 n1 inp out k d)"
proof (rule runs_catch)
  show "runs mc (kept {} out (k * (n0 * n1)) d) (xbind (launch mc ker) (\<lambda>_. xret FLAGFFT_SUCCESS)) d (column_result mc s n0 n1 inp out k d)"
    by (rule runs_then, rule assms) (auto simp: column_result_def intro!: runs_ret intro: kept_launch)
qed (simp add: column_result_def)

lemma runs_column:
  assumes ok: "column_ok mc col s n0 n1" and fit: "fits d inp (k * (n0 * n1))" "fits d out (k * (n0 * n1))" and io: "fst inp \<noteq> fst out"
  shows "runs mc (\<lambda>_. False) (execute_column mc col inp out (k * n1)) d (column_result mc s n0 n1 inp out k d)"
proof (cases col)
  case (RawStridedLeaf n t stride block)
  with ok have *: "t = s" "n = n0" "stride = n1" "0 < n1" "0 < block" "computes_dft (mc_leaf mc) s n0" by simp_all
  show ?thesis
    unfolding RawStridedLeaf execute_column.simps guarded_def execute_strided_leaf_def *(1-3)
    by (rule runs_column_launch, rule runs_strided_leaf_kernel [OF *(6,5,4) fit io])
next
  case (RawStridedDirectDft n stride dft_r dft_i)
  with ok have *: "n = n0" "stride = n1" "0 < n1" "dft_matrix s n0 dft_r dft_i" by simp_all
  show ?thesis
    unfolding RawStridedDirectDft execute_column.simps guarded_def execute_strided_direct_dft_def *(1,2)
    by (rule runs_column_launch, rule runs_strided_direct_kernel [OF *(4,3) fit io])
qed

section \<open>Graphs\<close>

text \<open>
  What a sequence of launches promises: from its invariant, on arguments that fit, it leaves the relation \<open>T\<close>
  between the device before and after, also on a machine on which nothing fails; \<open>T\<close> depends on the state before
  through the input only.
\<close>

abbreviation reliable :: "machine \<Rightarrow> machine" where
  "reliable mc \<equiv> mc\<lparr>mc_fails := (\<lambda>_. None)\<rparr>"

lemma not_faulty_reliable [simp]: "\<not> faulty (reliable mc)"
  by (simp add: faulty_def)

definition seq_result ::
  "machine \<Rightarrow> nat \<Rightarrow> nat set \<Rightarrow> (dev \<Rightarrow> bool) \<Rightarrow> (ptr \<Rightarrow> ptr \<Rightarrow> nat \<Rightarrow> dev \<Rightarrow> dev \<Rightarrow> bool) \<Rightarrow> ptr \<Rightarrow> ptr \<Rightarrow> nat \<Rightarrow> dev \<Rightarrow> flagfft_result \<Rightarrow> dev \<Rightarrow> bool" where
  "seq_result mc N W I T inp out k d r d' \<longleftrightarrow> I d' \<and> kept W out (k * N) d d' \<and>
     (r = FLAGFFT_SUCCESS \<and> T inp out k d d' \<or> r = FLAGFFT_EXEC_FAILED \<and> faulty mc)"

text \<open>A graph for the same pointers was captured for the same batch.\<close>

definition graph_for :: "graph_state \<Rightarrow> ptr \<Rightarrow> ptr \<Rightarrow> nat \<Rightarrow> bool" where
  "graph_for g inp out k \<longleftrightarrow> (\<forall>k'. gr_graph g = Some (inp, out, k') \<longrightarrow> k' = k)"

locale captured =
  fixes mc :: machine and N B :: nat and W :: "nat set" and I :: "dev \<Rightarrow> bool"
    and T :: "ptr \<Rightarrow> ptr \<Rightarrow> nat \<Rightarrow> dev \<Rightarrow> dev \<Rightarrow> bool" and f :: "machine \<Rightarrow> runner"
  assumes runs_sequence: "I d \<Longrightarrow> args_ok d W N B inp out k \<Longrightarrow> m \<in> {mc, reliable mc} \<Longrightarrow>
      runs m (\<lambda>d'. I d' \<and> kept W out (k * N) d d') (f m inp out k) d (seq_result m N W I T inp out k d)"
    and input_only: "T inp out k d d' \<Longrightarrow> (\<And>i. i < k * N \<Longrightarrow> d_mem d0 (cell inp i) = d_mem d (cell inp i)) \<Longrightarrow>
      d_mem d0' = d_mem d' \<Longrightarrow> T inp out k d0 d0'"
    and local: "I d \<Longrightarrow> same_on W d d' \<Longrightarrow> I d'"
begin

lemma args_later: "args_ok d W N B inp out k \<Longrightarrow> kept W p l d d' \<Longrightarrow> args_ok d' W N B inp out k"
  by (simp add: args_ok_def kept_fits)

lemma runs_replay:
  assumes "I d" and "args_ok d W N B inp out k"
  shows "runs mc (\<lambda>d'. d' = d\<lparr>d_ticks := d_ticks d + 1\<rparr>) (replay mc f inp out k) d
    (\<lambda>_ d'. I d' \<and> kept W out (k * N) d d' \<and> T inp out k d d')"
  unfolding replay_def
proof (rule runs_operation)
  fix d1 assume d1: "d1 = d\<lparr>d_ticks := d_ticks d + 1\<rparr>"
  have I1: "I d1" using local [OF assms(1)] by (simp add: d1 same_on_def)
  have "args_ok d1 W N B inp out k" using assms(2) by (simp add: args_ok_def d1)
  from runs_sequence [OF I1 this, of "reliable mc"]
  obtain r d' where run: "f (reliable mc) inp out k d1 = (Return r, d')" and res: "seq_result (reliable mc) N W I T inp out k d1 r d'"
    by (auto simp: runs_def split: prod.splits effect.splits)
  then have "I d'" "kept W out (k * N) d d'" "T inp out k d d'"
    using input_only [of inp out k d1 d' d d'] by (auto simp: seq_result_def d1 kept_def)
  then show "runs mc (\<lambda>d'. d' = d\<lparr>d_ticks := d_ticks d + 1\<rparr>) (\<lambda>_. xbind (f (reliable mc) inp out k) (\<lambda>_. xret ()) d1) d
      (\<lambda>_ d'. I d' \<and> kept W out (k * N) d d' \<and> T inp out k d d')"
    by (simp add: runs_def xbind_def xret_def run)
qed simp

lemma runs_direct:
  assumes "I d" and "args_ok d W N B inp out k"
    and "\<And>r d'. seq_result mc N W I T inp out k d r d' \<Longrightarrow> runs mc (\<lambda>_. False) (g r) d' Q"
    and "\<And>d'. I d' \<Longrightarrow> kept W out (k * N) d d' \<Longrightarrow> faulty mc \<Longrightarrow> Q x d'"
  shows "runs mc (\<lambda>_. False) (xcatch (xbind (f mc inp out k) g) x) d Q"
proof (rule runs_catch)
  show "runs mc (\<lambda>d'. I d' \<and> kept W out (k * N) d d') (xbind (f mc inp out k) g) d Q"
  proof (rule runs_bind [OF runs_sequence [OF assms(1,2)]])
    show "runs mc (\<lambda>d'. I d' \<and> kept W out (k * N) d d') (g r) d' Q" if "seq_result mc N W I T inp out k d r d'" for r d'
      by (rule runs_post [OF assms(3) [OF that]]) auto
  qed simp
qed (use assms(4) in blast)

text \<open>
  A call of the node. It computes \<open>T\<close> unless it captures its graph on an output that is also the input: then the
  launch that follows the capture works on the result of the direct run.
\<close>

lemma runs_graphed:
  assumes I: "I d" and args: "args_ok d W N B inp out k" and g: "graph_for g inp out k"
    and safe: "fst inp \<noteq> fst out \<or> \<not> (enabled \<and> capturable \<and> gr_graph g = None \<and> \<not> gr_failed g)"
  shows "runs mc (\<lambda>_. False) (execute_graphed mc enabled capturable f g inp out k) d
    (\<lambda>x d'. seq_result mc N W I T inp out k d (fst x) d' \<and> graph_for (snd x) inp out k)"
    (is "runs mc _ _ d ?Q")
proof -
  have direct: "?Q (r, g) d'" if "seq_result mc N W I T inp out k d r d'" for r d' using that g by simp
  have failed: "?Q (FLAGFFT_EXEC_FAILED, g) d'" if "I d'" "kept W out (k * N) d d'" "faulty mc" for d'
    using that g by (simp add: seq_result_def)
  have capture: "runs mc (\<lambda>_. False) (xcatch (xbind (replay mc f inp out k) (\<lambda>_. xret (FLAGFFT_SUCCESS, g\<lparr>gr_graph := Some (inp, out, k)\<rparr>)))
      (FLAGFFT_SUCCESS, g\<lparr>gr_failed := True\<rparr>)) d1 ?Q"
    if res: "seq_result mc N W I T inp out k d FLAGFFT_SUCCESS d1" and away: "fst inp \<noteq> fst out" for d1
  proof (rule runs_catch)
    have d1: "I d1" "kept W out (k * N) d d1" "T inp out k d d1" using res by (auto simp: seq_result_def)
    show "runs mc (\<lambda>d'. d' = d1\<lparr>d_ticks := d_ticks d1 + 1\<rparr>) (xbind (replay mc f inp out k)
        (\<lambda>_. xret (FLAGFFT_SUCCESS, g\<lparr>gr_graph := Some (inp, out, k)\<rparr>))) d1 ?Q"
    proof (rule runs_bind [OF runs_replay [OF d1(1) args_later [OF args d1(2)]]], rule runs_ret)
      fix d2 assume d2: "I d2 \<and> kept W out (k * N) d1 d2 \<and> T inp out k d1 d2"
      have "d_mem d (cell inp i) = d_mem d1 (cell inp i)" for i
        using kept_other [OF d1(2), of "cell inp i"] args away by (simp add: args_ok_def)
      then have "T inp out k d d2" using d2 input_only [of inp out k d1 d2 d d2] by simp
      then show "?Q (FLAGFFT_SUCCESS, g\<lparr>gr_graph := Some (inp, out, k)\<rparr>) d2"
        using d2 kept_trans [OF d1(2)] by (simp add: seq_result_def graph_for_def)
    qed
    fix d2 assume "d2 = d1\<lparr>d_ticks := d_ticks d1 + 1\<rparr>"
    moreover from this have "I d2" using local [OF d1(1), of d2] by (simp add: same_on_def)
    ultimately show "?Q (FLAGFFT_SUCCESS, g\<lparr>gr_failed := True\<rparr>) d2"
      using d1 g input_only [OF d1(3), of d d2] by (simp add: seq_result_def graph_for_def)
  qed
  show ?thesis
  proof (cases "gr_graph g")
    case (Some x)
    obtain i p k' where x: "x = (i, p, k')" by (cases x)
    show ?thesis
    proof (cases "i = inp \<and> p = out")
      case True
      then have k': "k' = k" using g Some x by (simp add: graph_for_def)
      have "runs mc (\<lambda>_. False) (xcatch (xbind (replay mc f inp out k) (\<lambda>_. xret (FLAGFFT_SUCCESS, g))) (FLAGFFT_EXEC_FAILED, g)) d ?Q"
        by (rule runs_catch [OF runs_bind [OF runs_replay [OF I args]]]) (use failed local [OF I] g in \<open>auto simp: seq_result_def same_on_def\<close>)
      then show ?thesis using Some x True k' by (simp add: execute_graphed_def)
    next
      case False
      have "runs mc (\<lambda>_. False) (xcatch (xbind (f mc inp out k) (\<lambda>r. xret (r, g))) (FLAGFFT_EXEC_FAILED, g)) d ?Q"
        by (rule runs_direct [OF I args]) (use direct failed in auto)
      then show ?thesis using Some x False by (auto simp: execute_graphed_def)
    qed
  next
    case None
    have "?Q (FLAGFFT_SUCCESS, g\<lparr>gr_failed := True\<rparr>) d'" if "seq_result mc N W I T inp out k d FLAGFFT_SUCCESS d'" for d'
      using that None by (simp add: graph_for_def)
    then show ?thesis
      unfolding execute_graphed_def None option.case
      by (intro runs_direct [OF I args] runs_if runs_ret) (use direct failed capture safe None in auto)
  qed
qed

lemma graphed_twice:
  assumes I: "I d" and args: "args_ok d W N B inp out k" and g: "gr_graph g = None" "\<not> gr_failed g" and works: "\<not> faulty mc"
  shows "\<exists>d1 d' g'. execute_graphed mc True True f g inp out k d = (Return (FLAGFFT_SUCCESS, g'), d') \<and> T inp out k d d1 \<and> T inp out k d1 d'"
proof -
  obtain d1 where run1: "f mc inp out k d = (Return FLAGFFT_SUCCESS, d1)" and d1: "I d1" "kept W out (k * N) d d1" "T inp out k d d1"
    using runs_sequence [OF I args, of mc] works by (auto simp: runs_def seq_result_def split: prod.splits effect.splits)
  obtain d2 where run2: "replay mc f inp out k d1 = (Return (), d2)" and d2: "T inp out k d1 d2"
    using runs_replay [OF d1(1) args_later [OF args d1(2)]] works by (auto simp: runs_def split: prod.splits effect.splits)
  show ?thesis using d1(3) d2 run1 run2 g by (auto simp: execute_graphed_def x_defs)
qed

end

section \<open>Planes\<close>

definition dft2 :: "int \<Rightarrow> nat \<Rightarrow> nat \<Rightarrow> (nat \<Rightarrow> complex) \<Rightarrow> nat \<Rightarrow> nat \<Rightarrow> complex" where
  "dft2 s n0 n1 x k0 k1 = dft s n0 (\<lambda>i0. dft s n1 (\<lambda>i1. x (i0 * n1 + i1)) k1) k0"

definition transformed2 :: "int \<Rightarrow> nat \<Rightarrow> nat \<Rightarrow> ptr \<Rightarrow> ptr \<Rightarrow> nat \<Rightarrow> dev \<Rightarrow> dev \<Rightarrow> bool" where
  "transformed2 s n0 n1 inp out k d d' \<longleftrightarrow> (\<forall>j < k. \<forall>k0 < n0. \<forall>k1 < n1.
     d_mem d' (cell out (j * (n0 * n1) + (k0 * n1 + k1))) = dft2 s n0 n1 (\<lambda>i. d_mem d (cell inp (j * (n0 * n1) + i))) k0 k1)"

lemma dft2_cong: "(\<And>i. i < n0 * n1 \<Longrightarrow> x i = y i) \<Longrightarrow> dft2 s n0 n1 x k0 k1 = dft2 s n0 n1 y k0 k1"
proof -
  assume eq: "\<And>i. i < n0 * n1 \<Longrightarrow> x i = y i"
  have "dft s n1 (\<lambda>i1. x (i0 * n1 + i1)) = dft s n1 (\<lambda>i1. y (i0 * n1 + i1))" if "i0 < n0" for i0
    by (rule dft_cong) (use that row_less eq in auto)
  then have "dft s n0 (\<lambda>i0. dft s n1 (\<lambda>i1. x (i0 * n1 + i1)) k1) = dft s n0 (\<lambda>i0. dft s n1 (\<lambda>i1. y (i0 * n1 + i1)) k1)"
    by (intro dft_cong) simp
  then show ?thesis by (simp add: dft2_def)
qed

lemma transformed2_input:
  assumes "transformed2 s n0 n1 inp out k d d'" and "\<And>i. i < k * (n0 * n1) \<Longrightarrow> d_mem d0 (cell inp i) = d_mem d (cell inp i)"
    and "d_mem d0' = d_mem d'"
  shows "transformed2 s n0 n1 inp out k d0 d0'"
  unfolding transformed2_def
proof (intro allI impI)
  fix j k0 k1 assume "j < k" "k0 < n0" "k1 < n1"
  moreover have "dft2 s n0 n1 (\<lambda>i. d_mem d0 (cell inp (j * (n0 * n1) + i))) k0 k1 = dft2 s n0 n1 (\<lambda>i. d_mem d (cell inp (j * (n0 * n1) + i))) k0 k1"
    using assms(2) row_less [OF \<open>j < k\<close>] by (intro dft2_cong) simp
  ultimately show "d_mem d0' (cell out (j * (n0 * n1) + (k0 * n1 + k1))) = dft2 s n0 n1 (\<lambda>i. d_mem d0 (cell inp (j * (n0 * n1) + i))) k0 k1"
    using assms(1,3) by (simp add: transformed2_def)
qed

text \<open>Rows of all the matrices, as the child of a plane is called.\<close>

lemma transformed_rows:
  assumes "transformed s n1 (k * n0) inp out d d'" and "j < k" and "i0 < n0" and "k1 < n1"
  shows "d_mem d' (cell out (j * (n0 * n1) + (i0 * n1 + k1))) = dft s n1 (\<lambda>i1. d_mem d (cell inp (j * (n0 * n1) + (i0 * n1 + i1)))) k1"
proof -
  have index: "(j * n0 + i0) * n1 + i = j * (n0 * n1) + (i0 * n1 + i)" for i by (simp add: algebra_simps)
  show ?thesis
    using transformedD [OF assms(1) row_less [OF assms(2,3)] assms(4)] by (simp only: index)
qed

definition plane_inv ::
  "nat \<Rightarrow> nat \<Rightarrow> nat \<Rightarrow> nat set \<Rightarrow> (dev \<Rightarrow> bool) \<Rightarrow> nat set \<Rightarrow> (dev \<Rightarrow> bool) \<Rightarrow> nat \<Rightarrow> nat \<Rightarrow> dev \<Rightarrow> bool" where
  "plane_inv n0 n1 B V1 J1 V2 J2 t1 t2 d \<longleftrightarrow> J1 d \<and> J2 d \<and> t1 \<noteq> t2 \<and> {t1, t2} \<inter> (V1 \<union> V2) = {} \<and> V1 \<inter> V2 = {} \<and>
     d_size d t1 = B * (n0 * n1) \<and> d_size d t2 = B * (n0 * n1)"

lemma runs_sequence_2d:
  fixes t1 t2 :: nat
  assumes row: "dft_node mc s n1 (B * n0) V1 J1 (f1 mc)" and col: "dft_node mc s n0 (B * n1) V2 J2 (f2 mc)"
  defines "W \<equiv> V1 \<union> V2 \<union> {t1, t2}" and "I \<equiv> plane_inv n0 n1 B V1 J1 V2 J2 t1 t2" and "N \<equiv> n0 * n1"
  assumes I: "I d" and args: "args_ok d W N B inp out k"
  shows "runs mc (\<lambda>d'. I d' \<and> kept W out (k * N) d d') (sequence_2d n0 n1 f1 f2 t1 t2 mc inp out k) d
    (seq_result mc N W I (transformed2 s n0 n1) inp out k d)" (is "runs mc ?K _ d ?R")
proof -
  have st: "t1 \<noteq> t2" "{t1, t2} \<inter> (V1 \<union> V2) = {}" "V1 \<inter> V2 = {}" using I by (auto simp: I_def plane_inv_def)
  have io: "k \<le> B" "fits d inp (k * N)" "fits d out (k * N)" "fst inp \<notin> W" "fst out \<notin> W" using args by (auto simp: args_ok_def)
  have step: "?K d2" if "?K d1" "J1 d2" "J2 d2" "kept W out (k * N) d1 d2" for d1 d2
    using that kept_trans [of W out "k * N" d d1 d2] by (auto simp: I_def plane_inv_def kept_size)
  have launched: "?K d2" if "?K d1" "same_but p l d1 d2" "fst p \<in> {t1, t2} \<or> p = out \<and> l = k * N" for d1 d2 p l
  proof (rule step [OF that(1)])
    have p: "fst p \<notin> V1" "fst p \<notin> V2" using that(3) st io(5) by (auto simp: W_def)
    show "J1 d2" "J2 d2" using dft_node.local [OF row _ same_on_launch [OF that(2) p(1)]]
        dft_node.local [OF col _ same_on_launch [OF that(2) p(2)]] that(1) by (simp_all add: I_def plane_inv_def)
    show "kept W out (k * N) d1 d2" using that(3) by (intro kept_launch [OF that(2)]) (auto simp: W_def)
  qed
  have ticks: "?K (d'\<lparr>d_ticks := t\<rparr>)" if "?K d'" for d' t
    using launched [OF that, of "(t1, 0)" 0 "d'\<lparr>d_ticks := t\<rparr>"] by (simp add: same_but_def)
  have "k * N \<le> B * N" using io(1) by simp
  then have fits: "fits d' (t1, 0) (k * N)" "fits d' (t2, 0) (k * N)" "fits d' inp (k * N)" "fits d' out (k * N)" if "?K d'" for d'
    using that io kept_fits [of W out "k * N" d d'] by (auto simp: I_def plane_inv_def N_def fits_def)
  have sz: "k * n0 * n1 = k * N" "k * n1 * n0 = k * N" "n1 * n0 = N" by (simp_all add: N_def)
  define x where "x j i = d_mem d (cell inp (j * N + i))" for j i
  define y where "y j i0 k1 = dft s n1 (\<lambda>i1. x j (i0 * n1 + i1)) k1" for j i0 k1
  define z where "z j k0 k1 = dft s n0 (\<lambda>i0. y j i0 k1) k0" for j k0 k1
  have last: "runs mc ?K (xbind (launch mc (tiled_transpose_kernel n1 n0 (t1, 0) out (ceil_div_nat n0 32) (ceil_div_nat n1 32) k))
      (\<lambda>_. xret FLAGFFT_SUCCESS)) d1 ?R"
    if K1: "?K d1" and m1: "\<And>j k1 k0. j < k \<Longrightarrow> k1 < n1 \<Longrightarrow> k0 < n0 \<Longrightarrow> d_mem d1 (cell (t1, 0) (j * N + (k1 * n0 + k0))) = z j k0 k1" for d1
  proof (rule runs_then, rule runs_tiled_transpose [where R = n1 and C = n0, unfolded sz(3)])
    fix d2 assume s2: "same_but out (k * N) d1 d2" and o2: "\<And>j r q. j < k \<Longrightarrow> r < n1 \<Longrightarrow> q < n0 \<Longrightarrow>
      d_mem d2 (cell out (j * N + (q * n1 + r))) = d_mem d1 (cell (t1, 0) (j * N + (r * n0 + q)))"
    have "transformed2 s n0 n1 inp out k d d2"
      using o2 m1 by (simp add: transformed2_def dft2_def z_def y_def x_def N_def)
    then show "runs mc ?K (xret FLAGFFT_SUCCESS) d2 ?R" using launched [OF K1 s2] by (auto simp: seq_result_def)
  qed (use fits [OF K1] io ticks [OF K1] in \<open>auto simp: W_def\<close>)
  have cols: "runs mc ?K (unless_failed (f2 mc (t2, 0) (t1, 0) (k * n1)) g) d1 ?R"
    if K1: "?K d1" and m1: "\<And>j k1 i0. j < k \<Longrightarrow> k1 < n1 \<Longrightarrow> i0 < n0 \<Longrightarrow> d_mem d1 (cell (t2, 0) (j * N + (k1 * n0 + i0))) = y j i0 k1"
      and g: "\<And>d2. ?K d2 \<Longrightarrow> (\<And>j k1 k0. j < k \<Longrightarrow> k1 < n1 \<Longrightarrow> k0 < n0 \<Longrightarrow>
        d_mem d2 (cell (t1, 0) (j * N + (k1 * n0 + k0))) = z j k0 k1) \<Longrightarrow> runs mc ?K g d2 ?R" for g d1
  proof (rule dft_node.call [OF col])
    show "J2 d1" using K1 by (simp add: I_def plane_inv_def)
    show "args_ok d1 V2 n0 (B * n1) (t2, 0) (t1, 0) (k * n1)" using fits [OF K1] st io(1) by (auto simp: args_ok_def sz)
    fix d2 assume "J2 d2" and k2: "kept V2 (t1, 0) (k * n1 * n0) d1 d2"
    then show K2: "?R FLAGFFT_EXEC_FAILED d2" if "faulty mc"
      using step [OF K1 dft_node.local [OF row _ same_on_child [OF k2]]] K1 st that kept_child [OF k2, of W out "k * N"]
      by (auto simp: seq_result_def I_def plane_inv_def W_def)
    assume t: "transformed s n0 (k * n1) (t2, 0) (t1, 0) d1 d2"
    show "runs mc ?K g d2 ?R"
    proof (rule g)
      show "?K d2" using step [OF K1 dft_node.local [OF row _ same_on_child [OF k2]] \<open>J2 d2\<close>] K1 st kept_child [OF k2, of W out "k * N"]
        by (auto simp: I_def plane_inv_def W_def)
      fix j k1 k0 assume jk: "j < k" "k1 < n1" "k0 < n0"
      have "d_mem d2 (cell (t1, 0) (j * N + (k1 * n0 + k0))) = dft s n0 (\<lambda>i. d_mem d1 (cell (t2, 0) (j * N + (k1 * n0 + i)))) k0"
        using transformed_rows [OF t jk] by (simp add: sz(3))
      also have "dft s n0 (\<lambda>i. d_mem d1 (cell (t2, 0) (j * N + (k1 * n0 + i)))) = dft s n0 (\<lambda>i. y j i k1)"
        using m1 jk by (intro dft_cong) simp
      finally show "d_mem d2 (cell (t1, 0) (j * N + (k1 * n0 + k0))) = z j k0 k1" by (simp add: z_def)
    qed
  qed
  have turn: "runs mc ?K (xbind (launch mc (tiled_transpose_kernel n0 n1 (t1, 0) (t2, 0) (ceil_div_nat n1 32) (ceil_div_nat n0 32) k)) (\<lambda>_. g)) d1 ?R"
    if K1: "?K d1" and m1: "\<And>j i0 k1. j < k \<Longrightarrow> i0 < n0 \<Longrightarrow> k1 < n1 \<Longrightarrow> d_mem d1 (cell (t1, 0) (j * N + (i0 * n1 + k1))) = y j i0 k1"
      and g: "\<And>d2. ?K d2 \<Longrightarrow> (\<And>j k1 i0. j < k \<Longrightarrow> k1 < n1 \<Longrightarrow> i0 < n0 \<Longrightarrow>
        d_mem d2 (cell (t2, 0) (j * N + (k1 * n0 + i0))) = y j i0 k1) \<Longrightarrow> runs mc ?K g d2 ?R" for g d1
  proof (rule runs_then, rule runs_tiled_transpose [where R = n0 and C = n1, folded N_def])
    fix d2 assume s2: "same_but (t2, 0) (k * N) d1 d2" and o2: "\<And>j r q. j < k \<Longrightarrow> r < n0 \<Longrightarrow> q < n1 \<Longrightarrow>
      d_mem d2 (cell (t2, 0) (j * N + (q * n0 + r))) = d_mem d1 (cell (t1, 0) (j * N + (r * n1 + q)))"
    show "runs mc ?K g d2 ?R" by (rule g) (use launched [OF K1 s2] o2 m1 in auto)
  qed (use fits [OF K1] st ticks [OF K1] in auto)
  have K: "?K d" using I by simp
  show ?thesis
    unfolding sequence_2d_def
  proof (rule dft_node.call [OF row])
    show "J1 d" using I by (simp add: I_def plane_inv_def)
    show "args_ok d V1 n1 (B * n0) inp (t1, 0) (k * n0)" using fits [OF K] st io by (auto simp: args_ok_def sz W_def)
    fix d2 assume "J1 d2" and k2: "kept V1 (t1, 0) (k * n0 * n1) d d2"
    then have K2: "?K d2"
      using step [OF K _ dft_node.local [OF col _ same_on_child [OF k2]]] I st kept_child [OF k2, of W out "k * N"]
      by (auto simp: I_def plane_inv_def W_def)
    then show "?R FLAGFFT_EXEC_FAILED d2" if "faulty mc" using that by (simp add: seq_result_def)
    assume t: "transformed s n1 (k * n0) inp (t1, 0) d d2"
    show "runs mc ?K (xbind (launch mc (tiled_transpose_kernel n0 n1 (t1, 0) (t2, 0) (ceil_div_nat n1 32) (ceil_div_nat n0 32) k)) (\<lambda>_.
        unless_failed (f2 mc (t2, 0) (t1, 0) (k * n1)) (
        xbind (launch mc (tiled_transpose_kernel n1 n0 (t1, 0) out (ceil_div_nat n0 32) (ceil_div_nat n1 32) k)) (\<lambda>_. xret FLAGFFT_SUCCESS)))) d2 ?R"
    proof (intro turn [OF K2] cols last)
      show "d_mem d2 (cell (t1, 0) (j * N + (i0 * n1 + k1))) = y j i0 k1" if "j < k" "i0 < n0" "k1 < n1" for j i0 k1
        using transformed_rows [OF t that] by (simp add: y_def x_def N_def)
    qed
  qed
qed

definition plane_rc_inv :: "nat \<Rightarrow> nat \<Rightarrow> nat \<Rightarrow> nat set \<Rightarrow> (dev \<Rightarrow> bool) \<Rightarrow> nat \<Rightarrow> dev \<Rightarrow> bool" where
  "plane_rc_inv n0 n1 B V J t1 d \<longleftrightarrow> J d \<and> t1 \<notin> V \<and> d_size d t1 = B * (n0 * n1)"

lemma runs_sequence_2d_rc:
  fixes t1 :: nat
  assumes row: "dft_node mc s n1 (B * n0) V J (f1 mc)" and col: "column_ok mc c s n0 n1"
  defines "W \<equiv> V \<union> {t1}" and "I \<equiv> plane_rc_inv n0 n1 B V J t1" and "N \<equiv> n0 * n1"
  assumes I: "I d" and args: "args_ok d W N B inp out k"
  shows "runs mc (\<lambda>d'. I d' \<and> kept W out (k * N) d d') (sequence_2d_rc n0 n1 f1 (\<lambda>mc. execute_column mc c) t1 mc inp out k) d
    (seq_result mc N W I (transformed2 s n0 n1) inp out k d)" (is "runs mc ?K _ d ?R")
  unfolding sequence_2d_rc_def
proof (rule dft_node.call [OF row])
  have st: "t1 \<notin> V" "d_size d t1 = B * N" and io: "k \<le> B" "fits d inp (k * N)" "fits d out (k * N)" "fst inp \<notin> W" "fst out \<notin> W"
    using I args by (auto simp: I_def plane_rc_inv_def args_ok_def N_def)
  have sz: "k * n0 * n1 = k * N" by (simp add: N_def)
  have "k * N \<le> B * N" using io(1) by simp
  then have fit1: "fits d (t1, 0) (k * N)" by (simp add: fits_def st(2))
  show "J d" using I by (simp add: I_def plane_rc_inv_def)
  show "args_ok d V n1 (B * n0) inp (t1, 0) (k * n0)" using fit1 st io by (auto simp: args_ok_def sz W_def)
  fix d1 assume "J d1" and k1: "kept V (t1, 0) (k * n0 * n1) d d1"
  then have K1: "?K d1" using st kept_child [OF k1, of W out "k * N"] by (auto simp: I_def plane_rc_inv_def W_def N_def kept_size)
  then show "?R FLAGFFT_EXEC_FAILED d1" if "faulty mc" using that by (simp add: seq_result_def)
  assume t: "transformed s n1 (k * n0) inp (t1, 0) d d1"
  have "runs mc (\<lambda>_. False) (execute_column mc c (t1, 0) out (k * n1)) d1 (column_result mc s n0 n1 (t1, 0) out k d1)"
    using fit1 io kept_fits [OF k1] by (intro runs_column [OF col]) (auto simp: N_def W_def)
  then show "runs mc ?K (execute_column mc c (t1, 0) out (k * n1)) d1 ?R"
  proof (rule runs_post)
    fix r d2 assume res: "column_result mc s n0 n1 (t1, 0) out k d1 r d2"
    then have k2: "kept {} out (k * N) d1 d2" by (simp add: column_result_def N_def)
    have "J d2" using dft_node.local [OF row _ same_on_child [OF k2]] \<open>J d1\<close> io(5) by (auto simp: W_def)
    then have "I d2" using K1 k2 by (auto simp: I_def plane_rc_inv_def kept_size)
    moreover have "kept W out (k * N) d d2" using K1 kept_child [OF k2, of W out "k * N"] kept_trans by blast
    moreover have "transformed2 s n0 n1 inp out k d d2" if "columns s n0 n1 k (t1, 0) out d1 d2"
      unfolding transformed2_def
    proof (intro allI impI)
      fix j k0 k1 assume jk: "j < k" "k0 < n0" "k1 < n1"
      have "dft s n0 (\<lambda>i. d_mem d1 (cell (t1, 0) (j * (n0 * n1) + (i * n1 + k1)))) =
          dft s n0 (\<lambda>i0. dft s n1 (\<lambda>i1. d_mem d (cell inp (j * (n0 * n1) + (i0 * n1 + i1)))) k1)"
        using transformed_rows [OF t] jk by (intro dft_cong) simp
      then show "d_mem d2 (cell out (j * (n0 * n1) + (k0 * n1 + k1))) = dft2 s n0 n1 (\<lambda>i. d_mem d (cell inp (j * (n0 * n1) + i))) k0 k1"
        using that jk by (simp add: columns_def dft2_def)
    qed
    ultimately show "?R r d2" using res by (auto simp: column_result_def seq_result_def)
  qed auto
qed

section \<open>The state of a two-dimensional node\<close>

text \<open>What a node relies on does not mention which operations fail.\<close>

lemma stages_ok_reliable [simp]: "stages_ok (reliable mc) s fs \<longleftrightarrow> stages_ok mc s fs"
  by (simp add: stages_ok_def)

lemma node_ok_reliable: "node_ok (reliable mc) nd = node_ok mc nd"
proof (induction nd)
  case (RawFourStepGeneric n n1 n2 row col tw st1 st2)
  then show ?case by (intro ext) simp
qed (intro ext; simp add: stockham_inv_def four_step_fused_inv_def)+

lemma execute_node_reliable:
  assumes "m \<in> {mc, reliable mc}"
  shows "dft_node m s (raw_length nd) B (workspace nd) (node_ok mc nd s B) (execute m nd)"
  using assms execute_node [of mc s nd B] execute_node [of "reliable mc" s nd B] by (auto simp: node_ok_reliable)

lemma column_ok_reliable: "m \<in> {mc, reliable mc} \<Longrightarrow> column_ok mc c s n0 n1 \<Longrightarrow> column_ok m c s n0 n1"
  by (cases c) auto

primrec plane_workspace :: "raw_2d \<Rightarrow> nat set" where
  "plane_workspace (Raw2D n0 n1 row_fft col_fft temp1 temp2 enable_graph) = workspace row_fft \<union> workspace col_fft \<union> {temp1, temp2}"
| "plane_workspace (Raw2DRC n0 n1 row_fft col_fft temp1 enable_graph) = workspace row_fft \<union> {temp1}"
| "plane_workspace (Raw1DAs2D fft node_batch) = workspace fft"

primrec plane_ok :: "machine \<Rightarrow> raw_2d \<Rightarrow> int \<Rightarrow> nat \<Rightarrow> nat \<Rightarrow> nat \<Rightarrow> dev \<Rightarrow> bool" where
  "plane_ok mc (Raw2D m0 m1 row_fft col_fft temp1 temp2 enable_graph) s n0 n1 B d \<longleftrightarrow>
     m0 = n0 \<and> m1 = n1 \<and> raw_length row_fft = n1 \<and> raw_length col_fft = n0 \<and>
     plane_inv n0 n1 B (workspace row_fft) (node_ok mc row_fft s (B * n0)) (workspace col_fft) (node_ok mc col_fft s (B * n1)) temp1 temp2 d"
| "plane_ok mc (Raw2DRC m0 m1 row_fft col_fft temp1 enable_graph) s n0 n1 B d \<longleftrightarrow>
     m0 = n0 \<and> m1 = n1 \<and> raw_length row_fft = n1 \<and> column_ok mc col_fft s n0 n1 \<and>
     plane_rc_inv n0 n1 B (workspace row_fft) (node_ok mc row_fft s (B * n0)) temp1 d"
| "plane_ok mc (Raw1DAs2D fft node_batch) s n0 n1 B d \<longleftrightarrow>
     node_batch = B \<and> raw_length fft = n0 * n1 \<and> (n0 = 1 \<or> n1 = 1) \<and> node_ok mc fft s B d"


lemma captured_2d:
  fixes t1 t2 :: nat
  shows "captured mc (raw_length col * raw_length row) B (workspace row \<union> workspace col \<union> {t1, t2})
     (plane_inv (raw_length col) (raw_length row) B (workspace row) (node_ok mc row s (B * raw_length col))
        (workspace col) (node_ok mc col s (B * raw_length row)) t1 t2)
     (transformed2 s (raw_length col) (raw_length row))
     (sequence_2d (raw_length col) (raw_length row) (\<lambda>mc. execute mc row) (\<lambda>mc. execute mc col) t1 t2)"
    (is "captured mc ?N B ?W ?I ?T ?f")
proof
  fix d inp out k m assume I: "?I d" and args: "args_ok d ?W ?N B inp out k" and m: "m \<in> {mc, reliable mc}"
  show "runs m (\<lambda>d'. ?I d' \<and> kept ?W out (k * ?N) d d') (?f m inp out k) d (seq_result m ?N ?W ?I ?T inp out k d)"
    by (rule runs_sequence_2d [where ?f1.0 = "\<lambda>mc. execute mc row" and ?f2.0 = "\<lambda>mc. execute mc col",
          OF execute_node_reliable [OF m] execute_node_reliable [OF m] I args])
next
  fix d d' assume I: "?I d" and same: "same_on ?W d d'"
  have "same_on (workspace row) d d'" "same_on (workspace col) d d'" "d_size d' = d_size d" using same by (auto simp: same_on_def)
  then show "?I d'" using I raw.local by (auto simp: plane_inv_def)
qed (rule transformed2_input)

interpretation plane: captured mc "raw_length col * raw_length row" B "workspace row \<union> workspace col \<union> {t1, t2}"
    "plane_inv (raw_length col) (raw_length row) B (workspace row) (node_ok mc row s (B * raw_length col))
       (workspace col) (node_ok mc col s (B * raw_length row)) t1 t2"
    "transformed2 s (raw_length col) (raw_length row)"
    "sequence_2d (raw_length col) (raw_length row) (\<lambda>mc. execute mc row) (\<lambda>mc. execute mc col) t1 t2"
  for mc s B row col t1 t2
  by (rule captured_2d)

lemma captured_2d_rc:
  fixes t1 :: nat
  shows "captured mc (n0 * raw_length row) B (workspace row \<union> {t1})
     (\<lambda>d. column_ok mc c s n0 (raw_length row) \<and> plane_rc_inv n0 (raw_length row) B (workspace row) (node_ok mc row s (B * n0)) t1 d)
     (transformed2 s n0 (raw_length row)) (sequence_2d_rc n0 (raw_length row) (\<lambda>mc. execute mc row) (\<lambda>mc. execute_column mc c) t1)"
    (is "captured mc ?N B ?W (\<lambda>d. ?C \<and> ?I d) ?T ?f")
proof
  fix d inp out k m assume I: "?C \<and> ?I d" and args: "args_ok d ?W ?N B inp out k" and m: "m \<in> {mc, reliable mc}"
  then have C: ?C and I': "?I d" by blast+
  have "runs m (\<lambda>d'. ?I d' \<and> kept ?W out (k * ?N) d d') (?f m inp out k) d (seq_result m ?N ?W ?I ?T inp out k d)"
    by (rule runs_sequence_2d_rc [where ?f1.0 = "\<lambda>mc. execute mc row", OF execute_node_reliable [OF m] column_ok_reliable [OF m C] I' args])
  then show "runs m (\<lambda>d'. (?C \<and> ?I d') \<and> kept ?W out (k * ?N) d d') (?f m inp out k) d
      (seq_result m ?N ?W (\<lambda>d. ?C \<and> ?I d) ?T inp out k d)"
    by (rule runs_post) (use C in \<open>auto simp: seq_result_def\<close>)
next
  fix d d' assume I: "?C \<and> ?I d" and same: "same_on ?W d d'"
  have "same_on (workspace row) d d'" "d_size d' = d_size d" using same by (auto simp: same_on_def)
  then show "?C \<and> ?I d'" using I raw.local by (auto simp: plane_rc_inv_def)
qed (rule transformed2_input)

interpretation plane_rc: captured mc "n0 * raw_length row" B "workspace row \<union> {t1}"
    "\<lambda>d. column_ok mc c s n0 (raw_length row) \<and> plane_rc_inv n0 (raw_length row) B (workspace row) (node_ok mc row s (B * n0)) t1 d"
    "transformed2 s n0 (raw_length row)" "sequence_2d_rc n0 (raw_length row) (\<lambda>mc. execute mc row) (\<lambda>mc. execute_column mc c) t1"
  for mc s B row c n0 t1
  by (rule captured_2d_rc)


section \<open>Properties\<close>

lemma dft_single: "dft s (Suc 0) x 0 = x 0"
  by (simp add: dft_def)

lemma transformed_degenerate:
  assumes "n0 = 1 \<or> n1 = 1" and "transformed s (n0 * n1) k inp out d d'"
  shows "transformed2 s n0 n1 inp out k d d'"
  unfolding transformed2_def
proof (intro allI impI)
  fix j k0 k1 assume "j < k" "k0 < n0" "k1 < n1"
  then show "d_mem d' (cell out (j * (n0 * n1) + (k0 * n1 + k1))) = dft2 s n0 n1 (\<lambda>i. d_mem d (cell inp (j * (n0 * n1) + i))) k0 k1"
    using assms(1) transformedD [OF assms(2) \<open>j < k\<close>] by (auto simp: dft2_def dft_single)
qed

primrec graph_enabled :: "raw_2d \<Rightarrow> bool" where
  "graph_enabled (Raw2D n0 n1 row_fft col_fft temp1 temp2 enable_graph) = enable_graph"
| "graph_enabled (Raw2DRC n0 n1 row_fft col_fft temp1 enable_graph) = enable_graph"
| "graph_enabled (Raw1DAs2D fft node_batch) = False"

text \<open>The call captures the node's graph.\<close>

definition captures :: "bool \<Rightarrow> raw_2d \<Rightarrow> graph_state \<Rightarrow> bool" where
  "captures capturable nd g \<longleftrightarrow> capturable \<and> graph_enabled nd \<and> gr_graph g = None \<and> \<not> gr_failed g"



definition no_graph :: graph_state where
  "no_graph = \<lparr>gr_graph = None, gr_failed = False\<rparr>"

definition example_plane :: raw_2d where
  "example_plane = Raw2D 2 3 (RawLeaf 3 1 4) (RawLeaf 2 1 4) 10 11 True"


text \<open>
  C17. The call that captures transforms twice in place. When a two-dimensional node captures its graph, it first
  runs the sequence, then records it and launches the recorded graph as well. On an output that is also the
  input the graph works on the result of the direct run: the call reports success and leaves the
  transform of the transform.
\<close>

theorem in_place_capture_transforms_twice:
  assumes "plane_ok mc nd s n0 n1 B d" and "args_ok d (plane_workspace nd) (n0 * n1) B p p B"
    and "captures True nd g" and "\<not> faulty mc"
  shows "\<exists>g' d'. execute_2d mc True nd g p p B d = (Return (FLAGFFT_SUCCESS, g'), d') \<and>
     (\<forall>j < B. \<forall>k0 < n0. \<forall>k1 < n1. d_mem d' (cell p (j * (n0 * n1) + (k0 * n1 + k1))) =
        dft2 s n0 n1 (\<lambda>i. dft2 s n0 n1 (\<lambda>i. d_mem d (cell p (j * (n0 * n1) + i))) (i div n1) (i mod n1)) k0 k1)"
proof -
  obtain g' d1 d' where run: "execute_2d mc True nd g p p B d = (Return (FLAGFFT_SUCCESS, g'), d')"
    and t: "transformed2 s n0 n1 p p B d d1" "transformed2 s n0 n1 p p B d1 d'"
  proof (cases nd)
    case (Raw2D m0 m1 row col t1 t2 enabled)
    with assms(1) have n: "m0 = raw_length col" "m1 = raw_length row" "n0 = raw_length col" "n1 = raw_length row" by auto
    show thesis using that plane.graphed_twice [where row = row and col = col and B = B and mc = mc and s = s and ?t1.0 = t1 and ?t2.0 = t2
        and d = d and inp = p and out = p and k = B and g = g]
        assms unfolding Raw2D captures_def n by fastforce
  next
    case (Raw2DRC m0 m1 row c t1 enabled)
    with assms(1) have n: "m0 = n0" "m1 = raw_length row" "n1 = raw_length row" by auto
    show thesis using that plane_rc.graphed_twice [where row = row and c = c and B = B and mc = mc and s = s and ?n0.0 = n0 and ?t1.0 = t1
        and d = d and inp = p and out = p and k = B and g = g]
        assms unfolding Raw2DRC captures_def n by fastforce
  next
    case (Raw1DAs2D fft b)
    then show thesis using assms(3) by (simp add: captures_def)
  qed
  have "d_mem d1 (cell p (j * (n0 * n1) + i)) = dft2 s n0 n1 (\<lambda>i. d_mem d (cell p (j * (n0 * n1) + i))) (i div n1) (i mod n1)"
    if "j < B" "i < n0 * n1" for i j
  proof -
    have "i div n1 < n0" "i mod n1 < n1" "i = i div n1 * n1 + i mod n1" using that by (auto simp: less_mult_imp_div_less intro!: mod_less_divisor gr0I)
    then show ?thesis using t(1) that(1) unfolding transformed2_def by metis
  qed
  then show ?thesis using run t(2) unfolding transformed2_def by (auto intro!: dft2_cong)
qed

definition impulse_dev :: dev where
  "impulse_dev = example_dev\<lparr>d_mem := (\<lambda>a. if snd a = 0 then 1 else 0)\<rparr>"

theorem in_place_capture_transforms_twice_witness:
  "\<exists>g' d'. execute_2d exact_machine True example_plane no_graph (0, 0) (0, 0) 5 impulse_dev = (Return (FLAGFFT_SUCCESS, g'), d') \<and>
     d_mem d' (0, 0) = 6 \<and> dft2 1 2 3 (\<lambda>i. d_mem impulse_dev (cell (0, 0) i)) 0 0 = 1"
proof -
  have "plane_ok exact_machine example_plane 1 2 3 5 impulse_dev"
    by (simp add: example_plane_def impulse_dev_def example_dev_def exact_machine_def computes_dft_def plane_inv_def)
  moreover have "args_ok impulse_dev (plane_workspace example_plane) (2 * 3) 5 (0, 0) (0, 0) 5"
    by (simp add: example_plane_def impulse_dev_def example_dev_def args_ok_def fits_def)
  moreover have "captures True example_plane no_graph" and "\<not> faulty exact_machine"
    by (simp_all add: captures_def example_plane_def no_graph_def exact_machine_def faulty_def)
  ultimately obtain g' d' where run: "execute_2d exact_machine True example_plane no_graph (0, 0) (0, 0) 5 impulse_dev = (Return (FLAGFFT_SUCCESS, g'), d')"
    and t: "\<And>j k0 k1. j < 5 \<Longrightarrow> k0 < 2 \<Longrightarrow> k1 < 3 \<Longrightarrow> d_mem d' (cell (0, 0) (j * (2 * 3) + (k0 * 3 + k1))) =
      dft2 1 2 3 (\<lambda>i. dft2 1 2 3 (\<lambda>i. d_mem impulse_dev (cell (0, 0) (j * (2 * 3) + i))) (i div 3) (i mod 3)) k0 k1"
    using in_place_capture_transforms_twice [of exact_machine example_plane 1 2 3 5 impulse_dev "(0, 0)" no_graph] by blast
  have one: "dft2 1 2 3 (\<lambda>i. d_mem impulse_dev (cell (0, 0) i)) k0 k1 = 1" for k0 k1
    by (simp add: dft2_def dft_def impulse_dev_def cell_def numeral_2_eq_2 numeral_3_eq_3)
  then have "d_mem d' (0, 0) = dft2 1 2 3 (\<lambda>i. 1) 0 0" using t [of 0 0 0] by (simp add: cell_def)
  also have "\<dots> = 6" by (simp add: dft2_def dft_def numeral_2_eq_2 numeral_3_eq_3)
  finally show ?thesis using run one by blast
qed


end
