(* ===== verification/Spec2Isabelle.thy ===== *)
theory Spec2Isabelle
  imports FFT_Tuning FFT_PlanJson FFT_CApiSafety FFT_JitThreads FFT_EndToEnd FFT_Exec2DFacts
begin

text \<open>
  \<^bold>\<open>FlagFFT, a verification library.\<close>

  FlagFFT plans and runs discrete Fourier transforms on accelerators of several vendors. A call of the C
  interface describes a transform; the \<^emph>\<open>plan builder\<close> chooses a decomposition of its length into a tree
  of nodes; the \<^emph>\<open>compiler\<close> turns the tree into execution nodes with kernels generated on demand by an
  external program and kept in the \<^emph>\<open>kernel cache\<close>; executing a plan launches these kernels. A data
  base of \<^emph>\<open>tuned plans\<close>, stored as JSON, may replace the choice of the builder.

  \<^bold>\<open>Theories and sources\<close> (paths under \<open>src/src\<close>).
  \<^item> \<open>FFT_Prelude\<close>: the exception-and-state monad, its Hoare triple, decimal printing, sorting.
  \<^item> \<open>FFT_Base\<close>: \<open>utils/base.cpp\<close> and \<open>base.hpp\<close>: constants, the request record, helpers.
    \<open>FFT_Double\<close>: IEEE double arithmetic on rationals, used by the cost model.
  \<^item> \<open>FFT_NumTheory\<close>, \<open>FFT_Rader\<close>: \<open>plan/rader_utils.cpp\<close>, over a proof that primitive roots exist.
  \<^item> \<open>FFT_Nodes\<close>, \<open>FFT_Keys\<close>: plan trees (\<open>plan/nodes.cpp\<close>, \<open>utils/plan_key.cpp\<close>), problem and kernel keys
    (\<open>utils/problem_key.cpp\<close>, \<open>utils/kernel_key.cpp\<close>) with text, equality and hash.
  \<^item> \<open>FFT_Policy\<close>: \<open>codegen/request_policy.cpp\<close>, \<open>maca_tail_policy.hpp\<close>, \<open>plan/maca_tail_plans.hpp\<close>.
  \<^item> \<open>FFT_Builder\<close>, \<open>FFT_Planner\<close>: class \<open>PlanBuilder\<close> (\<open>plan/builder_context.cpp\<close>, \<open>factorization.cpp\<close>,
    \<open>cost_model.cpp\<close>, \<open>auto_candidates.cpp\<close>, \<open>tune_candidates.cpp\<close>); its state is the record \<open>builder\<close>.
    \<open>FFT_BuilderFacts\<close>, \<open>FFT_BuilderInv\<close>, \<open>FFT_PlannerFacts\<close>, \<open>FFT_PlannerKnot\<close>, \<open>FFT_Tuning\<close> prove it right.
  \<^item> \<open>FFT_PlanJson\<close>: \<open>utils/plan_json.cpp\<close>, \<open>plan/plan_deserialize.cpp\<close>, \<open>exec/tuned_plan.cpp\<close>.
  \<^item> \<open>FFT_CApi\<close>, \<open>FFT_CApiFacts\<close>, \<open>FFT_CApiSafety\<close>: \<open>exec/c_api_internal.cpp\<close>, \<open>exec/c_api_plan.cpp\<close>,
    \<open>exec/c_api_exec.cpp\<close>; the state is the heap of live handles.
  \<^item> \<open>FFT_JitCache\<close>, \<open>FFT_JitFacts\<close>, \<open>FFT_JitThreads\<close>: \<open>codegen/jit_cache.cpp\<close>, sequentially and as
    interleaved critical sections of threads.
  \<^item> \<open>FFT_Dft\<close>: the transform as a sum over roots of unity and the identities the algorithms use.
  \<^item> \<open>FFT_Device\<close>: device memory, launches and copies (\<open>adaptor/backend/cuda/adaptor.cpp\<close>); a launch that leaves its
    allocations or races is undefined. \<open>FFT_Exec\<close>, \<open>FFT_ExecFused\<close>: \<open>execute\<close> of the one-dimensional complex
    nodes of \<open>exec/raw_nodes.cpp\<close> over the addressing of the generated kernels (\<open>python/flagfft_codegen\<close>).
    \<open>FFT_ExecNodes\<close> states the contract of a node as the locale \<open>dft_node\<close>; \<open>FFT_ExecConv\<close>, \<open>FFT_ExecRader\<close>,
    \<open>FFT_ExecSplit\<close>, \<open>FFT_ExecStockham\<close>, \<open>FFT_ExecFusedFacts\<close>, \<open>FFT_ExecFusedConv\<close> prove it for each class,
    \<open>FFT_ExecTree\<close> for whole trees.
  \<^item> \<open>FFT_Exec2D\<close>, \<open>FFT_Exec2DFacts\<close>: the two-dimensional complex nodes (\<open>CompiledRaw2DNode\<close>, \<open>CompiledRaw2DRCNode\<close>,
    \<open>CompiledRaw1DAs2DNode\<close>, strided leaf and strided direct columns), with the graph they capture and replay; the locale
    \<open>captured\<close> is the contract between a sequence of launches and its graph.
  \<^item> \<open>FFT_Tables\<close>, \<open>FFT_TablesFacts\<close>: \<open>codegen/tables.cpp\<close>. \<open>FFT_Compile\<close>, \<open>FFT_CompileFacts\<close>:
    \<open>compile_raw_node\<close> of \<open>codegen/compiler.cpp\<close>, which turns a plan into nodes with kernels, tables and workspaces.
  \<^item> \<open>FFT_EndToEnd\<close>: planner, compiler and execution together.

  \<^bold>\<open>What is shown.\<close>
  \<^item> \<^emph>\<open>Planning.\<close> Whatever the environment, a plan that \<open>build\<close> returns decomposes the requested length
    (\<open>plan_ok\<close>); with no override variable set every positive length is planned. All caches stay right
    over every history of calls, overrides are undone on return and on exceptions.
  \<^item> \<^emph>\<open>Transforms.\<close> A plan that \<open>build\<close> returns, compiled for a batch and executed, computes the discrete Fourier
    transform of every row. This rests on: tables that hold the right roots of unity; a compiler that gives
    every node of the tree its tables and fresh workspaces of the right size; nodes that stay in bounds, do not
    race and keep their state for the next execution. A failing device operation gives \<open>FLAGFFT_EXEC_FAILED\<close>.
  \<^item> \<^emph>\<open>Planes.\<close> A two-dimensional node computes the two-dimensional transform of every matrix of the batch, directly
    and by replaying its graph; the one exception, a first call in place on a stream that can be captured, is proved to
    leave the transform of the transform.
  \<^item> \<^emph>\<open>Number theory.\<close> The primality test, the primitive root search and the index table are exact.
  \<^item> \<^emph>\<open>Keys.\<close> The texts of keys determine the keys; equal keys have equal hashes.
  \<^item> \<^emph>\<open>JSON.\<close> Reading back a written plan gives the plan.
  \<^item> \<^emph>\<open>C interface.\<close> Each planning call answers the documented code or makes a well-formed plan; live
    plans stay well formed over every history; execution never meets a missing executable; the calls
    simulate an abstract table of handles.
  \<^item> \<^emph>\<open>Kernel cache.\<close> A cache key determines the generator's command; in every interleaving a kernel is
    generated at most once per request while it is cached.

  \<^bold>\<open>Recursion depth.\<close> The planner's mutual recursion runs on a depth; \<open>plan_fuel n = 5 n + 2\<close> is proved
  enough for every length \<open>n\<close>, so no theorem of termination is conditional on it. Reading a plan from
  JSON follows the nesting depth of the value read.

  \<^bold>\<open>Parameters.\<close> The environment, the vendor adaptor, \<open>std::log\<close>, \<open>std::hash\<close>, the JSON library, SQLite, the
  file system, the generator process and the kernel library are arguments of the definitions that use
  them; what is assumed of them is stated where it is used.

  \<^bold>\<open>Idealisations.\<close> \<open>int64_t\<close> is \<open>int\<close> except where a theory gives the wrap-around; a freed handle is not
  reused for a later plan. Lengths and batches of execution are natural numbers. Floating-point values of
  device memory and tables are real and complex numbers, so rounding is not modelled. The butterfly
  arithmetic of leaf kernels and radix codelets is a parameter, assumed to compute the transform of its short length.
  A grid over the launch limit is cut as the code cuts it; a stream runs its operations in order; allocations are not freed.

  \<^bold>\<open>Not modelled.\<close> Nodes of real and three-dimensional transforms, the columns of a plane by a strided four-step or
  by a transposed store, and the compilation of all but one-dimensional complex transforms (planning and
  the C interface cover them); the branches of the Ascend build and its hand-written kernels; the fused Rader leaf of the MACA
  device and the fused real layout of the ix device; the graphs of leaves
  and of three-dimensional plans; the adaptors of the other vendors and most calls of the CUDA
  runtime; the command line tools (timing and output); the text the Python generator emits; the SiP executor of another build.
\<close>

end
